(* ===== verification/Prelude.thy ===== *)
theory Prelude
  imports Main "HOL-Library.Word" "HOL-Library.AList"
begin

section \<open>Shared types, results and byte-level lemmas\<close>

text \<open>
  What every component uses: the errors the Python code raises, as values; the result type
  and its sequencing; byte strings (\<open>bytes\<close> and \<open>bytearray\<close>) as lists of 8-bit words;
  \<open>int.to_bytes\<close> and \<open>struct.pack\<close> little-endian fields as \<open>to_bytes_le\<close> with the reader
  \<open>from_bytes_le\<close>; and Python slice assignment.
  Python integers are \<open>int\<close>; list positions and lengths are \<open>nat\<close>.
\<close>

unbundle bit_operations_syntax

subsection \<open>Names, bytes, errors\<close>

type_synonym byte = "8 word"
type_synonym bytes = "byte list"

text \<open>
  One constructor per \<open>raise\<close> of the modelled code (and per implicit \<open>KeyError\<close> of a
  dictionary subscript); the arguments are the values its message mentions. \<open>OutsideAscii\<close> is no
  exception of the code: the model's answer where the character database of Python would decide.
\<close>

datatype error =
    UnknownRegister string
  | ReservedRegister string
  | Imm8Range int
  | Imm32Range int
  | PackRange int
  | DuplicateLabel string
  | UndefinedLabel string
  | BadCondition string
  | BadCmovCond string
  | BadScale int
  | BadVectorReg string
  | NoMethod string
  | UndefinedName string
  | ZeroDivision
  | AssertFail string
  | NegativeCount int
  | Codegen string
  | SyntaxErr string
  | BadInt string
  | SystemStop string
  | TypeErr
  | OutsideAscii

datatype exn_class = ValueError | KeyError | StructError | AttributeError | NameError
  | ZeroDivisionError | AssertionError | CodegenError | SyntaxError | SystemExit | TypeError | NotModelled

fun py_class :: "error \<Rightarrow> exn_class" where
  "py_class (UnknownRegister _) = ValueError"
| "py_class (ReservedRegister _) = ValueError"
| "py_class (Imm8Range _) = ValueError"
| "py_class (Imm32Range _) = ValueError"
| "py_class (PackRange _) = StructError"
| "py_class (DuplicateLabel _) = ValueError"
| "py_class (UndefinedLabel _) = ValueError"
| "py_class (BadCondition _) = KeyError"
| "py_class (BadCmovCond _) = ValueError"
| "py_class (BadScale _) = KeyError"
| "py_class (BadVectorReg _) = ValueError"
| "py_class (NoMethod _) = AttributeError"
| "py_class (UndefinedName _) = NameError"
| "py_class ZeroDivision = ZeroDivisionError"
| "py_class (AssertFail _) = AssertionError"
| "py_class (NegativeCount _) = ValueError"
| "py_class (Codegen _) = CodegenError"
| "py_class (SyntaxErr _) = SyntaxError"
| "py_class (BadInt _) = ValueError"
| "py_class (SystemStop _) = SystemExit"
| "py_class TypeErr = TypeError"
| "py_class OutsideAscii = NotModelled"

type_synonym 'a res = "error + 'a"

subsection \<open>Sequencing of fallible steps\<close>

fun bindE :: "'e + 'a \<Rightarrow> ('a \<Rightarrow> 'e + 'b) \<Rightarrow> 'e + 'b" where
  "bindE (Inl e) f = Inl e"
| "bindE (Inr x) f = f x"

lemma bindE_Inr_iff: "bindE m f = Inr y \<longleftrightarrow> (\<exists>x. m = Inr x \<and> f x = Inr y)"
  by (cases m) auto

lemma bindE_Inl_iff: "bindE m f = Inl e \<longleftrightarrow> m = Inl e \<or> (\<exists>x. m = Inr x \<and> f x = Inl e)"
  by (cases m) auto

lemma bindE_InrE:
  assumes "bindE m f = Inr y"
  obtains x where "m = Inr x" "f x = Inr y"
  using assms by (auto simp: bindE_Inr_iff)

lemma bindE_assoc: "bindE (bindE m f) g = bindE m (\<lambda>x. bindE (f x) g)"
  by (cases m) auto

lemma bindE_cong [fundef_cong]:
  "m = m' \<Longrightarrow> (\<And>x. m' = Inr x \<Longrightarrow> f x = g x) \<Longrightarrow> bindE m f = bindE m' g"
  by (cases m') auto

text \<open>A list of state transformers run in order, stopping at the first error.\<close>

fun seqE :: "('s \<Rightarrow> 'e + 's) list \<Rightarrow> 's \<Rightarrow> 'e + 's" where
  "seqE [] s = Inr s"
| "seqE (f # fs) s = bindE (f s) (seqE fs)"

lemma seqE_ConsE:
  assumes "seqE (f # fs) s = Inr u"
  obtains t where "f s = Inr t" "seqE fs t = Inr u"
  using assms by (auto simp: bindE_Inr_iff)

lemma seqE_append: "seqE (fs @ gs) s = bindE (seqE fs s) (seqE gs)"
  by (induction fs arbitrary: s) (auto simp: bindE_assoc intro: bindE_cong)

lemma seqE_invariant:
  assumes "\<And>f s s'. f \<in> set fs \<Longrightarrow> P s \<Longrightarrow> f s = Inr s' \<Longrightarrow> P s'"
    and "P s" and "seqE fs s = Inr s'"
  shows "P s'"
  using assms
proof (induction fs arbitrary: s)
  case Nil
  then show ?case by simp
next
  case (Cons f fs)
  then obtain t where t: "f s = Inr t" "seqE fs t = Inr s'"
    by (auto simp: bindE_Inr_iff)
  have "P t" using Cons.prems(1) [of f s t] Cons.prems(2) t(1) by simp
  then show ?case using Cons.IH Cons.prems(1) t(2) by (meson list.set_intros(2))
qed

subsection \<open>Transformers that stay within a relation\<close>

text \<open>
  \<open>within R f\<close>: every successful run of \<open>f\<close> leads from a state to an \<open>R\<close>-related one. For a
  reflexive and transitive \<open>R\<close> every control structure of the modelled code stays within \<open>R\<close>; the
  rules are collected in \<open>closed\<close>.
\<close>

named_theorems closed "a transformer stays within a relation"

definition within :: "('s \<Rightarrow> 's \<Rightarrow> bool) \<Rightarrow> ('s \<Rightarrow> 'e + 's) \<Rightarrow> bool" where
  "within R f \<longleftrightarrow> (\<forall>s s'. f s = Inr s' \<longrightarrow> R s s')"

lemma withinI: "(\<And>s s'. f s = Inr s' \<Longrightarrow> R s s') \<Longrightarrow> within R f"
  and withinD: "within R f \<Longrightarrow> f s = Inr s' \<Longrightarrow> R s s'"
  by (auto simp: within_def)

lemma within_conj: "within (\<lambda>s s'. R s s' \<and> S s s') f \<longleftrightarrow> within R f \<and> within S f"
  by (auto simp: within_def)

lemma within_fail [closed]: "within R (\<lambda>s. Inl e)"
  by (simp add: within_def)

lemma within_if [closed]: "within R f \<Longrightarrow> within R g \<Longrightarrow> within R (if b then f else g)"
  by simp

lemma within_if_app [closed]:
  "within R f \<Longrightarrow> within R g \<Longrightarrow> within R (\<lambda>s. if b s then f s else g s)"
  by (simp add: within_def)

lemma within_let [closed]: "(\<And>x. within R (f x)) \<Longrightarrow> within R (Let t f)"
  by (simp add: Let_def)

lemma within_let_app [closed]: "(\<And>x. within R (f x)) \<Longrightarrow> within R (\<lambda>s. let x = t s in f x s)"
  by (simp add: within_def Let_def)

lemma within_option [closed]:
  "within R f \<Longrightarrow> (\<And>x. within R (g x)) \<Longrightarrow> within R (case t of None \<Rightarrow> f | Some x \<Rightarrow> g x)"
  by (cases t) auto

lemma within_option_app [closed]:
  "within R f \<Longrightarrow> (\<And>x. within R (g x)) \<Longrightarrow>
   within R (\<lambda>s. case t s of None \<Rightarrow> f s | Some x \<Rightarrow> g x s)"
  by (auto simp: within_def split: option.splits)

lemma within_prod [closed]: "(\<And>x y. within R (f x y)) \<Longrightarrow> within R (case p of (x, y) \<Rightarrow> f x y)"
  by (cases p) auto

lemma within_read [closed]: "(\<And>x. within R (f x)) \<Longrightarrow> within R (\<lambda>s. bindE (t s) (\<lambda>x. f x s))"
  by (auto simp: within_def bindE_Inr_iff)

lemma within_Nil [closed]: "list_all (within R) []"
  and within_Cons [closed]: "within R f \<Longrightarrow> list_all (within R) fs \<Longrightarrow> list_all (within R) (f # fs)"
  and within_map [closed]: "(\<And>x. within R (h x)) \<Longrightarrow> list_all (within R) (map h xs)"
  and within_replicate [closed]: "within R f \<Longrightarrow> list_all (within R) (replicate n f)"
  by (auto simp: list_all_iff)

lemma list_all_pairI:
  "list_all P []" "P (n, m) \<Longrightarrow> list_all P ms \<Longrightarrow> list_all P ((n, m) # ms)"
  by simp_all

locale state_preorder =
  fixes R :: "'s \<Rightarrow> 's \<Rightarrow> bool"
  assumes refl: "R s s"
    and trans: "R s t \<Longrightarrow> R t u \<Longrightarrow> R s u"
begin

lemma skip [closed]: "within R Inr"
  by (simp add: within_def refl)

lemma seq: "within R f \<Longrightarrow> within R g \<Longrightarrow> within R (\<lambda>s. bindE (f s) g)"
  by (rule withinI, erule bindE_InrE) (blast intro: trans dest: withinD)

lemma fold [closed]: "list_all (within R) fs \<Longrightarrow> within R (seqE fs)"
proof (induction fs)
  case Nil
  then show ?case by (simp add: within_def refl)
next
  case (Cons f fs)
  then have "within R (\<lambda>s. bindE (f s) (seqE fs))" by (intro seq) simp_all
  then show ?case by (simp add: within_def)
qed

lemma prefix:
  assumes "list_all (within R) gs" and "seqE (fs @ gs) s = (Inr u :: 'e + 's)"
  shows "\<exists>t. seqE fs s = Inr t \<and> R t u"
  using assms(2) withinD [OF fold [OF assms(1)]] by (auto simp: seqE_append bindE_Inr_iff)

end

subsection \<open>Little-endian integers\<close>

text \<open>\<open>v.to_bytes(n, "little")\<close> of a value already reduced to \<open>n\<close> bytes (two's complement
  when negative): the low byte first.\<close>

fun to_bytes_le :: "nat \<Rightarrow> int \<Rightarrow> bytes" where
  "to_bytes_le 0 v = []"
| "to_bytes_le (Suc n) v = word_of_int v # to_bytes_le n (v div 256)"

fun from_bytes_le :: "bytes \<Rightarrow> int" where
  "from_bytes_le [] = 0"
| "from_bytes_le (b # bs) = uint b + 256 * from_bytes_le bs"

text \<open>The two's complement reading of an unsigned value of \<open>n\<close> bytes.\<close>

definition signed_of :: "nat \<Rightarrow> int \<Rightarrow> int" where
  "signed_of n u = (if 2 * u < 256 ^ n then u else u - 256 ^ n)"

lemma length_to_bytes_le [simp]: "length (to_bytes_le n v) = n"
  by (induction n arbitrary: v) auto

lemma uint_byte_of_int: "uint (word_of_int v :: byte) = v mod 256"
  by (simp add: uint_word_of_int)

lemma from_to_bytes_le: "from_bytes_le (to_bytes_le n v) = v mod 256 ^ n"
proof (induction n arbitrary: v)
  case 0
  then show ?case by simp
next
  case (Suc n)
  have "v mod (256 * 256 ^ n) = 256 * (v div 256 mod 256 ^ n) + v mod 256"
    by (rule zmod_zmult2_eq) simp
  then show ?case by (simp add: Suc uint_byte_of_int)
qed

lemma from_bytes_le_bounds: "0 \<le> from_bytes_le bs \<and> from_bytes_le bs < 256 ^ length bs"
proof (induction bs)
  case Nil
  then show ?case by simp
next
  case (Cons b bs)
  have "0 \<le> uint b" "uint b < 256" using uint_lt2p [of b] by auto
  with Cons show ?case by simp
qed

lemma to_from_bytes_le: "to_bytes_le (length bs) (from_bytes_le bs) = bs"
proof (induction bs)
  case Nil
  then show ?case by simp
next
  case (Cons b bs)
  have u: "0 \<le> uint b" "uint b < 256" using uint_lt2p [of b] by auto
  then have "(uint b + 256 * from_bytes_le bs) div 256 = from_bytes_le bs" by simp
  moreover have "(word_of_int (uint b + 256 * from_bytes_le bs) :: byte) = b"
    by (metis u mod_mult_self2 mod_pos_pos_trivial uint_byte_of_int word_uint_eq_iff)
  ultimately show ?case using Cons by simp
qed

lemma from_to_bytes_le_id: "0 \<le> v \<Longrightarrow> v < 256 ^ n \<Longrightarrow> from_bytes_le (to_bytes_le n v) = v"
  by (simp add: from_to_bytes_le)

lemma to_bytes_le_mod: "to_bytes_le n (v mod 256 ^ n) = to_bytes_le n v"
  by (metis from_to_bytes_le length_to_bytes_le to_from_bytes_le)

lemma signed_of_mod:
  assumes "- (256 ^ n) \<le> 2 * v" and "2 * v < 256 ^ n"
  shows "signed_of n (v mod 256 ^ n) = v"
proof (cases "0 \<le> v")
  case True
  with assms have "v mod 256 ^ n = v" by simp
  with assms show ?thesis by (simp add: signed_of_def)
next
  case False
  with assms have "v mod 256 ^ n = v + 256 ^ n"
    using mod_add_self2 [of v "256 ^ n"] mod_pos_pos_trivial [of "v + 256 ^ n" "256 ^ n"] by simp
  with assms False show ?thesis by (simp add: signed_of_def)
qed

lemma signed_from_to_bytes:
  assumes "- (256 ^ n) \<le> 2 * v" and "2 * v < 256 ^ n"
  shows "signed_of n (from_bytes_le (to_bytes_le n v)) = v"
  using assms by (simp add: from_to_bytes_le signed_of_mod)

subsection \<open>Slice assignment\<close>

text \<open>\<open>xs[i:j] = ys\<close> on a list or bytearray, with \<open>0 \<le> i \<le> j\<close>; Python clamps both ends to
  the length, as \<open>take\<close> and \<open>drop\<close> do.\<close>

definition slice_assign :: "nat \<Rightarrow> nat \<Rightarrow> 'a list \<Rightarrow> 'a list \<Rightarrow> 'a list" where
  "slice_assign i j ys xs = take i xs @ ys @ drop (max i j) xs"

definition slice :: "nat \<Rightarrow> nat \<Rightarrow> 'a list \<Rightarrow> 'a list" where
  "slice i n xs = take n (drop i xs)"

lemma length_slice_assign:
  "i + length ys \<le> length xs \<Longrightarrow> length (slice_assign i (i + length ys) ys xs) = length xs"
  by (simp add: slice_assign_def)

lemma slice_slice_assign_same:
  "i + length ys \<le> length xs \<Longrightarrow>
   slice i (length ys) (slice_assign i (i + length ys) ys xs) = ys"
  by (simp add: slice_assign_def slice_def)

lemma nth_slice_assign:
  assumes "i + length ys \<le> length xs" and "k < length xs"
  shows "slice_assign i (i + length ys) ys xs ! k =
    (if i \<le> k \<and> k < i + length ys then ys ! (k - i) else xs ! k)"
  using assms by (auto simp: slice_assign_def nth_append min_def)

lemma slice_eqI:
  assumes "length xs = length ys" and "i + n \<le> length xs"
    and "\<And>k. i \<le> k \<Longrightarrow> k < i + n \<Longrightarrow> xs ! k = ys ! k"
  shows "slice i n xs = slice i n ys"
  using assms by (intro nth_equalityI) (auto simp: slice_def)

lemma slice_append_left: "i + n \<le> length xs \<Longrightarrow> slice i n (xs @ ys) = slice i n xs"
  by (simp add: slice_def)

lemma slice_append_right: "length xs \<le> i \<Longrightarrow> slice i n (xs @ ys) = slice (i - length xs) n ys"
  by (simp add: slice_def)

end
