(* ===== verification/Text.thy ===== *)
theory Text
  imports Prelude
begin

section \<open>Python text\<close>

text \<open>
  The methods of \<open>str\<close> the front end uses, on strings of 8-bit characters (the UTF-8 bytes of the
  Python string): case, blanks, lines, words, decimal output and \<open>int(s, base)\<close>. The character
  classes are those of ASCII; what Python's character database says of other characters is not
  modelled.
\<close>

subsection \<open>Characters\<close>

definition ord :: "char \<Rightarrow> nat" where
  "ord c = of_char c"

definition py_lower_char :: "char \<Rightarrow> char" where
  "py_lower_char c = (if 65 \<le> ord c \<and> ord c \<le> 90 then char_of (ord c + 32) else c)"

definition py_lower :: "string \<Rightarrow> string" where
  "py_lower s = map py_lower_char s"

definition py_is_space :: "char \<Rightarrow> bool" where
  "py_is_space c \<longleftrightarrow> ord c \<in> set [9, 10, 11, 12, 13, 28, 29, 30, 31, 32]"

definition is_digit :: "char \<Rightarrow> bool" where
  "is_digit c \<longleftrightarrow> 48 \<le> ord c \<and> ord c \<le> 57"

definition is_alpha :: "char \<Rightarrow> bool" where
  "is_alpha c \<longleftrightarrow> 65 \<le> ord c \<and> ord c \<le> 90 \<or> 97 \<le> ord c \<and> ord c \<le> 122"

definition is_alnum :: "char \<Rightarrow> bool" where
  "is_alnum c \<longleftrightarrow> is_alpha c \<or> is_digit c"

text \<open>\<open>\w\<close> of a regular expression.\<close>

definition is_word :: "char \<Rightarrow> bool" where
  "is_word c \<longleftrightarrow> is_alnum c \<or> c = CHR ''_''"

text \<open>\<open>[A-Za-z_]\<close>.\<close>

definition is_name_start :: "char \<Rightarrow> bool" where
  "is_name_start c \<longleftrightarrow> is_alpha c \<or> c = CHR ''_''"

lemmas char_classes = ord_def is_digit_def is_alpha_def is_alnum_def is_word_def is_name_start_def
  py_is_space_def

subsection \<open>Stripping and splitting\<close>

definition lstrip :: "string \<Rightarrow> string" where
  "lstrip s = dropWhile py_is_space s"

definition rstrip :: "string \<Rightarrow> string" where
  "rstrip s = rev (dropWhile py_is_space (rev s))"

definition py_strip :: "string \<Rightarrow> string" where
  "py_strip s = rstrip (lstrip s)"

text \<open>\<open>s.startswith(p)\<close> with the rest behind the prefix.\<close>

fun after :: "string \<Rightarrow> string \<Rightarrow> string option" where
  "after [] s = Some s"
| "after (p # ps) (c # cs) = (if p = c then after ps cs else None)"
| "after (p # ps) [] = None"

definition starts_with :: "string \<Rightarrow> string \<Rightarrow> bool" where
  "starts_with p s \<longleftrightarrow> after p s \<noteq> None"

lemma after_Some_iff: "after p s = Some r \<longleftrightarrow> s = p @ r"
  by (induction p s rule: after.induct) auto

text \<open>The first character, if there is one, is in the class.\<close>

definition is_hd :: "(char \<Rightarrow> bool) \<Rightarrow> string \<Rightarrow> bool" where
  "is_hd p cs = (case cs of [] \<Rightarrow> False | c # _ \<Rightarrow> p c)"

text \<open>The maximal runs of characters outside \<open>sep\<close>, the empty ones left out:
  \<open>s.split()\<close>, \<open>re.split\<close> and filter.\<close>

fun words_by :: "(char \<Rightarrow> bool) \<Rightarrow> string \<Rightarrow> string \<Rightarrow> string list" where
  "words_by sep w [] = (if w = [] then [] else [rev w])"
| "words_by sep w (c # cs) =
    (if sep c then (if w = [] then words_by sep [] cs else rev w # words_by sep [] cs)
     else words_by sep (c # w) cs)"

definition py_split :: "string \<Rightarrow> string list" where
  "py_split s = words_by py_is_space [] s"

text \<open>\<open>s.splitlines(keepends=True)\<close>: lines end at \<open>\n\<close>, \<open>\r\<close>, \<open>\r\n\<close>, vertical tab, form feed and the
  three separators.\<close>

definition is_break :: "char \<Rightarrow> bool" where
  "is_break c \<longleftrightarrow> ord c \<in> set [10, 11, 12, 13, 28, 29, 30]"

fun break_line :: "string \<Rightarrow> string \<times> string" where
  "break_line [] = ([], [])"
| "break_line (c # cs) =
    (if ord c = 13 then (case cs of [] \<Rightarrow> ([c], [])
       | d # ds \<Rightarrow> if ord d = 10 then ([c, d], ds) else ([c], cs))
     else if is_break c then ([c], cs)
     else (let (a, b) = break_line cs in (c # a, b)))"

lemma break_line_append: "break_line s = (a, b) \<Longrightarrow> s = a @ b"
  by (induction s arbitrary: a b rule: break_line.induct)
    (auto simp: Let_def split: if_splits list.splits prod.splits)

lemma break_line_progress: "break_line (c # cs) = (a, b) \<Longrightarrow> length b < length (c # cs)"
  using break_line_append [of "c # cs" a b]
  by (cases a) (auto simp: Let_def split: if_splits list.splits prod.splits)

function splitlines :: "string \<Rightarrow> string list" where
  "splitlines [] = []"
| "splitlines (c # cs) = (let (a, b) = break_line (c # cs) in a # splitlines b)"
  by pat_completeness auto

termination
  by (relation "measure length") (auto dest: break_line_progress [OF sym] simp del: break_line.simps)

lemma concat_splitlines [simp]: "concat (splitlines s) = s"
  by (induction s rule: splitlines.induct)
    (auto simp: Let_def simp del: break_line.simps split: prod.splits dest: break_line_append)

text \<open>The line without its end: \<open>s.splitlines()\<close>.\<close>

definition unbroken :: "string \<Rightarrow> string" where
  "unbroken l = takeWhile (\<lambda>c. \<not> is_break c) l"

definition lines_of :: "string \<Rightarrow> string list" where
  "lines_of s = map unbroken (splitlines s)"

text \<open>\<open>sep.join(xs)\<close>.\<close>

fun joined :: "string \<Rightarrow> string list \<Rightarrow> string" where
  "joined sep [] = []"
| "joined sep [x] = x"
| "joined sep (x # y # xs) = x @ sep @ joined sep (y # xs)"

text \<open>\<open>s.replace(old, new)\<close> for a non-empty \<open>old\<close>.\<close>

function replace_all :: "string \<Rightarrow> string \<Rightarrow> string \<Rightarrow> string" where
  "replace_all old new [] = []"
| "replace_all old new (c # cs) =
    (case (if old = [] then None else after old (c # cs)) of
       Some rest \<Rightarrow> new @ replace_all old new rest
     | None \<Rightarrow> c # replace_all old new cs)"
  by pat_completeness auto

termination
  by (relation "measure (\<lambda>(_, _, s). length s)") (auto split: if_splits simp: after_Some_iff neq_Nil_conv)

text \<open>\<open>sub in s\<close>.\<close>

fun contains :: "string \<Rightarrow> string \<Rightarrow> bool" where
  "contains p [] \<longleftrightarrow> p = []"
| "contains p (c # cs) \<longleftrightarrow> starts_with p (c # cs) \<or> contains p cs"

lemma dropWhile_length: "length (dropWhile p cs) \<le> length cs"
  by (induction cs) auto

lemma contains_iff: "contains p s \<longleftrightarrow> (\<exists>a b. s = a @ p @ b)"
proof (induction s)
  case (Cons c cs)
  have "(\<exists>a b. c # cs = a @ p @ b) \<longleftrightarrow> (\<exists>b. c # cs = p @ b) \<or> (\<exists>a b. cs = a @ p @ b)"
    by (metis append_Cons append_Nil list.exhaust list.inject)
  with Cons show ?case by (auto simp: starts_with_def after_Some_iff)
qed simp

subsection \<open>Integers\<close>

text \<open>Decimal digits, \<open>str(n)\<close>.\<close>

function show_nat :: "nat \<Rightarrow> string" where
  "show_nat n = (if n < 10 then [char_of (48 + n)] else show_nat (n div 10) @ [char_of (48 + n mod 10)])"
  by auto

termination by (relation "measure id") auto

declare show_nat.simps [simp del]

definition show_int :: "int \<Rightarrow> string" where
  "show_int v = (if v < 0 then CHR ''-'' # show_nat (nat (- v)) else show_nat (nat v))"

text \<open>The formats \<open>x\<close>, \<open>02x\<close> and \<open>08x\<close>.\<close>

definition nibble :: "nat \<Rightarrow> char" where
  "nibble d = char_of (if d < 10 then 48 + d else 87 + d)"

function hex_nat :: "nat \<Rightarrow> string" where
  "hex_nat n = (if n < 16 then [nibble n] else hex_nat (n div 16) @ [nibble (n mod 16)])"
  by pat_completeness auto

termination
  by (relation "measure id") auto

declare hex_nat.simps [simp del]

definition hex_int :: "int \<Rightarrow> string" where
  "hex_int v = (if v < 0 then CHR ''-'' # hex_nat (nat (- v)) else hex_nat (nat v))"

definition zero_padded :: "nat \<Rightarrow> string \<Rightarrow> string" where
  "zero_padded k s = replicate (k - length s) (CHR ''0'') @ s"

definition digit_val :: "char \<Rightarrow> nat option" where
  "digit_val c =
    (if is_digit c then Some (ord c - 48)
     else if is_alpha c then Some (ord (py_lower_char c) - 87)
     else None)"

text \<open>Digits with single underscores between them; \<open>d\<close>: a digit came just before.\<close>

fun int_digits :: "nat \<Rightarrow> bool \<Rightarrow> int \<Rightarrow> string \<Rightarrow> int option" where
  "int_digits b d acc [] = (if d then Some acc else None)"
| "int_digits b d acc (c # cs) =
    (if c = CHR ''_'' then (if d then int_digits b False acc cs else None)
     else (case digit_val c of None \<Rightarrow> None
       | Some v \<Rightarrow> if v < b then int_digits b True (acc * int b + int v) cs else None))"

text \<open>Behind a base prefix one underscore may come first.\<close>

definition prefixed_digits :: "nat \<Rightarrow> string \<Rightarrow> int option" where
  "prefixed_digits b s =
    (case s of c # cs \<Rightarrow> int_digits b False 0 (if c = CHR ''_'' then cs else s) | [] \<Rightarrow> None)"

definition base_prefix :: "string \<Rightarrow> nat option" where
  "base_prefix s =
    (if starts_with ''0x'' s \<or> starts_with ''0X'' s then Some 16
     else if starts_with ''0o'' s \<or> starts_with ''0O'' s then Some 8
     else if starts_with ''0b'' s \<or> starts_with ''0B'' s then Some 2 else None)"

text \<open>\<open>int(s, 0)\<close> and \<open>int(s, 16)\<close> on a string without blanks; \<open>ValueError\<close> is \<open>None\<close>.\<close>

definition unsigned_int :: "nat \<Rightarrow> string \<Rightarrow> int option" where
  "unsigned_int base s =
    (case base_prefix s of
       Some b \<Rightarrow> if base = 0 \<or> base = b then prefixed_digits b (drop 2 s)
         else int_digits base False 0 s
     | None \<Rightarrow>
         if base = 0 then (case int_digits 10 False 0 s of None \<Rightarrow> None
           | Some v \<Rightarrow> if starts_with ''0'' s \<and> v \<noteq> 0 then None else Some v)
         else int_digits base False 0 s)"

definition signed_int :: "nat \<Rightarrow> string \<Rightarrow> int option" where
  "signed_int base s =
    (case s of [] \<Rightarrow> None
     | c # cs \<Rightarrow> if c = CHR ''-'' then map_option uminus (unsigned_int base cs)
         else if c = CHR ''+'' then unsigned_int base cs else unsigned_int base s)"

definition py_int :: "nat \<Rightarrow> string \<Rightarrow> int res" where
  "py_int base s = (case signed_int base s of None \<Rightarrow> Inl (BadInt s) | Some v \<Rightarrow> Inr v)"

subsection \<open>Reading back a printed integer\<close>

lemma ord_char_of: "ord (char_of (n :: nat)) = n mod 256"
  by (simp add: ord_def)

lemma digit_char: "n < 10 \<Longrightarrow> digit_val (char_of (48 + n)) = Some n \<and> is_digit (char_of (48 + n))"
  by (simp add: digit_val_def is_digit_def ord_char_of)

lemma digit_not_underscore: "is_digit c \<Longrightarrow> c \<noteq> CHR ''_'' \<and> c \<noteq> CHR ''-'' \<and> c \<noteq> CHR ''+''"
  by (auto simp: is_digit_def ord_def)

lemma show_nat_digits: "list_all is_digit (show_nat n) \<and> show_nat n \<noteq> []"
proof (induction n rule: show_nat.induct)
  case (1 n)
  then show ?case
    using digit_char [of n] digit_char [of "n mod 10"] by (simp add: show_nat.simps [of n])
qed

lemma int_digits_digit:
  "n < 10 \<Longrightarrow> int_digits 10 d acc (char_of (48 + n) # cs) = int_digits 10 True (acc * 10 + int n) cs"
  using digit_char [of n] digit_not_underscore [of "char_of (48 + n)"] by simp

lemma int_digits_show: "int_digits 10 d 0 (show_nat n @ ys) = int_digits 10 True (int n) ys"
proof (induction n arbitrary: ys d rule: show_nat.induct)
  case (1 n)
  show ?case
  proof (cases "n < 10")
    case True
    then show ?thesis using int_digits_digit [of n d 0] by (simp add: show_nat.simps [of n] del: int_digits.simps)
  next
    case False
    have "show_nat n @ ys = show_nat (n div 10) @ char_of (48 + n mod 10) # ys"
      using False by (simp add: show_nat.simps [of n])
    then have "int_digits 10 d 0 (show_nat n @ ys) =
        int_digits 10 True (int (n div 10)) (char_of (48 + n mod 10) # ys)"
      using 1 [OF False] by simp
    also have "\<dots> = int_digits 10 True (int (n div 10) * 10 + int (n mod 10)) ys"
      by (rule int_digits_digit) simp
    also have "int (n div 10) * 10 + int (n mod 10) = int n"
      by (simp add: zdiv_int zmod_int)
    finally show ?thesis .
  qed
qed

lemma show_nat_zero: "n \<noteq> 0 \<Longrightarrow> hd (show_nat n) \<noteq> CHR ''0''"
proof (induction n rule: show_nat.induct)
  case (1 n)
  show ?case
  proof (cases "n < 10")
    case True
    then have "ord (char_of (48 + n)) \<noteq> ord CHR ''0''" using 1 by (simp add: ord_char_of) (simp add: ord_def)
    then have "char_of (48 + n) \<noteq> CHR ''0''" by (metis (no_types))
    then show ?thesis using True by (simp add: show_nat.simps [of n])
  next
    case False
    then show ?thesis using 1 show_nat_digits [of "n div 10"] by (simp add: show_nat.simps [of n])
  qed
qed

lemma starts_with_hd: "starts_with [c] s \<longleftrightarrow> s \<noteq> [] \<and> hd s = c"
  by (cases s) (auto simp: starts_with_def)

lemma digit_not_letter: "is_digit c \<Longrightarrow> c \<notin> set ''xXoObB''"
  by (auto simp: is_digit_def ord_def)

lemma digits_no_prefix: "list_all is_digit s \<Longrightarrow> base_prefix s = None"
  using digit_not_letter by (cases s; cases "tl s") (auto simp: base_prefix_def starts_with_def)

lemma unsigned_int_show: "unsigned_int 0 (show_nat n) = Some (int n)"
  using int_digits_show [of False n "[]"] show_nat_digits [of n] show_nat_zero [of n]
  by (cases "n = 0") (auto simp: unsigned_int_def digits_no_prefix starts_with_hd)

lemma signed_int_show: "signed_int 0 (show_int v) = Some v"
proof -
  have "signed_int 0 (show_nat k) = Some (int k)" for k
    using show_nat_digits [of k] unsigned_int_show [of k] digit_not_underscore [of "hd (show_nat k)"]
    by (cases "show_nat k") (simp_all add: signed_int_def)
  then show ?thesis
    using unsigned_int_show [of "nat (- v)"] by (auto simp: show_int_def signed_int_def)
qed

lemma py_int_show [simp]: "py_int 0 (show_int v) = Inr v"
  by (simp add: py_int_def signed_int_show)

lemma show_nat_inject: "show_nat m = show_nat n \<Longrightarrow> m = n"
  by (metis of_nat_eq_iff option.inject unsigned_int_show)

end
