(* ===== verification/Regs.thy ===== *)
theory Regs
  imports Text
begin

section \<open>The register map (ACLM/regs.py)\<close>

text \<open>
  The virtual registers \<open>reg1\<close> to \<open>reg12\<close>, the deprecated \<open>reg13\<close>, the 32-bit names and
  the physical names a program may use, and \<open>resolve\<close>, which every statement of the code
  generator goes through. Dictionaries are association lists in source order.
\<close>

subsection \<open>Tables\<close>

definition VIRTUAL :: "(string \<times> string) list" where
  "VIRTUAL =
    [(''reg1'', ''rax''), (''reg2'', ''rbx''), (''reg3'', ''rcx''), (''reg4'', ''rdx''),
     (''reg5'', ''rsi''), (''reg6'', ''rdi''), (''reg7'', ''r8''), (''reg8'', ''r9''),
     (''reg9'', ''r10''),
     (''reg10'', ''r12''), (''reg11'', ''r13''), (''reg12'', ''r14'')]"

definition VIRTUAL_COMPAT :: "(string \<times> string) list" where
  "VIRTUAL_COMPAT = [(''reg13'', ''r14'')]"

definition PARTIAL32 :: "(string \<times> string) list" where
  "PARTIAL32 =
    [(''eax'', ''rax''), (''ebx'', ''rbx''), (''ecx'', ''rcx''), (''edx'', ''rdx''),
     (''esi'', ''rsi''), (''edi'', ''rdi''),
     (''r8d'', ''r8''), (''r9d'', ''r9''), (''r10d'', ''r10''),
     (''r12d'', ''r12''), (''r13d'', ''r13''), (''r14d'', ''r14'')]"

definition PHYSICAL :: "string list" where
  "PHYSICAL =
    [''rax'', ''rbx'', ''rcx'', ''rdx'', ''rsi'', ''rdi'',
     ''r8'', ''r9'', ''r10'', ''r12'', ''r13'', ''r14'']"

definition RESERVED :: "string list" where
  "RESERVED = [''rbp'', ''rsp'', ''rip'', ''r15'', ''r11'', ''esp'', ''ebp'']"

definition SYSCALL_ARGS :: "string list" where
  "SYSCALL_ARGS = [''rdi'', ''rsi'', ''rdx'', ''r10'', ''r8'', ''r9'']"

definition SCRATCH :: string where
  "SCRATCH = ''r15''"

definition SECOND_SCRATCH :: string where
  "SECOND_SCRATCH = ''r11''"

lemmas reg_table_defs = VIRTUAL_def VIRTUAL_COMPAT_def PARTIAL32_def PHYSICAL_def RESERVED_def

subsection \<open>Operations\<close>

definition resolve :: "string \<Rightarrow> string res" where
  "resolve name =
    (let n = py_lower (py_strip name) in
     if n \<in> set RESERVED then Inl (ReservedRegister name)
     else case map_of VIRTUAL n of Some p \<Rightarrow> Inr p
     | None \<Rightarrow> (case map_of VIRTUAL_COMPAT n of Some p \<Rightarrow> Inr p
     | None \<Rightarrow> (case map_of PARTIAL32 n of Some p \<Rightarrow> Inr p
     | None \<Rightarrow> if n \<in> set PHYSICAL then Inr n else Inl (UnknownRegister name))))"

definition is_reg_name :: "string \<Rightarrow> bool" where
  "is_reg_name name =
    (let n = py_lower (py_strip name) in
     map_of VIRTUAL n \<noteq> None \<or> map_of VIRTUAL_COMPAT n \<noteq> None \<or>
     n \<in> set PHYSICAL \<or> map_of PARTIAL32 n \<noteq> None)"

definition is_partial32 :: "string \<Rightarrow> bool" where
  "is_partial32 name = (map_of PARTIAL32 (py_lower (py_strip name)) \<noteq> None)"

subsection \<open>Lemmas\<close>

lemma ran_map_of_subset: "ran (map_of xs) \<subseteq> snd ` set xs"
  by (auto simp: ran_def dest!: map_of_SomeD intro!: rev_image_eqI)

lemma reg_table_images:
  "snd ` set VIRTUAL \<subseteq> set PHYSICAL"
  "snd ` set VIRTUAL_COMPAT \<subseteq> set PHYSICAL"
  "snd ` set PARTIAL32 \<subseteq> set PHYSICAL"
  by code_simp+

lemmas reg_table_ranges =
  subset_trans [OF ran_map_of_subset reg_table_images(1)]
  subset_trans [OF ran_map_of_subset reg_table_images(2)]
  subset_trans [OF ran_map_of_subset reg_table_images(3)]

lemma physical_fixpoints_all:
  "list_all (\<lambda>p. py_lower (py_strip p) = p \<and> p \<notin> set RESERVED \<and>
     map_of VIRTUAL p = None \<and> map_of VIRTUAL_COMPAT p = None \<and> map_of PARTIAL32 p = None) PHYSICAL"
  by code_simp

lemma physical_fixpoints:
  "p \<in> set PHYSICAL \<Longrightarrow> py_lower (py_strip p) = p \<and> p \<notin> set RESERVED \<and>
   map_of VIRTUAL p = None \<and> map_of VIRTUAL_COMPAT p = None \<and> map_of PARTIAL32 p = None"
  by (rule physical_fixpoints_all [unfolded list_all_iff, rule_format])

lemma resolve_Inr_physical: "resolve name = Inr p \<Longrightarrow> p \<in> set PHYSICAL"
  unfolding resolve_def Let_def
  by (auto split: if_splits option.splits dest: reg_table_ranges [THEN subsetD, OF ranI])

lemma resolve_physical: "p \<in> set PHYSICAL \<Longrightarrow> resolve p = Inr p"
  using physical_fixpoints [of p] by (simp add: resolve_def)

lemma virtual_table_distinct: "distinct (map fst VIRTUAL) \<and> distinct (map snd VIRTUAL)"
  by code_simp

lemma virtual_table_onto: "ran (map_of VIRTUAL) = set PHYSICAL"
proof -
  have "ran (map_of VIRTUAL) = snd ` set VIRTUAL"
    using virtual_table_distinct by (intro ran_distinct) simp
  also have "\<dots> = set PHYSICAL" by code_simp
  finally show ?thesis .
qed

end
