(* ===== verification/Assembler.thy ===== *)
theory Assembler
  imports Regs
begin

section \<open>The assembler core (ACLM/x64enc.py, bookkeeping and field encoders)\<close>

text \<open>
  The state of class \<open>Assembler\<close> (the code buffer, the label table, the relocations, the
  deterministic flag) as a record, the byte-field helpers \<open>_u8\<close> to \<open>_u64\<close>, the register
  table, the REX and ModRM builders, \<open>label\<close>, \<open>_emit\<close>, \<open>_emit_rel32_fixup\<close> and \<open>link\<close>.
  An operation of the class is a function \<open>asm \<Rightarrow> error + asm\<close>.
\<close>

subsection \<open>Registers and field helpers\<close>

definition REGISTERS :: "(string \<times> int) list" where
  "REGISTERS =
    [(''rax'', 0), (''rcx'', 1), (''rdx'', 2), (''rbx'', 3),
     (''rsp'', 4), (''rbp'', 5), (''rsi'', 6), (''rdi'', 7),
     (''r8'', 8), (''r9'', 9), (''r10'', 10), (''r11'', 11),
     (''r12'', 12), (''r13'', 13), (''r14'', 14), (''r15'', 15)]"

definition u8 :: "int \<Rightarrow> byte" where
  "u8 v = word_of_int (v AND 0xFF)"

definition s8 :: "int \<Rightarrow> bytes res" where
  "s8 v = (if v < -128 \<or> v > 127 then Inl (Imm8Range v) else Inr (to_bytes_le 1 (v AND 0xFF)))"

definition u32 :: "int \<Rightarrow> bytes" where
  "u32 v = to_bytes_le 4 (v AND 0xFFFFFFFF)"

definition s32 :: "int \<Rightarrow> bytes res" where
  "s32 v = (if v < - (2 ^ 31) \<or> v > 2 ^ 31 - 1 then Inl (Imm32Range v) else Inr (to_bytes_le 4 v))"

definition u64 :: "int \<Rightarrow> bytes" where
  "u64 v = to_bytes_le 8 (v AND 0xFFFFFFFFFFFFFFFF)"

definition reg_num :: "string \<Rightarrow> int res" where
  "reg_num name = (case map_of REGISTERS name of None \<Rightarrow> Inl (UnknownRegister name) | Some r \<Rightarrow> Inr r)"

definition rex :: "int \<Rightarrow> int \<Rightarrow> int \<Rightarrow> int \<Rightarrow> int" where
  "rex w r x b = 0x40 OR push_bit 3 w OR push_bit 2 r OR push_bit 1 x OR b"

definition modrm :: "int \<Rightarrow> int \<Rightarrow> int \<Rightarrow> int" where
  "modrm mod' reg rm = push_bit 6 (mod' AND 3) OR push_bit 3 (reg AND 7) OR (rm AND 7)"

subsection \<open>State and bookkeeping\<close>

record reloc =
  r_offset :: nat
  r_target :: string
  r_kind :: string
  r_size :: nat

record asm =
  code :: bytes
  labels :: "(string \<times> nat) list"
  relocs :: "reloc list"
  deterministic :: bool

type_synonym asm_op = "asm \<Rightarrow> asm res"

definition init_asm :: asm where
  "init_asm = \<lparr>code = [], labels = [], relocs = [], deterministic = False\<rparr>"

definition label_at :: "string \<Rightarrow> asm_op" where
  "label_at name a =
    (if map_of (labels a) name \<noteq> None then Inl (DuplicateLabel name)
     else Inr (a\<lparr>labels := labels a @ [(name, length (code a))]\<rparr>))"

definition here :: "asm \<Rightarrow> nat" where
  "here a = length (code a)"

definition emits :: "bytes \<Rightarrow> asm_op" where
  "emits bs a = Inr (a\<lparr>code := code a @ bs\<rparr>)"

definition emit_rel32_fixup :: "string \<Rightarrow> asm_op" where
  "emit_rel32_fixup target a =
    (let c = code a @ [0, 0, 0, 0] in
     Inr (a\<lparr>code := c,
       relocs := relocs a @ [\<lparr>r_offset = length c - 4, r_target = target,
                              r_kind = ''rel32'', r_size = 4\<rparr>]\<rparr>))"

text \<open>The label table as link targets, which may be any Python integers.\<close>

definition label_table :: "asm \<Rightarrow> (string \<times> int) list" where
  "label_table a = map (\<lambda>(l, p). (l, int p)) (labels a)"

text \<open>One turn of the loop of \<open>link\<close>, and the loop.\<close>

definition link_one :: "(string \<times> int) list \<Rightarrow> reloc \<Rightarrow> bytes \<Rightarrow> bytes res" where
  "link_one offs r c =
    (case map_of offs (r_target r) of
       None \<Rightarrow> Inl (UndefinedLabel (r_target r))
     | Some target_off \<Rightarrow>
         bindE (s32 (target_off - (int (r_offset r) + 4)))
           (\<lambda>bs. Inr (slice_assign (r_offset r) (r_offset r + 4) bs c)))"

definition link :: "(string \<times> int) list option \<Rightarrow> asm_op" where
  "link base_offset_map a =
    (let offs = (case base_offset_map of None \<Rightarrow> label_table a | Some m \<Rightarrow> m) in
     bindE (seqE (map (link_one offs) (relocs a)) (code a)) (\<lambda>c. Inr (a\<lparr>code := c\<rparr>)))"

subsection \<open>Building blocks for the instruction methods\<close>

text \<open>\<open>self._emit(_s32(disp))\<close> and \<open>self._emit(_s8(disp))\<close>, which may raise, and the register
  lookups a method starts with.\<close>

definition emit_s32 :: "int \<Rightarrow> asm_op" where
  "emit_s32 v a = bindE (s32 v) (\<lambda>bs. emits bs a)"

definition emit_s8 :: "int \<Rightarrow> asm_op" where
  "emit_s8 v a = bindE (s8 v) (\<lambda>bs. emits bs a)"

definition with_reg :: "string \<Rightarrow> (int \<Rightarrow> asm_op) \<Rightarrow> asm_op" where
  "with_reg name f a = bindE (reg_num name) (\<lambda>d. f d a)"

definition fail_op :: "error \<Rightarrow> asm_op" where
  "fail_op e a = Inl e"

definition skip_op :: asm_op where
  "skip_op a = Inr a"

end
