(* ===== verification/Encode.thy ===== *)
theory Encode
  imports Assembler
begin

section \<open>Instruction methods, first half (ACLM/x64enc.py up to the packed SSE operations)\<close>

text \<open>
  One definition per method of class \<open>Assembler\<close>, under the method's name (a leading
  underscore dropped). The bytes of consecutive \<open>_emit\<close> calls are one \<open>emits\<close>; a register
  name is looked up by \<open>with_reg\<close>, which carries the \<open>ValueError\<close> of \<open>reg_num\<close>; an optional
  parameter is an explicit argument, \<open>index = None\<close> the \<open>None\<close> of an option.
\<close>

subsection \<open>Memory-operand forms\<close>

definition scale_bits :: "int \<Rightarrow> int res" where
  "scale_bits scale =
    (case map_of [(1, 0), (2, 1), (4, 2), (8, 3)] scale of None \<Rightarrow> Inl (BadScale scale) | Some s \<Rightarrow> Inr s)"

text \<open>The prologue the four memory emitters share line for line: \<open>use_sib\<close>, \<open>rex_x\<close> and the SIB
  byte (meaningful when \<open>use_sib\<close> holds).\<close>

definition mem_sib :: "int \<Rightarrow> string option \<Rightarrow> int \<Rightarrow> (bool \<times> int \<times> int) res" where
  "mem_sib b index scale =
    (case index of
       Some i \<Rightarrow> bindE (reg_num i) (\<lambda>idx. bindE (scale_bits scale) (\<lambda>sc.
         Inr (True, drop_bit 3 idx, push_bit 6 sc OR push_bit 3 (idx AND 7) OR (b AND 7))))
     | None \<Rightarrow> Inr (b AND 7 = 4, 0, push_bit 6 0 OR push_bit 3 4 OR (b AND 7)))"

definition with_sib :: "int \<Rightarrow> string option \<Rightarrow> int \<Rightarrow> (bool \<Rightarrow> int \<Rightarrow> int \<Rightarrow> asm_op) \<Rightarrow> asm_op" where
  "with_sib b index scale f a = bindE (mem_sib b index scale) (\<lambda>(use_sib, rex_x, sib). f use_sib rex_x sib a)"

definition emit_mem_op :: "int \<Rightarrow> string \<Rightarrow> string \<Rightarrow> int \<Rightarrow> string option \<Rightarrow> int \<Rightarrow> asm_op" where
  "emit_mem_op opcode reg_operand base disp index scale =
    with_reg reg_operand (\<lambda>r. with_reg base (\<lambda>b. with_sib b index scale (\<lambda>use_sib rex_x sib.
      (let mod' = (if disp \<noteq> 0 \<or> b AND 7 = 5 then 2 else 0);
           rm_field = (if use_sib then 4 else b AND 7) in
       seqE [emits [u8 (rex 1 (drop_bit 3 r) rex_x (drop_bit 3 b)), u8 opcode,
                    u8 (modrm mod' (r AND 7) rm_field)],
             (if use_sib then emits [u8 sib] else skip_op),
             (if mod' = 2 then emit_s32 disp else skip_op)]))))"

definition emit_mem_op_0f :: "int \<Rightarrow> string \<Rightarrow> string \<Rightarrow> int \<Rightarrow> string option \<Rightarrow> int \<Rightarrow> asm_op" where
  "emit_mem_op_0f opcode2 reg_operand base disp index scale =
    with_reg reg_operand (\<lambda>r. with_reg base (\<lambda>b. with_sib b index scale (\<lambda>use_sib rex_x sib.
      (let mod' = (if disp \<noteq> 0 \<or> b AND 7 = 5 then 2 else 0);
           rm_field = (if use_sib then 4 else b AND 7) in
       seqE [emits [u8 (rex 1 (drop_bit 3 r) rex_x (drop_bit 3 b)), 0x0F, u8 opcode2,
                    u8 (modrm mod' (r AND 7) rm_field)],
             (if use_sib then emits [u8 sib] else skip_op),
             (if mod' = 2 then emit_s32 disp else skip_op)]))))"

definition emit_mem_op_sized ::
  "int \<Rightarrow> string \<Rightarrow> string \<Rightarrow> int \<Rightarrow> string option \<Rightarrow> int \<Rightarrow> int \<Rightarrow> asm_op" where
  "emit_mem_op_sized opcode reg_operand base disp index scale sz =
    with_reg reg_operand (\<lambda>r. with_reg base (\<lambda>b. with_sib b index scale (\<lambda>use_sib rex_x sib.
      (let mod' = (if disp \<noteq> 0 \<or> b AND 7 = 5 then 2 else 0);
           need_rex = (sz = 8 \<and> r \<in> {4, 5, 6, 7}) \<or> r \<ge> 8 \<or> b \<ge> 8 \<or> rex_x \<noteq> 0;
           rm_field = (if use_sib then 4 else b AND 7) in
       seqE [(if sz = 16 then emits [0x66] else skip_op),
             (if need_rex \<or> sz \<noteq> 8 then emits [u8 (rex 0 (drop_bit 3 r) rex_x (drop_bit 3 b))] else skip_op),
             emits [u8 opcode, u8 (modrm mod' (r AND 7) rm_field)],
             (if use_sib then emits [u8 sib] else skip_op),
             (if mod' = 2 then emit_s32 disp else skip_op)]))))"

definition mov32_reg_mem :: "string \<Rightarrow> string \<Rightarrow> int \<Rightarrow> string option \<Rightarrow> int \<Rightarrow> asm_op" where
  "mov32_reg_mem dst base disp index scale =
    with_reg dst (\<lambda>r. with_reg base (\<lambda>b. with_sib b index scale (\<lambda>use_sib rex_x sib.
      (let need_rex = r \<ge> 8 \<or> b \<ge> 8 \<or> rex_x \<noteq> 0;
           mod' = (if disp \<noteq> 0 \<or> b AND 7 = 5 then 2 else 0);
           rm_field = (if use_sib then 4 else b AND 7) in
       seqE [(if need_rex then emits [u8 (rex 0 (drop_bit 3 r) rex_x (drop_bit 3 b))] else skip_op),
             emits [u8 0x8B, u8 (modrm mod' (r AND 7) rm_field)],
             (if use_sib then emits [u8 sib] else skip_op),
             (if mod' = 2 then emit_s32 disp else skip_op)]))))"

subsection \<open>Immediate loads\<close>

definition mov_reg_imm64 :: "string \<Rightarrow> int \<Rightarrow> asm_op" where
  "mov_reg_imm64 dst imm0 =
    (let imm = imm0 AND (2 ^ 64 - 1) in
     with_reg dst (\<lambda>d a.
       if deterministic a then
         emits ([u8 (rex 1 0 0 (drop_bit 3 d)), u8 (0xB8 + (d AND 7))] @ u64 imm) a
       else if imm = 0 then
         seqE [(if d \<ge> 8 then emits [u8 0x41] else skip_op),
               emits ([u8 (0xB8 + (d AND 7))] @ u32 0)] a
       else if imm \<le> 0xFFFFFFFF then
         seqE [(if d \<ge> 8 then emits [u8 0x41] else skip_op),
               emits ([u8 (0xB8 + (d AND 7))] @ u32 imm)] a
       else
         (let signed = (if imm < 0x80000000 then imm else imm - 2 ^ 64) in
          if (imm \<ge> 0xFFFFFFFF80000000 \<or> imm < 0x80000000) \<and>
             -0x80000000 \<le> signed \<and> signed \<le> 0x7FFFFFFF then
            emits ([u8 (rex 1 0 0 (drop_bit 3 d)), u8 0xC7, u8 (modrm 3 0 (d AND 7))]
                   @ u32 (signed AND 0xFFFFFFFF)) a
          else
            emits ([u8 (rex 1 0 0 (drop_bit 3 d)), u8 (0xB8 + (d AND 7))] @ u64 imm) a)))"

subsection \<open>Condition codes\<close>

definition SETCC_OPCODE :: "(string \<times> int) list" where
  "SETCC_OPCODE =
    [(''eq'', 0x94), (''neq'', 0x95), (''gt'', 0x9F), (''lt'', 0x9C),
     (''gte'', 0x9D), (''lte'', 0x9E), (''above'', 0x97), (''below'', 0x92),
     (''abe'', 0x96), (''ble'', 0x96),
     (''zf'', 0x94), (''e'', 0x94), (''z'', 0x94),
     (''nz'', 0x95), (''ne'', 0x95),
     (''g'', 0x9F), (''nle'', 0x9F),
     (''l'', 0x9C), (''nge'', 0x9C),
     (''ge'', 0x9D), (''nl'', 0x9D),
     (''le'', 0x9E), (''ng'', 0x9E),
     (''a'', 0x97), (''nbe'', 0x97),
     (''b'', 0x92), (''c'', 0x92), (''nae'', 0x92),
     (''ae'', 0x93), (''nb'', 0x93), (''nc'', 0x93),
     (''be'', 0x96), (''na'', 0x96),
     (''s'', 0x98), (''ns'', 0x99),
     (''o'', 0x90), (''no'', 0x91),
     (''p'', 0x9A), (''pe'', 0x9A), (''np'', 0x9B), (''po'', 0x9B)]"

definition JCC_OPCODE :: "(string \<times> int) list" where
  "JCC_OPCODE =
    [(''eq'', 0x84), (''neq'', 0x85), (''gt'', 0x8F), (''lt'', 0x8C),
     (''gte'', 0x8D), (''lte'', 0x8E), (''above'', 0x87), (''below'', 0x82),
     (''abe'', 0x83), (''ae'', 0x83), (''be'', 0x86), (''ble'', 0x86),
     (''zf'', 0x84), (''e'', 0x84), (''z'', 0x84),
     (''nz'', 0x85), (''ne'', 0x85),
     (''g'', 0x8F), (''nle'', 0x8F),
     (''l'', 0x8C), (''nge'', 0x8C),
     (''ge'', 0x8D), (''nl'', 0x8D),
     (''le'', 0x8E), (''ng'', 0x8E),
     (''a'', 0x87), (''nbe'', 0x87),
     (''b'', 0x82), (''c'', 0x82), (''nae'', 0x82),
     (''nb'', 0x83), (''nc'', 0x83),
     (''na'', 0x86),
     (''s'', 0x88), (''ns'', 0x89),
     (''o'', 0x80), (''no'', 0x81),
     (''p'', 0x8A), (''pe'', 0x8A), (''np'', 0x8B), (''po'', 0x8B)]"

definition with_cond :: "(string \<times> int) list \<Rightarrow> string \<Rightarrow> (int \<Rightarrow> asm_op) \<Rightarrow> asm_op" where
  "with_cond table cond f a =
    (case map_of table cond of None \<Rightarrow> Inl (BadCondition cond) | Some opc \<Rightarrow> f opc a)"

definition setcc_reg :: "string \<Rightarrow> string \<Rightarrow> asm_op" where
  "setcc_reg cond dst =
    with_cond SETCC_OPCODE cond (\<lambda>opc. with_reg dst (\<lambda>d.
      seqE [(if d \<ge> 8 then emits [u8 (rex 0 0 0 1)]
             else if d \<in> {4, 5, 6, 7} then emits [u8 (rex 0 0 0 0)] else skip_op),
            emits [0x0F, u8 opc, u8 (modrm 3 0 (d AND 7))],
            emits [u8 (rex 1 (drop_bit 3 d) 0 (drop_bit 3 d)), 0x0F, u8 0xB6,
                   u8 (modrm 3 (d AND 7) (d AND 7))]]))"

definition jcc :: "string \<Rightarrow> string \<Rightarrow> asm_op" where
  "jcc cond target =
    with_cond JCC_OPCODE cond (\<lambda>opc.
      seqE [emits [0x0F, u8 opc], emit_rel32_fixup target])"

definition raw_bytes :: "bytes \<Rightarrow> asm_op" where
  "raw_bytes data = emits data"

subsection \<open>x87 and SSE operands\<close>

definition fpu_mem_op :: "int \<Rightarrow> int \<Rightarrow> string \<Rightarrow> int \<Rightarrow> asm_op" where
  "fpu_mem_op opcode_byte digit base disp =
    with_reg base (\<lambda>b.
      (let use_sib = (b AND 7 = 4);
           mod' = (if disp \<noteq> 0 \<or> b AND 7 = 5 then 2 else 0);
           rm_field = (if use_sib then 4 else b AND 7) in
       seqE [(if b \<ge> 8 then emits [u8 (rex 0 0 0 1)] else skip_op),
             emits [u8 opcode_byte, u8 (modrm mod' digit rm_field)],
             (if use_sib then emits [u8 (push_bit 6 0 OR push_bit 3 4 OR (b AND 7))] else skip_op),
             (if mod' = 2 then emit_s32 disp else skip_op)]))"

definition XMM :: "(string \<times> int) list" where
  "XMM = [(''xmm0'', 0), (''xmm1'', 1), (''xmm2'', 2), (''xmm3'', 3),
          (''xmm4'', 4), (''xmm5'', 5), (''xmm6'', 6), (''xmm7'', 7)]"

definition xmm_num :: "string \<Rightarrow> int res" where
  "xmm_num name =
    (case map_of XMM (py_lower name) of None \<Rightarrow> Inl (BadVectorReg name) | Some n \<Rightarrow> Inr n)"

definition with_xmm :: "string \<Rightarrow> (int \<Rightarrow> asm_op) \<Rightarrow> asm_op" where
  "with_xmm name f a = bindE (xmm_num name) (\<lambda>d. f d a)"

text \<open>The tail of the two \<open>movups\<close> methods after the opcode: \<open>b\<close> is already reduced to 3 bits
  when the base needs REX.\<close>

definition movups_mem :: "int \<Rightarrow> string \<Rightarrow> string \<Rightarrow> int \<Rightarrow> asm_op" where
  "movups_mem opcode2 xmm base disp =
    with_xmm xmm (\<lambda>x. with_reg base (\<lambda>b0.
      (let rex_byte = (if b0 \<ge> 8 then rex 0 (drop_bit 3 x) 0 1
                       else if x \<ge> 8 then rex 0 1 0 0 else 0);
           b = (if b0 \<ge> 8 then b0 AND 7 else b0);
           sib = (if b = 4 then emits [u8 0x24] else skip_op) in
       seqE [(if rex_byte \<noteq> 0 then emits [u8 rex_byte] else skip_op),
             emits [0x0F, u8 opcode2],
             (if disp = 0 \<and> b \<noteq> 5 then seqE [emits [u8 (modrm 0 (x AND 7) b)], sib]
              else if -128 \<le> disp \<and> disp \<le> 127 then
                seqE [emits [u8 (modrm 1 (x AND 7) b)], sib, emit_s8 disp]
              else seqE [emits [u8 (modrm 2 (x AND 7) b)], sib, emit_s32 disp])])))"

definition movups_xmm_mem :: "string \<Rightarrow> string \<Rightarrow> int \<Rightarrow> asm_op" where
  "movups_xmm_mem xmm base disp = movups_mem 0x10 xmm base disp"

definition movups_mem_xmm :: "string \<Rightarrow> string \<Rightarrow> int \<Rightarrow> asm_op" where
  "movups_mem_xmm base xmm disp = movups_mem 0x11 xmm base disp"

subsection \<open>Register, stack, branch, x87 and SSE register forms\<close>

definition mov_reg_reg :: "string \<Rightarrow> string \<Rightarrow> asm_op" where
  "mov_reg_reg dst src =
    (if dst = src then skip_op
       else with_reg dst (\<lambda>d. with_reg src (\<lambda>s.
      emits [u8 (rex 1 (drop_bit 3 s) 0 (drop_bit 3 d)), u8 0x89, u8 (modrm 3 (s AND 7) (d AND 7))])))"

definition mov_reg_mem :: "string \<Rightarrow> string \<Rightarrow> int \<Rightarrow> string option \<Rightarrow> int \<Rightarrow> asm_op" where
  "mov_reg_mem dst base disp index scale =
    emit_mem_op 0x8B dst base disp index scale"

definition mov_mem_reg :: "string \<Rightarrow> int \<Rightarrow> string \<Rightarrow> string option \<Rightarrow> int \<Rightarrow> asm_op" where
  "mov_mem_reg base disp src index scale =
    emit_mem_op 0x89 src base disp index scale"

definition mov8_reg_mem :: "string \<Rightarrow> string \<Rightarrow> int \<Rightarrow> string option \<Rightarrow> int \<Rightarrow> asm_op" where
  "mov8_reg_mem dst base disp index scale =
    emit_mem_op_0f 0xB6 dst base disp index scale"

definition mov16_reg_mem :: "string \<Rightarrow> string \<Rightarrow> int \<Rightarrow> string option \<Rightarrow> int \<Rightarrow> asm_op" where
  "mov16_reg_mem dst base disp index scale =
    emit_mem_op_0f 0xB7 dst base disp index scale"

definition mov8_mem_reg :: "string \<Rightarrow> int \<Rightarrow> string \<Rightarrow> string option \<Rightarrow> int \<Rightarrow> asm_op" where
  "mov8_mem_reg base disp src index scale =
    emit_mem_op_sized 0x88 src base disp index scale 8"

definition mov16_mem_reg :: "string \<Rightarrow> int \<Rightarrow> string \<Rightarrow> string option \<Rightarrow> int \<Rightarrow> asm_op" where
  "mov16_mem_reg base disp src index scale =
    emit_mem_op_sized 0x89 src base disp index scale 16"

definition mov32_mem_reg :: "string \<Rightarrow> int \<Rightarrow> string \<Rightarrow> string option \<Rightarrow> int \<Rightarrow> asm_op" where
  "mov32_mem_reg base disp src index scale =
    emit_mem_op_sized 0x89 src base disp index scale 32"

definition binop_reg_reg :: "int \<Rightarrow> string \<Rightarrow> string \<Rightarrow> asm_op" where
  "binop_reg_reg opcode dst src =
    with_reg dst (\<lambda>d. with_reg src (\<lambda>s.
      emits [u8 (rex 1 (drop_bit 3 s) 0 (drop_bit 3 d)), u8 opcode, u8 (modrm 3 (s AND 7) (d AND 7))]))"

definition add_reg_reg :: "string \<Rightarrow> string \<Rightarrow> asm_op" where
  "add_reg_reg dst src =
    binop_reg_reg 0x01 dst src"

definition sub_reg_reg :: "string \<Rightarrow> string \<Rightarrow> asm_op" where
  "sub_reg_reg dst src =
    binop_reg_reg 0x29 dst src"

definition and_reg_reg :: "string \<Rightarrow> string \<Rightarrow> asm_op" where
  "and_reg_reg dst src =
    binop_reg_reg 0x21 dst src"

definition or_reg_reg :: "string \<Rightarrow> string \<Rightarrow> asm_op" where
  "or_reg_reg dst src =
    binop_reg_reg 0x09 dst src"

definition xor_reg_reg :: "string \<Rightarrow> string \<Rightarrow> asm_op" where
  "xor_reg_reg dst src =
    binop_reg_reg 0x31 dst src"

definition cmp_reg_reg :: "string \<Rightarrow> string \<Rightarrow> asm_op" where
  "cmp_reg_reg a b =
    binop_reg_reg 0x39 a b"

definition test_reg_reg :: "string \<Rightarrow> string \<Rightarrow> asm_op" where
  "test_reg_reg a b =
    binop_reg_reg 0x85 a b"

definition binop_reg_imm32 :: "int \<Rightarrow> string \<Rightarrow> int \<Rightarrow> asm_op" where
  "binop_reg_imm32 ext dst imm =
    with_reg dst (\<lambda>d.
      seqE [emits [u8 (rex 1 0 0 (drop_bit 3 d)), u8 0x81, u8 (modrm 3 ext (d AND 7))], emit_s32 imm])"

definition add_reg_imm :: "string \<Rightarrow> int \<Rightarrow> asm_op" where
  "add_reg_imm dst imm =
    binop_reg_imm32 0 dst imm"

definition sub_reg_imm :: "string \<Rightarrow> int \<Rightarrow> asm_op" where
  "sub_reg_imm dst imm =
    binop_reg_imm32 5 dst imm"

definition and_reg_imm :: "string \<Rightarrow> int \<Rightarrow> asm_op" where
  "and_reg_imm dst imm =
    binop_reg_imm32 4 dst imm"

definition or_reg_imm :: "string \<Rightarrow> int \<Rightarrow> asm_op" where
  "or_reg_imm dst imm =
    binop_reg_imm32 1 dst imm"

definition xor_reg_imm :: "string \<Rightarrow> int \<Rightarrow> asm_op" where
  "xor_reg_imm dst imm =
    binop_reg_imm32 6 dst imm"

definition cmp_reg_imm :: "string \<Rightarrow> int \<Rightarrow> asm_op" where
  "cmp_reg_imm dst imm =
    binop_reg_imm32 7 dst imm"

definition imul_reg_reg :: "string \<Rightarrow> string \<Rightarrow> asm_op" where
  "imul_reg_reg dst src =
    with_reg dst (\<lambda>d. with_reg src (\<lambda>s.
      emits [u8 (rex 1 (drop_bit 3 d) 0 (drop_bit 3 s)), 0x0F, 0xAF,
        u8 (modrm 3 (d AND 7) (s AND 7))]))"

definition idiv_reg :: "string \<Rightarrow> asm_op" where
  "idiv_reg src =
    with_reg src (\<lambda>s.
      emits [u8 (rex 1 0 0 (drop_bit 3 s)), u8 0xF7, u8 (modrm 3 7 (s AND 7))])"

definition cqo :: "asm_op" where
  "cqo =
    emits [0x48, 0x99]"

definition not_reg :: "string \<Rightarrow> asm_op" where
  "not_reg r =
    with_reg r (\<lambda>rr.
      emits [u8 (rex 1 0 0 (drop_bit 3 rr)), u8 0xF7, u8 (modrm 3 2 (rr AND 7))])"

definition neg_reg :: "string \<Rightarrow> asm_op" where
  "neg_reg r =
    with_reg r (\<lambda>rr.
      emits [u8 (rex 1 0 0 (drop_bit 3 rr)), u8 0xF7, u8 (modrm 3 3 (rr AND 7))])"

definition inc_reg :: "string \<Rightarrow> asm_op" where
  "inc_reg r =
    with_reg r (\<lambda>rr.
      emits [u8 (rex 1 0 0 (drop_bit 3 rr)), u8 0xFF, u8 (modrm 3 0 (rr AND 7))])"

definition dec_reg :: "string \<Rightarrow> asm_op" where
  "dec_reg r =
    with_reg r (\<lambda>rr.
      emits [u8 (rex 1 0 0 (drop_bit 3 rr)), u8 0xFF, u8 (modrm 3 1 (rr AND 7))])"

definition shl_reg_imm8 :: "string \<Rightarrow> int \<Rightarrow> asm_op" where
  "shl_reg_imm8 r imm =
    with_reg r (\<lambda>rr.
      emits [u8 (rex 1 0 0 (drop_bit 3 rr)), u8 0xC1, u8 (modrm 3 4 (rr AND 7)), u8 (imm AND 0x3F)])"

definition shr_reg_imm8 :: "string \<Rightarrow> int \<Rightarrow> asm_op" where
  "shr_reg_imm8 r imm =
    with_reg r (\<lambda>rr.
      emits [u8 (rex 1 0 0 (drop_bit 3 rr)), u8 0xC1, u8 (modrm 3 5 (rr AND 7)), u8 (imm AND 0x3F)])"

definition rol_reg_imm8 :: "string \<Rightarrow> int \<Rightarrow> asm_op" where
  "rol_reg_imm8 r imm =
    with_reg r (\<lambda>rr.
      emits [u8 (rex 1 0 0 (drop_bit 3 rr)), u8 0xC1, u8 (modrm 3 0 (rr AND 7)), u8 (imm AND 0x3F)])"

definition ror_reg_imm8 :: "string \<Rightarrow> int \<Rightarrow> asm_op" where
  "ror_reg_imm8 r imm =
    with_reg r (\<lambda>rr.
      emits [u8 (rex 1 0 0 (drop_bit 3 rr)), u8 0xC1, u8 (modrm 3 1 (rr AND 7)), u8 (imm AND 0x3F)])"

definition shl_reg_cl :: "string \<Rightarrow> asm_op" where
  "shl_reg_cl r =
    with_reg r (\<lambda>rr.
      emits [u8 (rex 1 0 0 (drop_bit 3 rr)), u8 0xD3, u8 (modrm 3 4 (rr AND 7))])"

definition shr_reg_cl :: "string \<Rightarrow> asm_op" where
  "shr_reg_cl r =
    with_reg r (\<lambda>rr.
      emits [u8 (rex 1 0 0 (drop_bit 3 rr)), u8 0xD3, u8 (modrm 3 5 (rr AND 7))])"

definition rol_reg_cl :: "string \<Rightarrow> asm_op" where
  "rol_reg_cl r =
    with_reg r (\<lambda>rr.
      emits [u8 (rex 1 0 0 (drop_bit 3 rr)), u8 0xD3, u8 (modrm 3 0 (rr AND 7))])"

definition ror_reg_cl :: "string \<Rightarrow> asm_op" where
  "ror_reg_cl r =
    with_reg r (\<lambda>rr.
      emits [u8 (rex 1 0 0 (drop_bit 3 rr)), u8 0xD3, u8 (modrm 3 1 (rr AND 7))])"

definition jmp :: "string \<Rightarrow> asm_op" where
  "jmp target =
    seqE [emits [0xE9], emit_rel32_fixup target]"

definition call :: "string \<Rightarrow> asm_op" where
  "call target =
    seqE [emits [0xE8], emit_rel32_fixup target]"

definition ret :: "asm_op" where
  "ret =
    emits [0xC3]"

definition leave :: "asm_op" where
  "leave =
    emits [0xC9]"

definition push_reg :: "string \<Rightarrow> asm_op" where
  "push_reg r =
    with_reg r (\<lambda>rr.
      seqE [(if rr \<ge> 8 then emits [u8 (rex 0 0 0 1)]
       else skip_op), emits [u8 (0x50 + (rr AND 7))]])"

definition pop_reg :: "string \<Rightarrow> asm_op" where
  "pop_reg r =
    with_reg r (\<lambda>rr.
      seqE [(if rr \<ge> 8 then emits [u8 (rex 0 0 0 1)]
       else skip_op), emits [u8 (0x58 + (rr AND 7))]])"

definition syscall :: "asm_op" where
  "syscall =
    emits [0x0F, 0x05]"

definition nop :: "asm_op" where
  "nop =
    emits [0x90]"

definition movzx_reg_reg :: "string \<Rightarrow> string \<Rightarrow> int \<Rightarrow> asm_op" where
  "movzx_reg_reg dst src sz =
    with_reg dst (\<lambda>d. with_reg src (\<lambda>s.
      emits [u8 (rex 1 (drop_bit 3 d) 0 (drop_bit 3 s)), 0x0F, u8 (if sz = 8
        then 0xB6 else 0xB7), u8 (modrm 3 (d AND 7) (s AND 7))]))"

definition movsx_reg_reg :: "string \<Rightarrow> string \<Rightarrow> int \<Rightarrow> asm_op" where
  "movsx_reg_reg dst src sz =
    with_reg dst (\<lambda>d. with_reg src (\<lambda>s.
      emits [u8 (rex 1 (drop_bit 3 d) 0 (drop_bit 3 s)), 0x0F, u8 (if sz = 8
        then 0xBE else 0xBF), u8 (modrm 3 (d AND 7) (s AND 7))]))"

definition cld :: "asm_op" where
  "cld =
    emits [0xFC]"

definition std :: "asm_op" where
  "std =
    emits [0xFD]"

definition hlt :: "asm_op" where
  "hlt =
    emits [0xF4]"

definition lea_reg_label :: "string \<Rightarrow> string \<Rightarrow> asm_op" where
  "lea_reg_label dst target =
    with_reg dst (\<lambda>d.
      seqE [emits [u8 (rex 1 (drop_bit 3 d) 0 0), u8 0x8D, u8 (modrm 0 (d AND 7) 5)],
        emit_rel32_fixup target])"

definition fld_m64 :: "string \<Rightarrow> int \<Rightarrow> asm_op" where
  "fld_m64 base disp =
    fpu_mem_op 0xDD 0 base disp"

definition fstp_m64 :: "string \<Rightarrow> int \<Rightarrow> asm_op" where
  "fstp_m64 base disp =
    fpu_mem_op 0xDD 3 base disp"

definition fild_m64 :: "string \<Rightarrow> int \<Rightarrow> asm_op" where
  "fild_m64 base disp =
    fpu_mem_op 0xDF 5 base disp"

definition fistp_m64 :: "string \<Rightarrow> int \<Rightarrow> asm_op" where
  "fistp_m64 base disp =
    fpu_mem_op 0xDF 7 base disp"

definition faddp :: "asm_op" where
  "faddp =
    emits [0xDE, 0xC1]"

definition fsubp :: "asm_op" where
  "fsubp =
    emits [0xDE, 0xE9]"

definition fmulp :: "asm_op" where
  "fmulp =
    emits [0xDE, 0xC9]"

definition fdivp :: "asm_op" where
  "fdivp =
    emits [0xDE, 0xF9]"

definition fcomip :: "asm_op" where
  "fcomip =
    emits [0xDF, 0xF1]"

definition fstsw_ax :: "asm_op" where
  "fstsw_ax =
    emits [0xDF, 0xE0]"

definition fxch :: "asm_op" where
  "fxch =
    emits [0xD9, 0xC9]"

definition sse_binop_xmm_xmm :: "int \<Rightarrow> string \<Rightarrow> string \<Rightarrow> asm_op" where
  "sse_binop_xmm_xmm opcode2 dst src =
    with_xmm dst (\<lambda>d.
      with_xmm src (\<lambda>s.
      emits [0x0F, u8 opcode2, u8 (modrm 3 (d AND 7) (s AND 7))]))"

definition addps :: "string \<Rightarrow> string \<Rightarrow> asm_op" where
  "addps dst src =
    sse_binop_xmm_xmm 0x58 dst src"

definition subps :: "string \<Rightarrow> string \<Rightarrow> asm_op" where
  "subps dst src =
    sse_binop_xmm_xmm 0x5C dst src"

definition mulps :: "string \<Rightarrow> string \<Rightarrow> asm_op" where
  "mulps dst src =
    sse_binop_xmm_xmm 0x59 dst src"

definition divps :: "string \<Rightarrow> string \<Rightarrow> asm_op" where
  "divps dst src =
    sse_binop_xmm_xmm 0x5E dst src"

definition movaps_xmm_xmm :: "string \<Rightarrow> string \<Rightarrow> asm_op" where
  "movaps_xmm_xmm dst src =
    sse_binop_xmm_xmm 0x28 dst src"

definition sse_pd_binop :: "int \<Rightarrow> int \<Rightarrow> string \<Rightarrow> string \<Rightarrow> asm_op" where
  "sse_pd_binop opcode_prefix_byte opcode2 dst src =
    with_xmm dst (\<lambda>d.
      with_xmm src (\<lambda>s.
      emits [u8 0x66, 0x0F, u8 opcode2, u8 (modrm 3 (d AND 7) (s AND 7))]))"

definition addpd :: "string \<Rightarrow> string \<Rightarrow> asm_op" where
  "addpd dst src =
    sse_pd_binop 0x66 0x58 dst src"

definition subpd :: "string \<Rightarrow> string \<Rightarrow> asm_op" where
  "subpd dst src =
    sse_pd_binop 0x66 0x5C dst src"

definition mulpd :: "string \<Rightarrow> string \<Rightarrow> asm_op" where
  "mulpd dst src =
    sse_pd_binop 0x66 0x59 dst src"

definition divpd :: "string \<Rightarrow> string \<Rightarrow> asm_op" where
  "divpd dst src =
    sse_pd_binop 0x66 0x5E dst src"

definition paddd :: "string \<Rightarrow> string \<Rightarrow> asm_op" where
  "paddd dst src =
    with_xmm dst (\<lambda>d.
      with_xmm src (\<lambda>s.
      emits [u8 0x66, 0x0F, 0xFE, u8 (modrm 3 (d AND 7) (s AND 7))]))"

definition psubd :: "string \<Rightarrow> string \<Rightarrow> asm_op" where
  "psubd dst src =
    with_xmm dst (\<lambda>d.
      with_xmm src (\<lambda>s.
      emits [u8 0x66, 0x0F, 0xFA, u8 (modrm 3 (d AND 7) (s AND 7))]))"

definition shufps :: "string \<Rightarrow> string \<Rightarrow> int \<Rightarrow> asm_op" where
  "shufps dst src imm8 =
    with_xmm dst (\<lambda>d.
      with_xmm src (\<lambda>s.
      emits [0x0F, 0xC6, u8 (modrm 3 (d AND 7) (s AND 7)), u8 (imm8 AND 0xFF)]))"

end
