(* ===== verification/Encode_Isa.thy ===== *)
theory Encode_Isa
  imports Encode
begin

section \<open>Instruction methods, second half (ACLM/x64enc.py, the ISA batches)\<close>

text \<open>
  The atomics, AVX, BMI, system and prefix operations, again one definition per method.
  \<open>enter_imm\<close> and \<open>ret_imm16\<close> call a helper \<open>_u16\<close> that the module never defines: the call is
  the \<open>NameError\<close> it raises.
\<close>

subsection \<open>Vector register numbers\<close>

text \<open>Python's \<open>int(s)\<close> on an ASCII string: blanks around, an optional sign, decimal digits with
  single underscores between them; \<open>None\<close> is the \<open>ValueError\<close>.\<close>

definition digit_of :: "char \<Rightarrow> int option" where
  "digit_of c =
    (let n = (of_char c :: int) in if 48 \<le> n \<and> n \<le> 57 then Some (n - 48) else None)"

fun digits_int :: "int \<Rightarrow> bool \<Rightarrow> string \<Rightarrow> int option" where
  "digits_int acc after_digit [] = (if after_digit then Some acc else None)"
| "digits_int acc after_digit (c # cs) =
    (if c = CHR ''_'' then (if after_digit then digits_int acc False cs else None)
     else case digit_of c of None \<Rightarrow> None | Some d \<Rightarrow> digits_int (10 * acc + d) True cs)"

definition py_int :: "string \<Rightarrow> int option" where
  "py_int s =
    (case py_strip s of
       [] \<Rightarrow> None
     | c # cs \<Rightarrow> if c = CHR ''-'' then map_option uminus (digits_int 0 False cs)
                else if c = CHR ''+'' then digits_int 0 False cs
                else digits_int 0 False (c # cs))"

definition ymm_num :: "string \<Rightarrow> int res" where
  "ymm_num name =
    (let n = py_lower name in
     if take 3 n = ''ymm'' \<or> take 3 n = ''xmm'' then
       (case py_int (drop 3 n) of None \<Rightarrow> Inl (BadVectorReg name) | Some i \<Rightarrow> Inr i)
     else Inl (BadVectorReg name))"

definition with_ymm :: "string \<Rightarrow> (int \<Rightarrow> asm_op) \<Rightarrow> asm_op" where
  "with_ymm name f a = bindE (ymm_num name) (\<lambda>d. f d a)"

subsection \<open>Memory forms with an 8-bit displacement\<close>

definition lock_cmpxchg_mem :: "string \<Rightarrow> int \<Rightarrow> string \<Rightarrow> asm_op" where
  "lock_cmpxchg_mem base disp src =
    with_reg src (\<lambda>r. with_reg base (\<lambda>b.
      (let rex0 = 0x48 OR (if r \<ge> 8 then 4 else 0) OR (if b \<ge> 8 then 1 else 0);
           rm = b AND 7;
           reg = r AND 7;
           need_disp = (disp \<noteq> 0 \<or> rm = 5) in
       seqE [emits [u8 0xF0, u8 rex0, 0x0F, 0xB1],
             (if rm = 4 then
                (let mod' = (if need_disp \<or> disp \<noteq> 0 then 1 else 0);
                     mod'' = (if disp \<noteq> 0 \<or> rm = 5 then 1 else mod') in
                 seqE [emits [u8 (modrm mod'' reg 4), u8 (push_bit 6 0 OR push_bit 3 4 OR rm)],
                       (if mod'' = 1 then emits [u8 (disp AND 0xFF)] else skip_op)])
              else if need_disp then emits [u8 (modrm 1 reg rm), u8 (disp AND 0xFF)]
              else emits [u8 (modrm 0 reg rm)])])))"

definition lea_reg_mem :: "string \<Rightarrow> string \<Rightarrow> int \<Rightarrow> string option \<Rightarrow> int \<Rightarrow> asm_op" where
  "lea_reg_mem dst base disp index scale =
    with_reg dst (\<lambda>d. with_reg base (\<lambda>b.
      (case index of
         Some i \<Rightarrow> with_reg i (\<lambda>ix.
           (let sc = (case map_of [(1, 0), (2, 1), (4, 2), (8, 3)] scale of None \<Rightarrow> 0 | Some s \<Rightarrow> s);
                rex_v = 0x48 OR push_bit 2 (drop_bit 3 d) OR push_bit 1 (drop_bit 3 ix) OR drop_bit 3 b;
                mod' = (if disp \<noteq> 0 \<or> b AND 7 = 5 then 1 else 0) in
            seqE [emits [u8 rex_v, u8 0x8D, u8 (modrm mod' (d AND 7) 4),
                         u8 (push_bit 6 sc OR push_bit 3 (ix AND 7) OR (b AND 7))],
                  (if mod' = 1 then emits [u8 (disp AND 0xFF)] else skip_op)]))
       | None \<Rightarrow>
           (let rex_v = 0x48 OR push_bit 2 (drop_bit 3 d) OR drop_bit 3 b;
                rm = b AND 7 in
            seqE [emits [u8 rex_v, u8 0x8D],
                  (if rm = 4 then
                     (let mod' = (if disp \<noteq> 0 then 1 else 0) in
                      seqE [emits [u8 (modrm mod' (d AND 7) 4), u8 (push_bit 6 0 OR push_bit 3 4 OR rm)],
                            (if mod' = 1 then emits [u8 (disp AND 0xFF)] else skip_op)])
                   else if disp \<noteq> 0 \<or> rm = 5 then
                     emits [u8 (modrm 1 (d AND 7) rm), u8 (disp AND 0xFF)]
                   else emits [u8 (modrm 0 (d AND 7) rm)])]))))"

definition CMOV_OPCODE :: "(string \<times> int) list" where
  "CMOV_OPCODE =
    [(''eq'', 0x44), (''neq'', 0x45), (''lt'', 0x4C), (''gt'', 0x4F),
     (''lte'', 0x4E), (''gte'', 0x4D), (''below'', 0x42), (''above'', 0x47),
     (''abe'', 0x43), (''ae'', 0x43), (''be'', 0x46), (''ble'', 0x46)]"

definition cmov_reg_reg :: "string \<Rightarrow> string \<Rightarrow> string \<Rightarrow> asm_op" where
  "cmov_reg_reg cond dst src =
    with_cond CMOV_OPCODE cond (\<lambda>opc. with_reg dst (\<lambda>d. with_reg src (\<lambda>s.
      emits [u8 (rex 1 (drop_bit 3 d) 0 (drop_bit 3 s)), 0x0F, u8 opc, u8 (modrm 3 (d AND 7) (s AND 7))])))"

definition cmov_reg_mem :: "string \<Rightarrow> string \<Rightarrow> string \<Rightarrow> int \<Rightarrow> asm_op" where
  "cmov_reg_mem cond dst base disp =
    (case map_of CMOV_OPCODE cond of None \<Rightarrow> fail_op (BadCmovCond cond)
     | Some opc \<Rightarrow> with_reg dst (\<lambda>d. with_reg base (\<lambda>b.
         (let rm = b AND 7 in
          seqE [emits [u8 (rex 1 (drop_bit 3 d) 0 (drop_bit 3 b)), 0x0F, u8 opc],
                (if disp = 0 \<and> rm \<noteq> 5 then emits [u8 (modrm 0 (d AND 7) rm)]
                 else emits [u8 (modrm 1 (d AND 7) rm), u8 (disp AND 0xFF)])]))))"

definition nop_multi :: "int \<Rightarrow> asm_op" where
  "nop_multi n = seqE (replicate (nat (max 1 n)) nop)"

definition seto_reg :: "string \<Rightarrow> asm_op" where
  "seto_reg dst = setcc_reg ''overflow'' dst"

subsection \<open>Register, VEX, system and prefix forms\<close>

definition xchg_mem_reg :: "string \<Rightarrow> int \<Rightarrow> string \<Rightarrow> asm_op" where
  "xchg_mem_reg base disp reg =
    with_reg reg (\<lambda>r.
      with_reg base (\<lambda>b.
      (let rex0 = 0x48 OR (push_bit 2 (drop_bit 3 r)) OR (drop_bit 3 b) in
      seqE [emits [u8 rex0, u8 0x87], (if disp = 0 \<and> b AND 7 \<noteq> 5
        then emits [u8 (modrm 0 (r AND 7) (b AND 7))]
       else emits [u8 (modrm 1 (r AND 7) (b AND 7)), u8 (disp AND 0xFF)])])))"

definition haddps :: "string \<Rightarrow> string \<Rightarrow> asm_op" where
  "haddps dst src =
    with_xmm dst (\<lambda>d. with_xmm src (\<lambda>s.
      emits [u8 0xF2, 0x0F, 0x7C, u8 (modrm 3 (d AND 7) (s AND 7))]))"

definition blendps :: "string \<Rightarrow> string \<Rightarrow> int \<Rightarrow> asm_op" where
  "blendps dst src imm8 =
    with_xmm dst (\<lambda>d. with_xmm src (\<lambda>s.
      emits [u8 0x66, 0x0F, 0x3A, 0x0C, u8 (modrm 3 (d AND 7) (s AND 7)), u8 (imm8 AND 0xFF)]))"

definition vex_nnds_ps :: "int \<Rightarrow> string \<Rightarrow> string \<Rightarrow> string \<Rightarrow> asm_op" where
  "vex_nnds_ps opcode dst src1 src2 =
    with_ymm dst (\<lambda>d.
      with_ymm src1 (\<lambda>s1.
      with_ymm src2 (\<lambda>s2.
      (let R = (if d < 8 then 1 else 0 :: int);
          X = (1 :: int);
          B = (if s2 < 8 then 1 else 0 :: int);
          map' = (1 :: int);
          W = (0 :: int);
          vvvv = (NOT s1) AND 0xF;
          L = (1 :: int);
          pp = (0 :: int) in
      emits [u8 0xC4, u8 ((push_bit 7 R) OR (push_bit 6 X) OR (push_bit 5 B) OR map'),
        u8 ((push_bit 7 W) OR (push_bit 3 vvvv) OR (push_bit 2 L) OR pp), u8 opcode,
          u8 (modrm 3 (d AND 7) (s2 AND 7))]))))"

definition vaddps :: "string \<Rightarrow> string \<Rightarrow> string option \<Rightarrow> asm_op" where
  "vaddps dst src1 src2 =
    (case src2 of None \<Rightarrow> vex_nnds_ps 0x58 dst dst src1
     | Some s2 \<Rightarrow> vex_nnds_ps 0x58 dst src1 s2)"

definition vsubps :: "string \<Rightarrow> string \<Rightarrow> string option \<Rightarrow> asm_op" where
  "vsubps dst src1 src2 =
    (case src2 of None \<Rightarrow> vex_nnds_ps 0x5C dst dst src1
     | Some s2 \<Rightarrow> vex_nnds_ps 0x5C dst src1 s2)"

definition vmulps :: "string \<Rightarrow> string \<Rightarrow> string option \<Rightarrow> asm_op" where
  "vmulps dst src1 src2 =
    (case src2 of None \<Rightarrow> vex_nnds_ps 0x59 dst dst src1
     | Some s2 \<Rightarrow> vex_nnds_ps 0x59 dst src1 s2)"

definition vdivps :: "string \<Rightarrow> string \<Rightarrow> string option \<Rightarrow> asm_op" where
  "vdivps dst src1 src2 =
    (case src2 of None \<Rightarrow> vex_nnds_ps 0x5E dst dst src1
     | Some s2 \<Rightarrow> vex_nnds_ps 0x5E dst src1 s2)"

definition vmovups_load :: "string \<Rightarrow> string \<Rightarrow> int \<Rightarrow> asm_op" where
  "vmovups_load dst base disp =
    with_ymm dst (\<lambda>d.
      with_reg base (\<lambda>b.
      (let R = (if d < 8 then 1 else 0 :: int);
          B = (if b < 8 then 1 else 0 :: int) in
      seqE [emits [u8 0xC5, u8 ((push_bit 7 R) OR (push_bit 3 0xF) OR (push_bit 2 1) OR 0),
        u8 0x10], (let rm = b AND 7 in
      (if rm = 5 \<or> disp \<noteq> 0 then emits [u8 (modrm 1 (d AND 7) rm), u8 (disp AND 0xFF)]
       else (if rm = 4 then emits [u8 (modrm 0 (d AND 7) 4),
         u8 ((push_bit 6 0) OR (push_bit 3 4) OR rm)]
       else emits [u8 (modrm 0 (d AND 7) rm)])))])))"

definition vmovups_store :: "string \<Rightarrow> string \<Rightarrow> int \<Rightarrow> asm_op" where
  "vmovups_store base src disp =
    with_ymm src (\<lambda>s.
      with_reg base (\<lambda>b.
      (let R = (if s < 8 then 1 else 0 :: int);
          B = (if b < 8 then 1 else 0 :: int) in
      seqE [emits [u8 0xC5, u8 ((push_bit 7 R) OR (push_bit 3 0xF) OR (push_bit 2 1) OR 0),
        u8 0x11], (let rm = b AND 7 in
      (if rm = 5 \<or> disp \<noteq> 0 then emits [u8 (modrm 1 (s AND 7) rm), u8 (disp AND 0xFF)]
       else (if rm = 4 then emits [u8 (modrm 0 (s AND 7) 4),
         u8 ((push_bit 6 0) OR (push_bit 3 4) OR rm)]
       else emits [u8 (modrm 0 (s AND 7) rm)])))])))"

definition rdtsc :: "asm_op" where
  "rdtsc =
    emits [0x0F, 0x31]"

definition cpuid :: "asm_op" where
  "cpuid =
    emits [0x0F, 0xA2]"

definition mfence :: "asm_op" where
  "mfence =
    emits [0x0F, 0xAE, 0xF0]"

definition lfence :: "asm_op" where
  "lfence =
    emits [0x0F, 0xAE, 0xE8]"

definition sfence :: "asm_op" where
  "sfence =
    emits [0x0F, 0xAE, 0xF8]"

definition cli :: "asm_op" where
  "cli =
    emits [0xFA]"

definition sti :: "asm_op" where
  "sti =
    emits [0xFB]"

definition in_al_dx :: "asm_op" where
  "in_al_dx =
    emits [0xEC]"

definition out_dx_al :: "asm_op" where
  "out_dx_al =
    emits [0xEE]"

definition xchg_reg_reg :: "string \<Rightarrow> string \<Rightarrow> asm_op" where
  "xchg_reg_reg a b =
    with_reg a (\<lambda>ra. with_reg b (\<lambda>rb.
      (if a = b then skip_op
       else (if ra = 0 then seqE [(if rb \<ge> 8 then emits [u8 0x49]
       else emits [u8 0x48]), emits [u8 (0x90 + (rb AND 7))]]
       else (if rb = 0 then seqE [(if ra \<ge> 8 then emits [u8 0x49]
       else emits [u8 0x48]), emits [u8 (0x90 + (ra AND 7))]]
       else emits [u8 (rex 1 (drop_bit 3 ra) 0 (drop_bit 3 rb)), u8 0x87,
         u8 (modrm 3 (ra AND 7) (rb AND 7))])))))"

definition xadd_reg_reg :: "string \<Rightarrow> string \<Rightarrow> asm_op" where
  "xadd_reg_reg dst src =
    with_reg dst (\<lambda>d. with_reg src (\<lambda>s.
      emits [u8 (rex 1 (drop_bit 3 s) 0 (drop_bit 3 d)), 0x0F, 0xC1,
        u8 (modrm 3 (s AND 7) (d AND 7))]))"

definition bsf_reg_reg :: "string \<Rightarrow> string \<Rightarrow> asm_op" where
  "bsf_reg_reg dst src =
    with_reg dst (\<lambda>d. with_reg src (\<lambda>s.
      emits [u8 (rex 1 (drop_bit 3 d) 0 (drop_bit 3 s)), 0x0F, 0xBC,
        u8 (modrm 3 (d AND 7) (s AND 7))]))"

definition bsr_reg_reg :: "string \<Rightarrow> string \<Rightarrow> asm_op" where
  "bsr_reg_reg dst src =
    with_reg dst (\<lambda>d. with_reg src (\<lambda>s.
      emits [u8 (rex 1 (drop_bit 3 d) 0 (drop_bit 3 s)), 0x0F, 0xBD,
        u8 (modrm 3 (d AND 7) (s AND 7))]))"

definition bt_reg_reg :: "string \<Rightarrow> string \<Rightarrow> asm_op" where
  "bt_reg_reg base offset =
    with_reg base (\<lambda>b. with_reg offset (\<lambda>ofs.
      emits [u8 (rex 1 (drop_bit 3 ofs) 0 (drop_bit 3 b)), 0x0F, 0xA3,
        u8 (modrm 3 (ofs AND 7) (b AND 7))]))"

definition rep_stosb :: "asm_op" where
  "rep_stosb =
    emits [0xF3, 0xAA]"

definition rep_movsb :: "asm_op" where
  "rep_movsb =
    emits [0xF3, 0xA4]"

definition vshufps :: "string \<Rightarrow> string \<Rightarrow> int \<Rightarrow> asm_op" where
  "vshufps dst src imm8 =
    with_ymm dst (\<lambda>d.
      with_ymm src (\<lambda>s.
      (let R = (if d < 8 then 1 else 0 :: int);
          B = (if s < 8 then 1 else 0 :: int);
          vvvv = (NOT d) AND 0xF in
      emits [u8 0xC4, u8 ((push_bit 7 R) OR (push_bit 6 1) OR (push_bit 5 B) OR 1),
        u8 ((push_bit 7 0) OR (push_bit 3 vvvv) OR (push_bit 2 1) OR 0), u8 0xC6,
          u8 (modrm 3 (d AND 7) (s AND 7)), u8 (imm8 AND 0xFF)])))"

definition vbroadcastss :: "string \<Rightarrow> string \<Rightarrow> asm_op" where
  "vbroadcastss dst src_xmm =
    with_ymm dst (\<lambda>d.
      with_ymm src_xmm (\<lambda>s.
      (let R = (if d < 8 then 1 else 0 :: int);
          B = (if s < 8 then 1 else 0 :: int) in
      emits [u8 0xC4, u8 ((push_bit 7 R) OR (push_bit 6 1) OR (push_bit 5 B) OR 2),
        u8 ((push_bit 7 0) OR (push_bit 3 0xF) OR (push_bit 2 1) OR 1), u8 0x18,
          u8 (modrm 3 (d AND 7) (s AND 7))])))"

definition shld_reg_reg :: "string \<Rightarrow> string \<Rightarrow> bool \<Rightarrow> asm_op" where
  "shld_reg_reg dst src count_cl =
    with_reg dst (\<lambda>d. with_reg src (\<lambda>s.
      emits [u8 (rex 1 (drop_bit 3 s) 0 (drop_bit 3 d)), 0x0F, 0xA5,
        u8 (modrm 3 (s AND 7) (d AND 7))]))"

definition shrd_reg_reg :: "string \<Rightarrow> string \<Rightarrow> asm_op" where
  "shrd_reg_reg dst src =
    with_reg dst (\<lambda>d. with_reg src (\<lambda>s.
      emits [u8 (rex 1 (drop_bit 3 s) 0 (drop_bit 3 d)), 0x0F, 0xAD,
        u8 (modrm 3 (s AND 7) (d AND 7))]))"

definition imul_reg_imm :: "string \<Rightarrow> int \<Rightarrow> asm_op" where
  "imul_reg_imm dst imm =
    with_reg dst (\<lambda>d.
      emits ([u8 (rex 1 (drop_bit 3 d) 0 (drop_bit 3 d)), u8 0x69,
        u8 (modrm 3 (d AND 7) (d AND 7))] @ u32 (imm AND 0xFFFFFFFF)))"

definition cmpxchg16b_mem :: "string \<Rightarrow> int \<Rightarrow> asm_op" where
  "cmpxchg16b_mem base disp =
    with_reg base (\<lambda>b.
      seqE [emits [u8 0xF0], (let rex_b = 0x48 OR ((drop_bit 3 b) AND 1) in
      seqE [emits [u8 rex_b, 0x0F, 0xC7], (let rm = b AND 7 in
      (if disp = 0 \<and> rm \<noteq> 5 then emits [u8 (modrm 0 1 rm)]
       else emits [u8 (modrm 1 1 rm), u8 (disp AND 0xFF)]))])])"

definition andn_reg_reg :: "string \<Rightarrow> string \<Rightarrow> string \<Rightarrow> asm_op" where
  "andn_reg_reg dst src1 src2 =
    with_reg dst (\<lambda>d. with_reg src1 (\<lambda>s1. with_reg src2 (\<lambda>s2.
      (let R = (if d < 8 then 1 else 0 :: int);
          B = (if s2 < 8 then 1 else 0 :: int);
          X = (1 :: int);
          vvvv = (NOT s1) AND 0xF in
      emits [u8 0xC4, u8 ((push_bit 7 R) OR (push_bit 6 X) OR (push_bit 5 B) OR 2),
        u8 ((push_bit 7 1) OR (push_bit 3 vvvv) OR 0), u8 0xF2, u8 (modrm 3 (d AND 7) (s2 AND 7))]))))"

definition bzhi_reg_reg :: "string \<Rightarrow> string \<Rightarrow> string \<Rightarrow> asm_op" where
  "bzhi_reg_reg dst src ctrl =
    with_reg dst (\<lambda>d. with_reg src (\<lambda>s. with_reg ctrl (\<lambda>c.
      (let R = (if d < 8 then 1 else 0 :: int);
          B = (if s < 8 then 1 else 0 :: int);
          vvvv = (NOT c) AND 0xF in
      emits [u8 0xC4, u8 ((push_bit 7 R) OR (push_bit 6 1) OR (push_bit 5 B) OR 2),
        u8 ((push_bit 7 1) OR (push_bit 3 vvvv) OR 0), u8 0xF5, u8 (modrm 3 (d AND 7) (s AND 7))]))))"

definition lock_prefix :: "asm_op" where
  "lock_prefix =
    emits [u8 0xF0]"

definition rep_prefix :: "asm_op" where
  "rep_prefix =
    emits [u8 0xF3]"

definition xchg_reg_mem :: "string \<Rightarrow> string \<Rightarrow> int \<Rightarrow> asm_op" where
  "xchg_reg_mem reg base disp =
    with_reg reg (\<lambda>r. with_reg base (\<lambda>b.
      seqE [emits [u8 (rex 1 (drop_bit 3 r) 0 (drop_bit 3 b)), u8 0x87], (let rm = b AND 7 in
      (if disp = 0 \<and> rm \<noteq> 5 then emits [u8 (modrm 0 (r AND 7) rm)]
       else emits [u8 (modrm 1 (r AND 7) rm), u8 (disp AND 0xFF)]))]))"

definition adc_reg_reg :: "string \<Rightarrow> string \<Rightarrow> asm_op" where
  "adc_reg_reg dst src =
    binop_reg_reg 0x11 dst src"

definition sbb_reg_reg :: "string \<Rightarrow> string \<Rightarrow> asm_op" where
  "sbb_reg_reg dst src =
    binop_reg_reg 0x19 dst src"

definition bswap_reg :: "string \<Rightarrow> asm_op" where
  "bswap_reg r =
    with_reg r (\<lambda>n.
      emits [u8 (rex 1 0 0 (drop_bit 3 n)), 0x0F, u8 (0xC8 + (n AND 7))])"

definition clc :: "asm_op" where
  "clc =
    emits [u8 0xF8]"

definition stc :: "asm_op" where
  "stc =
    emits [u8 0xF9]"

definition cmc :: "asm_op" where
  "cmc =
    emits [u8 0xF5]"

definition pause :: "asm_op" where
  "pause =
    emits [0xF3, 0x90]"

definition int3 :: "asm_op" where
  "int3 =
    emits [u8 0xCC]"

definition ud2 :: "asm_op" where
  "ud2 =
    emits [0x0F, 0x0B]"

definition cdq :: "asm_op" where
  "cdq =
    emits [u8 0x99]"

definition mul_reg :: "string \<Rightarrow> asm_op" where
  "mul_reg src =
    with_reg src (\<lambda>s.
      emits [u8 (rex 1 0 0 (drop_bit 3 s)), u8 0xF7, u8 (modrm 3 4 (s AND 7))])"

definition div_reg :: "string \<Rightarrow> asm_op" where
  "div_reg src =
    with_reg src (\<lambda>s.
      emits [u8 (rex 1 0 0 (drop_bit 3 s)), u8 0xF7, u8 (modrm 3 6 (s AND 7))])"

definition test_reg_imm32 :: "string \<Rightarrow> int \<Rightarrow> asm_op" where
  "test_reg_imm32 dst imm =
    with_reg dst (\<lambda>d.
      emits ([u8 (rex 1 0 0 (drop_bit 3 d)), u8 0xF7, u8 (modrm 3 0 (d AND 7))]
        @ u32 (imm AND 0xFFFFFFFF)))"

definition bts_reg_reg :: "string \<Rightarrow> string \<Rightarrow> asm_op" where
  "bts_reg_reg base offset =
    with_reg base (\<lambda>b. with_reg offset (\<lambda>ofs.
      emits [u8 (rex 1 (drop_bit 3 ofs) 0 (drop_bit 3 b)), 0x0F, 0xAB,
        u8 (modrm 3 (ofs AND 7) (b AND 7))]))"

definition btr_reg_reg :: "string \<Rightarrow> string \<Rightarrow> asm_op" where
  "btr_reg_reg base offset =
    with_reg base (\<lambda>b. with_reg offset (\<lambda>ofs.
      emits [u8 (rex 1 (drop_bit 3 ofs) 0 (drop_bit 3 b)), 0x0F, 0xB3,
        u8 (modrm 3 (ofs AND 7) (b AND 7))]))"

definition btc_reg_reg :: "string \<Rightarrow> string \<Rightarrow> asm_op" where
  "btc_reg_reg base offset =
    with_reg base (\<lambda>b. with_reg offset (\<lambda>ofs.
      emits [u8 (rex 1 (drop_bit 3 ofs) 0 (drop_bit 3 b)), 0x0F, 0xBB,
        u8 (modrm 3 (ofs AND 7) (b AND 7))]))"

definition popcnt_reg_reg :: "string \<Rightarrow> string \<Rightarrow> asm_op" where
  "popcnt_reg_reg dst src =
    with_reg dst (\<lambda>d. with_reg src (\<lambda>s.
      emits [u8 0xF3, u8 (rex 1 (drop_bit 3 d) 0 (drop_bit 3 s)), 0x0F, 0xB8,
        u8 (modrm 3 (d AND 7) (s AND 7))]))"

definition lzcnt_reg_reg :: "string \<Rightarrow> string \<Rightarrow> asm_op" where
  "lzcnt_reg_reg dst src =
    with_reg dst (\<lambda>d. with_reg src (\<lambda>s.
      emits [u8 0xF3, u8 (rex 1 (drop_bit 3 d) 0 (drop_bit 3 s)), 0x0F, 0xBD,
        u8 (modrm 3 (d AND 7) (s AND 7))]))"

definition tzcnt_reg_reg :: "string \<Rightarrow> string \<Rightarrow> asm_op" where
  "tzcnt_reg_reg dst src =
    with_reg dst (\<lambda>d. with_reg src (\<lambda>s.
      emits [u8 0xF3, u8 (rex 1 (drop_bit 3 d) 0 (drop_bit 3 s)), 0x0F, 0xBC,
        u8 (modrm 3 (d AND 7) (s AND 7))]))"

definition movsx_reg32_reg8 :: "string \<Rightarrow> string \<Rightarrow> asm_op" where
  "movsx_reg32_reg8 dst src =
    skip_op"

definition sar_reg_imm8 :: "string \<Rightarrow> int \<Rightarrow> asm_op" where
  "sar_reg_imm8 r imm =
    with_reg r (\<lambda>n.
      emits [u8 (rex 1 0 0 (drop_bit 3 n)), u8 0xC1, u8 (modrm 3 7 (n AND 7)), u8 (imm AND 0xFF)])"

definition sar_reg_cl :: "string \<Rightarrow> asm_op" where
  "sar_reg_cl r =
    with_reg r (\<lambda>n.
      emits [u8 (rex 1 0 0 (drop_bit 3 n)), u8 0xD3, u8 (modrm 3 7 (n AND 7))])"

definition rcl_reg_imm8 :: "string \<Rightarrow> int \<Rightarrow> asm_op" where
  "rcl_reg_imm8 r imm =
    with_reg r (\<lambda>n.
      emits [u8 (rex 1 0 0 (drop_bit 3 n)), u8 0xC1, u8 (modrm 3 2 (n AND 7)), u8 (imm AND 0xFF)])"

definition rcr_reg_imm8 :: "string \<Rightarrow> int \<Rightarrow> asm_op" where
  "rcr_reg_imm8 r imm =
    with_reg r (\<lambda>n.
      emits [u8 (rex 1 0 0 (drop_bit 3 n)), u8 0xC1, u8 (modrm 3 3 (n AND 7)), u8 (imm AND 0xFF)])"

definition cdqe :: "asm_op" where
  "cdqe =
    emits [u8 0x48, u8 0x98]"

definition pushfq :: "asm_op" where
  "pushfq =
    emits [u8 0x9C]"

definition popfq :: "asm_op" where
  "popfq =
    emits [u8 0x9D]"

definition movsxd_reg_reg :: "string \<Rightarrow> string \<Rightarrow> asm_op" where
  "movsxd_reg_reg dst src =
    with_reg dst (\<lambda>d. with_reg src (\<lambda>s.
      emits [u8 (rex 1 (drop_bit 3 d) 0 (drop_bit 3 s)), u8 0x63, u8 (modrm 3 (d AND 7) (s AND 7))]))"

definition rdtscp :: "asm_op" where
  "rdtscp =
    emits [0x0F, 0x01, 0xF9]"

definition endbr64 :: "asm_op" where
  "endbr64 =
    emits [0xF3, 0x0F, 0x1E, 0xFA]"

definition sal_reg_imm8 :: "string \<Rightarrow> int \<Rightarrow> asm_op" where
  "sal_reg_imm8 r imm =
    shl_reg_imm8 r imm"

definition sal_reg_cl :: "string \<Rightarrow> asm_op" where
  "sal_reg_cl r =
    shl_reg_cl r"

definition shlx_reg_reg :: "string \<Rightarrow> string \<Rightarrow> string \<Rightarrow> asm_op" where
  "shlx_reg_reg dst src cnt =
    with_reg dst (\<lambda>d. with_reg src (\<lambda>s. with_reg cnt (\<lambda>c.
      (let R = (if d < 8 then 1 else 0 :: int);
          B = (if s < 8 then 1 else 0 :: int);
          vvvv = (NOT c) AND 0xF in
      emits [u8 0xC4, u8 ((push_bit 7 R) OR (push_bit 6 1) OR (push_bit 5 B) OR 2),
        u8 ((push_bit 7 1) OR (push_bit 3 vvvv) OR 1), u8 0xF7, u8 (modrm 3 (d AND 7) (s AND 7))]))))"

definition shrx_reg_reg :: "string \<Rightarrow> string \<Rightarrow> string \<Rightarrow> asm_op" where
  "shrx_reg_reg dst src cnt =
    with_reg dst (\<lambda>d. with_reg src (\<lambda>s. with_reg cnt (\<lambda>c.
      (let R = (if d < 8 then 1 else 0 :: int);
          B = (if s < 8 then 1 else 0 :: int);
          vvvv = (NOT c) AND 0xF in
      emits [u8 0xC4, u8 ((push_bit 7 R) OR (push_bit 6 1) OR (push_bit 5 B) OR 2),
        u8 ((push_bit 7 1) OR (push_bit 3 vvvv) OR 3), u8 0xF7, u8 (modrm 3 (d AND 7) (s AND 7))]))))"

definition sarx_reg_reg :: "string \<Rightarrow> string \<Rightarrow> string \<Rightarrow> asm_op" where
  "sarx_reg_reg dst src cnt =
    with_reg dst (\<lambda>d. with_reg src (\<lambda>s. with_reg cnt (\<lambda>c.
      (let R = (if d < 8 then 1 else 0 :: int);
          B = (if s < 8 then 1 else 0 :: int);
          vvvv = (NOT c) AND 0xF in
      emits [u8 0xC4, u8 ((push_bit 7 R) OR (push_bit 6 1) OR (push_bit 5 B) OR 2),
        u8 ((push_bit 7 1) OR (push_bit 3 vvvv) OR 2), u8 0xF7, u8 (modrm 3 (d AND 7) (s AND 7))]))))"

definition rorx_reg_imm :: "string \<Rightarrow> string \<Rightarrow> int \<Rightarrow> asm_op" where
  "rorx_reg_imm dst src imm =
    with_reg dst (\<lambda>d. with_reg src (\<lambda>s.
      (let R = (if d < 8 then 1 else 0 :: int);
          B = (if s < 8 then 1 else 0 :: int) in
      emits [u8 0xC4, u8 ((push_bit 7 R) OR (push_bit 6 1) OR (push_bit 5 B) OR 3),
        u8 ((push_bit 7 1) OR (push_bit 3 0xF) OR 3), u8 0xF0, u8 (modrm 3 (d AND 7) (s AND 7)),
          u8 (imm AND 0xFF)])))"

definition bextr_reg_reg :: "string \<Rightarrow> string \<Rightarrow> string \<Rightarrow> asm_op" where
  "bextr_reg_reg dst src ctrl =
    with_reg dst (\<lambda>d. with_reg src (\<lambda>s. with_reg ctrl (\<lambda>c.
      (let R = (if d < 8 then 1 else 0 :: int);
          B = (if s < 8 then 1 else 0 :: int);
          vvvv = (NOT c) AND 0xF in
      emits [u8 0xC4, u8 ((push_bit 7 R) OR (push_bit 6 1) OR (push_bit 5 B) OR 2),
        u8 ((push_bit 7 1) OR (push_bit 3 vvvv) OR 0), u8 0xF7, u8 (modrm 3 (d AND 7) (s AND 7))]))))"

definition blsi_reg_reg :: "string \<Rightarrow> string \<Rightarrow> asm_op" where
  "blsi_reg_reg dst src =
    with_reg dst (\<lambda>d. with_reg src (\<lambda>s.
      (let R = (if d < 8 then 1 else 0 :: int);
          B = (if s < 8 then 1 else 0 :: int);
          vvvv = (NOT d) AND 0xF;
          vvvv = (NOT d) AND 0xF;
          R = (1 :: int) in
      emits [u8 0xC4, u8 ((push_bit 7 1) OR (push_bit 6 1) OR (push_bit 5 B) OR 2),
        u8 ((push_bit 7 1) OR (push_bit 3 vvvv) OR 0), u8 0xF3, u8 (modrm 3 3 (s AND 7))])))"

definition blsr_reg_reg :: "string \<Rightarrow> string \<Rightarrow> asm_op" where
  "blsr_reg_reg dst src =
    with_reg dst (\<lambda>d. with_reg src (\<lambda>s.
      (let B = (if s < 8 then 1 else 0 :: int);
          vvvv = (NOT d) AND 0xF in
      emits [u8 0xC4, u8 ((push_bit 7 1) OR (push_bit 6 1) OR (push_bit 5 B) OR 2),
        u8 ((push_bit 7 1) OR (push_bit 3 vvvv) OR 0), u8 0xF3, u8 (modrm 3 1 (s AND 7))])))"

definition blsmsk_reg_reg :: "string \<Rightarrow> string \<Rightarrow> asm_op" where
  "blsmsk_reg_reg dst src =
    with_reg dst (\<lambda>d. with_reg src (\<lambda>s.
      (let B = (if s < 8 then 1 else 0 :: int);
          vvvv = (NOT d) AND 0xF in
      emits [u8 0xC4, u8 ((push_bit 7 1) OR (push_bit 6 1) OR (push_bit 5 B) OR 2),
        u8 ((push_bit 7 1) OR (push_bit 3 vvvv) OR 0), u8 0xF3, u8 (modrm 3 2 (s AND 7))])))"

definition adcx_reg_reg :: "string \<Rightarrow> string \<Rightarrow> asm_op" where
  "adcx_reg_reg dst src =
    with_reg dst (\<lambda>d. with_reg src (\<lambda>s.
      emits [u8 0x66, u8 (rex 1 (drop_bit 3 d) 0 (drop_bit 3 s)), 0x0F, 0x38, 0xF6,
        u8 (modrm 3 (d AND 7) (s AND 7))]))"

definition adox_reg_reg :: "string \<Rightarrow> string \<Rightarrow> asm_op" where
  "adox_reg_reg dst src =
    with_reg dst (\<lambda>d. with_reg src (\<lambda>s.
      emits [u8 0xF3, u8 (rex 1 (drop_bit 3 d) 0 (drop_bit 3 s)), 0x0F, 0x38, 0xF6,
        u8 (modrm 3 (d AND 7) (s AND 7))]))"

definition crc32_reg_reg :: "string \<Rightarrow> string \<Rightarrow> asm_op" where
  "crc32_reg_reg dst src =
    with_reg dst (\<lambda>d. with_reg src (\<lambda>s.
      emits [u8 0xF2, u8 (rex 1 (drop_bit 3 d) 0 (drop_bit 3 s)), 0x0F, 0x38, 0xF1,
        u8 (modrm 3 (d AND 7) (s AND 7))]))"

definition rdrand_reg :: "string \<Rightarrow> asm_op" where
  "rdrand_reg dst =
    with_reg dst (\<lambda>d.
      emits [u8 (rex 1 0 0 (drop_bit 3 d)), 0x0F, 0xC7, u8 (modrm 3 6 (d AND 7))])"

definition rdseed_reg :: "string \<Rightarrow> asm_op" where
  "rdseed_reg dst =
    with_reg dst (\<lambda>d.
      emits [u8 (rex 1 0 0 (drop_bit 3 d)), 0x0F, 0xC7, u8 (modrm 3 7 (d AND 7))])"

definition pext_reg_reg :: "string \<Rightarrow> string \<Rightarrow> string \<Rightarrow> asm_op" where
  "pext_reg_reg dst src msk =
    with_reg dst (\<lambda>d. with_reg src (\<lambda>s. with_reg msk (\<lambda>m.
      (let R = (if d \<ge> 8 then 0 else 1 :: int);
          R = (if d < 8 then 1 else 0 :: int);
          B = (if m < 8 then 1 else 0 :: int);
          vvvv = (NOT s) AND 0xF in
      emits [u8 0xC4, u8 ((push_bit 7 R) OR (push_bit 6 1) OR (push_bit 5 B) OR 2),
        u8 ((push_bit 7 1) OR (push_bit 3 vvvv) OR 3), u8 0xF5, u8 (modrm 3 (d AND 7) (m AND 7))]))))"

definition pdep_reg_reg :: "string \<Rightarrow> string \<Rightarrow> string \<Rightarrow> asm_op" where
  "pdep_reg_reg dst src msk =
    with_reg dst (\<lambda>d. with_reg src (\<lambda>s. with_reg msk (\<lambda>m.
      (let R = (if d < 8 then 1 else 0 :: int);
          B = (if m < 8 then 1 else 0 :: int);
          vvvv = (NOT s) AND 0xF in
      emits [u8 0xC4, u8 ((push_bit 7 R) OR (push_bit 6 1) OR (push_bit 5 B) OR 2),
        u8 ((push_bit 7 1) OR (push_bit 3 vvvv) OR 2), u8 0xF5, u8 (modrm 3 (d AND 7) (m AND 7))]))))"

definition mulx_reg_reg :: "string \<Rightarrow> string \<Rightarrow> string \<Rightarrow> asm_op" where
  "mulx_reg_reg dst_hi dst_lo src =
    with_reg dst_hi (\<lambda>d. with_reg dst_lo (\<lambda>b. with_reg src (\<lambda>s.
      (let R = (if d < 8 then 1 else 0 :: int);
          B = (if s < 8 then 1 else 0 :: int);
          vvvv = (NOT b) AND 0xF in
      emits [u8 0xC4, u8 ((push_bit 7 R) OR (push_bit 6 1) OR (push_bit 5 B) OR 2),
        u8 ((push_bit 7 1) OR (push_bit 3 vvvv) OR 3), u8 0xF6, u8 (modrm 3 (d AND 7) (s AND 7))]))))"

definition movbe_reg_reg :: "string \<Rightarrow> string \<Rightarrow> asm_op" where
  "movbe_reg_reg dst src =
    with_reg dst (\<lambda>d. with_reg src (\<lambda>s.
      emits [u8 (rex 1 (drop_bit 3 d) 0 (drop_bit 3 s)), 0x0F, 0x38, 0xF0,
        u8 (modrm 3 (d AND 7) (s AND 7))]))"

definition cmpxchg_reg_reg :: "string \<Rightarrow> string \<Rightarrow> asm_op" where
  "cmpxchg_reg_reg dst src =
    with_reg dst (\<lambda>d. with_reg src (\<lambda>s.
      emits [u8 (rex 1 (drop_bit 3 s) 0 (drop_bit 3 d)), 0x0F, 0xB1,
        u8 (modrm 3 (s AND 7) (d AND 7))]))"

definition xchg_reg_rax :: "string \<Rightarrow> asm_op" where
  "xchg_reg_rax r =
    with_reg r (\<lambda>n.
      emits [u8 (rex 1 0 0 (drop_bit 3 n)), u8 (0x90 + (n AND 7))])"

definition cbw :: "asm_op" where
  "cbw =
    emits [u8 0x66, u8 0x98]"

definition cwde :: "asm_op" where
  "cwde =
    emits [u8 0x98]"

definition cwd :: "asm_op" where
  "cwd =
    emits [u8 0x66, u8 0x99]"

definition prefetchw :: "string \<Rightarrow> int \<Rightarrow> asm_op" where
  "prefetchw base disp =
    with_reg base (\<lambda>b.
      seqE [emits [0x0F, 0x0D], (if disp = 0 \<and> b AND 7 \<noteq> 5
        then emits [u8 (modrm 0 1 (b AND 7))]
       else emits [u8 (modrm 1 1 (b AND 7)), u8 (disp AND 0xFF)])])"

definition prefetchnta :: "string \<Rightarrow> int \<Rightarrow> asm_op" where
  "prefetchnta base disp =
    with_reg base (\<lambda>b.
      seqE [emits [0x0F, 0x18], (if disp = 0 \<and> b AND 7 \<noteq> 5
        then emits [u8 (modrm 0 0 (b AND 7))]
       else emits [u8 (modrm 1 0 (b AND 7)), u8 (disp AND 0xFF)])])"

definition clflush :: "string \<Rightarrow> int \<Rightarrow> asm_op" where
  "clflush base disp =
    with_reg base (\<lambda>b.
      seqE [emits [0x0F, 0xAE], (if disp = 0 \<and> b AND 7 \<noteq> 5
        then emits [u8 (modrm 0 7 (b AND 7))]
       else emits [u8 (modrm 1 7 (b AND 7)), u8 (disp AND 0xFF)])])"

definition movzx_r64_r8 :: "string \<Rightarrow> string \<Rightarrow> asm_op" where
  "movzx_r64_r8 dst src =
    with_reg dst (\<lambda>d. with_reg src (\<lambda>s.
      emits [u8 (rex 1 (drop_bit 3 d) 0 (drop_bit 3 s)), 0x0F, 0xB6,
        u8 (modrm 3 (d AND 7) (s AND 7))]))"

definition movzx_r64_r16 :: "string \<Rightarrow> string \<Rightarrow> asm_op" where
  "movzx_r64_r16 dst src =
    with_reg dst (\<lambda>d. with_reg src (\<lambda>s.
      emits [u8 (rex 1 (drop_bit 3 d) 0 (drop_bit 3 s)), 0x0F, 0xB7,
        u8 (modrm 3 (d AND 7) (s AND 7))]))"

definition movsx_r64_r8 :: "string \<Rightarrow> string \<Rightarrow> asm_op" where
  "movsx_r64_r8 dst src =
    with_reg dst (\<lambda>d. with_reg src (\<lambda>s.
      emits [u8 (rex 1 (drop_bit 3 d) 0 (drop_bit 3 s)), 0x0F, 0xBE,
        u8 (modrm 3 (d AND 7) (s AND 7))]))"

definition movsx_r64_r16 :: "string \<Rightarrow> string \<Rightarrow> asm_op" where
  "movsx_r64_r16 dst src =
    with_reg dst (\<lambda>d. with_reg src (\<lambda>s.
      emits [u8 (rex 1 (drop_bit 3 d) 0 (drop_bit 3 s)), 0x0F, 0xBF,
        u8 (modrm 3 (d AND 7) (s AND 7))]))"

definition bt_reg_imm8 :: "string \<Rightarrow> int \<Rightarrow> asm_op" where
  "bt_reg_imm8 base imm =
    with_reg base (\<lambda>b.
      emits [u8 (rex 1 0 0 (drop_bit 3 b)), 0x0F, 0xBA, u8 (modrm 3 4 (b AND 7)), u8 (imm AND 0xFF)])"

definition bts_reg_imm8 :: "string \<Rightarrow> int \<Rightarrow> asm_op" where
  "bts_reg_imm8 base imm =
    with_reg base (\<lambda>b.
      emits [u8 (rex 1 0 0 (drop_bit 3 b)), 0x0F, 0xBA, u8 (modrm 3 5 (b AND 7)), u8 (imm AND 0xFF)])"

definition btr_reg_imm8 :: "string \<Rightarrow> int \<Rightarrow> asm_op" where
  "btr_reg_imm8 base imm =
    with_reg base (\<lambda>b.
      emits [u8 (rex 1 0 0 (drop_bit 3 b)), 0x0F, 0xBA, u8 (modrm 3 6 (b AND 7)), u8 (imm AND 0xFF)])"

definition btc_reg_imm8 :: "string \<Rightarrow> int \<Rightarrow> asm_op" where
  "btc_reg_imm8 base imm =
    with_reg base (\<lambda>b.
      emits [u8 (rex 1 0 0 (drop_bit 3 b)), 0x0F, 0xBA, u8 (modrm 3 7 (b AND 7)), u8 (imm AND 0xFF)])"

definition shld_reg_imm8 :: "string \<Rightarrow> string \<Rightarrow> int \<Rightarrow> asm_op" where
  "shld_reg_imm8 dst src imm =
    with_reg dst (\<lambda>d. with_reg src (\<lambda>s.
      emits [u8 (rex 1 (drop_bit 3 s) 0 (drop_bit 3 d)), 0x0F, 0xA4,
        u8 (modrm 3 (s AND 7) (d AND 7)), u8 (imm AND 0xFF)]))"

definition shrd_reg_imm8 :: "string \<Rightarrow> string \<Rightarrow> int \<Rightarrow> asm_op" where
  "shrd_reg_imm8 dst src imm =
    with_reg dst (\<lambda>d. with_reg src (\<lambda>s.
      emits [u8 (rex 1 (drop_bit 3 s) 0 (drop_bit 3 d)), 0x0F, 0xAC,
        u8 (modrm 3 (s AND 7) (d AND 7)), u8 (imm AND 0xFF)]))"

definition rcl_reg_cl :: "string \<Rightarrow> asm_op" where
  "rcl_reg_cl r =
    with_reg r (\<lambda>n.
      emits [u8 (rex 1 0 0 (drop_bit 3 n)), u8 0xD3, u8 (modrm 3 2 (n AND 7))])"

definition rcr_reg_cl :: "string \<Rightarrow> asm_op" where
  "rcr_reg_cl r =
    with_reg r (\<lambda>n.
      emits [u8 (rex 1 0 0 (drop_bit 3 n)), u8 0xD3, u8 (modrm 3 3 (n AND 7))])"

definition cmpxchg8b_mem :: "string \<Rightarrow> int \<Rightarrow> asm_op" where
  "cmpxchg8b_mem base disp =
    with_reg base (\<lambda>b.
      seqE [emits [u8 (rex 0 0 0 (drop_bit 3 b)), 0x0F, 0xC7], (let rm = b AND 7 in
      (if disp = 0 \<and> rm \<noteq> 5 then emits [u8 (modrm 0 1 rm)]
       else emits [u8 (modrm 1 1 rm), u8 (disp AND 0xFF)]))])"

definition nop_long :: "asm_op" where
  "nop_long =
    emits [0x0F, 0x1F, 0x00]"

definition ret_imm16 :: "int \<Rightarrow> asm_op" where
  "ret_imm16 imm =
    seqE [emits [u8 0xC2], fail_op (UndefinedName ''_u16'')]"

definition enter_imm :: "int \<Rightarrow> int \<Rightarrow> asm_op" where
  "enter_imm sz nesting =
    seqE [emits [u8 0xC8], fail_op (UndefinedName ''_u16''), emits [u8 (nesting AND 0xFF)]]"

definition bound_noop :: "asm_op" where
  "bound_noop =
    skip_op"

definition mov_reg_imm32_zext :: "string \<Rightarrow> int \<Rightarrow> asm_op" where
  "mov_reg_imm32_zext dst imm =
    with_reg dst (\<lambda>d.
      seqE [(if d < 8 then emits [u8 (0xB8 + d)]
       else emits [u8 (rex 0 0 0 1), u8 (0xB8 + (d AND 7))]), emits (u32 (imm AND 0xFFFFFFFF))])"

definition imul_reg_reg_imm :: "string \<Rightarrow> string \<Rightarrow> int \<Rightarrow> asm_op" where
  "imul_reg_reg_imm dst src imm =
    with_reg dst (\<lambda>d. with_reg src (\<lambda>s.
      emits ([u8 (rex 1 (drop_bit 3 d) 0 (drop_bit 3 s)), u8 0x69,
        u8 (modrm 3 (d AND 7) (s AND 7))] @ u32 (imm AND 0xFFFFFFFF))))"

definition test_reg_reg8_dummy :: "asm_op" where
  "test_reg_reg8_dummy =
    skip_op"

definition cld_already :: "asm_op" where
  "cld_already =
    skip_op"

definition stmxcsr_mem :: "string \<Rightarrow> int \<Rightarrow> asm_op" where
  "stmxcsr_mem base disp =
    with_reg base (\<lambda>b.
      seqE [emits [0x0F, 0xAE], (let rm = b AND 7 in
      (if disp = 0 \<and> rm \<noteq> 5 then emits [u8 (modrm 0 3 rm)]
       else emits [u8 (modrm 1 3 rm), u8 (disp AND 0xFF)]))])"

definition ldmxcsr_mem :: "string \<Rightarrow> int \<Rightarrow> asm_op" where
  "ldmxcsr_mem base disp =
    with_reg base (\<lambda>b.
      seqE [emits [0x0F, 0xAE], (let rm = b AND 7 in
      (if disp = 0 \<and> rm \<noteq> 5 then emits [u8 (modrm 0 2 rm)]
       else emits [u8 (modrm 1 2 rm), u8 (disp AND 0xFF)]))])"

definition fxsave_mem :: "string \<Rightarrow> int \<Rightarrow> asm_op" where
  "fxsave_mem base disp =
    with_reg base (\<lambda>b.
      seqE [emits [0x0F, 0xAE], (let rm = b AND 7 in
      (if disp = 0 \<and> rm \<noteq> 5 then emits [u8 (modrm 0 0 rm)]
       else emits [u8 (modrm 1 0 rm), u8 (disp AND 0xFF)]))])"

definition fxrstor_mem :: "string \<Rightarrow> int \<Rightarrow> asm_op" where
  "fxrstor_mem base disp =
    with_reg base (\<lambda>b.
      seqE [emits [0x0F, 0xAE], (let rm = b AND 7 in
      (if disp = 0 \<and> rm \<noteq> 5 then emits [u8 (modrm 0 1 rm)]
       else emits [u8 (modrm 1 1 rm), u8 (disp AND 0xFF)]))])"

definition xgetbv :: "asm_op" where
  "xgetbv =
    emits [0x0F, 0x01, 0xD0]"

definition xsetbv :: "asm_op" where
  "xsetbv =
    emits [0x0F, 0x01, 0xD1]"

definition wrfsbase_reg :: "string \<Rightarrow> asm_op" where
  "wrfsbase_reg src =
    with_reg src (\<lambda>s.
      emits [u8 0xF3, u8 (rex 1 0 0 (drop_bit 3 s)), 0x0F, 0xAE, u8 (modrm 3 2 (s AND 7))])"

definition wrgsbase_reg :: "string \<Rightarrow> asm_op" where
  "wrgsbase_reg src =
    with_reg src (\<lambda>s.
      emits [u8 0xF3, u8 (rex 1 0 0 (drop_bit 3 s)), 0x0F, 0xAE, u8 (modrm 3 3 (s AND 7))])"

definition rdfsbase_reg :: "string \<Rightarrow> asm_op" where
  "rdfsbase_reg dst =
    with_reg dst (\<lambda>d.
      emits [u8 0xF3, u8 (rex 1 0 0 (drop_bit 3 d)), 0x0F, 0xAE, u8 (modrm 3 0 (d AND 7))])"

definition rdgsbase_reg :: "string \<Rightarrow> asm_op" where
  "rdgsbase_reg dst =
    with_reg dst (\<lambda>d.
      emits [u8 0xF3, u8 (rex 1 0 0 (drop_bit 3 d)), 0x0F, 0xAE, u8 (modrm 3 1 (d AND 7))])"

definition invlpg_mem :: "string \<Rightarrow> int \<Rightarrow> asm_op" where
  "invlpg_mem base disp =
    with_reg base (\<lambda>b.
      seqE [emits [0x0F, 0x01], (let rm = b AND 7 in
      (if disp = 0 \<and> rm \<noteq> 5 then emits [u8 (modrm 0 7 rm)]
       else emits [u8 (modrm 1 7 rm), u8 (disp AND 0xFF)]))])"

definition wbinvd :: "asm_op" where
  "wbinvd =
    emits [0x0F, 0x09]"

definition invd :: "asm_op" where
  "invd =
    emits [0x0F, 0x08]"

definition clts :: "asm_op" where
  "clts =
    emits [0x0F, 0x06]"

definition lar_reg_reg :: "string \<Rightarrow> string \<Rightarrow> asm_op" where
  "lar_reg_reg dst src =
    with_reg dst (\<lambda>d. with_reg src (\<lambda>s.
      emits [u8 (rex 1 (drop_bit 3 d) 0 (drop_bit 3 s)), 0x0F, 0x02,
        u8 (modrm 3 (d AND 7) (s AND 7))]))"

definition lsl_reg_reg :: "string \<Rightarrow> string \<Rightarrow> asm_op" where
  "lsl_reg_reg dst src =
    with_reg dst (\<lambda>d. with_reg src (\<lambda>s.
      emits [u8 (rex 1 (drop_bit 3 d) 0 (drop_bit 3 s)), 0x0F, 0x03,
        u8 (modrm 3 (d AND 7) (s AND 7))]))"

definition str_reg :: "string \<Rightarrow> asm_op" where
  "str_reg dst =
    with_reg dst (\<lambda>d.
      emits [u8 (rex 0 0 0 (drop_bit 3 d)), 0x0F, 0x00, u8 (modrm 3 1 (d AND 7))])"

definition sldt_reg :: "string \<Rightarrow> asm_op" where
  "sldt_reg dst =
    with_reg dst (\<lambda>d.
      emits [u8 (rex 0 0 0 (drop_bit 3 d)), 0x0F, 0x00, u8 (modrm 3 0 (d AND 7))])"

definition smsw_reg :: "string \<Rightarrow> asm_op" where
  "smsw_reg dst =
    with_reg dst (\<lambda>d.
      emits [u8 (rex 0 0 0 (drop_bit 3 d)), 0x0F, 0x01, u8 (modrm 3 4 (d AND 7))])"

definition rdmsr :: "asm_op" where
  "rdmsr =
    emits [0x0F, 0x32]"

definition wrmsr :: "asm_op" where
  "wrmsr =
    emits [0x0F, 0x30]"

definition rdpmc :: "asm_op" where
  "rdpmc =
    emits [0x0F, 0x33]"

definition swapgs :: "asm_op" where
  "swapgs =
    emits [0x0F, 0x01, 0xF8]"

definition syscall_sysret :: "asm_op" where
  "syscall_sysret =
    skip_op"

definition sysret :: "asm_op" where
  "sysret =
    emits [0x48, 0x0F, 0x07]"

definition sysenter :: "asm_op" where
  "sysenter =
    emits [0x0F, 0x34]"

definition sysexit :: "asm_op" where
  "sysexit =
    emits [0x0F, 0x35]"

definition lidt_mem :: "string \<Rightarrow> int \<Rightarrow> asm_op" where
  "lidt_mem base disp =
    with_reg base (\<lambda>b.
      (let rex_v = 0x48 OR (drop_bit 3 b) in
      seqE [emits [u8 rex_v, u8 0x0F, u8 0x01], (if disp = 0 \<and> b AND 7 \<noteq> 5
        then emits [u8 (modrm 0 3 (b AND 7))]
       else emits [u8 (modrm 1 3 (b AND 7)), u8 (disp AND 0xFF)])]))"

definition lgdt_mem :: "string \<Rightarrow> int \<Rightarrow> asm_op" where
  "lgdt_mem base disp =
    with_reg base (\<lambda>b.
      (let rex_v = 0x48 OR (drop_bit 3 b) in
      seqE [emits [u8 rex_v, u8 0x0F, u8 0x01], (if disp = 0 \<and> b AND 7 \<noteq> 5
        then emits [u8 (modrm 0 2 (b AND 7))]
       else emits [u8 (modrm 1 2 (b AND 7)), u8 (disp AND 0xFF)])]))"

definition int_imm :: "int \<Rightarrow> asm_op" where
  "int_imm vec =
    emits [u8 0xCD, u8 (vec AND 0xFF)]"

definition iretq :: "asm_op" where
  "iretq =
    emits [0x48, 0xCF]"

definition call_reg :: "string \<Rightarrow> asm_op" where
  "call_reg reg =
    with_reg reg (\<lambda>r.
      emits [u8 (rex 1 0 0 (drop_bit 3 r)), u8 0xFF, u8 (modrm 3 2 (r AND 7))])"

end
