(* ===== verification/Link.thy ===== *)
theory Link
  imports Assembler
begin

section \<open>The assembler invariant and the linker\<close>

text \<open>
  What holds of every \<open>Assembler\<close> object between two method calls (\<open>wf_asm\<close>: labels are unique
  and lie in the code, relocations are 4-byte holes in the code that follow one another without
  overlap), what a method may do (\<open>appends\<close>: it only extends the code, the labels and the
  relocations), the closure of both under sequencing as the predicate \<open>good_op\<close>, and what
  \<open>link\<close> computes: each hole holds the distance to its label, every other byte is unchanged.
\<close>

subsection \<open>The invariant\<close>

definition hole_ok :: "nat \<Rightarrow> reloc \<Rightarrow> bool" where
  "hole_ok n r \<longleftrightarrow> r_offset r + 4 \<le> n \<and> r_kind r = ''rel32'' \<and> r_size r = 4"

definition before :: "reloc \<Rightarrow> reloc \<Rightarrow> bool" where
  "before r s \<longleftrightarrow> r_offset r + 4 \<le> r_offset s"

definition wf_asm :: "asm \<Rightarrow> bool" where
  "wf_asm a \<longleftrightarrow>
     distinct (map fst (labels a)) \<and> list_all (\<lambda>(l, p). p \<le> length (code a)) (labels a) \<and>
     list_all (hole_ok (length (code a))) (relocs a) \<and> sorted_wrt before (relocs a)"

definition appends :: "asm \<Rightarrow> asm \<Rightarrow> bool" where
  "appends a a' \<longleftrightarrow>
     (\<exists>bs ls rs. code a' = code a @ bs \<and> labels a' = labels a @ ls \<and> relocs a' = relocs a @ rs \<and>
        list_all (\<lambda>r. length (code a) \<le> r_offset r) rs) \<and>
     (deterministic a \<longrightarrow> deterministic a')"

text \<open>A good operation only appends and keeps the invariant.\<close>

definition asm_step :: "asm \<Rightarrow> asm \<Rightarrow> bool" where
  "asm_step a a' \<longleftrightarrow> appends a a' \<and> (wf_asm a \<longrightarrow> wf_asm a')"

abbreviation good_op :: "asm_op \<Rightarrow> bool" where
  "good_op \<equiv> within asm_step"

lemma good_opD: "good_op f \<Longrightarrow> f a = Inr a' \<Longrightarrow> appends a a'"
  and good_op_wf: "good_op f \<Longrightarrow> f a = Inr a' \<Longrightarrow> wf_asm a \<Longrightarrow> wf_asm a'"
  by (auto simp: within_def asm_step_def)

lemma appends_refl [simp]: "appends a a"
  by (simp add: appends_def)

lemma appends_length: "appends a b \<Longrightarrow> length (code a) \<le> length (code b)"
  by (auto simp: appends_def)

lemma appends_trans:
  assumes ab: "appends a b" and bc: "appends b c"
  shows "appends a c"
proof -
  obtain bs ls rs where 1: "code b = code a @ bs" "labels b = labels a @ ls"
      "relocs b = relocs a @ rs" "list_all (\<lambda>r. length (code a) \<le> r_offset r) rs"
      "deterministic a \<longrightarrow> deterministic b"
    using ab by (auto simp: appends_def)
  obtain bs' ls' rs' where 2: "code c = code b @ bs'" "labels c = labels b @ ls'"
      "relocs c = relocs b @ rs'" "list_all (\<lambda>r. length (code b) \<le> r_offset r) rs'"
      "deterministic b \<longrightarrow> deterministic c"
    using bc by (auto simp: appends_def)
  have "list_all (\<lambda>r. length (code a) \<le> r_offset r) rs'"
    using 2(4) 1(1) by (auto simp: list_all_iff)
  then show ?thesis
    unfolding appends_def using 1 2 by auto
qed

lemma wf_init [simp]: "wf_asm init_asm"
  by (simp add: wf_asm_def init_asm_def)

subsection \<open>Closure of the invariant\<close>

lemma hole_ok_mono: "hole_ok m r \<Longrightarrow> m \<le> n \<Longrightarrow> hole_ok n r"
  by (simp add: hole_ok_def)

lemma wf_emits: "wf_asm a \<Longrightarrow> wf_asm (a\<lparr>code := code a @ bs\<rparr>)"
  by (auto simp: wf_asm_def list_all_iff intro: hole_ok_mono)

lemma good_emits [closed]: "good_op (emits bs)"
  by (auto simp: within_def asm_step_def emits_def appends_def wf_emits)

lemma good_fixup [closed]: "good_op (emit_rel32_fixup t)"
  by (auto simp: within_def asm_step_def emit_rel32_fixup_def Let_def appends_def wf_asm_def
      list_all_iff sorted_wrt_append before_def hole_ok_def)

lemma good_label [closed]: "good_op (label_at l)"
  by (auto simp: within_def asm_step_def label_at_def appends_def wf_asm_def list_all_iff
      map_of_eq_None_iff split: if_splits)

text \<open>Good operations that define no label.\<close>

definition asm_quiet :: "asm \<Rightarrow> asm \<Rightarrow> bool" where
  "asm_quiet a a' \<longleftrightarrow> asm_step a a' \<and> labels a' = labels a"

abbreviation quiet_op :: "asm_op \<Rightarrow> bool" where
  "quiet_op \<equiv> within asm_quiet"

lemma quiet_opI: "good_op f \<Longrightarrow> (\<And>a a'. f a = Inr a' \<Longrightarrow> labels a' = labels a) \<Longrightarrow> quiet_op f"
  by (auto simp: within_def asm_quiet_def)

lemma quiet_emits: "quiet_op (emits bs)"
  by (rule quiet_opI [OF good_emits]) (auto simp: emits_def)

lemma quiet_fixup: "quiet_op (emit_rel32_fixup t)"
  by (rule quiet_opI [OF good_fixup]) (auto simp: emit_rel32_fixup_def Let_def)

subsection \<open>What \<open>link\<close> computes\<close>

text \<open>\<open>reaches\<close>: read as a \<open>rel32\<close> operand that ends at \<open>r_offset r + 4\<close>, the hole of \<open>r\<close> leads
  to the address \<open>t\<close>. \<open>resolvable\<close>: the target has an address and the distance fits.\<close>

definition rel32_target :: "bytes \<Rightarrow> reloc \<Rightarrow> int" where
  "rel32_target c r = int (r_offset r) + 4 + signed_of 4 (from_bytes_le (slice (r_offset r) 4 c))"

definition resolvable :: "(string \<times> int) list \<Rightarrow> reloc \<Rightarrow> bool" where
  "resolvable offs r \<longleftrightarrow>
     (case map_of offs (r_target r) of None \<Rightarrow> False
      | Some t \<Rightarrow> - (2 ^ 31) \<le> t - (int (r_offset r) + 4) \<and>
                  t - (int (r_offset r) + 4) \<le> 2 ^ 31 - 1)"

lemma resolvable_iff:
  "resolvable offs r \<longleftrightarrow>
   (\<exists>t. map_of offs (r_target r) = Some t \<and> - (2 ^ 31) \<le> t - (int (r_offset r) + 4) \<and>
      t - (int (r_offset r) + 4) < 2 ^ 31)"
  by (auto simp: resolvable_def split: option.splits)

definition in_hole :: "nat \<Rightarrow> reloc \<Rightarrow> bool" where
  "in_hole k r \<longleftrightarrow> r_offset r \<le> k \<and> k < r_offset r + 4"

lemma s32_Inr_iff: "s32 v = Inr bs \<longleftrightarrow> - (2 ^ 31) \<le> v \<and> v \<le> 2 ^ 31 - 1 \<and> bs = to_bytes_le 4 v"
  by (auto simp: s32_def)

lemma link_one_ok_iff: "(\<exists>c'. link_one offs r c = Inr c') \<longleftrightarrow> resolvable offs r"
  by (auto simp: link_one_def resolvable_def bindE_Inr_iff s32_Inr_iff split: option.splits)

lemma link_one_Inr:
  assumes "link_one offs r c = Inr c'" and "hole_ok (length c) r"
  shows "length c' = length c"
    and "\<exists>t. map_of offs (r_target r) = Some t \<and> rel32_target c' r = t"
    and "k < length c \<Longrightarrow> \<not> in_hole k r \<Longrightarrow> c' ! k = c ! k"
proof -
  obtain t where t: "map_of offs (r_target r) = Some t"
    and d: "- (2 ^ 31) \<le> t - (int (r_offset r) + 4)" "t - (int (r_offset r) + 4) \<le> 2 ^ 31 - 1"
    and c': "c' = slice_assign (r_offset r) (r_offset r + 4)
               (to_bytes_le 4 (t - (int (r_offset r) + 4))) c"
    using assms(1) by (auto simp: link_one_def bindE_Inr_iff s32_Inr_iff split: option.splits)
  let ?d = "t - (int (r_offset r) + 4)"
  let ?bs = "to_bytes_le 4 ?d"
  have fits: "r_offset r + length ?bs \<le> length c"
    using assms(2) by (simp add: hole_ok_def)
  show "length c' = length c"
    using length_slice_assign [OF fits] c' by simp
  have "slice (r_offset r) 4 c' = ?bs"
    using slice_slice_assign_same [OF fits] c' by simp
  moreover have "signed_of 4 (from_bytes_le ?bs) = ?d"
    using d by (intro signed_from_to_bytes) simp_all
  ultimately have "rel32_target c' r = t"
    by (simp add: rel32_target_def)
  with t show "\<exists>t. map_of offs (r_target r) = Some t \<and> rel32_target c' r = t"
    by blast
  show "c' ! k = c ! k" if "k < length c" "\<not> in_hole k r"
    using nth_slice_assign [OF fits that(1)] that(2) c' by (auto simp: in_hole_def)
qed

text \<open>The loop of \<open>link\<close> over holes that do not overlap.\<close>

lemma link_loop_frame:
  assumes "seqE (map (link_one offs) rs) c = Inr c'" and "list_all (hole_ok (length c)) rs"
  shows "length c' = length c \<and>
    (\<forall>k < length c. (\<forall>r \<in> set rs. \<not> in_hole k r) \<longrightarrow> c' ! k = c ! k)"
  using assms
proof (induction rs arbitrary: c)
  case Nil
  then show ?case by simp
next
  case (Cons r rs)
  then obtain d where d: "link_one offs r c = Inr d" "seqE (map (link_one offs) rs) d = Inr c'"
    by (auto simp: bindE_Inr_iff)
  have r: "hole_ok (length c) r" using Cons.prems by simp
  note one = link_one_Inr [OF d(1) r]
  have "length c' = length d \<and>
      (\<forall>k < length d. (\<forall>r \<in> set rs. \<not> in_hole k r) \<longrightarrow> c' ! k = d ! k)"
    using Cons.IH [OF d(2)] Cons.prems(2) one(1) by simp
  then show ?case using one(1,3) by auto
qed

lemma link_loop_reaches:
  assumes "seqE (map (link_one offs) rs) c = Inr c'" and "list_all (hole_ok (length c)) rs"
    and "sorted_wrt before rs" and "r \<in> set rs"
  shows "\<exists>t. map_of offs (r_target r) = Some t \<and> rel32_target c' r = t"
  using assms
proof (induction rs arbitrary: c)
  case Nil
  then show ?case by simp
next
  case (Cons x rs)
  then obtain d where d: "link_one offs x c = Inr d" "seqE (map (link_one offs) rs) d = Inr c'"
    by (auto simp: bindE_Inr_iff)
  have x: "hole_ok (length c) x" and rs: "list_all (hole_ok (length c)) rs" using Cons.prems by simp_all
  note one = link_one_Inr [OF d(1) x]
  have rs': "list_all (hole_ok (length d)) rs" using rs one(1) by simp
  show ?case
  proof (cases "r \<in> set rs")
    case True
    then show ?thesis using Cons.IH [OF d(2) rs'] Cons.prems by simp
  next
    case False
    then have [simp]: "r = x" using Cons.prems by simp
    have apart: "\<forall>s \<in> set rs. \<not> in_hole k s" if "k < r_offset x + 4" for k
      using Cons.prems(3) that by (auto simp: before_def in_hole_def)
    have fr: "length c' = length d \<and>
        (\<forall>k < length d. (\<forall>r \<in> set rs. \<not> in_hole k r) \<longrightarrow> c' ! k = d ! k)"
      by (rule link_loop_frame [OF d(2) rs'])
    have "slice (r_offset x) 4 c' = slice (r_offset x) 4 d"
      using fr apart x one(1) by (intro slice_eqI) (auto simp: hole_ok_def)
    then show ?thesis using one(2) by (simp add: rel32_target_def)
  qed
qed

lemma link_loop_ok_iff:
  "(\<exists>c'. seqE (map (link_one offs) rs) c = Inr c') \<longleftrightarrow> list_all (resolvable offs) rs"
proof (induction rs arbitrary: c)
  case Nil
  then show ?case by simp
next
  case (Cons r rs)
  have "(\<exists>c'. seqE (map (link_one offs) (r # rs)) c = Inr c') \<longleftrightarrow>
      (\<exists>d. link_one offs r c = Inr d \<and> (\<exists>c'. seqE (map (link_one offs) rs) d = Inr c'))"
    by (auto simp: bindE_Inr_iff)
  also have "\<dots> \<longleftrightarrow> resolvable offs r \<and> list_all (resolvable offs) rs"
    using Cons link_one_ok_iff by metis
  finally show ?case by simp
qed

subsection \<open>\<open>link\<close> on a well-formed assembler\<close>

definition link_table :: "(string \<times> int) list option \<Rightarrow> asm \<Rightarrow> (string \<times> int) list" where
  "link_table base a = (case base of None \<Rightarrow> label_table a | Some m \<Rightarrow> m)"

lemma link_Inr_iff:
  "link base a = Inr a' \<longleftrightarrow>
   (\<exists>c. seqE (map (link_one (link_table base a)) (relocs a)) (code a) = Inr c \<and> a' = a\<lparr>code := c\<rparr>)"
  by (cases base) (auto simp: link_def link_table_def bindE_Inr_iff)

lemma link_ok_iff:
  "(\<exists>a'. link base a = Inr a') \<longleftrightarrow> list_all (resolvable (link_table base a)) (relocs a)"
  unfolding link_Inr_iff link_loop_ok_iff [symmetric, of _ _ "code a"] by blast

lemma link_reaches:
  assumes "link base a = Inr a'" and "wf_asm a" and "r \<in> set (relocs a)"
  shows "\<exists>t. map_of (link_table base a) (r_target r) = Some t \<and> rel32_target (code a') r = t"
  using assms link_loop_reaches [of "link_table base a" "relocs a" "code a" "code a'" r]
  by (auto simp: link_Inr_iff wf_asm_def)

lemma link_frame:
  assumes "link base a = Inr a'" and "wf_asm a"
  shows "length (code a') = length (code a)" and "labels a' = labels a" and "relocs a' = relocs a"
    and "k < length (code a) \<Longrightarrow> \<forall>r \<in> set (relocs a). \<not> in_hole k r \<Longrightarrow> code a' ! k = code a ! k"
  using assms link_loop_frame [of "link_table base a" "relocs a" "code a" "code a'"]
  by (auto simp: link_Inr_iff wf_asm_def)

end
