(* ===== verification/Isa_Table.thy ===== *)
theory Isa_Table
  imports Encode_Isa Link
begin

section \<open>The assembler as an instruction set\<close>

text \<open>
  The methods of class \<open>Assembler\<close> by name, one table per parameter list, as the code generator
  reaches them (many through \<open>getattr(self.asm, name)\<close>); \<open>invoke\<close> runs one call. The interface
  \<open>instruction_set\<close> states what the code generator relies on, a call only appends and keeps the
  assembler invariant, and derives what any sequence of calls followed by \<open>link\<close> gives; it is
  interpreted on \<open>invoke\<close>.
\<close>

subsection \<open>Method tables\<close>

definition isa_0 :: "(string \<times> (asm_op)) list" where
  "isa_0 =
    [(''cqo'', cqo), (''ret'', ret), (''leave'', leave), (''syscall'', syscall), (''nop'', nop),
     (''cld'', cld), (''std'', std), (''hlt'', hlt), (''faddp'', faddp), (''fsubp'', fsubp),
     (''fmulp'', fmulp), (''fdivp'', fdivp), (''fcomip'', fcomip), (''fstsw_ax'', fstsw_ax),
     (''fxch'', fxch), (''rdtsc'', rdtsc), (''cpuid'', cpuid), (''mfence'', mfence),
     (''lfence'', lfence), (''sfence'', sfence), (''cli'', cli), (''sti'', sti),
     (''in_al_dx'', in_al_dx), (''out_dx_al'', out_dx_al), (''rep_stosb'', rep_stosb),
     (''rep_movsb'', rep_movsb), (''lock_prefix'', lock_prefix), (''rep_prefix'', rep_prefix),
     (''clc'', clc), (''stc'', stc), (''cmc'', cmc), (''pause'', pause), (''int3'', int3),
     (''ud2'', ud2), (''cdq'', cdq), (''cdqe'', cdqe), (''pushfq'', pushfq), (''popfq'', popfq),
     (''rdtscp'', rdtscp), (''endbr64'', endbr64), (''cbw'', cbw), (''cwde'', cwde),
     (''cwd'', cwd), (''nop_long'', nop_long), (''bound_noop'', bound_noop),
     (''test_reg_reg8_dummy'', test_reg_reg8_dummy), (''cld_already'', cld_already),
     (''xgetbv'', xgetbv), (''xsetbv'', xsetbv), (''wbinvd'', wbinvd), (''invd'', invd),
     (''clts'', clts), (''rdmsr'', rdmsr), (''wrmsr'', wrmsr), (''rdpmc'', rdpmc),
     (''swapgs'', swapgs), (''syscall_sysret'', syscall_sysret), (''sysret'', sysret),
     (''sysenter'', sysenter), (''sysexit'', sysexit), (''iretq'', iretq)]"

definition isa_r0 :: "(string \<times> (string \<Rightarrow> asm_op)) list" where
  "isa_r0 =
    [(''idiv_reg'', idiv_reg), (''not_reg'', not_reg), (''neg_reg'', neg_reg),
     (''inc_reg'', inc_reg), (''dec_reg'', dec_reg), (''shl_reg_cl'', shl_reg_cl),
     (''shr_reg_cl'', shr_reg_cl), (''rol_reg_cl'', rol_reg_cl), (''ror_reg_cl'', ror_reg_cl),
     (''jmp'', jmp), (''call'', call), (''push_reg'', push_reg), (''pop_reg'', pop_reg),
     (''seto_reg'', seto_reg), (''bswap_reg'', bswap_reg), (''mul_reg'', mul_reg),
     (''div_reg'', div_reg), (''sar_reg_cl'', sar_reg_cl), (''sal_reg_cl'', sal_reg_cl),
     (''rdrand_reg'', rdrand_reg), (''rdseed_reg'', rdseed_reg), (''xchg_reg_rax'', xchg_reg_rax),
     (''rcl_reg_cl'', rcl_reg_cl), (''rcr_reg_cl'', rcr_reg_cl), (''wrfsbase_reg'', wrfsbase_reg),
     (''wrgsbase_reg'', wrgsbase_reg), (''rdfsbase_reg'', rdfsbase_reg),
     (''rdgsbase_reg'', rdgsbase_reg), (''str_reg'', str_reg), (''sldt_reg'', sldt_reg),
     (''smsw_reg'', smsw_reg), (''call_reg'', call_reg), (''_emit_rel32_fixup'', emit_rel32_fixup)]"

definition isa_r :: "(string \<times> (string \<Rightarrow> asm_op)) list" where
  "isa_r = isa_r0 @ [(''label'', label_at)]"

definition isa_rr :: "(string \<times> (string \<Rightarrow> string \<Rightarrow> asm_op)) list" where
  "isa_rr =
    [(''setcc_reg'', setcc_reg), (''jcc'', jcc), (''mov_reg_reg'', mov_reg_reg),
     (''add_reg_reg'', add_reg_reg), (''sub_reg_reg'', sub_reg_reg),
     (''and_reg_reg'', and_reg_reg), (''or_reg_reg'', or_reg_reg), (''xor_reg_reg'', xor_reg_reg),
     (''cmp_reg_reg'', cmp_reg_reg), (''test_reg_reg'', test_reg_reg),
     (''imul_reg_reg'', imul_reg_reg), (''lea_reg_label'', lea_reg_label), (''addps'', addps),
     (''subps'', subps), (''mulps'', mulps), (''divps'', divps),
     (''movaps_xmm_xmm'', movaps_xmm_xmm), (''addpd'', addpd), (''subpd'', subpd),
     (''mulpd'', mulpd), (''divpd'', divpd), (''paddd'', paddd), (''psubd'', psubd),
     (''haddps'', haddps), (''xchg_reg_reg'', xchg_reg_reg), (''xadd_reg_reg'', xadd_reg_reg),
     (''bsf_reg_reg'', bsf_reg_reg), (''bsr_reg_reg'', bsr_reg_reg), (''bt_reg_reg'', bt_reg_reg),
     (''vbroadcastss'', vbroadcastss), (''shrd_reg_reg'', shrd_reg_reg),
     (''adc_reg_reg'', adc_reg_reg), (''sbb_reg_reg'', sbb_reg_reg),
     (''bts_reg_reg'', bts_reg_reg), (''btr_reg_reg'', btr_reg_reg),
     (''btc_reg_reg'', btc_reg_reg), (''popcnt_reg_reg'', popcnt_reg_reg),
     (''lzcnt_reg_reg'', lzcnt_reg_reg), (''tzcnt_reg_reg'', tzcnt_reg_reg),
     (''movsx_reg32_reg8'', movsx_reg32_reg8), (''movsxd_reg_reg'', movsxd_reg_reg),
     (''blsi_reg_reg'', blsi_reg_reg), (''blsr_reg_reg'', blsr_reg_reg),
     (''blsmsk_reg_reg'', blsmsk_reg_reg), (''adcx_reg_reg'', adcx_reg_reg),
     (''adox_reg_reg'', adox_reg_reg), (''crc32_reg_reg'', crc32_reg_reg),
     (''movbe_reg_reg'', movbe_reg_reg), (''cmpxchg_reg_reg'', cmpxchg_reg_reg),
     (''movzx_r64_r8'', movzx_r64_r8), (''movzx_r64_r16'', movzx_r64_r16),
     (''movsx_r64_r8'', movsx_r64_r8), (''movsx_r64_r16'', movsx_r64_r16),
     (''lar_reg_reg'', lar_reg_reg), (''lsl_reg_reg'', lsl_reg_reg),
     (''shld_reg_reg'', \<lambda>dst src. shld_reg_reg dst src True)]"

definition isa_ri :: "(string \<times> (string \<Rightarrow> int \<Rightarrow> asm_op)) list" where
  "isa_ri =
    [(''mov_reg_imm64'', mov_reg_imm64), (''add_reg_imm'', add_reg_imm),
     (''sub_reg_imm'', sub_reg_imm), (''and_reg_imm'', and_reg_imm), (''or_reg_imm'', or_reg_imm),
     (''xor_reg_imm'', xor_reg_imm), (''cmp_reg_imm'', cmp_reg_imm),
     (''shl_reg_imm8'', shl_reg_imm8), (''shr_reg_imm8'', shr_reg_imm8),
     (''rol_reg_imm8'', rol_reg_imm8), (''ror_reg_imm8'', ror_reg_imm8), (''fld_m64'', fld_m64),
     (''fstp_m64'', fstp_m64), (''fild_m64'', fild_m64), (''fistp_m64'', fistp_m64),
     (''imul_reg_imm'', imul_reg_imm), (''cmpxchg16b_mem'', cmpxchg16b_mem),
     (''test_reg_imm32'', test_reg_imm32), (''sar_reg_imm8'', sar_reg_imm8),
     (''rcl_reg_imm8'', rcl_reg_imm8), (''rcr_reg_imm8'', rcr_reg_imm8),
     (''sal_reg_imm8'', sal_reg_imm8), (''prefetchw'', prefetchw), (''prefetchnta'', prefetchnta),
     (''clflush'', clflush), (''bt_reg_imm8'', bt_reg_imm8), (''bts_reg_imm8'', bts_reg_imm8),
     (''btr_reg_imm8'', btr_reg_imm8), (''btc_reg_imm8'', btc_reg_imm8),
     (''cmpxchg8b_mem'', cmpxchg8b_mem), (''mov_reg_imm32_zext'', mov_reg_imm32_zext),
     (''stmxcsr_mem'', stmxcsr_mem), (''ldmxcsr_mem'', ldmxcsr_mem), (''fxsave_mem'', fxsave_mem),
     (''fxrstor_mem'', fxrstor_mem), (''invlpg_mem'', invlpg_mem), (''lidt_mem'', lidt_mem),
     (''lgdt_mem'', lgdt_mem)]"

definition isa_rri :: "(string \<times> (string \<Rightarrow> string \<Rightarrow> int \<Rightarrow> asm_op)) list" where
  "isa_rri =
    [(''movups_xmm_mem'', movups_xmm_mem), (''movups_mem_xmm'', movups_mem_xmm),
     (''movzx_reg_reg'', movzx_reg_reg), (''movsx_reg_reg'', movsx_reg_reg), (''shufps'', shufps),
     (''blendps'', blendps), (''vmovups_load'', vmovups_load), (''vmovups_store'', vmovups_store),
     (''vshufps'', vshufps), (''xchg_reg_mem'', xchg_reg_mem), (''rorx_reg_imm'', rorx_reg_imm),
     (''shld_reg_imm8'', shld_reg_imm8), (''shrd_reg_imm8'', shrd_reg_imm8),
     (''imul_reg_reg_imm'', imul_reg_reg_imm)]"

definition isa_rrr :: "(string \<times> (string \<Rightarrow> string \<Rightarrow> string \<Rightarrow> asm_op)) list" where
  "isa_rrr =
    [(''cmov_reg_reg'', cmov_reg_reg), (''andn_reg_reg'', andn_reg_reg),
     (''bzhi_reg_reg'', bzhi_reg_reg), (''shlx_reg_reg'', shlx_reg_reg),
     (''shrx_reg_reg'', shrx_reg_reg), (''sarx_reg_reg'', sarx_reg_reg),
     (''bextr_reg_reg'', bextr_reg_reg), (''pext_reg_reg'', pext_reg_reg),
     (''pdep_reg_reg'', pdep_reg_reg), (''mulx_reg_reg'', mulx_reg_reg)]"

definition isa_rir :: "(string \<times> (string \<Rightarrow> int \<Rightarrow> string \<Rightarrow> asm_op)) list" where
  "isa_rir =
    [(''lock_cmpxchg_mem'', lock_cmpxchg_mem), (''xchg_mem_reg'', xchg_mem_reg)]"

definition isa_i :: "(string \<times> (int \<Rightarrow> asm_op)) list" where
  "isa_i =
    [(''nop_multi'', nop_multi), (''ret_imm16'', ret_imm16), (''int_imm'', int_imm)]"

definition isa_load :: "(string \<times> (string \<Rightarrow> string \<Rightarrow> int \<Rightarrow> string option \<Rightarrow> int \<Rightarrow> asm_op)) list" where
  "isa_load =
    [(''mov32_reg_mem'', mov32_reg_mem), (''mov_reg_mem'', mov_reg_mem),
     (''mov8_reg_mem'', mov8_reg_mem), (''mov16_reg_mem'', mov16_reg_mem),
     (''lea_reg_mem'', lea_reg_mem)]"

definition isa_store :: "(string \<times> (string \<Rightarrow> int \<Rightarrow> string \<Rightarrow> string option \<Rightarrow> int \<Rightarrow> asm_op)) list" where
  "isa_store =
    [(''mov_mem_reg'', mov_mem_reg), (''mov8_mem_reg'', mov8_mem_reg),
     (''mov16_mem_reg'', mov16_mem_reg), (''mov32_mem_reg'', mov32_mem_reg)]"

definition isa_v :: "(string \<times> (string \<Rightarrow> string \<Rightarrow> string option \<Rightarrow> asm_op)) list" where
  "isa_v =
    [(''vaddps'', vaddps), (''vsubps'', vsubps), (''vmulps'', vmulps), (''vdivps'', vdivps)]"

definition isa_other :: "(string \<times> (string \<Rightarrow> string \<Rightarrow> string \<Rightarrow> int \<Rightarrow> asm_op)) list" where
  "isa_other = [(''cmov_reg_mem'', cmov_reg_mem)]"

subsection \<open>Calls\<close>

text \<open>A method call with its arguments; the optional index of a memory operand is \<open>None\<close> when
  absent, default arguments are spelled out by the caller.\<close>

datatype call =
    C0 string
  | CR string string
  | CRR string string string
  | CRI string string int
  | CRRI string string string int
  | CRRR string string string string
  | CRIR string string int string
  | CI string int
  | CLoad string string string int "string option" int
  | CStore string string int string "string option" int
  | CV string string string "string option"
  | COther string string string string int
  | CEnter int int
  | CRaw bytes

definition lookup_method :: "(string \<times> 'm) list \<Rightarrow> string \<Rightarrow> ('m \<Rightarrow> asm_op) \<Rightarrow> asm_op" where
  "lookup_method table name f =
    (case map_of table name of None \<Rightarrow> fail_op (NoMethod name) | Some m \<Rightarrow> f m)"

fun invoke :: "call \<Rightarrow> asm_op" where
  "invoke (C0 n) = lookup_method isa_0 n (\<lambda>m. m)"
| "invoke (CR n r) = lookup_method isa_r n (\<lambda>m. m r)"
| "invoke (CRR n a b) = lookup_method isa_rr n (\<lambda>m. m a b)"
| "invoke (CRI n r i) = lookup_method isa_ri n (\<lambda>m. m r i)"
| "invoke (CRRI n a b i) = lookup_method isa_rri n (\<lambda>m. m a b i)"
| "invoke (CRRR n a b c) = lookup_method isa_rrr n (\<lambda>m. m a b c)"
| "invoke (CRIR n a i b) = lookup_method isa_rir n (\<lambda>m. m a i b)"
| "invoke (CI n i) = lookup_method isa_i n (\<lambda>m. m i)"
| "invoke (CLoad n d b i x s) = lookup_method isa_load n (\<lambda>m. m d b i x s)"
| "invoke (CStore n b i r x s) = lookup_method isa_store n (\<lambda>m. m b i r x s)"
| "invoke (CV n a b c) = lookup_method isa_v n (\<lambda>m. m a b c)"
| "invoke (COther n a b c i) = lookup_method isa_other n (\<lambda>m. m a b c i)"
| "invoke (CEnter i j) = enter_imm i j"
| "invoke (CRaw bs) = raw_bytes bs"

subsection \<open>Every method keeps the invariant\<close>

lemmas isa_0_ops =
  cqo_def ret_def leave_def syscall_def nop_def cld_def std_def hlt_def faddp_def fsubp_def
  fmulp_def fdivp_def fcomip_def fstsw_ax_def fxch_def rdtsc_def cpuid_def mfence_def lfence_def
  sfence_def cli_def sti_def in_al_dx_def out_dx_al_def rep_stosb_def rep_movsb_def
  lock_prefix_def rep_prefix_def clc_def stc_def cmc_def pause_def int3_def ud2_def cdq_def
  cdqe_def pushfq_def popfq_def rdtscp_def endbr64_def cbw_def cwde_def cwd_def nop_long_def
  bound_noop_def test_reg_reg8_dummy_def cld_already_def xgetbv_def xsetbv_def wbinvd_def
  invd_def clts_def rdmsr_def wrmsr_def rdpmc_def swapgs_def syscall_sysret_def sysret_def
  sysenter_def sysexit_def iretq_def

lemmas isa_r_ops =
  idiv_reg_def not_reg_def neg_reg_def inc_reg_def dec_reg_def shl_reg_cl_def shr_reg_cl_def
  rol_reg_cl_def ror_reg_cl_def jmp_def call_def push_reg_def pop_reg_def seto_reg_def
  bswap_reg_def mul_reg_def div_reg_def sar_reg_cl_def sal_reg_cl_def rdrand_reg_def
  rdseed_reg_def xchg_reg_rax_def rcl_reg_cl_def rcr_reg_cl_def wrfsbase_reg_def wrgsbase_reg_def
  rdfsbase_reg_def rdgsbase_reg_def str_reg_def sldt_reg_def smsw_reg_def call_reg_def

lemmas isa_rr_ops =
  setcc_reg_def jcc_def mov_reg_reg_def add_reg_reg_def sub_reg_reg_def and_reg_reg_def
  or_reg_reg_def xor_reg_reg_def cmp_reg_reg_def test_reg_reg_def imul_reg_reg_def
  lea_reg_label_def addps_def subps_def mulps_def divps_def movaps_xmm_xmm_def addpd_def
  subpd_def mulpd_def divpd_def paddd_def psubd_def haddps_def xchg_reg_reg_def xadd_reg_reg_def
  bsf_reg_reg_def bsr_reg_reg_def bt_reg_reg_def vbroadcastss_def shrd_reg_reg_def
  adc_reg_reg_def sbb_reg_reg_def bts_reg_reg_def btr_reg_reg_def btc_reg_reg_def
  popcnt_reg_reg_def lzcnt_reg_reg_def tzcnt_reg_reg_def movsx_reg32_reg8_def movsxd_reg_reg_def
  blsi_reg_reg_def blsr_reg_reg_def blsmsk_reg_reg_def adcx_reg_reg_def adox_reg_reg_def
  crc32_reg_reg_def movbe_reg_reg_def cmpxchg_reg_reg_def movzx_r64_r8_def movzx_r64_r16_def
  movsx_r64_r8_def movsx_r64_r16_def lar_reg_reg_def lsl_reg_reg_def shld_reg_reg_def

lemmas isa_ri_ops =
  mov_reg_imm64_def add_reg_imm_def sub_reg_imm_def and_reg_imm_def or_reg_imm_def
  xor_reg_imm_def cmp_reg_imm_def shl_reg_imm8_def shr_reg_imm8_def rol_reg_imm8_def
  ror_reg_imm8_def fld_m64_def fstp_m64_def fild_m64_def fistp_m64_def imul_reg_imm_def
  cmpxchg16b_mem_def test_reg_imm32_def sar_reg_imm8_def rcl_reg_imm8_def rcr_reg_imm8_def
  sal_reg_imm8_def prefetchw_def prefetchnta_def clflush_def bt_reg_imm8_def bts_reg_imm8_def
  btr_reg_imm8_def btc_reg_imm8_def cmpxchg8b_mem_def mov_reg_imm32_zext_def stmxcsr_mem_def
  ldmxcsr_mem_def fxsave_mem_def fxrstor_mem_def invlpg_mem_def lidt_mem_def lgdt_mem_def

lemmas isa_rri_ops =
  movups_xmm_mem_def movups_mem_xmm_def movzx_reg_reg_def movsx_reg_reg_def shufps_def
  blendps_def vmovups_load_def vmovups_store_def vshufps_def xchg_reg_mem_def rorx_reg_imm_def
  shld_reg_imm8_def shrd_reg_imm8_def imul_reg_reg_imm_def

lemmas isa_rrr_ops =
  cmov_reg_reg_def andn_reg_reg_def bzhi_reg_reg_def shlx_reg_reg_def shrx_reg_reg_def
  sarx_reg_reg_def bextr_reg_reg_def pext_reg_reg_def pdep_reg_reg_def mulx_reg_reg_def

lemmas isa_rir_ops =
  lock_cmpxchg_mem_def xchg_mem_reg_def

lemmas isa_i_ops =
  nop_multi_def ret_imm16_def int_imm_def

lemmas isa_load_ops =
  mov32_reg_mem_def mov_reg_mem_def mov8_reg_mem_def mov16_reg_mem_def lea_reg_mem_def

lemmas isa_store_ops =
  mov_mem_reg_def mov8_mem_reg_def mov16_mem_reg_def mov32_mem_reg_def

lemmas isa_v_ops =
  vaddps_def vsubps_def vmulps_def vdivps_def

lemmas isa_shared_ops =
  binop_reg_reg_def binop_reg_imm32_def emit_mem_op_def emit_mem_op_0f_def
  emit_mem_op_sized_def sse_binop_xmm_xmm_def sse_pd_binop_def fpu_mem_op_def
  vex_nnds_ps_def cmov_reg_mem_def enter_imm_def raw_bytes_def nop_def setcc_reg_def
  shl_reg_imm8_def shl_reg_cl_def

text \<open>
  The building blocks of the methods and every method stay within any preorder that appending bytes
  and adding a relocation stay within; \<open>label\<close> is the one method this leaves out.
\<close>

locale asm_relation = state_preorder R for R :: "asm \<Rightarrow> asm \<Rightarrow> bool" +
  assumes emits: "within R (emits bs)"
    and fixup: "within R (emit_rel32_fixup t)"
begin

lemma blocks:
  "within R (emits bs)" "within R (emit_rel32_fixup t)" "within R skip_op" "within R (fail_op e)"
  "within R (emit_s32 v)" "within R (emit_s8 v)"
  using emits fixup [unfolded within_def]
  by (auto simp: skip_op_def fail_op_def emit_s32_def emit_s8_def within_def refl bindE_Inr_iff)

lemma lookups:
  "(\<And>d. within R (f d)) \<Longrightarrow> within R (with_reg n f)"
  "(\<And>d. within R (f d)) \<Longrightarrow> within R (with_xmm n f)"
  "(\<And>d. within R (f d)) \<Longrightarrow> within R (with_ymm n f)"
  "(\<And>d. within R (f d)) \<Longrightarrow> within R (with_cond t n f)"
  "(\<And>u x s. within R (g u x s)) \<Longrightarrow> within R (with_sib b ix sc g)"
  by (auto simp: within_def with_reg_def with_xmm_def with_ymm_def with_cond_def with_sib_def
      bindE_Inr_iff split: option.splits)

lemmas rules = fold blocks lookups closed

lemma movups_mem_rule: "within R (movups_mem c x b disp)"
  unfolding movups_mem_def Let_def by (intro rules)

lemma lookup_rule:
  "list_all (\<lambda>(n, m). within R (f m)) table \<Longrightarrow> within R (lookup_method table name f)"
  using blocks(4)
  by (auto simp: lookup_method_def list_all_iff dest: map_of_SomeD split: option.split)

lemma pairI: "within R (f m) \<Longrightarrow> (case (n, m) of (n, m) \<Rightarrow> within R (f m))"
  by simp

lemma isa_0_rule: "list_all (\<lambda>(n, m). within R (m)) isa_0"
  unfolding isa_0_def isa_0_ops isa_shared_ops
  by (intro list_all_pairI pairI movups_mem_rule rules)

lemma isa_r_rule: "list_all (\<lambda>(n, m). within R (m r)) isa_r0"
  unfolding isa_r0_def isa_r_ops isa_shared_ops
  by (intro list_all_pairI pairI movups_mem_rule rules)

lemma isa_rr_rule: "list_all (\<lambda>(n, m). within R (m a b)) isa_rr"
  unfolding isa_rr_def isa_rr_ops isa_shared_ops
  by (intro list_all_pairI pairI movups_mem_rule rules)

lemma isa_ri_rule: "list_all (\<lambda>(n, m). within R (m r i)) isa_ri"
  unfolding isa_ri_def isa_ri_ops isa_shared_ops
  by (intro list_all_pairI pairI movups_mem_rule rules)

lemma isa_rri_rule: "list_all (\<lambda>(n, m). within R (m a b i)) isa_rri"
  unfolding isa_rri_def isa_rri_ops isa_shared_ops
  by (intro list_all_pairI pairI movups_mem_rule rules)

lemma isa_rrr_rule: "list_all (\<lambda>(n, m). within R (m a b c)) isa_rrr"
  unfolding isa_rrr_def isa_rrr_ops isa_shared_ops
  by (intro list_all_pairI pairI movups_mem_rule rules)

lemma isa_rir_rule: "list_all (\<lambda>(n, m). within R (m a i b)) isa_rir"
  unfolding isa_rir_def isa_rir_ops isa_shared_ops
  by (intro list_all_pairI pairI movups_mem_rule rules)

lemma isa_i_rule: "list_all (\<lambda>(n, m). within R (m i)) isa_i"
  unfolding isa_i_def isa_i_ops isa_shared_ops
  by (intro list_all_pairI pairI movups_mem_rule rules)

lemma isa_load_rule: "list_all (\<lambda>(n, m). within R (m d b i x s)) isa_load"
  unfolding isa_load_def isa_load_ops isa_shared_ops
  by (intro list_all_pairI pairI movups_mem_rule rules)

lemma isa_store_rule: "list_all (\<lambda>(n, m). within R (m b i r x s)) isa_store"
  unfolding isa_store_def isa_store_ops isa_shared_ops
  by (intro list_all_pairI pairI movups_mem_rule rules)

lemma isa_v_rule: "list_all (\<lambda>(n, m). within R (m a b c)) isa_v"
  unfolding isa_v_def isa_v_ops isa_shared_ops
  by (intro list_all_pairI pairI movups_mem_rule rules)

lemma isa_other_rule: "list_all (\<lambda>(n, m). within R (m a b c i)) isa_other"
  unfolding isa_other_def isa_shared_ops
  by (intro list_all_pairI pairI rules)

lemmas isa_rules =
  isa_0_rule isa_rr_rule isa_ri_rule isa_rri_rule isa_rrr_rule isa_rir_rule isa_i_rule
  isa_load_rule isa_store_rule isa_v_rule isa_other_rule

lemma one_reg_rule: "n \<noteq> ''label'' \<Longrightarrow> within R (invoke (CR n r))"
proof -
  assume "n \<noteq> ''label''"
  then have "lookup_method isa_r n f = lookup_method isa_r0 n f" for f :: "_ \<Rightarrow> asm_op"
    unfolding lookup_method_def by (simp add: isa_r_def map_of_append map_add_def split: option.split)
  then show ?thesis using lookup_rule [OF isa_r_rule] by simp
qed

lemma invoke_rule: "(\<And>r. c \<noteq> CR ''label'' r) \<Longrightarrow> within R (invoke c)"
proof (cases c)
  case (CR n r)
  assume "\<And>r. c \<noteq> CR ''label'' r"
  then show ?thesis using CR one_reg_rule by metis
next
  case (CEnter i j)
  then show ?thesis by (simp add: enter_imm_def) (intro rules)
next
  case (CRaw bs)
  then show ?thesis by (simp add: raw_bytes_def) (intro rules)
qed (simp_all only: invoke.simps lookup_rule isa_rules)

end

interpretation good: asm_relation asm_step
  by unfold_locales (auto simp: asm_step_def good_emits good_fixup intro: appends_trans)

interpretation quiet: asm_relation asm_quiet
  by unfold_locales (auto simp: asm_quiet_def good.refl quiet_emits quiet_fixup intro: good.trans)

text \<open>The methods one by one.\<close>

lemmas quiet_methods =
  quiet.isa_0_rule [unfolded isa_0_def, simplified]
  quiet.isa_r_rule [unfolded isa_r0_def, simplified]
  quiet.isa_rr_rule [unfolded isa_rr_def, simplified]
  quiet.isa_ri_rule [unfolded isa_ri_def, simplified]
  quiet.isa_rri_rule [unfolded isa_rri_def, simplified]
  quiet.isa_rrr_rule [unfolded isa_rrr_def, simplified]
  quiet.isa_rir_rule [unfolded isa_rir_def, simplified]
  quiet.isa_i_rule [unfolded isa_i_def, simplified]
  quiet.isa_load_rule [unfolded isa_load_def, simplified]
  quiet.isa_store_rule [unfolded isa_store_def, simplified]
  quiet.isa_v_rule [unfolded isa_v_def, simplified]
  quiet.isa_other_rule [unfolded isa_other_def, simplified]

lemma invoke_good: "good_op (invoke c)"
proof (cases "\<exists>r. c = CR ''label'' r")
  case True
  then show ?thesis by (auto simp: lookup_method_def isa_r_def isa_r0_def good_label)
next
  case False
  then show ?thesis by (intro good.invoke_rule) auto
qed

subsection \<open>The interface the code generator uses\<close>

text \<open>A program is a sequence of calls on a fresh assembler, then \<open>link\<close>.\<close>

definition assemble :: "('i \<Rightarrow> asm_op) \<Rightarrow> (string \<times> int) list option \<Rightarrow> 'i list \<Rightarrow> asm res" where
  "assemble op base is = bindE (seqE (map op is) init_asm) (link base)"

locale instruction_set =
  fixes op :: "'i \<Rightarrow> asm_op"
  assumes op_good: "good_op (op i)"
begin

lemma sequence_good: "good_op (seqE (map op is))"
  by (rule good.fold) (simp add: list_all_iff op_good)

lemma sequence_wf: "seqE (map op is) init_asm = Inr a \<Longrightarrow> wf_asm a"
  using good_op_wf [OF sequence_good] wf_init by blast

lemma sequence_prefix:
  "seqE (map op (is @ js)) init_asm = Inr a \<Longrightarrow>
   \<exists>b. seqE (map op is) init_asm = Inr b \<and> appends b a"
  using good_opD [OF sequence_good]
  by (fastforce simp: seqE_append bindE_Inr_iff)

lemma assembled:
  assumes "assemble op base is = Inr a'"
  obtains a where "seqE (map op is) init_asm = Inr a" "wf_asm a" "link base a = Inr a'"
  using assms sequence_wf by (auto simp: assemble_def bindE_Inr_iff)

lemma assembled_target:
  assumes "assemble op base is = Inr a'" and "r \<in> set (relocs a')"
  shows "\<exists>t. map_of (link_table base a') (r_target r) = Some t \<and> rel32_target (code a') r = t"
proof -
  obtain a where a: "seqE (map op is) init_asm = Inr a" "wf_asm a" "link base a = Inr a'"
    using assms(1) by (rule assembled)
  have "relocs a' = relocs a" and "link_table base a' = link_table base a"
    using link_frame [OF a(3,2)] by (simp_all add: link_table_def label_table_def split: option.split)
  then show ?thesis using link_reaches [OF a(3,2)] assms(2) by simp
qed

lemma assembled_bytes:
  assumes "seqE (map op is) init_asm = Inr a" and "link base a = Inr a'"
  shows "length (code a') = length (code a) \<and>
    (\<forall>k < length (code a). (\<forall>r \<in> set (relocs a). \<not> in_hole k r) \<longrightarrow> code a' ! k = code a ! k)"
  using link_frame [OF assms(2) sequence_wf [OF assms(1)]] by blast

lemma assemble_succeeds_iff:
  assumes "seqE (map op is) init_asm = Inr a"
  shows "(\<exists>a'. assemble op base is = Inr a') \<longleftrightarrow> list_all (resolvable (link_table base a)) (relocs a)"
  using assms link_ok_iff by (simp add: assemble_def)

end

interpretation isa: instruction_set invoke
  by unfold_locales (rule invoke_good)

end
