(* ===== verification/Ast.thy ===== *)
theory Ast
  imports Prelude
begin

section \<open>The syntax tree (ACLM/ast_nodes.py)\<close>

text \<open>
  One constructor per node class, fields in the order of the class. The classes of one language
  namespace share a datatype, and \<open>node\<close> wraps them; the source has one flat class hierarchy and
  dispatches on the class. A statement carries its source line (\<open>Node.line\<close>). A field of type
  \<open>Any\<close> holds an operand expression, an optional one \<open>None\<close> when absent; a byte list holds what
  the parser masked to 8 bits. The \<open>String\<close> class is \<open>Str\<close>.
\<close>

datatype expr =
    Number int
  | Str string
  | Reg string
  | Ident string
  | StructFieldRef string string
  | BinExpr string expr expr

datatype alloc_size = SizeNum int | SizeOf string

datatype sys_num = SysNum int | SysName string

text \<open>Memory blocks, strings, mappings, locks, time, signals.\<close>

datatype (plugins only: code) run_node =
    BlastFill string expr expr
  | BlastCopy string expr expr
  | WireLen string expr
  | WireCmp string expr expr
  | WireCopy expr expr
  | WireEmit expr "expr option"
  | TrapNeg string
  | CellMap string expr "expr option" "expr option"
  | CellFree expr expr
  | GateCas string string string
  | GateSpin string
  | PulseSleep expr
  | PulseNow string
  | ErrStatus string
  | BlastRepFill string expr expr
  | BlastRepCopy string expr expr
  | CellProtect expr expr expr
  | SigAction expr string
  | SigReturn
  | CellMapFile string expr expr "expr option" "expr option"

text \<open>Sockets and threads.\<close>

datatype (plugins only: code) net_node =
    ThreadSpawn string string
  | ThreadJoin "expr option"
  | ThreadExit "expr option"
  | NetSocket string expr expr expr
  | NetConnect expr expr expr
  | NetSend expr expr expr
  | NetRecv expr expr expr
  | NetClose expr
  | ThreadJoinAll
  | NetPoll expr expr expr
  | NetEpollCreate string "expr option"
  | NetEpollCtl expr expr expr expr
  | NetEpollWait string expr expr expr expr

text \<open>Processor and port operations.\<close>

datatype (plugins only: code) chip_node =
    FlagSetcc string string
  | ChipTicks string
  | ChipId expr string string string string
  | ChipCli
  | ChipSti
  | ChipHalt
  | GateFence string
  | PortOut expr expr
  | PortIn string expr
  | FlagsClear
  | FlagsSetDF
  | ChipSerialInit
  | ChipSerialPutc expr
  | ChipLidt string
  | ChipLgdt string
  | ChipKbdPoll string
  | ChipInt int
  | ChipPitInit int
  | ChipPicRemap

text \<open>Instructions with operands of several kinds.\<close>

datatype (plugins only: code) cpu_node =
    VecLoad string expr int
  | VecStore expr int string
  | VecBin string string string
  | CpuLea string expr "expr option" int int
  | CpuTest expr expr
  | CpuCmov string expr string
  | VecVBin string string string int
  | VecVLoad string expr int
  | VecVStore expr int string
  | CpuXchg string string
  | CpuXadd string string
  | CpuBitScan string string expr
  | CpuBt string expr
  | CpuMovExt string string expr int
  | CpuLeaRip string string
  | CpuLeaAbs string int
  | CpuCmpxchg16b expr int
  | CpuCmovMem string expr int string
  | PrefixedOp string
  | CpuFlagOp string
  | CpuMulDiv1 string string
  | CpuTestImm string int
  | CpuBitOp string string string
  | CpuMovsxd string string
  | CpuPrefetch string string
  | CpuClflush string
  | CpuMovzx string string int
  | CpuMovsx string string int
  | CpuBitImm string string int
  | CpuNopLong
  | CpuEnter int int
  | CpuMxcsr string string
  | CpuFx string string
  | CpuXgetbv
  | CpuFsGs string string
  | CpuPrivOp string string

text \<open>Register instructions.\<close>

datatype (plugins only: code) alu_node =
    CpuShld string string
  | CpuShrd string string
  | CpuImulImm string int
  | CpuAndn string string string
  | CpuBzhi string string string
  | CpuAdc string string
  | CpuSbb string string
  | CpuBswap string
  | CpuPopcnt string string
  | CpuLzcnt string string
  | CpuTzcnt string string
  | CpuShlx string string string
  | CpuShrx string string string
  | CpuSarx string string string
  | CpuRorx string string int
  | CpuBextr string string string
  | CpuBlsi string string
  | CpuBlsr string string
  | CpuBlsmsk string string
  | CpuAdcx string string
  | CpuAdox string string
  | CpuCrc32 string string
  | CpuRdrand string
  | CpuRdseed string
  | CpuPext string string string
  | CpuPdep string string string
  | CpuMulx string string string
  | CpuCmpxchg string string
  | CpuShldImm string string int
  | CpuShrdImm string string int
  | CpuImul3 string string int

text \<open>The freestanding kernel statements.\<close>

datatype (plugins only: code) kernel_node =
    KernelHeapInit int
  | KernelHeapAlloc string expr
  | KernelCtxSave string
  | KernelCtxLoad string
  | KernelIdtInstall
  | KernelCoopSwitch string string
  | KernelPrintkStr expr
  | KernelPanic
  | KernelTickInstall
  | KernelTickRead string
  | KernelRamfsInit
  | KernelRamfsPut expr expr expr
  | KernelRamfsGet string expr
  | KernelNetInit
  | KernelNetPoll string
  | KernelCsRing string
  | KernelEnterUser expr expr
  | KernelPfInstall
  | KernelNetAllowPort int
  | KernelNetCheckPort string expr
  | KernelPreemptArm string
  | KernelSyscallInit
  | KernelSysret
  | KernelNicBar expr
  | KernelNicRegRead string expr
  | KernelNicRegWrite expr expr
  | KernelIrqFullSave
  | KernelSyscallTableInit
  | KernelSyscallRegister int string
  | KernelNmiInstall
  | KernelDmaRingInit int
  | KernelDmaRingPush expr expr
  | KernelDmaRingPop string string

text \<open>Statements.\<close>

datatype node =
    Label string
  | Goto string
  | JumpIf string string
  | Cmp expr expr
  | CpuBin string string expr
  | CpuUnary string string
  | DataAlloc string alloc_size
  | DataConst string expr
  | MemLoad string expr expr int "expr option" int
  | MemStore expr expr expr int "expr option" int
  | SysCall sys_num "expr list"
  | Call string "expr list"
  | Ret
  | StackPush expr
  | StackPop string
  | SysRaw expr "expr list"
  | RawBytes bytes
  | Include string
  | TargetBaremetal
  | StructDef string "(string \<times> int) list"
  | FnDef string "string list" "(int \<times> node) list" "(string \<times> int) list"
  | LocalDecl string int
  | RetVal "expr option"
  | DataBytes string bytes
  | MetalRegs
  | AssertBytes string int string
  | AssertSize string int
  | MetalDeterministic
  | DataAlign int
  | SectionAt string int
  | RunStmt run_node
  | NetStmt net_node
  | ChipStmt chip_node
  | CpuStmt cpu_node
  | AluStmt alu_node
  | KernelStmt kernel_node

type_synonym stmt = "int \<times> node"

text \<open>\<open>Program.statements\<close>.\<close>

type_synonym program = "stmt list"

subsection \<open>Class names\<close>

text \<open>\<open>type(s).__name__\<close>: the name the listing prints for a statement.\<close>

primrec run_node_class :: "run_node \<Rightarrow> string" where
  "run_node_class (BlastFill _ _ _) = ''BlastFill''"
| "run_node_class (BlastCopy _ _ _) = ''BlastCopy''"
| "run_node_class (WireLen _ _) = ''WireLen''"
| "run_node_class (WireCmp _ _ _) = ''WireCmp''"
| "run_node_class (WireCopy _ _) = ''WireCopy''"
| "run_node_class (WireEmit _ _) = ''WireEmit''"
| "run_node_class (TrapNeg _) = ''TrapNeg''"
| "run_node_class (CellMap _ _ _ _) = ''CellMap''"
| "run_node_class (CellFree _ _) = ''CellFree''"
| "run_node_class (GateCas _ _ _) = ''GateCas''"
| "run_node_class (GateSpin _) = ''GateSpin''"
| "run_node_class (PulseSleep _) = ''PulseSleep''"
| "run_node_class (PulseNow _) = ''PulseNow''"
| "run_node_class (ErrStatus _) = ''ErrStatus''"
| "run_node_class (BlastRepFill _ _ _) = ''BlastRepFill''"
| "run_node_class (BlastRepCopy _ _ _) = ''BlastRepCopy''"
| "run_node_class (CellProtect _ _ _) = ''CellProtect''"
| "run_node_class (SigAction _ _) = ''SigAction''"
| "run_node_class SigReturn = ''SigReturn''"
| "run_node_class (CellMapFile _ _ _ _ _) = ''CellMapFile''"

primrec net_node_class :: "net_node \<Rightarrow> string" where
  "net_node_class (ThreadSpawn _ _) = ''ThreadSpawn''"
| "net_node_class (ThreadJoin _) = ''ThreadJoin''"
| "net_node_class (ThreadExit _) = ''ThreadExit''"
| "net_node_class (NetSocket _ _ _ _) = ''NetSocket''"
| "net_node_class (NetConnect _ _ _) = ''NetConnect''"
| "net_node_class (NetSend _ _ _) = ''NetSend''"
| "net_node_class (NetRecv _ _ _) = ''NetRecv''"
| "net_node_class (NetClose _) = ''NetClose''"
| "net_node_class ThreadJoinAll = ''ThreadJoinAll''"
| "net_node_class (NetPoll _ _ _) = ''NetPoll''"
| "net_node_class (NetEpollCreate _ _) = ''NetEpollCreate''"
| "net_node_class (NetEpollCtl _ _ _ _) = ''NetEpollCtl''"
| "net_node_class (NetEpollWait _ _ _ _ _) = ''NetEpollWait''"

primrec chip_node_class :: "chip_node \<Rightarrow> string" where
  "chip_node_class (FlagSetcc _ _) = ''FlagSetcc''"
| "chip_node_class (ChipTicks _) = ''ChipTicks''"
| "chip_node_class (ChipId _ _ _ _ _) = ''ChipId''"
| "chip_node_class ChipCli = ''ChipCli''"
| "chip_node_class ChipSti = ''ChipSti''"
| "chip_node_class ChipHalt = ''ChipHalt''"
| "chip_node_class (GateFence _) = ''GateFence''"
| "chip_node_class (PortOut _ _) = ''PortOut''"
| "chip_node_class (PortIn _ _) = ''PortIn''"
| "chip_node_class FlagsClear = ''FlagsClear''"
| "chip_node_class FlagsSetDF = ''FlagsSetDF''"
| "chip_node_class ChipSerialInit = ''ChipSerialInit''"
| "chip_node_class (ChipSerialPutc _) = ''ChipSerialPutc''"
| "chip_node_class (ChipLidt _) = ''ChipLidt''"
| "chip_node_class (ChipLgdt _) = ''ChipLgdt''"
| "chip_node_class (ChipKbdPoll _) = ''ChipKbdPoll''"
| "chip_node_class (ChipInt _) = ''ChipInt''"
| "chip_node_class (ChipPitInit _) = ''ChipPitInit''"
| "chip_node_class ChipPicRemap = ''ChipPicRemap''"

primrec cpu_node_class :: "cpu_node \<Rightarrow> string" where
  "cpu_node_class (VecLoad _ _ _) = ''VecLoad''"
| "cpu_node_class (VecStore _ _ _) = ''VecStore''"
| "cpu_node_class (VecBin _ _ _) = ''VecBin''"
| "cpu_node_class (CpuLea _ _ _ _ _) = ''CpuLea''"
| "cpu_node_class (CpuTest _ _) = ''CpuTest''"
| "cpu_node_class (CpuCmov _ _ _) = ''CpuCmov''"
| "cpu_node_class (VecVBin _ _ _ _) = ''VecVBin''"
| "cpu_node_class (VecVLoad _ _ _) = ''VecVLoad''"
| "cpu_node_class (VecVStore _ _ _) = ''VecVStore''"
| "cpu_node_class (CpuXchg _ _) = ''CpuXchg''"
| "cpu_node_class (CpuXadd _ _) = ''CpuXadd''"
| "cpu_node_class (CpuBitScan _ _ _) = ''CpuBitScan''"
| "cpu_node_class (CpuBt _ _) = ''CpuBt''"
| "cpu_node_class (CpuMovExt _ _ _ _) = ''CpuMovExt''"
| "cpu_node_class (CpuLeaRip _ _) = ''CpuLeaRip''"
| "cpu_node_class (CpuLeaAbs _ _) = ''CpuLeaAbs''"
| "cpu_node_class (CpuCmpxchg16b _ _) = ''CpuCmpxchg16b''"
| "cpu_node_class (CpuCmovMem _ _ _ _) = ''CpuCmovMem''"
| "cpu_node_class (PrefixedOp _) = ''PrefixedOp''"
| "cpu_node_class (CpuFlagOp _) = ''CpuFlagOp''"
| "cpu_node_class (CpuMulDiv1 _ _) = ''CpuMulDiv1''"
| "cpu_node_class (CpuTestImm _ _) = ''CpuTestImm''"
| "cpu_node_class (CpuBitOp _ _ _) = ''CpuBitOp''"
| "cpu_node_class (CpuMovsxd _ _) = ''CpuMovsxd''"
| "cpu_node_class (CpuPrefetch _ _) = ''CpuPrefetch''"
| "cpu_node_class (CpuClflush _) = ''CpuClflush''"
| "cpu_node_class (CpuMovzx _ _ _) = ''CpuMovzx''"
| "cpu_node_class (CpuMovsx _ _ _) = ''CpuMovsx''"
| "cpu_node_class (CpuBitImm _ _ _) = ''CpuBitImm''"
| "cpu_node_class CpuNopLong = ''CpuNopLong''"
| "cpu_node_class (CpuEnter _ _) = ''CpuEnter''"
| "cpu_node_class (CpuMxcsr _ _) = ''CpuMxcsr''"
| "cpu_node_class (CpuFx _ _) = ''CpuFx''"
| "cpu_node_class CpuXgetbv = ''CpuXgetbv''"
| "cpu_node_class (CpuFsGs _ _) = ''CpuFsGs''"
| "cpu_node_class (CpuPrivOp _ _) = ''CpuPrivOp''"

primrec alu_node_class :: "alu_node \<Rightarrow> string" where
  "alu_node_class (CpuShld _ _) = ''CpuShld''"
| "alu_node_class (CpuShrd _ _) = ''CpuShrd''"
| "alu_node_class (CpuImulImm _ _) = ''CpuImulImm''"
| "alu_node_class (CpuAndn _ _ _) = ''CpuAndn''"
| "alu_node_class (CpuBzhi _ _ _) = ''CpuBzhi''"
| "alu_node_class (CpuAdc _ _) = ''CpuAdc''"
| "alu_node_class (CpuSbb _ _) = ''CpuSbb''"
| "alu_node_class (CpuBswap _) = ''CpuBswap''"
| "alu_node_class (CpuPopcnt _ _) = ''CpuPopcnt''"
| "alu_node_class (CpuLzcnt _ _) = ''CpuLzcnt''"
| "alu_node_class (CpuTzcnt _ _) = ''CpuTzcnt''"
| "alu_node_class (CpuShlx _ _ _) = ''CpuShlx''"
| "alu_node_class (CpuShrx _ _ _) = ''CpuShrx''"
| "alu_node_class (CpuSarx _ _ _) = ''CpuSarx''"
| "alu_node_class (CpuRorx _ _ _) = ''CpuRorx''"
| "alu_node_class (CpuBextr _ _ _) = ''CpuBextr''"
| "alu_node_class (CpuBlsi _ _) = ''CpuBlsi''"
| "alu_node_class (CpuBlsr _ _) = ''CpuBlsr''"
| "alu_node_class (CpuBlsmsk _ _) = ''CpuBlsmsk''"
| "alu_node_class (CpuAdcx _ _) = ''CpuAdcx''"
| "alu_node_class (CpuAdox _ _) = ''CpuAdox''"
| "alu_node_class (CpuCrc32 _ _) = ''CpuCrc32''"
| "alu_node_class (CpuRdrand _) = ''CpuRdrand''"
| "alu_node_class (CpuRdseed _) = ''CpuRdseed''"
| "alu_node_class (CpuPext _ _ _) = ''CpuPext''"
| "alu_node_class (CpuPdep _ _ _) = ''CpuPdep''"
| "alu_node_class (CpuMulx _ _ _) = ''CpuMulx''"
| "alu_node_class (CpuCmpxchg _ _) = ''CpuCmpxchg''"
| "alu_node_class (CpuShldImm _ _ _) = ''CpuShldImm''"
| "alu_node_class (CpuShrdImm _ _ _) = ''CpuShrdImm''"
| "alu_node_class (CpuImul3 _ _ _) = ''CpuImul3''"

primrec kernel_node_class :: "kernel_node \<Rightarrow> string" where
  "kernel_node_class (KernelHeapInit _) = ''KernelHeapInit''"
| "kernel_node_class (KernelHeapAlloc _ _) = ''KernelHeapAlloc''"
| "kernel_node_class (KernelCtxSave _) = ''KernelCtxSave''"
| "kernel_node_class (KernelCtxLoad _) = ''KernelCtxLoad''"
| "kernel_node_class KernelIdtInstall = ''KernelIdtInstall''"
| "kernel_node_class (KernelCoopSwitch _ _) = ''KernelCoopSwitch''"
| "kernel_node_class (KernelPrintkStr _) = ''KernelPrintkStr''"
| "kernel_node_class KernelPanic = ''KernelPanic''"
| "kernel_node_class KernelTickInstall = ''KernelTickInstall''"
| "kernel_node_class (KernelTickRead _) = ''KernelTickRead''"
| "kernel_node_class KernelRamfsInit = ''KernelRamfsInit''"
| "kernel_node_class (KernelRamfsPut _ _ _) = ''KernelRamfsPut''"
| "kernel_node_class (KernelRamfsGet _ _) = ''KernelRamfsGet''"
| "kernel_node_class KernelNetInit = ''KernelNetInit''"
| "kernel_node_class (KernelNetPoll _) = ''KernelNetPoll''"
| "kernel_node_class (KernelCsRing _) = ''KernelCsRing''"
| "kernel_node_class (KernelEnterUser _ _) = ''KernelEnterUser''"
| "kernel_node_class KernelPfInstall = ''KernelPfInstall''"
| "kernel_node_class (KernelNetAllowPort _) = ''KernelNetAllowPort''"
| "kernel_node_class (KernelNetCheckPort _ _) = ''KernelNetCheckPort''"
| "kernel_node_class (KernelPreemptArm _) = ''KernelPreemptArm''"
| "kernel_node_class KernelSyscallInit = ''KernelSyscallInit''"
| "kernel_node_class KernelSysret = ''KernelSysret''"
| "kernel_node_class (KernelNicBar _) = ''KernelNicBar''"
| "kernel_node_class (KernelNicRegRead _ _) = ''KernelNicRegRead''"
| "kernel_node_class (KernelNicRegWrite _ _) = ''KernelNicRegWrite''"
| "kernel_node_class KernelIrqFullSave = ''KernelIrqFullSave''"
| "kernel_node_class KernelSyscallTableInit = ''KernelSyscallTableInit''"
| "kernel_node_class (KernelSyscallRegister _ _) = ''KernelSyscallRegister''"
| "kernel_node_class KernelNmiInstall = ''KernelNmiInstall''"
| "kernel_node_class (KernelDmaRingInit _) = ''KernelDmaRingInit''"
| "kernel_node_class (KernelDmaRingPush _ _) = ''KernelDmaRingPush''"
| "kernel_node_class (KernelDmaRingPop _ _) = ''KernelDmaRingPop''"

definition node_class :: "node \<Rightarrow> string" where
  "node_class s = (case s of
     Label _ \<Rightarrow> ''Label''
   | Goto _ \<Rightarrow> ''Goto''
   | JumpIf _ _ \<Rightarrow> ''JumpIf''
   | Cmp _ _ \<Rightarrow> ''Cmp''
   | CpuBin _ _ _ \<Rightarrow> ''CpuBin''
   | CpuUnary _ _ \<Rightarrow> ''CpuUnary''
   | DataAlloc _ _ \<Rightarrow> ''DataAlloc''
   | DataConst _ _ \<Rightarrow> ''DataConst''
   | MemLoad _ _ _ _ _ _ \<Rightarrow> ''MemLoad''
   | MemStore _ _ _ _ _ _ \<Rightarrow> ''MemStore''
   | SysCall _ _ \<Rightarrow> ''SysCall''
   | Call _ _ \<Rightarrow> ''Call''
   | Ret \<Rightarrow> ''Ret''
   | StackPush _ \<Rightarrow> ''StackPush''
   | StackPop _ \<Rightarrow> ''StackPop''
   | SysRaw _ _ \<Rightarrow> ''SysRaw''
   | RawBytes _ \<Rightarrow> ''RawBytes''
   | Include _ \<Rightarrow> ''Include''
   | TargetBaremetal \<Rightarrow> ''TargetBaremetal''
   | StructDef _ _ \<Rightarrow> ''StructDef''
   | FnDef _ _ _ _ \<Rightarrow> ''FnDef''
   | LocalDecl _ _ \<Rightarrow> ''LocalDecl''
   | RetVal _ \<Rightarrow> ''RetVal''
   | DataBytes _ _ \<Rightarrow> ''DataBytes''
   | MetalRegs \<Rightarrow> ''MetalRegs''
   | AssertBytes _ _ _ \<Rightarrow> ''AssertBytes''
   | AssertSize _ _ \<Rightarrow> ''AssertSize''
   | MetalDeterministic \<Rightarrow> ''MetalDeterministic''
   | DataAlign _ \<Rightarrow> ''DataAlign''
   | SectionAt _ _ \<Rightarrow> ''SectionAt''
   | RunStmt x \<Rightarrow> run_node_class x
   | NetStmt x \<Rightarrow> net_node_class x
   | ChipStmt x \<Rightarrow> chip_node_class x
   | CpuStmt x \<Rightarrow> cpu_node_class x
   | AluStmt x \<Rightarrow> alu_node_class x
   | KernelStmt x \<Rightarrow> kernel_node_class x)"

end
