(* ===== verification/Codec.thy ===== *)
theory Codec
  imports Prelude
begin

section \<open>Packed binary records\<close>

text \<open>
  \<open>struct.pack\<close> as the writers use it: a sequence of fixed-width fields, each of which may
  refuse its value. The interface \<open>fixed_codec\<close> states what one field format promises; inside it
  the round trip of whole records is proved once. It is interpreted on the little-endian unsigned
  formats \<open>B\<close>, \<open>H\<close>, \<open>I\<close>, \<open>Q\<close>.
\<close>

subsection \<open>Records of fields\<close>

fun pack_seq :: "('f \<Rightarrow> int \<Rightarrow> bytes res) \<Rightarrow> ('f \<times> int) list \<Rightarrow> bytes res" where
  "pack_seq enc [] = Inr []"
| "pack_seq enc ((f, v) # fs) =
    bindE (enc f v) (\<lambda>b. bindE (pack_seq enc fs) (\<lambda>bs. Inr (b @ bs)))"

fun unpack_seq :: "('f \<Rightarrow> nat) \<Rightarrow> ('f \<Rightarrow> bytes \<Rightarrow> int) \<Rightarrow> 'f list \<Rightarrow> bytes \<Rightarrow> int list" where
  "unpack_seq width dec [] bs = []"
| "unpack_seq width dec (f # fs) bs =
    dec f (take (width f) bs) # unpack_seq width dec fs (drop (width f) bs)"

locale fixed_codec =
  fixes width :: "'f \<Rightarrow> nat"
    and enc :: "'f \<Rightarrow> int \<Rightarrow> bytes res"
    and dec :: "'f \<Rightarrow> bytes \<Rightarrow> int"
  assumes enc_width: "enc f v = Inr bs \<Longrightarrow> length bs = width f"
    and dec_enc: "enc f v = Inr bs \<Longrightarrow> dec f bs = v"
begin

lemma pack_length:
  "pack_seq enc fs = Inr bs \<Longrightarrow> length bs = sum_list (map (width \<circ> fst) fs)"
  by (induction fs arbitrary: bs) (auto simp: bindE_Inr_iff enc_width)

lemma unpack_pack:
  "pack_seq enc fs = Inr bs \<Longrightarrow> unpack_seq width dec (map fst fs) (bs @ rest) = map snd fs"
proof (induction fs arbitrary: bs)
  case Nil
  then show ?case by simp
next
  case (Cons fv fs)
  obtain f v where fv: "fv = (f, v)" by force
  obtain b cs where b: "enc f v = Inr b" "pack_seq enc fs = Inr cs" "bs = b @ cs"
    using Cons.prems by (auto simp: fv bindE_Inr_iff)
  then show ?case
    using Cons.IH [OF b(2)] enc_width [OF b(1)] dec_enc [OF b(1)] by (simp add: fv)
qed

lemma pack_ok_iff:
  "(\<exists>bs. pack_seq enc fs = Inr bs) \<longleftrightarrow> (\<forall>(f, v) \<in> set fs. \<exists>b. enc f v = Inr b)"
  by (induction fs) (auto simp: bindE_Inr_iff)

end

subsection \<open>Little-endian unsigned formats\<close>

datatype fmtc = B | H | I | Q

fun fmt_width :: "fmtc \<Rightarrow> nat" where
  "fmt_width B = 1"
| "fmt_width H = 2"
| "fmt_width I = 4"
| "fmt_width Q = 8"

definition pack_le :: "fmtc \<Rightarrow> int \<Rightarrow> bytes res" where
  "pack_le f v =
    (if 0 \<le> v \<and> v < 256 ^ fmt_width f then Inr (to_bytes_le (fmt_width f) v) else Inl (PackRange v))"

definition unpack_le :: "fmtc \<Rightarrow> bytes \<Rightarrow> int" where
  "unpack_le f bs = from_bytes_le bs"

lemma pack_le_Inr_iff:
  "pack_le f v = Inr bs \<longleftrightarrow> 0 \<le> v \<and> v < 256 ^ fmt_width f \<and> bs = to_bytes_le (fmt_width f) v"
  by (auto simp: pack_le_def)

interpretation le: fixed_codec fmt_width pack_le unpack_le
  by unfold_locales (auto simp: pack_le_Inr_iff unpack_le_def from_to_bytes_le_id)

abbreviation pack :: "(fmtc \<times> int) list \<Rightarrow> bytes res" where
  "pack \<equiv> pack_seq pack_le"

abbreviation unpack :: "fmtc list \<Rightarrow> bytes \<Rightarrow> int list" where
  "unpack \<equiv> unpack_seq fmt_width unpack_le"

text \<open>\<open>while len(blob) < n: blob.append(v)\<close>.\<close>

definition pad_to :: "nat \<Rightarrow> byte \<Rightarrow> bytes \<Rightarrow> bytes" where
  "pad_to n v bs = bs @ replicate (n - length bs) v"

lemma length_pad_to [simp]: "length (pad_to n v bs) = max n (length bs)"
  by (simp add: pad_to_def)

text \<open>\<open>(n + a - 1) & ~(a - 1)\<close> for a power of two \<open>a\<close> (\<open>align_up_mask\<close> shows the two forms equal).\<close>

definition align_up :: "nat \<Rightarrow> nat \<Rightarrow> nat" where
  "align_up a n = (n + a - 1) div a * a"

lemma align_up:
  assumes "0 < a"
  shows "n \<le> align_up a n" and "align_up a n < n + a" and "a dvd align_up a n"
proof -
  have "(n + a - 1) div a * a + (n + a - 1) mod a = n + a - 1" by simp
  moreover have "(n + a - 1) mod a < a" using assms by simp
  ultimately show "n \<le> align_up a n" "align_up a n < n + a"
    unfolding align_up_def using assms by linarith+
  show "a dvd align_up a n" by (simp add: align_up_def)
qed

lemma align_up_mask: "nat ((int n + 2 ^ k - 1) AND NOT (2 ^ k - 1)) = align_up (2 ^ k) n"
proof -
  have v: "v AND NOT (2 ^ k - 1) = v div 2 ^ k * 2 ^ k" for v :: int
  proof -
    have "v AND NOT (mask k) = push_bit k (drop_bit k v)"
      by (rule bit_eqI) (auto simp: bit_simps)
    then show ?thesis by (simp add: mask_eq_exp_minus_1 push_bit_eq_mult drop_bit_eq_div)
  qed
  have "1 \<le> n + 2 ^ k" using one_le_power [of "2 :: nat" k] by linarith
  from of_nat_diff [OF this, where 'a = int]
  have n: "int n + 2 ^ k - 1 = int (n + 2 ^ k - 1)" by simp
  have "int (n + 2 ^ k - 1) div 2 ^ k * 2 ^ k = int ((n + 2 ^ k - 1) div 2 ^ k * 2 ^ k)"
    by (simp add: zdiv_int)
  then show ?thesis unfolding v n align_up_def by (simp only: nat_int)
qed

end
