(* ===== verification/Codegen_Base.thy ===== *)
theory Codegen_Base
  imports Ast Isa_Table Codec
begin

section \<open>The code generator: state and operands (ACLM/codegen.py)\<close>

text \<open>
  The fields of class \<open>CodeGenerator\<close> as a record, the small operations every emitter is built
  from (a method call on the assembler, \<open>new_label\<close>, data reserved on first use, code emitted
  once), and the emitters of operands: \<open>_eval\<close>, \<open>_base_reg\<close>, \<open>_base_phys\<close>, \<open>_resolve_offset\<close>.
  An emitter is a function \<open>gen \<Rightarrow> error + gen\<close>. Dictionaries are association lists updated in
  place. Strings are the UTF-8 bytes of the Python strings. The list of frame diagrams, which no
  code fills, is left out.
\<close>

subsection \<open>State\<close>

record struct_info =
  si_fields :: "(string \<times> int) list"
  si_size :: int

text \<open>What the listing is written from: the modes, the remarks on sections, and in teaching mode the
  line, class name and place in the code of every statement.\<close>

record listing =
  emit_listing :: bool
  teach_mode :: bool
  section_hints :: "string list"
  teach_map :: "(int \<times> string \<times> nat) list"

definition no_listing :: listing where
  "no_listing = \<lparr>emit_listing = False, teach_mode = False, section_hints = [], teach_map = []\<rparr>"

record gen =
  g_asm :: asm
  data_layout :: "(string \<times> int) list"
  data_bytes :: bytes
  data_consts :: "(string \<times> int) list"
  string_lens :: "(string \<times> int) list"
  label_i :: nat
  g_deterministic :: bool
  assert_bytes :: "(string \<times> int \<times> string \<times> nat) list"
  assert_sizes :: "(string \<times> int) list"
  baremetal :: bool
  debug_dwarf :: bool
  use_wx :: bool
  line_entries :: "(nat \<times> int) list"
  structs :: "(string \<times> struct_info) list"
  fn_locals :: "(string \<times> int) list"
  fn_args :: "(string \<times> string) list"
  in_fn :: bool
  emitted :: "string list"
  g_listing :: listing

type_synonym cg = "gen \<Rightarrow> gen res"

definition init_gen :: gen where
  "init_gen = \<lparr>g_asm = init_asm, data_layout = [], data_bytes = [], data_consts = [],
     string_lens = [], label_i = 0, g_deterministic = False, assert_bytes = [], assert_sizes = [],
     baremetal = False, debug_dwarf = False, use_wx = False, line_entries = [], structs = [],
     fn_locals = [], fn_args = [], in_fn = False, emitted = [],
     g_listing = no_listing\<rparr>"

subsection \<open>Building blocks\<close>

text \<open>\<open>self.asm.m(...)\<close>.\<close>

definition asm_do :: "asm_op \<Rightarrow> cg" where
  "asm_do f g = bindE (f (g_asm g)) (\<lambda>a. Inr (g\<lparr>g_asm := a\<rparr>))"

definition place :: "string \<Rightarrow> cg" where
  "place l = asm_do (label_at l)"

definition skip :: cg where
  "skip g = Inr g"

definition cg_fail :: "error \<Rightarrow> cg" where
  "cg_fail e g = Inl e"

definition fresh_name :: "string \<Rightarrow> nat \<Rightarrow> string" where
  "fresh_name prefix i = ''__aclm_'' @ prefix @ ''_'' @ show_nat i"

definition new_label :: "string \<Rightarrow> (string \<Rightarrow> cg) \<Rightarrow> cg" where
  "new_label prefix k g =
    (let i = label_i g + 1 in k (fresh_name prefix i) (g\<lparr>label_i := i\<rparr>))"

definition with_res :: "string \<Rightarrow> (string \<Rightarrow> cg) \<Rightarrow> cg" where
  "with_res name k g = bindE (resolve name) (\<lambda>r. k r g)"

text \<open>\<open>b"\x00" * n\<close>.\<close>

definition zeros :: "int \<Rightarrow> bytes" where
  "zeros n = replicate (nat n) 0"

text \<open>\<open>if name not in self.data_layout\<close>: place the bytes at the end of the data.\<close>

definition reserve :: "string \<Rightarrow> bytes \<Rightarrow> cg" where
  "reserve name bs g =
    (if map_of (data_layout g) name = None
     then Inr (g\<lparr>data_layout := AList.update name (int (length (data_bytes g))) (data_layout g),
                 data_bytes := data_bytes g @ bs\<rparr>)
     else Inr g)"

definition reserve_slots :: "string \<Rightarrow> int \<Rightarrow> string \<Rightarrow> int \<Rightarrow> cg" where
  "reserve_slots name sz slots n g =
    (if map_of (data_layout g) name = None
     then if sz < 0 then Inl (NegativeCount sz)
       else Inr (g\<lparr>data_layout := AList.update slots n
                    (AList.update name (int (length (data_bytes g))) (data_layout g)),
                   data_bytes := data_bytes g @ zeros sz\<rparr>)
     else Inr g)"

definition when_data :: "string \<Rightarrow> cg \<Rightarrow> cg" where
  "when_data name f g = (if map_of (data_layout g) name \<noteq> None then f g else Inr g)"

text \<open>\<open>if not getattr(self, flag, False): ...; self.flag = True\<close>.\<close>

definition once :: "string \<Rightarrow> cg \<Rightarrow> cg" where
  "once flag f g =
    (if flag \<in> set (emitted g) then Inr g
     else bindE (f g) (\<lambda>g'. Inr (g'\<lparr>emitted := flag # emitted g'\<rparr>)))"

subsection \<open>Operands\<close>

text \<open>\<open>name in self.data_consts and name not in self.string_lens\<close>.\<close>

definition const_value :: "string \<Rightarrow> gen \<Rightarrow> int option" where
  "const_value name g =
    (if map_of (string_lens g) name = None then map_of (data_consts g) name else None)"

definition eval_ident :: "string \<Rightarrow> string \<Rightarrow> cg" where
  "eval_ident name dst_phys g =
    (case map_of (fn_args g) name of Some src \<Rightarrow>
       (if src \<noteq> dst_phys then asm_do (mov_reg_reg dst_phys src) g else Inr g)
     | None \<Rightarrow>
    (case map_of (fn_locals g) name of Some off \<Rightarrow> asm_do (mov_reg_mem dst_phys ''rbp'' off None 1) g
     | None \<Rightarrow>
    (case const_value name g of Some v \<Rightarrow> asm_do (mov_reg_imm64 dst_phys v) g
     | None \<Rightarrow>
    (case map_of (data_layout g) name of
       Some _ \<Rightarrow> asm_do (lea_reg_label dst_phys (''__data_'' @ name)) g
     | None \<Rightarrow>
    (case map_of (structs g) name of
       Some si \<Rightarrow> asm_do (mov_reg_imm64 dst_phys (si_size si)) g
     | None \<Rightarrow> Inl (Codegen name))))))"

text \<open>\<open>self.structs[s]["fields"][f]\<close> with the two \<open>CodegenError\<close>s of a missing name.\<close>

definition field_offset :: "string \<Rightarrow> string \<Rightarrow> gen \<Rightarrow> int res" where
  "field_offset s f g =
    (case map_of (structs g) s of None \<Rightarrow> Inl (Codegen s)
     | Some si \<Rightarrow> (case map_of (si_fields si) f of None \<Rightarrow> Inl (Codegen f) | Some off \<Rightarrow> Inr off))"

definition combine_op :: "string \<Rightarrow> cg" where
  "combine_op opn =
    (if opn = ''+'' then asm_do (add_reg_reg ''r11'' ''r12'')
     else if opn = ''-'' then asm_do (sub_reg_reg ''r11'' ''r12'')
     else if opn = ''*'' then asm_do (imul_reg_reg ''r11'' ''r12'')
     else cg_fail (Codegen opn))"

primrec eval_expr :: "expr \<Rightarrow> string \<Rightarrow> cg" where
  "eval_expr (Number v) dst_phys = asm_do (mov_reg_imm64 dst_phys v)"
| "eval_expr (Reg name) dst_phys =
    with_res name (\<lambda>src. if src \<noteq> dst_phys then asm_do (mov_reg_reg dst_phys src) else skip)"
| "eval_expr (Ident name) dst_phys = eval_ident name dst_phys"
| "eval_expr (StructFieldRef s f) dst_phys =
    (\<lambda>g. bindE (field_offset s f g) (\<lambda>off. asm_do (mov_reg_imm64 dst_phys off) g))"
| "eval_expr (BinExpr opn lft rgt) dst_phys = seqE [
    eval_expr lft ''r11'', asm_do (push_reg ''r11''),
    eval_expr rgt ''r12'', asm_do (pop_reg ''r11''),
    combine_op opn,
    (if dst_phys \<noteq> ''r11'' then asm_do (mov_reg_reg dst_phys ''r11'') else skip)]"
| "eval_expr (Str s) dst_phys = cg_fail (Codegen ''bad operand'')"

definition base_reg :: "expr \<Rightarrow> (string \<Rightarrow> cg) \<Rightarrow> cg" where
  "base_reg bas k =
    (case bas of
       Reg name \<Rightarrow> with_res name k
     | Ident name \<Rightarrow> (\<lambda>g. case map_of (fn_locals g) name of
           Some off \<Rightarrow> seqE [asm_do (mov_reg_mem ''r13'' ''rbp'' off None 1), k ''r13''] g
         | None \<Rightarrow> seqE [asm_do (lea_reg_label ''r11'' (''__data_'' @ name)), k ''r11''] g)
     | _ \<Rightarrow> cg_fail (Codegen ''bad memory base''))"

definition base_phys :: "expr \<Rightarrow> (string \<Rightarrow> cg) \<Rightarrow> cg" where
  "base_phys bas k =
    (case bas of
       Reg name \<Rightarrow> with_res name k
     | Ident name \<Rightarrow> seqE [asm_do (lea_reg_label ''r12'' (''__data_'' @ name)), k ''r12'']
     | Number v \<Rightarrow> seqE [asm_do (mov_reg_imm64 ''r12'' v), k ''r12'']
     | _ \<Rightarrow> cg_fail (Codegen ''bad base''))"

text \<open>A constant offset: an \<open>int\<close> of the syntax tree is a \<open>Number\<close> here.\<close>

primrec resolve_offset :: "expr \<Rightarrow> gen \<Rightarrow> int res" where
  "resolve_offset (Number v) g = Inr v"
| "resolve_offset (StructFieldRef s f) g = field_offset s f g"
| "resolve_offset (BinExpr opn lft rgt) g =
    bindE (resolve_offset lft g) (\<lambda>l. bindE (resolve_offset rgt g) (\<lambda>r.
      if opn = ''+'' then Inr (l + r) else if opn = ''-'' then Inr (l - r)
      else if opn = ''*'' then Inr (l * r) else Inl (Codegen opn)))"
| "resolve_offset (Reg name) g = Inl (Codegen ''non-constant memory offset'')"
| "resolve_offset (Ident name) g = Inl (Codegen ''non-constant memory offset'')"
| "resolve_offset (Str s) g = Inl (Codegen ''non-constant memory offset'')"

text \<open>The index register of a memory operand: a register, or any other operand evaluated into
  \<open>r13\<close>.\<close>

definition with_index :: "expr option \<Rightarrow> (string option \<Rightarrow> cg) \<Rightarrow> cg" where
  "with_index ix k =
    (case ix of None \<Rightarrow> k None
     | Some (Reg name) \<Rightarrow> with_res name (\<lambda>r. k (Some r))
     | Some e \<Rightarrow> seqE [eval_expr e ''r13'', k (Some ''r13'')])"

text \<open>\<open>s.scale or 1\<close>.\<close>

definition scale_or_1 :: "int \<Rightarrow> int" where
  "scale_or_1 sc = (if sc = 0 then 1 else sc)"

end
