(* ===== verification/Codegen_Ops.thy ===== *)
theory Codegen_Ops
  imports Codegen_Base
begin

section \<open>Emitters of the user-level statements (ACLM/codegen.py)\<close>

text \<open>
  One definition per \<open>_xxx\<close> method of \<open>CodeGenerator\<close>, with the fields of its node as parameters:
  arithmetic, memory, system calls, block and string loops, mappings, locks, sockets, threads,
  ports and devices. A method is the sequence of its assembler calls; a register name is resolved
  where the source resolves it.
\<close>

subsection \<open>Arithmetic, memory and system calls\<close>

text \<open>The operation of \<open>cpu:op dest = value\<close> once the value is in \<open>valreg\<close>; \<open>num\<close> is the literal
  value, if the operand is one.\<close>

definition num_value :: "expr \<Rightarrow> int option" where
  "num_value e = (case e of Number v \<Rightarrow> Some v | _ \<Rightarrow> None)"

definition cpu_bin_op :: "string \<Rightarrow> string \<Rightarrow> string \<Rightarrow> int option \<Rightarrow> cg" where
  "cpu_bin_op opn dst valreg lit =
    (if opn = ''add'' then asm_do (add_reg_reg dst valreg)
     else if opn = ''sub'' then asm_do (sub_reg_reg dst valreg)
     else if opn = ''and'' then asm_do (and_reg_reg dst valreg)
     else if opn = ''or'' then asm_do (or_reg_reg dst valreg)
     else if opn = ''xor'' then asm_do (xor_reg_reg dst valreg)
     else if opn = ''mul'' then asm_do (imul_reg_reg dst valreg)
     else if opn \<in> set [''shl'', ''shr'', ''sar'', ''sal'', ''rol'', ''ror'', ''rcl'', ''rcr''] then
       (case lit of
          Some v \<Rightarrow> asm_do (invoke (CRI (opn @ ''_reg_imm8'') dst (v AND 63)))
        | None \<Rightarrow>
           if dst = ''rcx'' then seqE [
             asm_do (push_reg ''rax''), asm_do (mov_reg_reg ''rax'' ''rcx''),
             asm_do (mov_reg_reg ''rcx'' valreg), asm_do (invoke (CR (opn @ ''_reg_cl'') ''rax'')),
             asm_do (mov_reg_reg ''rcx'' ''rax''), asm_do (pop_reg ''rax'')]
           else seqE [
             asm_do (push_reg ''rcx''), asm_do (mov_reg_reg ''rcx'' valreg),
             asm_do (invoke (CR (opn @ ''_reg_cl'') dst)), asm_do (pop_reg ''rcx'')])
     else if opn \<in> set [''div'', ''mod''] then seqE [
       asm_do (push_reg ''rax''), asm_do (push_reg ''rdx''), asm_do (mov_reg_reg ''rax'' dst),
       asm_do cqo, asm_do (idiv_reg valreg),
       asm_do (mov_reg_reg valreg (if opn = ''mod'' then ''rdx'' else ''rax'')),
       asm_do (pop_reg ''rdx''), asm_do (pop_reg ''rax''), asm_do (mov_reg_reg dst valreg)]
     else cg_fail (Codegen opn))"

definition cpu_bin :: "string \<Rightarrow> string \<Rightarrow> expr \<Rightarrow> cg" where
  "cpu_bin opn dest val g =
    (case map_of (fn_locals g) dest of
       Some off \<Rightarrow>
         if opn = ''set'' then
           seqE [eval_expr val ''r11'', asm_do (mov_mem_reg ''rbp'' off ''r11'' None 1)] g
         else
           seqE [asm_do (mov_reg_mem ''r11'' ''rbp'' off None 1), eval_expr val ''r12'',
             cpu_bin_op opn ''r11'' ''r12'' (num_value val),
             asm_do (mov_mem_reg ''rbp'' off ''r11'' None 1)] g
     | None \<Rightarrow>
         with_res dest (\<lambda>dst.
           if opn = ''set'' then eval_expr val dst
           else seqE [eval_expr val SCRATCH, cpu_bin_op opn dst SCRATCH (num_value val)]) g)"

definition cpu_unary_op :: "string \<Rightarrow> string \<Rightarrow> cg" where
  "cpu_unary_op opn dst =
    (if opn = ''not'' then asm_do (not_reg dst)
     else if opn = ''neg'' then asm_do (neg_reg dst)
     else if opn = ''inc'' then asm_do (inc_reg dst)
     else if opn = ''dec'' then asm_do (dec_reg dst)
     else cg_fail (Codegen opn))"

definition cpu_unary :: "string \<Rightarrow> string \<Rightarrow> cg" where
  "cpu_unary opn dest g =
    (case map_of (fn_locals g) dest of
       Some off \<Rightarrow> seqE [asm_do (mov_reg_mem ''r11'' ''rbp'' off None 1), cpu_unary_op opn ''r11'',
         asm_do (mov_mem_reg ''rbp'' off ''r11'' None 1)] g
     | None \<Rightarrow> with_res dest (\<lambda>dst. cpu_unary_op opn dst) g)"

definition load_sized :: "int \<Rightarrow> string \<Rightarrow> string \<Rightarrow> int \<Rightarrow> string option \<Rightarrow> int \<Rightarrow> cg" where
  "load_sized sz dst base off idx sc =
    (if sz = 8 then asm_do (mov8_reg_mem dst base off idx sc)
     else if sz = 16 then asm_do (mov16_reg_mem dst base off idx sc)
     else if sz = 32 then asm_do (mov32_reg_mem dst base off idx sc)
     else asm_do (mov_reg_mem dst base off idx sc))"

definition store_sized :: "int \<Rightarrow> string \<Rightarrow> int \<Rightarrow> string \<Rightarrow> string option \<Rightarrow> int \<Rightarrow> cg" where
  "store_sized sz base off src idx sc =
    (if sz = 8 then asm_do (mov8_mem_reg base off src idx sc)
     else if sz = 16 then asm_do (mov16_mem_reg base off src idx sc)
     else if sz = 32 then asm_do (mov32_mem_reg base off src idx sc)
     else asm_do (mov_mem_reg base off src idx sc))"

definition with_offset :: "expr \<Rightarrow> (int \<Rightarrow> cg) \<Rightarrow> cg" where
  "with_offset e k g = bindE (resolve_offset e g) (\<lambda>off. k off g)"

definition mem_load :: "string \<Rightarrow> expr \<Rightarrow> expr \<Rightarrow> int \<Rightarrow> expr option \<Rightarrow> int \<Rightarrow> cg" where
  "mem_load dest bas offset sz idx scale =
    base_reg bas (\<lambda>base. with_offset offset (\<lambda>off. \<lambda>g.
      case map_of (fn_locals g) dest of
        Some loff \<Rightarrow> seqE [
          with_index idx (\<lambda>ix. load_sized sz ''r12'' base off ix (scale_or_1 scale)),
          asm_do (mov_mem_reg ''rbp'' loff ''r12'' None 1)] g
      | None \<Rightarrow> with_res dest (\<lambda>dst.
          with_index idx (\<lambda>ix. load_sized sz dst base off ix (scale_or_1 scale))) g))"

definition mem_store :: "expr \<Rightarrow> expr \<Rightarrow> expr \<Rightarrow> int \<Rightarrow> expr option \<Rightarrow> int \<Rightarrow> cg" where
  "mem_store bas offset val sz idx scale = seqE [
    asm_do (push_reg ''r12''), eval_expr val ''r12'',
    base_reg bas (\<lambda>base. with_offset offset (\<lambda>off.
      with_index idx (\<lambda>ix. store_sized sz base off ''r12'' ix (scale_or_1 scale)))),
    asm_do (pop_reg ''r12'')]"

definition NAMED_SYSCALLS :: "(string \<times> int) list" where
  "NAMED_SYSCALLS =
    [(''read'', 0), (''write'', 1), (''open'', 2), (''close'', 3),
     (''lseek'', 8), (''seek'', 8), (''mmap'', 9), (''mprotect'', 10), (''munmap'', 11),
     (''exit'', 60), (''exit_group'', 231), (''getpid'', 39), (''fork'', 57),
     (''wait4'', 61), (''nanosleep'', 35), (''clock_gettime'', 228),
     (''socket'', 41), (''connect'', 42), (''sendto'', 44), (''recvfrom'', 45),
     (''bind'', 49), (''listen'', 50), (''ioctl'', 16), (''brk'', 12)]"

definition syscall_num :: "sys_num \<Rightarrow> int res" where
  "syscall_num nu = (case nu of SysNum v \<Rightarrow> Inr v
     | SysName s \<Rightarrow> (case map_of NAMED_SYSCALLS (py_lower s) of
         None \<Rightarrow> Inl (Codegen (py_lower s)) | Some v \<Rightarrow> Inr v))"

text \<open>Arguments are evaluated and pushed in order, then popped into the argument registers from the
  last to the first.\<close>

definition push_args :: "string \<Rightarrow> expr list \<Rightarrow> cg" where
  "push_args tmp args = seqE (map (\<lambda>a. seqE [eval_expr a tmp, asm_do (push_reg tmp)]) args)"

definition pop_args :: "string list \<Rightarrow> nat \<Rightarrow> cg" where
  "pop_args regs n = seqE (map (\<lambda>i. asm_do (pop_reg (regs ! i))) (rev [0..<n]))"

definition syscall_stmt :: "sys_num \<Rightarrow> expr list \<Rightarrow> cg" where
  "syscall_stmt nu args g =
    (if baremetal g then Inl (Codegen ''sys:call'')
     else bindE (syscall_num nu) (\<lambda>n. seqE [
       push_args SCRATCH (take 6 args), pop_args SYSCALL_ARGS (length (take 6 args)),
       asm_do (mov_reg_imm64 ''rax'' n), asm_do (push_reg ''rcx''), asm_do (push_reg ''r11''),
       asm_do syscall, asm_do (pop_reg ''r11''), asm_do (pop_reg ''rcx'')] g))"

definition call_args :: "string list" where
  "call_args = [''rdi'', ''rsi'', ''rdx'', ''rcx'', ''r8'', ''r9'']"

definition call_stmt :: "string \<Rightarrow> expr list \<Rightarrow> cg" where
  "call_stmt lab args = seqE [
    push_args ''r11'' (take 6 args), pop_args call_args (length (take 6 args)),
    asm_do (call (''__lbl_'' @ lab))]"

subsection \<open>Further statements with choices\<close>

definition gate_cas :: "string \<Rightarrow> string \<Rightarrow> string \<Rightarrow> cg" where
  "gate_cas addr_name expected desired =
    with_res addr_name (\<lambda>addr. with_res expected (\<lambda>exr. with_res desired (\<lambda>dsr.
      (let save_rax = (addr \<noteq> ''rax'' \<and> exr \<noteq> ''rax'');
           moved = dsr \<in> set [''rax'', ''r11'', ''r13''];
           des_r = (if moved then ''r12'' else dsr) in
       seqE [
         asm_do (mov_reg_reg ''r11'' addr),
         (if save_rax then asm_do (mov_reg_reg ''r13'' ''rax'') else skip),
         (if moved then asm_do (mov_reg_reg ''r12'' dsr) else skip),
         (if exr \<noteq> ''rax'' then asm_do (mov_reg_reg ''rax'' exr) else skip),
         asm_do (lock_cmpxchg_mem ''r11'' 0 des_r),
         (if exr \<noteq> ''rax'' then asm_do (mov_reg_reg exr ''rax'') else skip),
         (if addr = ''rax'' then asm_do (mov_reg_reg ''rax'' ''r11'')
          else if save_rax then asm_do (mov_reg_reg ''rax'' ''r13'') else skip)]))))"

definition gate_spin :: "string \<Rightarrow> cg" where
  "gate_spin addr_name =
    with_res addr_name (\<lambda>addr. seqE [
      asm_do (mov_reg_reg ''r11'' addr),
      (if addr \<noteq> ''rax'' then asm_do (mov_reg_reg ''r13'' ''rax'') else skip),
      new_label ''spin'' (\<lambda>lp. seqE [
        place lp, asm_do (xor_reg_reg ''rax'' ''rax''), asm_do (mov_reg_imm64 ''r12'' 1),
        asm_do (lock_cmpxchg_mem ''r11'' 0 ''r12''), asm_do (jcc ''neq'' lp),
        (if addr = ''rax'' then asm_do (mov_reg_reg ''rax'' ''r11'')
         else asm_do (mov_reg_reg ''rax'' ''r13''))])])"

definition cpu_movext :: "string \<Rightarrow> string \<Rightarrow> expr \<Rightarrow> int \<Rightarrow> cg" where
  "cpu_movext opn dest src sz =
    with_res dest (\<lambda>dst.
      case src of
        Reg name \<Rightarrow> with_res name (\<lambda>r.
          if opn = ''movsx'' then asm_do (movsx_reg_reg dst r sz) else asm_do (movzx_reg_reg dst r sz))
      | _ \<Rightarrow> seqE [eval_expr src ''r12'',
          (if opn = ''movsx'' then asm_do (movsx_reg_reg dst ''r12'' sz)
           else asm_do (movzx_reg_reg dst ''r12'' sz))])"

definition plain_label :: "expr \<Rightarrow> expr option \<Rightarrow> int \<Rightarrow> string option" where
  "plain_label bas idx offset =
    (case bas of Ident name \<Rightarrow> if idx = None \<and> offset = 0 then Some name else None | _ \<Rightarrow> None)"

definition cpu_lea :: "string \<Rightarrow> expr \<Rightarrow> expr option \<Rightarrow> int \<Rightarrow> int \<Rightarrow> cg" where
  "cpu_lea dest bas idx scale offset =
    with_res dest (\<lambda>dst.
      case plain_label bas idx offset of
        Some name \<Rightarrow> asm_do (lea_reg_label dst (''__data_'' @ name))
      | None \<Rightarrow> base_phys bas (\<lambda>base. with_index idx (\<lambda>ix. asm_do (lea_reg_mem dst base offset ix scale))))"

text \<open>\<open>int(handler, 0)\<close> of a decimal numeral (the parser passes \<open>str\<close> of an integer): an optional
  minus sign and digits, no leading zero unless all digits are zero.\<close>

fun digits_value :: "nat \<Rightarrow> string \<Rightarrow> nat" where
  "digits_value acc [] = acc"
| "digits_value acc (c # cs) = digits_value (10 * acc + (of_char c - 48)) cs"

definition digits_int :: "string \<Rightarrow> int option" where
  "digits_int s =
    (if s = [] \<or> \<not> list_all is_digit s then None
     else if hd s = CHR ''0'' \<and> \<not> list_all (\<lambda>c. c = CHR ''0'') s then None
     else Some (int (digits_value 0 s)))"

definition handler_int :: "string \<Rightarrow> int" where
  "handler_int s =
    (case (if s \<noteq> [] \<and> hd s = CHR ''-'' then map_option uminus (digits_int (tl s)) else digits_int s) of
       None \<Rightarrow> 0 | Some v \<Rightarrow> v)"

definition is_handler_label :: "string \<Rightarrow> bool" where
  "is_handler_label s \<longleftrightarrow>
    s \<noteq> [] \<and> \<not> (let t = dropWhile (\<lambda>c. c = CHR ''-'') s in t \<noteq> [] \<and> list_all is_digit t)"

definition sig_action :: "expr \<Rightarrow> string \<Rightarrow> cg" where
  "sig_action signo handler = seqE [
    eval_expr signo ''r12'',
    (if is_handler_label handler then asm_do (lea_reg_label ''r13'' (''__lbl_'' @ handler))
     else asm_do (mov_reg_imm64 ''r13'' (handler_int handler))),
    asm_do (sub_reg_imm ''rsp'' 32), asm_do (mov_mem_reg ''rsp'' 0 ''r13'' None 1),
    asm_do (xor_reg_reg ''rax'' ''rax''), asm_do (mov_mem_reg ''rsp'' 8 ''rax'' None 1),
    asm_do (mov_mem_reg ''rsp'' 16 ''rax'' None 1), asm_do (mov_mem_reg ''rsp'' 24 ''rax'' None 1),
    asm_do (mov_reg_reg ''rdi'' ''r12''), asm_do (mov_reg_reg ''rsi'' ''rsp''),
    asm_do (xor_reg_reg ''rdx'' ''rdx''), asm_do (mov_reg_imm64 ''r10'' 8),
    asm_do (mov_reg_imm64 ''rax'' 13), asm_do syscall, asm_do (add_reg_imm ''rsp'' 32)]"

subsection \<open>Straight emitters\<close>

definition blast_fill :: "string \<Rightarrow> expr \<Rightarrow> expr \<Rightarrow> cg" where
  "blast_fill dest byte_val len =
    with_res dest (\<lambda>dst. seqE [
      seqE (map (\<lambda>r. asm_do (push_reg r)) [''r11'', ''r12'', ''r13'']),
      asm_do (mov_reg_reg ''r11'' dst), eval_expr byte_val SCRATCH,
      asm_do (mov_reg_reg ''r12'' SCRATCH), eval_expr len SCRATCH,
      asm_do (mov_reg_reg ''r13'' SCRATCH),
      new_label ''fill'' (\<lambda>lp. new_label ''filld'' (\<lambda>dn. seqE [
        place lp, asm_do (test_reg_reg ''r13'' ''r13''), asm_do (jcc ''eq'' dn),
        asm_do (mov8_mem_reg ''r11'' 0 ''r12'' None 1), asm_do (add_reg_imm ''r11'' 1),
        asm_do (sub_reg_imm ''r13'' 1), asm_do (jmp lp), place dn, asm_do (pop_reg ''r13''),
        asm_do (pop_reg ''r12''), asm_do (pop_reg ''r11'')]))])"

definition blast_copy :: "string \<Rightarrow> expr \<Rightarrow> expr \<Rightarrow> cg" where
  "blast_copy dest src len =
    with_res dest (\<lambda>dst. seqE [
      seqE (map (\<lambda>r. asm_do (push_reg r)) [''r11'', ''r12'', ''r13'']),
      asm_do (mov_reg_reg ''r11'' dst), eval_expr src SCRATCH,
      asm_do (mov_reg_reg ''r12'' SCRATCH), eval_expr len SCRATCH,
      asm_do (mov_reg_reg ''r13'' SCRATCH),
      new_label ''copy'' (\<lambda>lp. new_label ''copyd'' (\<lambda>dn. seqE [
        place lp, asm_do (test_reg_reg ''r13'' ''r13''), asm_do (jcc ''eq'' dn),
        asm_do (mov8_reg_mem SCRATCH ''r12'' 0 None 1),
        asm_do (mov8_mem_reg ''r11'' 0 SCRATCH None 1), asm_do (add_reg_imm ''r11'' 1),
        asm_do (add_reg_imm ''r12'' 1), asm_do (sub_reg_imm ''r13'' 1), asm_do (jmp lp),
        place dn, asm_do (pop_reg ''r13''), asm_do (pop_reg ''r12''), asm_do (pop_reg ''r11'')]))])"

definition wire_len :: "string \<Rightarrow> expr \<Rightarrow> cg" where
  "wire_len dest src =
    with_res dest (\<lambda>dst. seqE [
      asm_do (push_reg ''r11''), eval_expr src SCRATCH, asm_do (mov_reg_reg ''r11'' SCRATCH),
      asm_do (xor_reg_reg dst dst),
      new_label ''wlen'' (\<lambda>lp. new_label ''wlend'' (\<lambda>dn. seqE [
        place lp, asm_do (mov8_reg_mem SCRATCH ''r11'' 0 None 1),
        asm_do (test_reg_reg SCRATCH SCRATCH), asm_do (jcc ''eq'' dn), asm_do (inc_reg dst),
        asm_do (add_reg_imm ''r11'' 1), asm_do (jmp lp), place dn, asm_do (pop_reg ''r11'')]))])"

definition wire_cmp :: "string \<Rightarrow> expr \<Rightarrow> expr \<Rightarrow> cg" where
  "wire_cmp dest lft rgt =
    with_res dest (\<lambda>dst. seqE [
      asm_do (push_reg ''r11''), asm_do (push_reg ''r12''), asm_do (push_reg ''r13''),
      eval_expr lft SCRATCH, asm_do (mov_reg_reg ''r11'' SCRATCH), eval_expr rgt SCRATCH,
      asm_do (mov_reg_reg ''r12'' SCRATCH),
      new_label ''wcmp'' (\<lambda>lp. new_label ''wcmpeq'' (\<lambda>eql. new_label ''wcmpne'' (\<lambda>nel. new_label ''wcmpd'' (\<lambda>dn. seqE [
        place lp, asm_do (mov8_reg_mem ''r13'' ''r11'' 0 None 1),
        asm_do (mov8_reg_mem SCRATCH ''r12'' 0 None 1), asm_do (cmp_reg_reg ''r13'' SCRATCH),
        asm_do (jcc ''neq'' nel), asm_do (test_reg_reg ''r13'' ''r13''),
        asm_do (jcc ''eq'' eql), asm_do (add_reg_imm ''r11'' 1), asm_do (add_reg_imm ''r12'' 1),
        asm_do (jmp lp), place eql, asm_do (xor_reg_reg dst dst), asm_do (jmp dn), place nel,
        asm_do (mov_reg_imm64 dst 1), place dn, asm_do (pop_reg ''r13''),
        asm_do (pop_reg ''r12''), asm_do (pop_reg ''r11'')]))))])"

definition wire_copy :: "expr \<Rightarrow> expr \<Rightarrow> cg" where
  "wire_copy dest src =
    seqE [
      asm_do (push_reg ''r11''), asm_do (push_reg ''r12''), eval_expr dest SCRATCH,
      asm_do (mov_reg_reg ''r11'' SCRATCH), eval_expr src SCRATCH,
      asm_do (mov_reg_reg ''r12'' SCRATCH),
      new_label ''wcpy'' (\<lambda>lp. new_label ''wcpyd'' (\<lambda>dn. seqE [
        place lp, asm_do (mov8_reg_mem SCRATCH ''r12'' 0 None 1),
        asm_do (mov8_mem_reg ''r11'' 0 SCRATCH None 1), asm_do (test_reg_reg SCRATCH SCRATCH),
        asm_do (jcc ''eq'' dn), asm_do (add_reg_imm ''r11'' 1), asm_do (add_reg_imm ''r12'' 1),
        asm_do (jmp lp), place dn, asm_do (pop_reg ''r12''), asm_do (pop_reg ''r11'')]))]"

definition wire_emit :: "expr \<Rightarrow> expr option \<Rightarrow> cg" where
  "wire_emit src len =
    seqE [
      asm_do (push_reg ''r11''), eval_expr src SCRATCH, asm_do (mov_reg_reg ''r11'' SCRATCH),
      (case len of Some len \<Rightarrow> seqE [
          eval_expr len SCRATCH, asm_do (mov_reg_reg ''rdx'' SCRATCH)]
      | None \<Rightarrow> seqE [
          asm_do (xor_reg_reg ''rdx'' ''rdx''),
          new_label ''weml'' (\<lambda>lp. new_label ''wemld'' (\<lambda>dn. seqE [
            place lp, asm_do (mov8_reg_mem SCRATCH ''r11'' 0 None 1),
            asm_do (test_reg_reg SCRATCH SCRATCH), asm_do (jcc ''eq'' dn),
            asm_do (inc_reg ''rdx''), asm_do (add_reg_imm ''r11'' 1), asm_do (jmp lp), place dn,
            eval_expr src SCRATCH, asm_do (mov_reg_reg ''r11'' SCRATCH)]))]),
      asm_do (mov_reg_imm64 ''rax'' 1), asm_do (mov_reg_imm64 ''rdi'' 1),
      asm_do (mov_reg_reg ''rsi'' ''r11''), asm_do syscall, asm_do (pop_reg ''r11'')]"

definition cell_mapfile :: "string \<Rightarrow> expr \<Rightarrow> expr \<Rightarrow> expr option \<Rightarrow> expr option \<Rightarrow> cg" where
  "cell_mapfile dest sz fd off prot =
    seqE [
      seqE (map (\<lambda>r. asm_do (push_reg r)) [''r12'', ''r13'', ''r14'', ''rbx'']),
      eval_expr sz ''r12'', eval_expr fd ''r13'',
      (case off of Some off \<Rightarrow> eval_expr off ''r14''
      | None \<Rightarrow> asm_do (xor_reg_reg ''r14'' ''r14'')),
      (case prot of Some prot \<Rightarrow> eval_expr prot ''rbx''
      | None \<Rightarrow> asm_do (mov_reg_imm64 ''rbx'' 3)),
      asm_do (xor_reg_reg ''rdi'' ''rdi''), asm_do (mov_reg_reg ''rsi'' ''r12''),
      asm_do (mov_reg_reg ''rdx'' ''rbx''), asm_do (mov_reg_imm64 ''r10'' 2),
      asm_do (mov_reg_reg ''r8'' ''r13''), asm_do (mov_reg_reg ''r9'' ''r14''),
      asm_do (mov_reg_imm64 ''rax'' 9), asm_do syscall,
      with_res dest (\<lambda>dst. seqE [
        (if dst \<noteq> ''rax'' then asm_do (mov_reg_reg dst ''rax'')
        else skip), asm_do (pop_reg ''rbx''), asm_do (pop_reg ''r14''),
        asm_do (pop_reg ''r13''), asm_do (pop_reg ''r12'')])]"

definition net_poll :: "expr \<Rightarrow> expr \<Rightarrow> expr \<Rightarrow> cg" where
  "net_poll fds nfds timeout =
    seqE [
      seqE (map (\<lambda>r. asm_do (push_reg r)) [''r12'', ''r13'', ''r14'']),
      eval_expr fds ''r12'', eval_expr nfds ''r13'', eval_expr timeout ''r14'',
      asm_do (mov_reg_reg ''rdi'' ''r12''), asm_do (mov_reg_reg ''rsi'' ''r13''),
      asm_do (mov_reg_reg ''rdx'' ''r14''), asm_do (mov_reg_imm64 ''rax'' 7), asm_do syscall,
      asm_do (pop_reg ''r14''), asm_do (pop_reg ''r13''), asm_do (pop_reg ''r12'')]"

definition net_epoll_create :: "string \<Rightarrow> expr option \<Rightarrow> cg" where
  "net_epoll_create dest flgs =
    seqE [
      (case flgs of Some flgs \<Rightarrow> eval_expr flgs ''rdi''
      | None \<Rightarrow> asm_do (xor_reg_reg ''rdi'' ''rdi'')),
      asm_do (mov_reg_imm64 ''rax'' 0x123), asm_do syscall,
      with_res dest (\<lambda>dst. (if dst \<noteq> ''rax'' then asm_do (mov_reg_reg dst ''rax'')
      else skip))]"

definition net_epoll_ctl :: "expr \<Rightarrow> expr \<Rightarrow> expr \<Rightarrow> expr \<Rightarrow> cg" where
  "net_epoll_ctl epfd opn fd event_ptr =
    seqE [
      seqE (map (\<lambda>r. asm_do (push_reg r)) [''r12'', ''r13'', ''r14'', ''rbx'']),
      eval_expr epfd ''r12'', eval_expr opn ''r13'', eval_expr fd ''r14'',
      eval_expr event_ptr ''rbx'', asm_do (mov_reg_reg ''rdi'' ''r12''),
      asm_do (mov_reg_reg ''rsi'' ''r13''), asm_do (mov_reg_reg ''rdx'' ''r14''),
      asm_do (mov_reg_reg ''r10'' ''rbx''), asm_do (mov_reg_imm64 ''rax'' 233), asm_do syscall,
      asm_do (pop_reg ''rbx''), asm_do (pop_reg ''r14''), asm_do (pop_reg ''r13''),
      asm_do (pop_reg ''r12'')]"

definition net_epoll_wait :: "string \<Rightarrow> expr \<Rightarrow> expr \<Rightarrow> expr \<Rightarrow> expr \<Rightarrow> cg" where
  "net_epoll_wait dest epfd evs maxevents timeout =
    seqE [
      seqE (map (\<lambda>r. asm_do (push_reg r)) [''r12'', ''r13'', ''r14'', ''rbx'']),
      eval_expr epfd ''r12'', eval_expr evs ''r13'', eval_expr maxevents ''r14'',
      eval_expr timeout ''rbx'', asm_do (mov_reg_reg ''rdi'' ''r12''),
      asm_do (mov_reg_reg ''rsi'' ''r13''), asm_do (mov_reg_reg ''rdx'' ''r14''),
      asm_do (mov_reg_reg ''r10'' ''rbx''), asm_do (mov_reg_imm64 ''rax'' 232), asm_do syscall,
      with_res dest (\<lambda>dst. seqE [
        (if dst \<noteq> ''rax'' then asm_do (mov_reg_reg dst ''rax'')
        else skip), asm_do (pop_reg ''rbx''), asm_do (pop_reg ''r14''),
        asm_do (pop_reg ''r13''), asm_do (pop_reg ''r12'')])]"

definition cell_map :: "string \<Rightarrow> expr \<Rightarrow> expr option \<Rightarrow> expr option \<Rightarrow> cg" where
  "cell_map dest sz prot flgs =
    seqE [
      seqE (map (\<lambda>r. asm_do (push_reg r)) [''r12'', ''r13'', ''r14'']),
      eval_expr sz ''r12'',
      (case prot of Some prot \<Rightarrow> eval_expr prot ''r13''
      | None \<Rightarrow> asm_do (mov_reg_imm64 ''r13'' 3)),
      (case flgs of Some flgs \<Rightarrow> eval_expr flgs ''r14''
      | None \<Rightarrow> asm_do (mov_reg_imm64 ''r14'' 34)),
      asm_do (xor_reg_reg ''rdi'' ''rdi''), asm_do (mov_reg_reg ''rsi'' ''r12''),
      asm_do (mov_reg_reg ''rdx'' ''r13''), asm_do (mov_reg_reg ''r10'' ''r14''),
      asm_do (mov_reg_imm64 ''r8'' 0xffffffffffffffff), asm_do (xor_reg_reg ''r9'' ''r9''),
      asm_do (mov_reg_imm64 ''rax'' 9), asm_do syscall,
      with_res dest (\<lambda>dst. seqE [
        (if dst \<noteq> ''rax'' then asm_do (mov_reg_reg dst ''rax'')
        else skip), asm_do (pop_reg ''r14''), asm_do (pop_reg ''r13''),
        asm_do (pop_reg ''r12'')])]"

definition cell_free :: "expr \<Rightarrow> expr \<Rightarrow> cg" where
  "cell_free ptr sz =
    seqE [
      eval_expr ptr SCRATCH, asm_do (push_reg SCRATCH), eval_expr sz SCRATCH,
      asm_do (mov_reg_reg ''rsi'' SCRATCH), asm_do (pop_reg ''rdi''),
      asm_do (mov_reg_imm64 ''rax'' 11), asm_do syscall]"

definition pulse_sleep :: "expr \<Rightarrow> cg" where
  "pulse_sleep nsec =
    seqE [
      asm_do (lea_reg_label ''rdi'' ''__data___timespec''),
      asm_do (xor_reg_reg ''rax'' ''rax''), asm_do (mov_mem_reg ''rdi'' 0 ''rax'' None 1),
      eval_expr nsec ''rax'', asm_do (mov_mem_reg ''rdi'' 8 ''rax'' None 1),
      asm_do (xor_reg_reg ''rsi'' ''rsi''), asm_do (mov_reg_imm64 ''rax'' 35), asm_do syscall]"

definition pulse_now :: "string \<Rightarrow> cg" where
  "pulse_now dest =
    seqE [
      asm_do (mov_reg_imm64 ''rdi'' 1), asm_do (lea_reg_label ''rsi'' ''__data___timespec''),
      asm_do (mov_reg_imm64 ''rax'' 228), asm_do syscall,
      asm_do (lea_reg_label ''r11'' ''__data___timespec''),
      with_res dest (\<lambda>r1. asm_do (mov_reg_mem r1 ''r11'' 0 None 1))]"

definition vec_load :: "string \<Rightarrow> expr \<Rightarrow> int \<Rightarrow> cg" where
  "vec_load xmm bas off =
    base_phys bas (\<lambda>base. asm_do (movups_xmm_mem xmm base off))"

definition vec_store :: "expr \<Rightarrow> int \<Rightarrow> string \<Rightarrow> cg" where
  "vec_store bas off xmm =
    base_phys bas (\<lambda>base. asm_do (movups_mem_xmm base xmm off))"

definition cpu_test :: "expr \<Rightarrow> expr \<Rightarrow> cg" where
  "cpu_test lft rgt =
    seqE [
      eval_expr lft ''r11'', eval_expr rgt ''r12'', asm_do (test_reg_reg ''r11'' ''r12'')]"

definition thread_spawn :: "string \<Rightarrow> string \<Rightarrow> cg" where
  "thread_spawn dest lab =
    seqE [
      asm_do (xor_reg_reg ''rdi'' ''rdi''), asm_do (mov_reg_imm64 ''rsi'' (push_bit 20 1)),
      asm_do (mov_reg_imm64 ''rdx'' 3), asm_do (mov_reg_imm64 ''r10'' 34),
      asm_do (mov_reg_imm64 ''r8'' 0xffffffffffffffff), asm_do (xor_reg_reg ''r9'' ''r9''),
      asm_do (mov_reg_imm64 ''rax'' 9), asm_do syscall, asm_do (mov_reg_reg ''r12'' ''rax''),
      asm_do (add_reg_imm ''r12'' ((push_bit 20 1) - 16)), asm_do (mov_reg_imm64 ''rdi'' 0xf00),
      asm_do (mov_reg_reg ''rsi'' ''r12''), asm_do (xor_reg_reg ''rdx'' ''rdx''),
      asm_do (xor_reg_reg ''r10'' ''r10''), asm_do (xor_reg_reg ''r8'' ''r8''),
      asm_do (mov_reg_imm64 ''rax'' 56), asm_do syscall,
      new_label ''thr_c'' (\<lambda>child. new_label ''thr_p'' (\<lambda>parent. seqE [
        asm_do (test_reg_reg ''rax'' ''rax''), asm_do (jcc ''eq'' child),
        with_res dest (\<lambda>dst. seqE [
          (if dst \<noteq> ''rax'' then asm_do (mov_reg_reg dst ''rax'')
          else skip), asm_do (push_reg ''rax''),
          asm_do (lea_reg_label ''rdi'' ''__data___thr_futex''),
          asm_do (mov_reg_mem ''rax'' ''rdi'' 16 None 1), asm_do (add_reg_imm ''rax'' 1),
          asm_do (mov_mem_reg ''rdi'' 16 ''rax'' None 1), asm_do (pop_reg ''rax''),
          asm_do (jmp parent), place child, asm_do (call (''__lbl_'' @ lab)),
          asm_do (lea_reg_label ''rdi'' ''__data___thr_futex''),
          asm_do (mov_reg_mem ''rax'' ''rdi'' 0 None 1), asm_do (add_reg_imm ''rax'' 1),
          asm_do (mov_mem_reg ''rdi'' 0 ''rax'' None 1), asm_do (mov_reg_imm64 ''rsi'' 1),
          asm_do (mov_reg_imm64 ''rdx'' 1), asm_do (mov_reg_imm64 ''rax'' 202), asm_do syscall,
          asm_do (xor_reg_reg ''rdi'' ''rdi''), asm_do (mov_reg_imm64 ''rax'' 60),
          asm_do syscall, place parent])]))]"

definition thread_join :: "expr option \<Rightarrow> cg" where
  "thread_join tid =
    new_label ''jw'' (\<lambda>lp. new_label ''jd'' (\<lambda>dn. seqE [
      asm_do (mov_reg_imm64 ''r14'' 0x30d40), place lp,
      asm_do (lea_reg_label ''rdi'' ''__data___thr_futex''),
      asm_do (mov_reg_mem ''rax'' ''rdi'' 0 None 1),
      asm_do (mov_reg_mem ''rcx'' ''rdi'' 8 None 1), asm_do (cmp_reg_reg ''rax'' ''rcx''),
      asm_do (jcc ''gt'' dn), asm_do (cmp_reg_reg ''rcx'' ''rax''), asm_do (jcc ''below'' dn),
      asm_do (lea_reg_label ''rdi'' ''__data___thr_futex''),
      asm_do (xor_reg_reg ''rsi'' ''rsi''), asm_do (mov_reg_mem ''rdx'' ''rdi'' 0 None 1),
      asm_do (xor_reg_reg ''r10'' ''r10''), asm_do (mov_reg_imm64 ''rax'' 202), asm_do syscall,
      asm_do (dec_reg ''r14''), asm_do (test_reg_reg ''r14'' ''r14''), asm_do (jcc ''eq'' dn),
      asm_do (jmp lp), place dn, asm_do (lea_reg_label ''rdi'' ''__data___thr_futex''),
      asm_do (mov_reg_mem ''rax'' ''rdi'' 8 None 1), asm_do (add_reg_imm ''rax'' 1),
      asm_do (mov_mem_reg ''rdi'' 8 ''rax'' None 1)]))"

definition thread_join_all :: "cg" where
  "thread_join_all =
    new_label ''ja_w'' (\<lambda>lp. new_label ''ja_d'' (\<lambda>dn. seqE [
      asm_do (mov_reg_imm64 ''r14'' 0x7a120), place lp,
      asm_do (lea_reg_label ''rdi'' ''__data___thr_futex''),
      asm_do (mov_reg_mem ''rax'' ''rdi'' 0 None 1),
      asm_do (mov_reg_mem ''rcx'' ''rdi'' 16 None 1), asm_do (cmp_reg_reg ''rax'' ''rcx''),
      asm_do (jcc ''abe'' dn), asm_do (xor_reg_reg ''rsi'' ''rsi''),
      asm_do (mov_reg_mem ''rdx'' ''rdi'' 0 None 1), asm_do (xor_reg_reg ''r10'' ''r10''),
      asm_do (mov_reg_imm64 ''rax'' 202), asm_do syscall, asm_do (dec_reg ''r14''),
      asm_do (test_reg_reg ''r14'' ''r14''), asm_do (jcc ''eq'' dn), asm_do (jmp lp), place dn]))"

definition thread_exit :: "expr option \<Rightarrow> cg" where
  "thread_exit ec =
    seqE [
      asm_do (lea_reg_label ''rdi'' ''__data___thr_futex''),
      asm_do (mov_reg_mem ''rax'' ''rdi'' 0 None 1), asm_do (add_reg_imm ''rax'' 1),
      asm_do (mov_mem_reg ''rdi'' 0 ''rax'' None 1), asm_do (mov_reg_imm64 ''rsi'' 1),
      asm_do (mov_reg_imm64 ''rdx'' 1), asm_do (mov_reg_imm64 ''rax'' 202), asm_do syscall,
      (case ec of Some ec \<Rightarrow> eval_expr ec ''rdi''
      | None \<Rightarrow> asm_do (xor_reg_reg ''rdi'' ''rdi'')),
      asm_do (mov_reg_imm64 ''rax'' 60), asm_do syscall]"

definition blast_rep_fill :: "string \<Rightarrow> expr \<Rightarrow> expr \<Rightarrow> cg" where
  "blast_rep_fill dest byte_val len =
    with_res dest (\<lambda>dst. seqE [
      seqE (map (\<lambda>r. asm_do (push_reg r)) [''r11'', ''r12'', ''r13'']),
      asm_do (mov_reg_reg ''r11'' dst), eval_expr byte_val SCRATCH,
      asm_do (mov_reg_reg ''r12'' SCRATCH), eval_expr len SCRATCH,
      asm_do (mov_reg_reg ''r13'' SCRATCH), asm_do (mov_reg_reg ''rdi'' ''r11''),
      asm_do (mov_reg_reg ''rax'' ''r12''), asm_do (mov_reg_reg ''rcx'' ''r13''),
      asm_do rep_stosb,
      (if dst \<noteq> ''r11'' then asm_do (mov_reg_reg dst ''r11'')
      else skip), asm_do (pop_reg ''r13''), asm_do (pop_reg ''r12''), asm_do (pop_reg ''r11'')])"

definition blast_rep_copy :: "string \<Rightarrow> expr \<Rightarrow> expr \<Rightarrow> cg" where
  "blast_rep_copy dest src len =
    with_res dest (\<lambda>dst. seqE [
      seqE (map (\<lambda>r. asm_do (push_reg r)) [''r11'', ''r12'', ''r13'']),
      asm_do (mov_reg_reg ''r11'' dst), eval_expr src SCRATCH,
      asm_do (mov_reg_reg ''r12'' SCRATCH), eval_expr len SCRATCH,
      asm_do (mov_reg_reg ''r13'' SCRATCH), asm_do (mov_reg_reg ''rdi'' ''r11''),
      asm_do (mov_reg_reg ''rsi'' ''r12''), asm_do (mov_reg_reg ''rcx'' ''r13''),
      asm_do rep_movsb,
      (if dst \<noteq> ''r11'' then asm_do (mov_reg_reg dst ''r11'')
      else skip), asm_do (pop_reg ''r13''), asm_do (pop_reg ''r12''), asm_do (pop_reg ''r11'')])"

definition net_socket :: "string \<Rightarrow> expr \<Rightarrow> expr \<Rightarrow> expr \<Rightarrow> cg" where
  "net_socket dest domain typ protocol =
    seqE [
      eval_expr domain ''rdi'', eval_expr typ ''rsi'', eval_expr protocol ''rdx'',
      asm_do (mov_reg_imm64 ''rax'' 41), asm_do syscall,
      with_res dest (\<lambda>dst. (if dst \<noteq> ''rax'' then asm_do (mov_reg_reg dst ''rax'')
      else skip))]"

definition net_connect :: "expr \<Rightarrow> expr \<Rightarrow> expr \<Rightarrow> cg" where
  "net_connect sock addr addrlen =
    seqE [
      eval_expr sock ''rdi'', eval_expr addr ''rsi'', eval_expr addrlen ''rdx'',
      asm_do (mov_reg_imm64 ''rax'' 42), asm_do syscall]"

definition net_send :: "expr \<Rightarrow> expr \<Rightarrow> expr \<Rightarrow> cg" where
  "net_send sock buf len =
    seqE [
      eval_expr sock ''rdi'', eval_expr buf ''rsi'', eval_expr len ''rdx'',
      asm_do (xor_reg_reg ''r10'' ''r10''), asm_do (mov_reg_imm64 ''rax'' 44), asm_do syscall]"

definition net_recv :: "expr \<Rightarrow> expr \<Rightarrow> expr \<Rightarrow> cg" where
  "net_recv sock buf len =
    seqE [
      eval_expr sock ''rdi'', eval_expr buf ''rsi'', eval_expr len ''rdx'',
      asm_do (xor_reg_reg ''r10'' ''r10''), asm_do (mov_reg_imm64 ''rax'' 45), asm_do syscall]"

definition net_close :: "expr \<Rightarrow> cg" where
  "net_close sock =
    seqE [
      eval_expr sock ''rdi'', asm_do (mov_reg_imm64 ''rax'' 3), asm_do syscall]"

definition cell_protect :: "expr \<Rightarrow> expr \<Rightarrow> expr \<Rightarrow> cg" where
  "cell_protect ptr sz prot =
    seqE [
      seqE (map (\<lambda>r. asm_do (push_reg r)) [''r12'', ''r13'', ''r14'']),
      eval_expr ptr ''r12'', eval_expr sz ''r13'', eval_expr prot ''r14'',
      asm_do (mov_reg_reg ''rdi'' ''r12''), asm_do (mov_reg_reg ''rsi'' ''r13''),
      asm_do (mov_reg_reg ''rdx'' ''r14''), asm_do (mov_reg_imm64 ''rax'' 10), asm_do syscall,
      asm_do (pop_reg ''r14''), asm_do (pop_reg ''r13''), asm_do (pop_reg ''r12'')]"

definition kbd_poll :: "string \<Rightarrow> cg" where
  "kbd_poll dest =
    with_res dest (\<lambda>dst. seqE [
      asm_do (push_reg ''rdx''), asm_do (mov_reg_imm64 ''rdx'' 100), asm_do in_al_dx,
      asm_do (and_reg_imm ''rax'' 1), asm_do (test_reg_reg ''rax'' ''rax''),
      new_label ''kbdok'' (\<lambda>okl. new_label ''kbdd'' (\<lambda>dn. seqE [
        asm_do (jcc ''neq'' okl), asm_do (xor_reg_reg dst dst), asm_do (jmp dn), place okl,
        asm_do (mov_reg_imm64 ''rdx'' 96), asm_do in_al_dx,
        (if dst \<noteq> ''rax'' then asm_do (mov_reg_reg dst ''rax'')
        else skip), place dn, asm_do (pop_reg ''rdx'')]))])"

definition pit_init :: "int \<Rightarrow> cg" where
  "pit_init divisor =
    (let dv = divisor AND 0xffff in seqE [
      asm_do (push_reg ''rax''), asm_do (push_reg ''rdx''), asm_do (mov_reg_imm64 ''rdx'' 67),
      asm_do (mov_reg_imm64 ''rax'' 54), asm_do out_dx_al, asm_do (mov_reg_imm64 ''rdx'' 64),
      asm_do (mov_reg_imm64 ''rax'' (dv AND 255)), asm_do out_dx_al,
      asm_do (mov_reg_imm64 ''rax'' ((drop_bit 8 dv) AND 255)), asm_do out_dx_al,
      asm_do (pop_reg ''rdx''), asm_do (pop_reg ''rax'')])"

definition serial_init :: "cg" where
  "serial_init =
    seqE [
      asm_do (push_reg ''rax''), asm_do (push_reg ''rdx''),
      asm_do (mov_reg_imm64 ''rdx'' 0x3f9), asm_do (xor_reg_reg ''rax'' ''rax''),
      asm_do out_dx_al, asm_do (mov_reg_imm64 ''rdx'' 0x3fb),
      asm_do (mov_reg_imm64 ''rax'' 128), asm_do out_dx_al,
      asm_do (mov_reg_imm64 ''rdx'' 0x3f8), asm_do (mov_reg_imm64 ''rax'' 1), asm_do out_dx_al,
      asm_do (mov_reg_imm64 ''rdx'' 0x3f9), asm_do (xor_reg_reg ''rax'' ''rax''),
      asm_do out_dx_al, asm_do (mov_reg_imm64 ''rdx'' 0x3fb), asm_do (mov_reg_imm64 ''rax'' 3),
      asm_do out_dx_al, asm_do (mov_reg_imm64 ''rdx'' 0x3fa),
      asm_do (mov_reg_imm64 ''rax'' 199), asm_do out_dx_al,
      asm_do (mov_reg_imm64 ''rdx'' 0x3fc), asm_do (mov_reg_imm64 ''rax'' 11), asm_do out_dx_al,
      asm_do (pop_reg ''rdx''), asm_do (pop_reg ''rax'')]"

definition serial_putc :: "expr \<Rightarrow> cg" where
  "serial_putc val =
    seqE [
      asm_do (push_reg ''rax''), asm_do (push_reg ''rdx''), eval_expr val ''rax'',
      asm_do (push_reg ''rax''),
      new_label ''ser'' (\<lambda>lp. seqE [
        place lp, asm_do (mov_reg_imm64 ''rdx'' 0x3fd), asm_do in_al_dx,
        asm_do (and_reg_imm ''rax'' 32), asm_do (test_reg_reg ''rax'' ''rax''),
        asm_do (jcc ''eq'' lp), asm_do (pop_reg ''rax''), asm_do (mov_reg_imm64 ''rdx'' 0x3f8),
        asm_do out_dx_al, asm_do (pop_reg ''rdx''), asm_do (pop_reg ''rax'')])]"

end
