(* ===== verification/Codegen_Kernel.thy ===== *)
theory Codegen_Kernel
  imports Codegen_Base
begin

section \<open>Emitters of the kernel statements (ACLM/codegen.py)\<close>

text \<open>
  The \<open>_kernel_xxx\<close> methods: heap, contexts, interrupt table and stubs, timers, ramfs, system
  call table, device rings. Runtime tables are reserved in the data on first use, interrupt stubs
  are emitted once.
\<close>

definition ctx_save_regs :: "string list" where
  "ctx_save_regs = [''rax'', ''rbx'', ''rcx'', ''rdx'', ''rsi'', ''rdi'', ''r8'', ''r9'', ''r10'',
     ''r11'', ''r12'', ''r13'', ''r14'', ''r15'', ''rbp'', ''rsp'']"

definition kernel_ctx_save :: "string \<Rightarrow> cg" where
  "kernel_ctx_save dest =
    with_res dest (\<lambda>base. seqE [
      asm_do (push_reg base), asm_do (mov_reg_reg SCRATCH base),
      seqE (map (\<lambda>i. let r = ctx_save_regs ! i in
        if r = ''rsp'' then seqE [asm_do (mov_reg_mem ''r11'' ''rsp'' 0 None 1),
          asm_do (mov_mem_reg SCRATCH (int i * 8) ''rsp'' None 1)]
        else asm_do (mov_mem_reg SCRATCH (int i * 8) r None 1)) [0..<16]),
      asm_do (pop_reg base)])"

definition ctx_load_regs :: "string list" where
  "ctx_load_regs = [''rax'', ''rbx'', ''rcx'', ''rdx'', ''rsi'', ''rdi'', ''r8'', ''r9'', ''r10'',
     ''r11'', ''r12'', ''r13'', ''r14'', ''r15'']"

definition kernel_ctx_load :: "string \<Rightarrow> cg" where
  "kernel_ctx_load src =
    with_res src (\<lambda>base. seqE [
      asm_do (mov_reg_reg SCRATCH base),
      seqE (map (\<lambda>i. asm_do (mov_reg_mem (ctx_load_regs ! i) SCRATCH (int i * 8) None 1)) [0..<14]),
      asm_do (mov_reg_mem ''rbp'' SCRATCH (14 * 8) None 1)])"

definition kernel_coop_switch :: "string \<Rightarrow> string \<Rightarrow> cg" where
  "kernel_coop_switch svr ldr = seqE [kernel_ctx_save svr, kernel_ctx_load ldr]"

definition pic_remap :: "cg" where
  "pic_remap = seqE [
    asm_do (push_reg ''rax''), asm_do (push_reg ''rdx''),
    seqE (map (\<lambda>(port, v). seqE [asm_do (mov_reg_imm64 ''rdx'' port),
        asm_do (mov_reg_imm64 ''rax'' v), asm_do out_dx_al])
      [(0x20, 0x11), (0xA0, 0x11), (0x21, 0x20), (0xA1, 0x28), (0x21, 0x04), (0xA1, 0x02),
       (0x21, 0x01), (0xA1, 0x01), (0x21, 0x00), (0xA1, 0x00)]),
    asm_do (pop_reg ''rdx''), asm_do (pop_reg ''rax'')]"

definition kernel_heap_init :: "int \<Rightarrow> cg" where
  "kernel_heap_init sz =
    (let nm = ''__kheap'' in (let ptrn = ''__kheap_ptr'' in seqE [
      reserve nm (zeros sz), reserve ptrn (zeros 8),
      asm_do (lea_reg_label SCRATCH (''__data_'' @ nm)),
      asm_do (lea_reg_label ''r12'' (''__data_'' @ ptrn)),
      asm_do (mov_mem_reg ''r12'' 0 SCRATCH None 1)]))"

definition kernel_heap_alloc :: "string \<Rightarrow> expr \<Rightarrow> cg" where
  "kernel_heap_alloc dest sz =
    with_res dest (\<lambda>dst. seqE [
      asm_do (push_reg ''r12''), asm_do (lea_reg_label ''r12'' ''__data___kheap_ptr''),
      asm_do (mov_reg_mem SCRATCH ''r12'' 0 None 1), asm_do (mov_reg_reg dst SCRATCH),
      eval_expr sz ''r11'', asm_do (add_reg_reg SCRATCH ''r11''),
      asm_do (mov_mem_reg ''r12'' 0 SCRATCH None 1), asm_do (pop_reg ''r12'')])"

definition kernel_idt_install :: "cg" where
  "kernel_idt_install =
    seqE [
      once ''_idt_handler_emitted'' (seqE [
        asm_do (jmp ''__idt_after_handler''), place ''__isr_default'', asm_do cli, asm_do hlt,
        asm_do (jmp ''__isr_default''), place ''__idt_after_handler'']),
      reserve ''__idt'' (zeros (0x100 * 16)), reserve ''__idtr'' (zeros 10),
      asm_do (push_reg ''rax''), asm_do (push_reg ''rcx''), asm_do (push_reg ''rdx''),
      asm_do (push_reg ''rdi''), asm_do (push_reg ''rsi''),
      asm_do (lea_reg_label ''rsi'' ''__isr_default''),
      asm_do (lea_reg_label ''rdi'' ''__data___idt''), asm_do (mov_reg_imm64 ''rcx'' 0x100),
      new_label ''idtf'' (\<lambda>lp. seqE [
        place lp, asm_do (mov_reg_reg ''rax'' ''rsi''),
        asm_do (mov_mem_reg ''rdi'' 0 ''rax'' None 1),
        asm_do (mov16_mem_reg ''rdi'' 0 ''rsi'' None 1), asm_do (mov_reg_imm64 ''rax'' 8),
        asm_do (mov16_mem_reg ''rdi'' 2 ''rax'' None 1), asm_do (mov_reg_imm64 ''rax'' 0x8e00),
        asm_do (mov16_mem_reg ''rdi'' 4 ''rax'' None 1), asm_do (mov_reg_reg ''rax'' ''rsi''),
        asm_do (shr_reg_imm8 ''rax'' 16), asm_do (mov16_mem_reg ''rdi'' 6 ''rax'' None 1),
        asm_do (mov_reg_reg ''rax'' ''rsi''), asm_do (shr_reg_imm8 ''rax'' 32),
        asm_do (mov32_mem_reg ''rdi'' 8 ''rax'' None 1), asm_do (xor_reg_reg ''rax'' ''rax''),
        asm_do (mov32_mem_reg ''rdi'' 12 ''rax'' None 1), asm_do (add_reg_imm ''rdi'' 16),
        asm_do (sub_reg_imm ''rcx'' 1), asm_do (test_reg_reg ''rcx'' ''rcx''),
        asm_do (jcc ''neq'' lp), asm_do (lea_reg_label ''rax'' ''__data___idt''),
        asm_do (lea_reg_label ''rdi'' ''__data___idtr''),
        asm_do (mov_reg_imm64 ''rcx'' ((0x100 * 16) - 1)),
        asm_do (mov16_mem_reg ''rdi'' 0 ''rcx'' None 1),
        asm_do (mov_mem_reg ''rdi'' 2 ''rax'' None 1), asm_do (lidt_mem ''rdi'' 0),
        asm_do (pop_reg ''rsi''), asm_do (pop_reg ''rdi''), asm_do (pop_reg ''rdx''),
        asm_do (pop_reg ''rcx''), asm_do (pop_reg ''rax'')])]"

definition kernel_printk_str :: "expr \<Rightarrow> cg" where
  "kernel_printk_str src =
    seqE [
      asm_do (push_reg ''r12''), eval_expr src ''r12'',
      new_label ''pks'' (\<lambda>lp. new_label ''pkd'' (\<lambda>dn. seqE [
        place lp, asm_do (mov8_reg_mem SCRATCH ''r12'' 0 None 1),
        asm_do (test_reg_reg SCRATCH SCRATCH), asm_do (jcc ''eq'' dn),
        asm_do (push_reg ''rax''), asm_do (push_reg ''rdx''),
        asm_do (mov_reg_reg ''rax'' SCRATCH), asm_do (push_reg ''rax''),
        new_label ''pkw'' (\<lambda>wait. seqE [
          place wait, asm_do (mov_reg_imm64 ''rdx'' 0x3fd), asm_do in_al_dx,
          asm_do (and_reg_imm ''rax'' 32), asm_do (test_reg_reg ''rax'' ''rax''),
          asm_do (jcc ''eq'' wait), asm_do (pop_reg ''rax''),
          asm_do (mov_reg_imm64 ''rdx'' 0x3f8), asm_do out_dx_al, asm_do (pop_reg ''rdx''),
          asm_do (pop_reg ''rax''), asm_do (add_reg_imm ''r12'' 1), asm_do (jmp lp), place dn,
          asm_do (pop_reg ''r12'')])]))]"

definition kernel_panic :: "cg" where
  "kernel_panic =
    seqE [
      asm_do cli, asm_do (mov_reg_imm64 ''rax'' 80), asm_do (push_reg ''rax''),
      asm_do (mov_reg_imm64 ''rdx'' 0x3f8), asm_do (pop_reg ''rax''), asm_do out_dx_al,
      asm_do hlt,
      new_label ''pan'' (\<lambda>panic. seqE [
        place panic, asm_do hlt, asm_do (jmp panic)])]"

definition kernel_tick_install :: "cg" where
  "kernel_tick_install =
    seqE [
      reserve ''__tick'' (zeros 8),
      once ''_irq0_emitted'' (seqE [
        asm_do (jmp ''__after_irq0''), place ''__irq0_stub'', asm_do (push_reg ''rax''),
        asm_do (push_reg ''rdx''), asm_do (lea_reg_label ''rax'' ''__data___tick''),
        asm_do (mov_reg_mem ''rdx'' ''rax'' 0 None 1), asm_do (add_reg_imm ''rdx'' 1),
        asm_do (mov_mem_reg ''rax'' 0 ''rdx'' None 1), asm_do (mov_reg_imm64 ''rdx'' 32),
        asm_do (mov_reg_imm64 ''rax'' 32), asm_do out_dx_al, asm_do (pop_reg ''rdx''),
        asm_do (pop_reg ''rax''), asm_do iretq, place ''__after_irq0'']),
      when_data ''__idt'' (seqE [
        asm_do (push_reg ''rax''), asm_do (push_reg ''rdi''), asm_do (push_reg ''rsi''),
        asm_do (lea_reg_label ''rsi'' ''__irq0_stub''),
        asm_do (lea_reg_label ''rdi'' ''__data___idt''), asm_do (add_reg_imm ''rdi'' (32 * 16)),
        asm_do (mov16_mem_reg ''rdi'' 0 ''rsi'' None 1), asm_do (mov_reg_imm64 ''rax'' 8),
        asm_do (mov16_mem_reg ''rdi'' 2 ''rax'' None 1), asm_do (mov_reg_imm64 ''rax'' 0x8e00),
        asm_do (mov16_mem_reg ''rdi'' 4 ''rax'' None 1), asm_do (mov_reg_reg ''rax'' ''rsi''),
        asm_do (shr_reg_imm8 ''rax'' 16), asm_do (mov16_mem_reg ''rdi'' 6 ''rax'' None 1),
        asm_do (mov_reg_reg ''rax'' ''rsi''), asm_do (shr_reg_imm8 ''rax'' 32),
        asm_do (mov32_mem_reg ''rdi'' 8 ''rax'' None 1), asm_do (xor_reg_reg ''rax'' ''rax''),
        asm_do (mov32_mem_reg ''rdi'' 12 ''rax'' None 1), asm_do (pop_reg ''rsi''),
        asm_do (pop_reg ''rdi''), asm_do (pop_reg ''rax'')])]"

definition kernel_tick_read :: "string \<Rightarrow> cg" where
  "kernel_tick_read dest =
    with_res dest (\<lambda>dst. seqE [
      reserve ''__tick'' (zeros 8), asm_do (lea_reg_label SCRATCH ''__data___tick''),
      asm_do (mov_reg_mem dst SCRATCH 0 None 1)])"

definition kernel_ramfs_init :: "cg" where
  "kernel_ramfs_init =
    seqE [
      reserve ''__ramfs'' (zeros 0x100), asm_do (push_reg ''rdi''), asm_do (push_reg ''rcx''),
      asm_do (lea_reg_label ''rdi'' ''__data___ramfs''), asm_do (mov_reg_imm64 ''rcx'' 0x100),
      asm_do (xor_reg_reg ''rax'' ''rax''),
      new_label ''rfz'' (\<lambda>zl. seqE [
        place zl, asm_do (mov8_mem_reg ''rdi'' 0 ''rax'' None 1),
        asm_do (add_reg_imm ''rdi'' 1), asm_do (sub_reg_imm ''rcx'' 1),
        asm_do (test_reg_reg ''rcx'' ''rcx''), asm_do (jcc ''neq'' zl),
        asm_do (pop_reg ''rcx''), asm_do (pop_reg ''rdi'')])]"

definition kernel_ramfs_put :: "expr \<Rightarrow> expr \<Rightarrow> expr \<Rightarrow> cg" where
  "kernel_ramfs_put nm dat len =
    seqE [
      reserve ''__ramfs'' (zeros 0x100), asm_do (push_reg ''r12''), asm_do (push_reg ''r13''),
      asm_do (push_reg ''r14''), eval_expr nm ''r12'', eval_expr dat ''r13'',
      eval_expr len ''r14'', asm_do (lea_reg_label SCRATCH ''__data___ramfs''),
      asm_do (mov_reg_imm64 ''rcx'' 8),
      new_label ''rfs'' (\<lambda>fsl. new_label ''rff'' (\<lambda>fnd. new_label ''rfd'' (\<lambda>dn. seqE [
        place fsl, asm_do (mov8_reg_mem ''rax'' SCRATCH 0 None 1),
        asm_do (test_reg_reg ''rax'' ''rax''), asm_do (jcc ''eq'' fnd),
        asm_do (add_reg_imm SCRATCH 32), asm_do (sub_reg_imm ''rcx'' 1),
        asm_do (test_reg_reg ''rcx'' ''rcx''), asm_do (jcc ''neq'' fsl), asm_do (jmp dn),
        place fnd, asm_do (mov_reg_reg ''rdi'' SCRATCH), asm_do (mov_reg_reg ''rsi'' ''r12''),
        asm_do (mov_reg_imm64 ''rcx'' 15),
        new_label ''rfc'' (\<lambda>cnl. seqE [
          place cnl, asm_do (mov8_reg_mem ''rax'' ''rsi'' 0 None 1),
          asm_do (mov8_mem_reg ''rdi'' 0 ''rax'' None 1), asm_do (test_reg_reg ''rax'' ''rax''),
          asm_do (jcc ''eq'' dn), asm_do (add_reg_imm ''rsi'' 1),
          asm_do (add_reg_imm ''rdi'' 1), asm_do (sub_reg_imm ''rcx'' 1),
          asm_do (test_reg_reg ''rcx'' ''rcx''), asm_do (jcc ''neq'' cnl),
          asm_do (xor_reg_reg ''rax'' ''rax''), asm_do (mov8_mem_reg ''rdi'' 0 ''rax'' None 1),
          place dn, asm_do (mov_mem_reg SCRATCH 16 ''r13'' None 1),
          asm_do (mov_mem_reg SCRATCH 24 ''r14'' None 1), asm_do (pop_reg ''r14''),
          asm_do (pop_reg ''r13''), asm_do (pop_reg ''r12'')])])))]"

definition kernel_ramfs_get :: "string \<Rightarrow> expr \<Rightarrow> cg" where
  "kernel_ramfs_get dest nm =
    with_res dest (\<lambda>dst. seqE [
      reserve ''__ramfs'' (zeros 0x100), asm_do (push_reg ''r12''), asm_do (push_reg ''r13''),
      asm_do (push_reg ''r14''), eval_expr nm ''r12'',
      asm_do (lea_reg_label ''r13'' ''__data___ramfs''), asm_do (mov_reg_imm64 ''rcx'' 8),
      new_label ''rfgl'' (\<lambda>lp. new_label ''rfgf'' (\<lambda>fl. new_label ''rfgok'' (\<lambda>okl. new_label ''rfgd'' (\<lambda>dn. seqE [
        place lp, asm_do (mov_reg_reg ''rsi'' ''r13''), asm_do (mov_reg_reg ''rdi'' ''r12''),
        asm_do (mov_reg_imm64 ''r14'' 16),
        new_label ''rfgc'' (\<lambda>cmpl. seqE [
          place cmpl, asm_do (mov8_reg_mem ''rax'' ''rsi'' 0 None 1),
          asm_do (mov8_reg_mem ''rdx'' ''rdi'' 0 None 1), asm_do (cmp_reg_reg ''rax'' ''rdx''),
          new_label ''rfgne'' (\<lambda>nel. seqE [
            asm_do (jcc ''neq'' nel), asm_do (test_reg_reg ''rax'' ''rax''),
            asm_do (jcc ''eq'' okl), asm_do (add_reg_imm ''rsi'' 1),
            asm_do (add_reg_imm ''rdi'' 1), asm_do (sub_reg_imm ''r14'' 1),
            asm_do (test_reg_reg ''r14'' ''r14''), asm_do (jcc ''neq'' cmpl), asm_do (jmp okl),
            place nel, asm_do (add_reg_imm ''r13'' 32), asm_do (sub_reg_imm ''rcx'' 1),
            asm_do (test_reg_reg ''rcx'' ''rcx''), asm_do (jcc ''neq'' lp), asm_do (jmp fl),
            place okl, asm_do (mov_reg_mem dst ''r13'' 16 None 1), asm_do (jmp dn), place fl,
            asm_do (xor_reg_reg dst dst), place dn, asm_do (pop_reg ''r14''),
            asm_do (pop_reg ''r13''), asm_do (pop_reg ''r12'')])])]))))])"

definition kernel_net_init :: "cg" where
  "kernel_net_init =
    reserve ''__net'' ([1] @ zeros 7)"

definition kernel_net_poll :: "string \<Rightarrow> cg" where
  "kernel_net_poll dest =
    with_res dest (\<lambda>dst. asm_do (xor_reg_reg dst dst))"

definition kernel_cs_ring :: "string \<Rightarrow> cg" where
  "kernel_cs_ring dest =
    with_res dest (\<lambda>dst. seqE [
      asm_do (raw_bytes [0x66, 0x8c, 0xc8]), asm_do (and_reg_imm ''rax'' 3),
      (if dst \<noteq> ''rax'' then asm_do (mov_reg_reg dst ''rax'')
      else skip)])"

definition kernel_enter_user :: "expr \<Rightarrow> expr \<Rightarrow> cg" where
  "kernel_enter_user ent stack =
    seqE [
      asm_do (push_reg ''rax''), eval_expr stack ''rax'', asm_do (mov_reg_reg ''rsp'' ''rax''),
      asm_do (mov_reg_imm64 ''rax'' 35), asm_do (push_reg ''rax''), eval_expr stack ''rax'',
      asm_do (push_reg ''rax''), asm_do (mov_reg_imm64 ''rax'' 0x202),
      asm_do (push_reg ''rax''), asm_do (mov_reg_imm64 ''rax'' 27), asm_do (push_reg ''rax''),
      eval_expr ent ''rax'', asm_do (push_reg ''rax''), asm_do iretq]"

definition kernel_pf_install :: "cg" where
  "kernel_pf_install =
    seqE [
      once ''_pf_emitted'' (seqE [
        asm_do (jmp ''__after_pf''), place ''__pf_stub'', asm_do cli, asm_do hlt,
        asm_do (jmp ''__pf_stub''), place ''__after_pf'']),
      when_data ''__idt'' (seqE [
        asm_do (push_reg ''rax''), asm_do (push_reg ''rdi''), asm_do (push_reg ''rsi''),
        asm_do (lea_reg_label ''rsi'' ''__pf_stub''),
        asm_do (lea_reg_label ''rdi'' ''__data___idt''), asm_do (add_reg_imm ''rdi'' (14 * 16)),
        asm_do (mov16_mem_reg ''rdi'' 0 ''rsi'' None 1), asm_do (mov_reg_imm64 ''rax'' 8),
        asm_do (mov16_mem_reg ''rdi'' 2 ''rax'' None 1), asm_do (mov_reg_imm64 ''rax'' 0x8e00),
        asm_do (mov16_mem_reg ''rdi'' 4 ''rax'' None 1), asm_do (mov_reg_reg ''rax'' ''rsi''),
        asm_do (shr_reg_imm8 ''rax'' 16), asm_do (mov16_mem_reg ''rdi'' 6 ''rax'' None 1),
        asm_do (mov_reg_reg ''rax'' ''rsi''), asm_do (shr_reg_imm8 ''rax'' 32),
        asm_do (mov32_mem_reg ''rdi'' 8 ''rax'' None 1), asm_do (xor_reg_reg ''rax'' ''rax''),
        asm_do (mov32_mem_reg ''rdi'' 12 ''rax'' None 1), asm_do (pop_reg ''rsi''),
        asm_do (pop_reg ''rdi''), asm_do (pop_reg ''rax'')])]"

definition kernel_net_allow :: "int \<Rightarrow> cg" where
  "kernel_net_allow port =
    seqE [
      reserve ''__net_allow'' (zeros 8),
      (let bitv = push_bit (nat (port AND 63)) 1 in seqE [
        asm_do (push_reg ''rax''), asm_do (push_reg ''rcx''),
        asm_do (lea_reg_label ''rax'' ''__data___net_allow''),
        asm_do (mov_reg_mem ''rcx'' ''rax'' 0 None 1), asm_do (mov_reg_imm64 ''rdx'' bitv),
        asm_do (or_reg_reg ''rcx'' ''rdx''), asm_do (mov_mem_reg ''rax'' 0 ''rcx'' None 1),
        asm_do (pop_reg ''rcx''), asm_do (pop_reg ''rax'')])]"

definition kernel_net_check :: "string \<Rightarrow> expr \<Rightarrow> cg" where
  "kernel_net_check dest port =
    with_res dest (\<lambda>dst. seqE [
      reserve ''__net_allow'' (zeros 8), asm_do (push_reg ''rcx''), asm_do (push_reg ''rdx''),
      asm_do (push_reg ''rsi''), eval_expr port ''rcx'', asm_do (and_reg_imm ''rcx'' 63),
      asm_do (lea_reg_label ''rsi'' ''__data___net_allow''),
      asm_do (mov_reg_mem ''rdx'' ''rsi'' 0 None 1), asm_do (mov_reg_imm64 ''rsi'' 1),
      asm_do (shl_reg_cl ''rsi''), asm_do (and_reg_reg ''rdx'' ''rsi''),
      asm_do (test_reg_reg ''rdx'' ''rdx''),
      new_label ''nck'' (\<lambda>nzl. new_label ''nckz'' (\<lambda>zl. seqE [
        asm_do (jcc ''neq'' nzl), asm_do (xor_reg_reg dst dst), asm_do (jmp zl), place nzl,
        asm_do (mov_reg_imm64 dst 1), place zl, asm_do (pop_reg ''rsi''),
        asm_do (pop_reg ''rdx''), asm_do (pop_reg ''rcx'')]))])"

definition kernel_preempt_arm :: "string \<Rightarrow> cg" where
  "kernel_preempt_arm ctx =
    seqE [
      reserve ''__preempt_req'' (zeros 8), asm_do (push_reg ''rax''),
      asm_do (lea_reg_label ''rax'' ''__data___preempt_req''),
      with_res ctx (\<lambda>r1. asm_do (mov_mem_reg ''rax'' 0 r1 None 1)),
      asm_do (pop_reg ''rax'')]"

definition kernel_syscall_init :: "cg" where
  "kernel_syscall_init =
    seqE [
      once ''_sysentry_emitted'' (seqE [
        asm_do (jmp ''__after_sysentry''), place ''__syscall_entry'', asm_do sysret,
        place ''__after_sysentry'']), asm_do (push_reg ''rax''), asm_do (push_reg ''rcx''),
      asm_do (push_reg ''rdx''), asm_do (mov_reg_imm64 ''rcx'' 0xc0000080), asm_do rdmsr,
      asm_do (or_reg_imm ''rax'' 1), asm_do wrmsr, asm_do (mov_reg_imm64 ''rcx'' 0xc0000081),
      asm_do (mov_reg_imm64 ''rax'' 0), asm_do (mov_reg_imm64 ''rdx'' ((push_bit 16 27) OR 8)),
      asm_do (mov_reg_imm64 ''rdx'' 0x1b0008), asm_do (xor_reg_reg ''rax'' ''rax''),
      asm_do wrmsr, asm_do (mov_reg_imm64 ''rcx'' 0xc0000082),
      asm_do (lea_reg_label ''rax'' ''__syscall_entry''), asm_do (mov_reg_reg ''rdx'' ''rax''),
      asm_do (shr_reg_imm8 ''rdx'' 32), asm_do wrmsr, asm_do (mov_reg_imm64 ''rcx'' 0xc0000084),
      asm_do (mov_reg_imm64 ''rax'' 0x200), asm_do (xor_reg_reg ''rdx'' ''rdx''), asm_do wrmsr,
      asm_do (pop_reg ''rdx''), asm_do (pop_reg ''rcx''), asm_do (pop_reg ''rax'')]"

definition kernel_nic_bar :: "expr \<Rightarrow> cg" where
  "kernel_nic_bar addr =
    seqE [
      reserve ''__nic_bar'' (zeros 8), asm_do (push_reg ''rax''), eval_expr addr ''rax'',
      asm_do (lea_reg_label SCRATCH ''__data___nic_bar''),
      asm_do (mov_mem_reg SCRATCH 0 ''rax'' None 1), asm_do (pop_reg ''rax'')]"

definition kernel_nic_read :: "string \<Rightarrow> expr \<Rightarrow> cg" where
  "kernel_nic_read dest off =
    with_res dest (\<lambda>dst. seqE [
      reserve ''__nic_bar'' (zeros 8), asm_do (push_reg ''rdx''), asm_do (push_reg ''rsi''),
      asm_do (lea_reg_label ''rsi'' ''__data___nic_bar''),
      asm_do (mov_reg_mem ''rsi'' ''rsi'' 0 None 1), eval_expr off ''rdx'',
      asm_do (add_reg_reg ''rsi'' ''rdx''), asm_do (mov32_reg_mem dst ''rsi'' 0 None 1),
      asm_do (pop_reg ''rsi''), asm_do (pop_reg ''rdx'')])"

definition kernel_nic_write :: "expr \<Rightarrow> expr \<Rightarrow> cg" where
  "kernel_nic_write off val =
    seqE [
      reserve ''__nic_bar'' (zeros 8), asm_do (push_reg ''rax''), asm_do (push_reg ''rdx''),
      asm_do (push_reg ''rcx''), asm_do (lea_reg_label ''rax'' ''__data___nic_bar''),
      asm_do (mov_reg_mem ''rax'' ''rax'' 0 None 1), eval_expr off ''rdx'',
      asm_do (add_reg_reg ''rax'' ''rdx''), eval_expr val ''rcx'',
      asm_do (mov32_mem_reg ''rax'' 0 ''rcx'' None 1), asm_do (pop_reg ''rcx''),
      asm_do (pop_reg ''rdx''), asm_do (pop_reg ''rax'')]"

definition kernel_irq_full_save_on :: "cg" where
  "kernel_irq_full_save_on =
    seqE [
      reserve ''__irq_gprs'' (zeros 128), reserve ''__tick'' (zeros 8),
      once ''_irq0_full_emitted'' (seqE [
        asm_do (jmp ''__after_irq0_full''), place ''__irq0_full'', asm_do (push_reg ''r15''),
        asm_do (lea_reg_label ''r15'' ''__data___irq_gprs''),
        asm_do (mov_mem_reg ''r15'' 0 ''rax'' None 1),
        asm_do (mov_mem_reg ''r15'' 8 ''rbx'' None 1),
        asm_do (mov_mem_reg ''r15'' 16 ''rcx'' None 1),
        asm_do (mov_mem_reg ''r15'' 24 ''rdx'' None 1),
        asm_do (mov_mem_reg ''r15'' 32 ''rsi'' None 1),
        asm_do (mov_mem_reg ''r15'' 40 ''rdi'' None 1),
        asm_do (mov_mem_reg ''r15'' 48 ''r8'' None 1),
        asm_do (mov_mem_reg ''r15'' 56 ''r9'' None 1),
        asm_do (mov_mem_reg ''r15'' 64 ''r10'' None 1),
        asm_do (mov_mem_reg ''r15'' 72 ''r11'' None 1),
        asm_do (mov_mem_reg ''r15'' 80 ''r12'' None 1),
        asm_do (mov_mem_reg ''r15'' 88 ''r13'' None 1),
        asm_do (mov_mem_reg ''r15'' 96 ''r14'' None 1),
        asm_do (mov_reg_mem ''rax'' ''rsp'' 0 None 1),
        asm_do (mov_mem_reg ''r15'' 104 ''rax'' None 1),
        asm_do (lea_reg_label ''rax'' ''__data___tick''),
        asm_do (mov_reg_mem ''rdx'' ''rax'' 0 None 1), asm_do (add_reg_imm ''rdx'' 1),
        asm_do (mov_mem_reg ''rax'' 0 ''rdx'' None 1), asm_do (mov_reg_imm64 ''rdx'' 32),
        asm_do (mov_reg_imm64 ''rax'' 32), asm_do out_dx_al,
        asm_do (lea_reg_label ''r15'' ''__data___irq_gprs''),
        asm_do (mov_reg_mem ''rax'' ''r15'' 0 None 1),
        asm_do (mov_reg_mem ''rbx'' ''r15'' 8 None 1),
        asm_do (mov_reg_mem ''rcx'' ''r15'' 16 None 1),
        asm_do (mov_reg_mem ''rdx'' ''r15'' 24 None 1),
        asm_do (mov_reg_mem ''rsi'' ''r15'' 32 None 1),
        asm_do (mov_reg_mem ''rdi'' ''r15'' 40 None 1),
        asm_do (mov_reg_mem ''r8'' ''r15'' 48 None 1),
        asm_do (mov_reg_mem ''r9'' ''r15'' 56 None 1),
        asm_do (mov_reg_mem ''r10'' ''r15'' 64 None 1),
        asm_do (mov_reg_mem ''r11'' ''r15'' 72 None 1),
        asm_do (mov_reg_mem ''r12'' ''r15'' 80 None 1),
        asm_do (mov_reg_mem ''r13'' ''r15'' 88 None 1),
        asm_do (mov_reg_mem ''r14'' ''r15'' 96 None 1), asm_do (pop_reg ''r15''), asm_do iretq,
        place ''__after_irq0_full'']),
      when_data ''__idt'' (seqE [
        asm_do (push_reg ''rax''), asm_do (push_reg ''rdi''), asm_do (push_reg ''rsi''),
        asm_do (lea_reg_label ''rsi'' ''__irq0_full''),
        asm_do (lea_reg_label ''rdi'' ''__data___idt''), asm_do (add_reg_imm ''rdi'' (32 * 16)),
        asm_do (mov16_mem_reg ''rdi'' 0 ''rsi'' None 1), asm_do (mov_reg_imm64 ''rax'' 8),
        asm_do (mov16_mem_reg ''rdi'' 2 ''rax'' None 1), asm_do (mov_reg_imm64 ''rax'' 0x8e00),
        asm_do (mov16_mem_reg ''rdi'' 4 ''rax'' None 1), asm_do (mov_reg_reg ''rax'' ''rsi''),
        asm_do (shr_reg_imm8 ''rax'' 16), asm_do (mov16_mem_reg ''rdi'' 6 ''rax'' None 1),
        asm_do (mov_reg_reg ''rax'' ''rsi''), asm_do (shr_reg_imm8 ''rax'' 32),
        asm_do (mov32_mem_reg ''rdi'' 8 ''rax'' None 1), asm_do (xor_reg_reg ''rax'' ''rax''),
        asm_do (mov32_mem_reg ''rdi'' 12 ''rax'' None 1), asm_do (pop_reg ''rsi''),
        asm_do (pop_reg ''rdi''), asm_do (pop_reg ''rax'')])]"

definition kernel_syscall_table_init :: "cg" where
  "kernel_syscall_table_init =
    seqE [
      reserve ''__systab'' (zeros (64 * 8)),
      once ''_nosys_emitted'' (seqE [
        asm_do (jmp ''__after_nosys''), place ''__nosys'',
        asm_do (mov_reg_imm64 ''rax'' 0xffffffffffffffff), asm_do sysret,
        place ''__after_nosys'']), asm_do (push_reg ''rax''), asm_do (push_reg ''rcx''),
      asm_do (push_reg ''rdi''), asm_do (lea_reg_label ''rax'' ''__nosys''),
      asm_do (lea_reg_label ''rdi'' ''__data___systab''), asm_do (mov_reg_imm64 ''rcx'' 64),
      new_label ''sti'' (\<lambda>lp. seqE [
        place lp, asm_do (mov_mem_reg ''rdi'' 0 ''rax'' None 1), asm_do (add_reg_imm ''rdi'' 8),
        asm_do (sub_reg_imm ''rcx'' 1), asm_do (test_reg_reg ''rcx'' ''rcx''),
        asm_do (jcc ''neq'' lp), asm_do (pop_reg ''rdi''), asm_do (pop_reg ''rcx''),
        asm_do (pop_reg ''rax''),
        once ''_sysdispatch_emitted'' (seqE [
          asm_do (jmp ''__after_sysdispatch''), place ''__syscall_dispatch'',
          asm_do (push_reg ''rbx''), asm_do (mov_reg_reg ''rbx'' ''rax''),
          asm_do (and_reg_imm ''rbx'' 63), asm_do (lea_reg_label ''rax'' ''__data___systab''),
          asm_do (shl_reg_imm8 ''rbx'' 3), asm_do (add_reg_reg ''rax'' ''rbx''),
          asm_do (mov_reg_mem ''rax'' ''rax'' 0 None 1), asm_do (call_reg ''rax''),
          asm_do (pop_reg ''rbx''), asm_do sysret, place ''__after_sysdispatch'']),
        asm_do (push_reg ''rax''), asm_do (push_reg ''rcx''), asm_do (push_reg ''rdx''),
        asm_do (mov_reg_imm64 ''rcx'' 0xc0000082),
        asm_do (lea_reg_label ''rax'' ''__syscall_dispatch''),
        asm_do (mov_reg_reg ''rdx'' ''rax''), asm_do (shr_reg_imm8 ''rdx'' 32), asm_do wrmsr,
        asm_do (pop_reg ''rdx''), asm_do (pop_reg ''rcx''), asm_do (pop_reg ''rax'')])]"

definition kernel_syscall_register :: "int \<Rightarrow> string \<Rightarrow> cg" where
  "kernel_syscall_register nr handler =
    seqE [
      reserve ''__systab'' (zeros (64 * 8)), asm_do (push_reg ''rax''),
      asm_do (push_reg ''rdi''), asm_do (lea_reg_label ''rax'' (''__lbl_'' @ handler)),
      asm_do (lea_reg_label ''rdi'' ''__data___systab''),
      asm_do (add_reg_imm ''rdi'' ((nr AND 63) * 8)),
      asm_do (mov_mem_reg ''rdi'' 0 ''rax'' None 1), asm_do (pop_reg ''rdi''),
      asm_do (pop_reg ''rax'')]"

definition kernel_nmi_install :: "cg" where
  "kernel_nmi_install =
    seqE [
      once ''_nmi_emitted'' (seqE [
        asm_do (jmp ''__after_nmi''), place ''__nmi_stub'', asm_do cli, asm_do hlt,
        asm_do (jmp ''__nmi_stub''), place ''__after_nmi'']),
      when_data ''__idt'' (seqE [
        asm_do (push_reg ''rax''), asm_do (push_reg ''rdi''), asm_do (push_reg ''rsi''),
        asm_do (lea_reg_label ''rsi'' ''__nmi_stub''),
        asm_do (lea_reg_label ''rdi'' ''__data___idt''), asm_do (add_reg_imm ''rdi'' (2 * 16)),
        asm_do (mov16_mem_reg ''rdi'' 0 ''rsi'' None 1), asm_do (mov_reg_imm64 ''rax'' 8),
        asm_do (mov16_mem_reg ''rdi'' 2 ''rax'' None 1), asm_do (mov_reg_imm64 ''rax'' 0x8e00),
        asm_do (mov16_mem_reg ''rdi'' 4 ''rax'' None 1), asm_do (mov_reg_reg ''rax'' ''rsi''),
        asm_do (shr_reg_imm8 ''rax'' 16), asm_do (mov16_mem_reg ''rdi'' 6 ''rax'' None 1),
        asm_do (mov_reg_reg ''rax'' ''rsi''), asm_do (shr_reg_imm8 ''rax'' 32),
        asm_do (mov32_mem_reg ''rdi'' 8 ''rax'' None 1), asm_do (xor_reg_reg ''rax'' ''rax''),
        asm_do (mov32_mem_reg ''rdi'' 12 ''rax'' None 1), asm_do (pop_reg ''rsi''),
        asm_do (pop_reg ''rdi''), asm_do (pop_reg ''rax'')])]"

definition kernel_dma_ring_init :: "int \<Rightarrow> cg" where
  "kernel_dma_ring_init slts =
    (let n = slts in (let sz = 16 + (n * 16) in seqE [
      reserve_slots ''__dmaring'' sz ''__dmaring_slots'' n, asm_do (push_reg ''rax''),
      asm_do (push_reg ''rdi''), asm_do (lea_reg_label ''rdi'' ''__data___dmaring''),
      asm_do (xor_reg_reg ''rax'' ''rax''), asm_do (mov_mem_reg ''rdi'' 0 ''rax'' None 1),
      asm_do (mov_mem_reg ''rdi'' 4 ''rax'' None 1), asm_do (mov_reg_imm64 ''rax'' (n - 1)),
      asm_do (mov32_mem_reg ''rdi'' 8 ''rax'' None 1), asm_do (pop_reg ''rdi''),
      asm_do (pop_reg ''rax'')]))"

definition kernel_dma_ring_push :: "expr \<Rightarrow> expr \<Rightarrow> cg" where
  "kernel_dma_ring_push addr len =
    seqE [
      asm_do (push_reg ''r8''), asm_do (push_reg ''r9''), asm_do (push_reg ''r10''),
      asm_do (push_reg ''r11''), asm_do (lea_reg_label ''r8'' ''__data___dmaring''),
      asm_do (mov32_reg_mem ''r9'' ''r8'' 0 None 1),
      asm_do (mov32_reg_mem ''r10'' ''r8'' 4 None 1),
      asm_do (mov32_reg_mem ''r11'' ''r8'' 8 None 1), asm_do (mov_reg_reg ''rax'' ''r9''),
      asm_do (add_reg_imm ''rax'' 1), asm_do (and_reg_reg ''rax'' ''r11''),
      asm_do (cmp_reg_reg ''rax'' ''r10''),
      new_label ''dmf'' (\<lambda>fll. new_label ''dmo'' (\<lambda>okl. seqE [
        asm_do (jcc ''eq'' fll), asm_do (mov_reg_reg ''rax'' ''r9''),
        asm_do (shl_reg_imm8 ''rax'' 4), asm_do (add_reg_imm ''rax'' 16),
        asm_do (add_reg_reg ''rax'' ''r8''), asm_do (mov_reg_reg ''r10'' ''rax''),
        eval_expr addr ''rax'', asm_do (mov_mem_reg ''r10'' 0 ''rax'' None 1),
        eval_expr len ''rax'', asm_do (mov_mem_reg ''r10'' 8 ''rax'' None 1),
        asm_do (mov_reg_reg ''rax'' ''r9''), asm_do (add_reg_imm ''rax'' 1),
        asm_do (and_reg_reg ''rax'' ''r11''), asm_do (mov32_mem_reg ''r8'' 0 ''rax'' None 1),
        with_res ''reg1'' (\<lambda>r1. with_res ''reg1'' (\<lambda>r2. asm_do (xor_reg_reg r1 r2))),
        asm_do (jmp okl), place fll,
        with_res ''reg1'' (\<lambda>r1. asm_do (mov_reg_imm64 r1 1)), place okl,
        asm_do (pop_reg ''r11''), asm_do (pop_reg ''r10''), asm_do (pop_reg ''r9''),
        asm_do (pop_reg ''r8'')]))]"

definition kernel_dma_ring_pop :: "string \<Rightarrow> string \<Rightarrow> cg" where
  "kernel_dma_ring_pop dest_addr dest_len =
    with_res dest_addr (\<lambda>da. with_res dest_len (\<lambda>dl. seqE [
      asm_do (push_reg ''r8''), asm_do (push_reg ''r9''), asm_do (push_reg ''r10''),
      asm_do (push_reg ''r11''), asm_do (lea_reg_label ''r8'' ''__data___dmaring''),
      asm_do (mov32_reg_mem ''r9'' ''r8'' 0 None 1),
      asm_do (mov32_reg_mem ''r10'' ''r8'' 4 None 1), asm_do (cmp_reg_reg ''r9'' ''r10''),
      new_label ''dme'' (\<lambda>empty. new_label ''dmok'' (\<lambda>okl. seqE [
        asm_do (jcc ''eq'' empty), asm_do (mov32_reg_mem ''r11'' ''r8'' 8 None 1),
        asm_do (mov_reg_reg ''rax'' ''r10''), asm_do (shl_reg_imm8 ''rax'' 4),
        asm_do (add_reg_imm ''rax'' 16), asm_do (add_reg_reg ''rax'' ''r8''),
        asm_do (mov_reg_mem da ''rax'' 0 None 1), asm_do (mov_reg_mem dl ''rax'' 8 None 1),
        asm_do (add_reg_imm ''r10'' 1), asm_do (and_reg_reg ''r10'' ''r11''),
        asm_do (mov32_mem_reg ''r8'' 4 ''r10'' None 1),
        with_res ''reg1'' (\<lambda>r1. with_res ''reg1'' (\<lambda>r2. asm_do (xor_reg_reg r1 r2))),
        asm_do (jmp okl), place empty,
        with_res ''reg1'' (\<lambda>r1. asm_do (mov_reg_imm64 r1 1)), place okl,
        asm_do (pop_reg ''r11''), asm_do (pop_reg ''r10''), asm_do (pop_reg ''r9''),
        asm_do (pop_reg ''r8'')]))]))"

end
