(* ===== verification/Codegen_Emit.thy ===== *)
theory Codegen_Emit
  imports Codegen_Ops Codegen_Kernel
begin

section \<open>Statements and functions (ACLM/codegen.py, \<open>_emit\<close>)\<close>

text \<open>
  The dispatch of \<open>_emit\<close>, one equation per node class, the function prologue and epilogue, and the
  recursion through function bodies.
\<close>

subsection \<open>Functions\<close>

text \<open>Offsets of the locals from \<open>rbp\<close>: below the 32 bytes of saved registers, each size rounded
  up to 8; the tot is returned as well.\<close>

fun local_slots :: "int \<Rightarrow> (string \<times> int) list \<Rightarrow> (string \<times> int) list \<times> int" where
  "local_slots tot [] = ([], tot)"
| "local_slots tot ((name, sz) # ls) =
    (let tot' = tot + ((sz + 7) AND NOT 7);
         (slots, t) = local_slots tot' ls in ((name, - (32 + tot')) # slots, t))"

definition callee_saved :: "string list" where
  "callee_saved = [''rbx'', ''r12'', ''r13'', ''r14'']"

definition fn_epilogue :: "cg" where
  "fn_epilogue = seqE [
    asm_do (mov_reg_reg ''rsp'' ''rbp''), asm_do (sub_reg_imm ''rsp'' 32),
    seqE (map (\<lambda>r. asm_do (pop_reg r)) (rev callee_saved)),
    asm_do (pop_reg ''rbp''), asm_do ret]"

definition set_locals :: "(string \<times> int) list \<Rightarrow> cg" where
  "set_locals ls g = Inr (g\<lparr>fn_locals := ls\<rparr>)"

definition bind_args :: "string list \<Rightarrow> (string \<times> string) list" where
  "bind_args args = fold (\<lambda>(a, r) m. AList.update a r m) (zip args call_args) []"

definition enter_fn :: "string list \<Rightarrow> cg" where
  "enter_fn args g = Inr (g\<lparr>in_fn := True, fn_args := bind_args args\<rparr>)"

definition leave_fn :: "cg" where
  "leave_fn g = Inr (g\<lparr>in_fn := False, fn_locals := [], fn_args := []\<rparr>)"

text \<open>A dictionary filled in order: a repeated name keeps the last offset.\<close>

definition dict_of :: "(string \<times> 'a) list \<Rightarrow> (string \<times> 'a) list" where
  "dict_of ls = fold (\<lambda>(k, v) m. AList.update k v m) ls []"

definition fn_prologue :: "(string \<times> int) list \<Rightarrow> cg" where
  "fn_prologue locals = seqE [
    set_locals [],
    asm_do (push_reg ''rbp''), asm_do (mov_reg_reg ''rbp'' ''rsp''),
    seqE (map (\<lambda>r. asm_do (push_reg r)) callee_saved),
    (let (slots, tot) = local_slots 0 locals; tot' = (tot + 15) AND NOT 15 in
     seqE [set_locals (dict_of slots),
       (if tot' \<noteq> 0 then asm_do (sub_reg_imm ''rsp'' tot') else skip)])]"

definition emit_fn :: "string \<Rightarrow> string list \<Rightarrow> cg \<Rightarrow> (string \<times> int) list \<Rightarrow> cg" where
  "emit_fn name args body locals = seqE [
    place (''__lbl_'' @ name), fn_prologue locals, enter_fn args, body, leave_fn, fn_epilogue]"

definition ret_stmt :: "cg" where
  "ret_stmt g = (if in_fn g then fn_epilogue g else asm_do ret g)"

subsection \<open>Statements\<close>

definition note_line :: "int \<Rightarrow> cg" where
  "note_line ln g =
    Inr (if ln = 0 then g
         else g\<lparr>line_entries := line_entries g @ [(length (code (g_asm g)), ln)]\<rparr>)"

text \<open>\<open>self._teach_map\<close> and \<open>self._section_hints\<close>.\<close>

definition note_teach :: "int \<Rightarrow> string \<Rightarrow> cg" where
  "note_teach ln hint g =
    (let l = g_listing g in
     Inr (if emit_listing l \<or> teach_mode l
          then g\<lparr>g_listing := l\<lparr>teach_map := teach_map l @ [(ln, hint, length (code (g_asm g)))]\<rparr>\<rparr>
          else g))"

definition note_section :: "string \<Rightarrow> int \<Rightarrow> cg" where
  "note_section name addr g =
    (let l = g_listing g; hint = ''section:'' @ name @ '' at:0x'' @ hex_int addr in
     Inr (g\<lparr>g_listing := l\<lparr>section_hints := section_hints l @ [hint]\<rparr>\<rparr>))"

definition set_deterministic :: "cg" where
  "set_deterministic g =
    Inr (g\<lparr>g_deterministic := True, g_asm := (g_asm g)\<lparr>deterministic := True\<rparr>\<rparr>)"

definition gate_fence :: "string \<Rightarrow> cg" where
  "gate_fence kind =
    (let k = py_lower (if kind = [] then ''mfence'' else kind) in
     if k = ''lfence'' then asm_do lfence else if k = ''sfence'' then asm_do sfence else asm_do mfence)"

definition chip_id :: "expr \<Rightarrow> string \<Rightarrow> string \<Rightarrow> string \<Rightarrow> string \<Rightarrow> cg" where
  "chip_id leaf a b c d = seqE [
    eval_expr leaf ''rax'', asm_do (xor_reg_reg ''rcx'' ''rcx''), asm_do cpuid,
    seqE (map (\<lambda>r. asm_do (push_reg r)) (rev [''rax'', ''rbx'', ''rcx'', ''rdx''])),
    seqE (map (\<lambda>n. with_res n (\<lambda>r. asm_do (pop_reg r))) [a, b, c, d])]"

definition note_assert_bytes :: "string \<Rightarrow> int \<Rightarrow> string \<Rightarrow> cg" where
  "note_assert_bytes name limit opn g =
    Inr (g\<lparr>assert_bytes := assert_bytes g @ [(name, limit, opn, length (code (g_asm g)))]\<rparr>)"

definition note_assert_size :: "string \<Rightarrow> int \<Rightarrow> cg" where
  "note_assert_size what limit g = Inr (g\<lparr>assert_sizes := assert_sizes g @ [(what, limit)]\<rparr>)"

definition set_baremetal :: "cg" where
  "set_baremetal g = Inr (g\<lparr>baremetal := True\<rparr>)"

primrec emit_run :: "run_node \<Rightarrow> cg" where
  "emit_run (BlastFill dest byte_val len) = blast_fill dest byte_val len"
| "emit_run (BlastCopy dest src len) = blast_copy dest src len"
| "emit_run (WireLen dest src) = wire_len dest src"
| "emit_run (WireCmp dest lft rgt) = wire_cmp dest lft rgt"
| "emit_run (WireCopy dest src) = wire_copy dest src"
| "emit_run (WireEmit src len) = wire_emit src len"
| "emit_run (TrapNeg lab) =
    seqE [
      asm_do (test_reg_reg ''rax'' ''rax''), asm_do (jcc ''lt'' (''__lbl_'' @ lab))]"
| "emit_run (CellMap dest sz prot flgs) = cell_map dest sz prot flgs"
| "emit_run (CellFree ptr sz) = cell_free ptr sz"
| "emit_run (GateCas addr expected desired) = gate_cas addr expected desired"
| "emit_run (GateSpin addr) = gate_spin addr"
| "emit_run (PulseSleep nsec) = pulse_sleep nsec"
| "emit_run (PulseNow dest) = pulse_now dest"
| "emit_run (ErrStatus dest) =
    with_res dest (\<lambda>dst. (if dst \<noteq> ''rax'' then asm_do (mov_reg_reg dst ''rax'')
    else skip))"
| "emit_run (BlastRepFill dest byte_val len) = blast_rep_fill dest byte_val len"
| "emit_run (BlastRepCopy dest src len) = blast_rep_copy dest src len"
| "emit_run (CellProtect ptr sz prot) = cell_protect ptr sz prot"
| "emit_run (SigAction signo handler) = sig_action signo handler"
| "emit_run SigReturn =
    seqE [
      asm_do (mov_reg_imm64 ''rax'' 15), asm_do syscall]"
| "emit_run (CellMapFile dest sz fd off prot) = cell_mapfile dest sz fd off prot"

primrec emit_net :: "net_node \<Rightarrow> cg" where
  "emit_net (ThreadSpawn dest lab) = thread_spawn dest lab"
| "emit_net (ThreadJoin tid) = thread_join tid"
| "emit_net (ThreadExit ec) = thread_exit ec"
| "emit_net (NetSocket dest domain typ protocol) = net_socket dest domain typ protocol"
| "emit_net (NetConnect sock addr addrlen) = net_connect sock addr addrlen"
| "emit_net (NetSend sock buf len) = net_send sock buf len"
| "emit_net (NetRecv sock buf len) = net_recv sock buf len"
| "emit_net (NetClose sock) = net_close sock"
| "emit_net ThreadJoinAll = thread_join_all"
| "emit_net (NetPoll fds nfds timeout) = net_poll fds nfds timeout"
| "emit_net (NetEpollCreate dest flgs) = net_epoll_create dest flgs"
| "emit_net (NetEpollCtl epfd opn fd event_ptr) = net_epoll_ctl epfd opn fd event_ptr"
| "emit_net (NetEpollWait dest epfd evs maxevents timeout) =
    net_epoll_wait dest epfd evs maxevents timeout"

primrec emit_chip :: "chip_node \<Rightarrow> cg" where
  "emit_chip (FlagSetcc dest cnd) = with_res dest (\<lambda>r1. asm_do (setcc_reg cnd r1))"
| "emit_chip (ChipTicks dest) =
    seqE [
      asm_do rdtsc,
      with_res dest (\<lambda>dst. seqE [
        (if dst \<noteq> ''rax'' then asm_do (mov_reg_reg dst ''rax'')
        else skip), asm_do (mov_reg_imm64 SCRATCH 0xffffffff),
        asm_do (and_reg_reg dst SCRATCH)])]"
| "emit_chip (ChipId lf dest_a dest_b dest_c dest_d) = chip_id lf dest_a dest_b dest_c dest_d"
| "emit_chip ChipCli = asm_do cli"
| "emit_chip ChipSti = asm_do sti"
| "emit_chip ChipHalt = asm_do hlt"
| "emit_chip (GateFence kind) = gate_fence kind"
| "emit_chip (PortOut port val) =
    seqE [
      eval_expr port ''rdx'', eval_expr val ''rax'', asm_do out_dx_al]"
| "emit_chip (PortIn dest port) =
    seqE [
      eval_expr port ''rdx'', asm_do in_al_dx,
      with_res dest (\<lambda>dst. seqE [
        (if dst \<noteq> ''rax'' then asm_do (mov_reg_reg dst ''rax'')
        else skip), asm_do (mov_reg_imm64 SCRATCH 255), asm_do (and_reg_reg dst SCRATCH)])]"
| "emit_chip FlagsClear = asm_do cld"
| "emit_chip FlagsSetDF = asm_do std"
| "emit_chip ChipSerialInit = serial_init"
| "emit_chip (ChipSerialPutc val) = serial_putc val"
| "emit_chip (ChipLidt bas) = with_res bas (\<lambda>r1. asm_do (lidt_mem r1 0))"
| "emit_chip (ChipLgdt bas) = with_res bas (\<lambda>r1. asm_do (lgdt_mem r1 0))"
| "emit_chip (ChipKbdPoll dest) = kbd_poll dest"
| "emit_chip (ChipInt vec) = asm_do (int_imm vec)"
| "emit_chip (ChipPitInit divisor) = pit_init divisor"
| "emit_chip ChipPicRemap = pic_remap"

primrec emit_cpu :: "cpu_node \<Rightarrow> cg" where
  "emit_cpu (VecLoad xmm bas off) = vec_load xmm bas off"
| "emit_cpu (VecStore bas off xmm) = vec_store bas off xmm"
| "emit_cpu (VecBin opn dst src) = asm_do (invoke (CRR opn dst src))"
| "emit_cpu (CpuLea dest bas idx scale off) = cpu_lea dest bas idx scale off"
| "emit_cpu (CpuTest lft rgt) = cpu_test lft rgt"
| "emit_cpu (CpuCmov dest src cnd) =
    seqE [
      eval_expr src SCRATCH, with_res dest (\<lambda>r1. asm_do (cmov_reg_reg cnd r1 SCRATCH))]"
| "emit_cpu (VecVBin opn dst src imm) =
    (if opn = ''vshufps'' then asm_do (vshufps dst src imm)
    else (if opn = ''vbroadcastss'' then asm_do (vbroadcastss dst src)
      else asm_do (invoke (CV opn dst src None))))"
| "emit_cpu (VecVLoad ymm bas off) =
    base_phys bas (\<lambda>base. asm_do (vmovups_load ymm base off))"
| "emit_cpu (VecVStore bas off ymm) =
    base_phys bas (\<lambda>base. asm_do (vmovups_store base ymm off))"
| "emit_cpu (CpuXchg ra rb) =
    with_res ra (\<lambda>r1. with_res rb (\<lambda>r2. asm_do (xchg_reg_reg r1 r2)))"
| "emit_cpu (CpuXadd dest src) =
    with_res dest (\<lambda>r1. with_res src (\<lambda>r2. asm_do (xadd_reg_reg r1 r2)))"
| "emit_cpu (CpuBitScan opn dest src) =
    seqE [
      eval_expr src SCRATCH,
      (if opn = ''bsf'' then with_res dest (\<lambda>r1. asm_do (bsf_reg_reg r1 SCRATCH))
      else with_res dest (\<lambda>r1. asm_do (bsr_reg_reg r1 SCRATCH)))]"
| "emit_cpu (CpuBt bas off) =
    seqE [
      eval_expr off SCRATCH, with_res bas (\<lambda>r1. asm_do (bt_reg_reg r1 SCRATCH))]"
| "emit_cpu (CpuMovExt opn dest src sz) = cpu_movext opn dest src sz"
| "emit_cpu (CpuLeaRip dest lab) =
    with_res dest (\<lambda>r1. asm_do (lea_reg_label r1 (''__data_'' @ lab)))"
| "emit_cpu (CpuLeaAbs dest addr) = with_res dest (\<lambda>r1. asm_do (mov_reg_imm64 r1 addr))"
| "emit_cpu (CpuCmpxchg16b bas off) =
    base_reg bas (\<lambda>base. asm_do (cmpxchg16b_mem base off))"
| "emit_cpu (CpuCmovMem dest bas off cnd) =
    base_reg bas (\<lambda>base. with_res dest (\<lambda>r1. asm_do (cmov_reg_mem cnd r1 base off)))"
| "emit_cpu (PrefixedOp prefix) =
    (if prefix = ''lock'' then asm_do lock_prefix
    else (if prefix = ''rep'' then asm_do rep_prefix
      else skip))"
| "emit_cpu (CpuFlagOp opn) = asm_do (invoke (C0 opn))"
| "emit_cpu (CpuMulDiv1 opn src) =
    (if opn = ''mul'' then with_res src (\<lambda>r1. asm_do (mul_reg r1))
    else with_res src (\<lambda>r1. asm_do (div_reg r1)))"
| "emit_cpu (CpuTestImm dest imm) = with_res dest (\<lambda>r1. asm_do (test_reg_imm32 r1 imm))"
| "emit_cpu (CpuBitOp opn bas off) =
    with_res bas (\<lambda>r1. with_res off (\<lambda>r2. asm_do (invoke (CRR (opn @ ''_reg_reg'') r1 r2))))"
| "emit_cpu (CpuMovsxd dest src) =
    with_res dest (\<lambda>r1. with_res src (\<lambda>r2. asm_do (movsxd_reg_reg r1 r2)))"
| "emit_cpu (CpuPrefetch kind bas) =
    (if kind = ''w'' then with_res bas (\<lambda>r1. asm_do (prefetchw r1 0))
    else with_res bas (\<lambda>r1. asm_do (prefetchnta r1 0)))"
| "emit_cpu (CpuClflush bas) = with_res bas (\<lambda>r1. asm_do (clflush r1 0))"
| "emit_cpu (CpuMovzx dest src width) =
    (if width = 16 then with_res dest (\<lambda>r1. with_res src (\<lambda>r2. asm_do (movzx_r64_r16 r1 r2)))
    else with_res dest (\<lambda>r1. with_res src (\<lambda>r2. asm_do (movzx_r64_r8 r1 r2))))"
| "emit_cpu (CpuMovsx dest src width) =
    (if width = 16 then with_res dest (\<lambda>r1. with_res src (\<lambda>r2. asm_do (movsx_r64_r16 r1 r2)))
    else with_res dest (\<lambda>r1. with_res src (\<lambda>r2. asm_do (movsx_r64_r8 r1 r2))))"
| "emit_cpu (CpuBitImm opn bas imm) =
    with_res bas (\<lambda>r1. asm_do (invoke (CRI (opn @ ''_reg_imm8'') r1 imm)))"
| "emit_cpu CpuNopLong = asm_do nop_long"
| "emit_cpu (CpuEnter sz nesting) = asm_do (enter_imm sz nesting)"
| "emit_cpu (CpuMxcsr opn bas) =
    (if opn = ''ld'' then with_res bas (\<lambda>r1. asm_do (ldmxcsr_mem r1 0))
    else with_res bas (\<lambda>r1. asm_do (stmxcsr_mem r1 0)))"
| "emit_cpu (CpuFx opn bas) =
    (if opn = ''save'' then with_res bas (\<lambda>r1. asm_do (fxsave_mem r1 0))
    else with_res bas (\<lambda>r1. asm_do (fxrstor_mem r1 0)))"
| "emit_cpu CpuXgetbv = asm_do xgetbv"
| "emit_cpu (CpuFsGs opn reg) =
    with_res reg (\<lambda>r1. asm_do (invoke (CR (opn @ ''_reg'') r1)))"
| "emit_cpu (CpuPrivOp opn reg) =
    (if opn \<in> set [''sldt'', ''str'', ''smsw''] then with_res reg (\<lambda>r1. asm_do (invoke (CR (opn @ ''_reg'') r1)))
    else asm_do (invoke (C0 opn)))"

primrec emit_alu :: "alu_node \<Rightarrow> cg" where
  "emit_alu (CpuShld dest src) =
    with_res dest (\<lambda>r1. with_res src (\<lambda>r2. asm_do (shld_reg_reg r1 r2 True)))"
| "emit_alu (CpuShrd dest src) =
    with_res dest (\<lambda>r1. with_res src (\<lambda>r2. asm_do (shrd_reg_reg r1 r2)))"
| "emit_alu (CpuImulImm dest imm) = with_res dest (\<lambda>r1. asm_do (imul_reg_imm r1 imm))"
| "emit_alu (CpuAndn dest src1 src2) =
    with_res dest (\<lambda>r1. with_res src1 (\<lambda>r2. with_res src2 (\<lambda>r3. asm_do (andn_reg_reg r1 r2 r3))))"
| "emit_alu (CpuBzhi dest src ctrl) =
    with_res dest (\<lambda>r1. with_res src (\<lambda>r2. with_res ctrl (\<lambda>r3. asm_do (bzhi_reg_reg r1 r2 r3))))"
| "emit_alu (CpuAdc dest src) =
    with_res dest (\<lambda>r1. with_res src (\<lambda>r2. asm_do (adc_reg_reg r1 r2)))"
| "emit_alu (CpuSbb dest src) =
    with_res dest (\<lambda>r1. with_res src (\<lambda>r2. asm_do (sbb_reg_reg r1 r2)))"
| "emit_alu (CpuBswap dest) = with_res dest (\<lambda>r1. asm_do (bswap_reg r1))"
| "emit_alu (CpuPopcnt dest src) =
    with_res dest (\<lambda>r1. with_res src (\<lambda>r2. asm_do (popcnt_reg_reg r1 r2)))"
| "emit_alu (CpuLzcnt dest src) =
    with_res dest (\<lambda>r1. with_res src (\<lambda>r2. asm_do (lzcnt_reg_reg r1 r2)))"
| "emit_alu (CpuTzcnt dest src) =
    with_res dest (\<lambda>r1. with_res src (\<lambda>r2. asm_do (tzcnt_reg_reg r1 r2)))"
| "emit_alu (CpuShlx dest src cnt) =
    with_res dest (\<lambda>r1. with_res src (\<lambda>r2. with_res cnt (\<lambda>r3. asm_do (shlx_reg_reg r1 r2 r3))))"
| "emit_alu (CpuShrx dest src cnt) =
    with_res dest (\<lambda>r1. with_res src (\<lambda>r2. with_res cnt (\<lambda>r3. asm_do (shrx_reg_reg r1 r2 r3))))"
| "emit_alu (CpuSarx dest src cnt) =
    with_res dest (\<lambda>r1. with_res src (\<lambda>r2. with_res cnt (\<lambda>r3. asm_do (sarx_reg_reg r1 r2 r3))))"
| "emit_alu (CpuRorx dest src imm) =
    with_res dest (\<lambda>r1. with_res src (\<lambda>r2. asm_do (rorx_reg_imm r1 r2 imm)))"
| "emit_alu (CpuBextr dest src ctrl) =
    with_res dest (\<lambda>r1. with_res src (\<lambda>r2. with_res ctrl (\<lambda>r3. asm_do (bextr_reg_reg r1 r2 r3))))"
| "emit_alu (CpuBlsi dest src) =
    with_res dest (\<lambda>r1. with_res src (\<lambda>r2. asm_do (blsi_reg_reg r1 r2)))"
| "emit_alu (CpuBlsr dest src) =
    with_res dest (\<lambda>r1. with_res src (\<lambda>r2. asm_do (blsr_reg_reg r1 r2)))"
| "emit_alu (CpuBlsmsk dest src) =
    with_res dest (\<lambda>r1. with_res src (\<lambda>r2. asm_do (blsmsk_reg_reg r1 r2)))"
| "emit_alu (CpuAdcx dest src) =
    with_res dest (\<lambda>r1. with_res src (\<lambda>r2. asm_do (adcx_reg_reg r1 r2)))"
| "emit_alu (CpuAdox dest src) =
    with_res dest (\<lambda>r1. with_res src (\<lambda>r2. asm_do (adox_reg_reg r1 r2)))"
| "emit_alu (CpuCrc32 dest src) =
    with_res dest (\<lambda>r1. with_res src (\<lambda>r2. asm_do (crc32_reg_reg r1 r2)))"
| "emit_alu (CpuRdrand dest) = with_res dest (\<lambda>r1. asm_do (rdrand_reg r1))"
| "emit_alu (CpuRdseed dest) = with_res dest (\<lambda>r1. asm_do (rdseed_reg r1))"
| "emit_alu (CpuPext dest src msk) =
    with_res dest (\<lambda>r1. with_res src (\<lambda>r2. with_res msk (\<lambda>r3. asm_do (pext_reg_reg r1 r2 r3))))"
| "emit_alu (CpuPdep dest src msk) =
    with_res dest (\<lambda>r1. with_res src (\<lambda>r2. with_res msk (\<lambda>r3. asm_do (pdep_reg_reg r1 r2 r3))))"
| "emit_alu (CpuMulx dest_hi dest_lo src) =
    with_res dest_hi (\<lambda>r1. with_res dest_lo (\<lambda>r2. with_res src (\<lambda>r3. asm_do (mulx_reg_reg r1 r2 r3))))"
| "emit_alu (CpuCmpxchg dest src) =
    with_res dest (\<lambda>r1. with_res src (\<lambda>r2. asm_do (cmpxchg_reg_reg r1 r2)))"
| "emit_alu (CpuShldImm dest src imm) =
    with_res dest (\<lambda>r1. with_res src (\<lambda>r2. asm_do (shld_reg_imm8 r1 r2 imm)))"
| "emit_alu (CpuShrdImm dest src imm) =
    with_res dest (\<lambda>r1. with_res src (\<lambda>r2. asm_do (shrd_reg_imm8 r1 r2 imm)))"
| "emit_alu (CpuImul3 dest src imm) =
    with_res dest (\<lambda>r1. with_res src (\<lambda>r2. asm_do (imul_reg_reg_imm r1 r2 imm)))"

primrec emit_kernel :: "kernel_node \<Rightarrow> cg" where
  "emit_kernel (KernelHeapInit sz) = kernel_heap_init sz"
| "emit_kernel (KernelHeapAlloc dest sz) = kernel_heap_alloc dest sz"
| "emit_kernel (KernelCtxSave dest) = kernel_ctx_save dest"
| "emit_kernel (KernelCtxLoad src) = kernel_ctx_load src"
| "emit_kernel KernelIdtInstall = kernel_idt_install"
| "emit_kernel (KernelCoopSwitch svr ldr) = kernel_coop_switch svr ldr"
| "emit_kernel (KernelPrintkStr src) = kernel_printk_str src"
| "emit_kernel KernelPanic = kernel_panic"
| "emit_kernel KernelTickInstall = kernel_tick_install"
| "emit_kernel (KernelTickRead dest) = kernel_tick_read dest"
| "emit_kernel KernelRamfsInit = kernel_ramfs_init"
| "emit_kernel (KernelRamfsPut nm dat len) = kernel_ramfs_put nm dat len"
| "emit_kernel (KernelRamfsGet dest nm) = kernel_ramfs_get dest nm"
| "emit_kernel KernelNetInit = kernel_net_init"
| "emit_kernel (KernelNetPoll dest) = kernel_net_poll dest"
| "emit_kernel (KernelCsRing dest) = kernel_cs_ring dest"
| "emit_kernel (KernelEnterUser ent stack) = kernel_enter_user ent stack"
| "emit_kernel KernelPfInstall = kernel_pf_install"
| "emit_kernel (KernelNetAllowPort port) = kernel_net_allow port"
| "emit_kernel (KernelNetCheckPort dest port) = kernel_net_check dest port"
| "emit_kernel (KernelPreemptArm ctx) = kernel_preempt_arm ctx"
| "emit_kernel KernelSyscallInit = kernel_syscall_init"
| "emit_kernel KernelSysret = asm_do sysret"
| "emit_kernel (KernelNicBar addr) = kernel_nic_bar addr"
| "emit_kernel (KernelNicRegRead dest off) = kernel_nic_read dest off"
| "emit_kernel (KernelNicRegWrite off val) = kernel_nic_write off val"
| "emit_kernel KernelIrqFullSave = kernel_irq_full_save_on"
| "emit_kernel KernelSyscallTableInit = kernel_syscall_table_init"
| "emit_kernel (KernelSyscallRegister nr handler) = kernel_syscall_register nr handler"
| "emit_kernel KernelNmiInstall = kernel_nmi_install"
| "emit_kernel (KernelDmaRingInit slts) = kernel_dma_ring_init slts"
| "emit_kernel (KernelDmaRingPush addr len) = kernel_dma_ring_push addr len"
| "emit_kernel (KernelDmaRingPop dest_addr dest_len) = kernel_dma_ring_pop dest_addr dest_len"

text \<open>Every statement but a function definition.\<close>

fun emit_node :: "node \<Rightarrow> cg" where
  "emit_node (Label nm) = place (''__lbl_'' @ nm)"
| "emit_node (Goto lab) = asm_do (jmp (''__lbl_'' @ lab))"
| "emit_node (JumpIf cnd lab) = asm_do (jcc cnd (''__lbl_'' @ lab))"
| "emit_node (Cmp lft rgt) =
    seqE [
      asm_do (push_reg ''r11''), eval_expr lft SCRATCH, asm_do (mov_reg_reg ''r11'' SCRATCH),
      asm_do (push_reg ''r11''), eval_expr rgt SCRATCH, asm_do (pop_reg ''r11''),
      asm_do (cmp_reg_reg ''r11'' SCRATCH), asm_do (pop_reg ''r11'')]"
| "emit_node (CpuBin opn dest val) = cpu_bin opn dest val"
| "emit_node (CpuUnary opn dest) = cpu_unary opn dest"
| "emit_node (DataAlloc nm sz) = skip"
| "emit_node (DataConst nm val) = skip"
| "emit_node (MemLoad dest bas off sz idx scale) = mem_load dest bas off sz idx scale"
| "emit_node (MemStore bas off val sz idx scale) = mem_store bas off val sz idx scale"
| "emit_node (SysCall nu ars) = syscall_stmt nu ars"
| "emit_node (Call lab ars) = call_stmt lab ars"
| "emit_node Ret = ret_stmt"
| "emit_node (StackPush val) =
    seqE [
      eval_expr val ''r11'', asm_do (push_reg ''r11'')]"
| "emit_node (StackPop dest) = with_res dest (\<lambda>r1. asm_do (pop_reg r1))"
| "emit_node (SysRaw nu ars) = cg_fail (Codegen ''unsupported node SysRaw'')"
| "emit_node (RawBytes hex_parts) = asm_do (raw_bytes hex_parts)"
| "emit_node (Include path) = skip"
| "emit_node TargetBaremetal = set_baremetal"
| "emit_node (StructDef nm flds) = skip"
| "emit_node (LocalDecl nm sz) = skip"
| "emit_node (RetVal val) =
    seqE [(case val of Some val \<Rightarrow> eval_expr val ''rax'' | None \<Rightarrow> skip), ret_stmt]"
| "emit_node (DataBytes nm vals) = skip"
| "emit_node MetalRegs = skip"
| "emit_node (AssertBytes nm limit opn) = note_assert_bytes nm limit opn"
| "emit_node (AssertSize what limit) = note_assert_size what limit"
| "emit_node MetalDeterministic = set_deterministic"
| "emit_node (DataAlign align) = skip"
| "emit_node (SectionAt nm addr) = note_section nm addr"
| "emit_node (RunStmt x) = emit_run x"
| "emit_node (NetStmt x) = emit_net x"
| "emit_node (ChipStmt x) = emit_chip x"
| "emit_node (CpuStmt x) = emit_cpu x"
| "emit_node (AluStmt x) = emit_alu x"
| "emit_node (KernelStmt x) = emit_kernel x"
| "emit_node (FnDef nm ars bdy lcls) = skip"

fun emit :: "stmt \<Rightarrow> cg" where
  "emit (ln, FnDef nm ars bdy lcls) =
    seqE [note_line ln, note_teach ln ''FnDef'', emit_fn nm ars (seqE (map emit bdy)) lcls]"
| "emit (ln, s) = seqE [note_line ln, note_teach ln (node_class s), emit_node s]"

end
