(* ===== verification/Elf_Writer.thy ===== *)
theory Elf_Writer
  imports Codec
begin

section \<open>ELF files (ACLM/elfwriter.py)\<close>

text \<open>
  The writers of static executables, and beside them a small loader written from the ELF
  specification: it reads the file header and the program headers back and maps each
  \<open>PT_LOAD\<close> segment. The lemmas say that loading what a writer wrote puts every code and data
  byte, and the entry point, where the code generator assumed them.
\<close>

subsection \<open>Constants\<close>

definition PAGE :: nat where "PAGE = 0x1000"

definition LOAD_VADDR :: nat where "LOAD_VADDR = 0x400000"

definition EHDR_SIZE :: nat where "EHDR_SIZE = 64"

definition PHDR_SIZE :: nat where "PHDR_SIZE = 56"

lemmas elf_consts = PAGE_def LOAD_VADDR_def EHDR_SIZE_def PHDR_SIZE_def

text \<open>\<open>e_ident\<close>: the magic number, the class (1 or 2), little-endian, version 1, SysV.\<close>

definition e_ident :: "byte \<Rightarrow> bytes" where
  "e_ident cls = [0x7F, 0x45, 0x4C, 0x46, cls, 1, 1, 0] @ replicate 8 0"

definition EHDR64 :: "fmtc list" where
  "EHDR64 = [H, H, I, Q, Q, Q, I, H, H, H, H, H, H]"

definition PHDR64 :: "fmtc list" where
  "PHDR64 = [I, I, Q, Q, Q, Q, Q, Q]"

definition EHDR32 :: "fmtc list" where
  "EHDR32 = [H, H, I, I, I, I, I, H, H, H, H, H, H]"

definition PHDR32 :: "fmtc list" where
  "PHDR32 = [I, I, I, I, I, I, I, I]"

text \<open>\<open>struct.pack(fmt, ...)\<close> with the values in order.\<close>

definition pack_fmt :: "fmtc list \<Rightarrow> int list \<Rightarrow> bytes res" where
  "pack_fmt fs vs = pack (zip fs vs)"

subsection \<open>One read-write-execute segment\<close>

definition build_elf64_exe :: "bytes \<Rightarrow> bytes \<Rightarrow> nat \<Rightarrow> bytes res" where
  "build_elf64_exe code data entry_offset_in_code =
    (let header_total = EHDR_SIZE + PHDR_SIZE;
         code_vaddr = LOAD_VADDR + header_total;
         entry = code_vaddr + entry_offset_in_code;
         filesz = header_total + length code + length data;
         memsz = filesz in
     bindE (pack_fmt EHDR64 [2, 0x3E, 1, int entry, int EHDR_SIZE, 0, 0, int EHDR_SIZE,
                             int PHDR_SIZE, 1, 0, 0, 0]) (\<lambda>ehdr.
     bindE (pack_fmt PHDR64 [1, 7, 0, int LOAD_VADDR, int LOAD_VADDR, int filesz, int memsz,
                             int PAGE]) (\<lambda>phdr.
     Inr (e_ident 2 @ ehdr @ phdr @ code @ data))))"

definition build_elf32_multiboot :: "bytes \<Rightarrow> bytes \<Rightarrow> nat \<Rightarrow> nat \<Rightarrow> bytes res" where
  "build_elf32_multiboot code data entry_offset_in_code load_addr =
    (let ehdr32 = (52 :: nat); phdr32 = (32 :: nat);
         header_total = ehdr32 + phdr32;
         code_vaddr = load_addr + header_total;
         entry = code_vaddr + entry_offset_in_code;
         filesz = header_total + length code + length data;
         memsz = filesz in
     bindE (pack_fmt EHDR32 [2, 0x03, 1, int entry, int ehdr32, 0, 0, int ehdr32,
                             int phdr32, 1, 0, 0, 0]) (\<lambda>ehdr.
     bindE (pack_fmt PHDR32 [1, 0, int load_addr, int load_addr, int filesz, int memsz, 7,
                             int PAGE]) (\<lambda>phdr.
     Inr (e_ident 1 @ ehdr @ phdr @ code @ data))))"

subsection \<open>The Multiboot header\<close>

definition MULTIBOOT_MAGIC :: int where "MULTIBOOT_MAGIC = 0x1BADB002"

definition MULTIBOOT_FLAGS :: int where "MULTIBOOT_FLAGS = 0x00000003"

definition MULTIBOOT_CHECKSUM :: int where
  "MULTIBOOT_CHECKSUM = (0 - (MULTIBOOT_MAGIC + MULTIBOOT_FLAGS)) AND 0xFFFFFFFF"

definition build_multiboot_header :: "bytes res" where
  "build_multiboot_header = pack_fmt [I, I, I] [MULTIBOOT_MAGIC, MULTIBOOT_FLAGS, MULTIBOOT_CHECKSUM]"

subsection \<open>Separate code and data segments\<close>

definition wx_code_data_file_offsets :: "nat \<Rightarrow> nat \<times> nat" where
  "wx_code_data_file_offsets code_len =
    (let ehdr = (64 :: nat); phdr = 56;
         header = ehdr + 2 * phdr;
         code_off = align_up PAGE header;
         data_off = align_up PAGE (code_off + code_len) in (code_off, data_off))"

definition build_elf64_exe_wx :: "bytes \<Rightarrow> bytes \<Rightarrow> nat \<Rightarrow> bytes res" where
  "build_elf64_exe_wx code data entry_offset_in_code =
    (let ehdr_size = (64 :: nat); phdr_size = (56 :: nat);
         header = ehdr_size + 2 * phdr_size;
         code_off = align_up PAGE header;
         code_vaddr = LOAD_VADDR + code_off;
         data_off = align_up PAGE (code_off + length code);
         data_vaddr = LOAD_VADDR + data_off;
         entry = code_vaddr + entry_offset_in_code in
     bindE (pack_fmt EHDR64 [2, 0x3E, 1, int entry, int ehdr_size, 0, 0, int ehdr_size,
                             int phdr_size, 2, 0, 0, 0]) (\<lambda>ehdr.
     bindE (pack_fmt PHDR64 [1, 5, int code_off, int code_vaddr, int code_vaddr,
                             int (length code), int (length code), int PAGE]) (\<lambda>phdr0.
     bindE (pack_fmt PHDR64 [1, 6, int data_off, int data_vaddr, int data_vaddr,
                             int (length data), int (length data), int PAGE]) (\<lambda>phdr1.
     Inr (pad_to data_off 0 (pad_to code_off 0 (e_ident 2 @ ehdr @ phdr0 @ phdr1) @ code) @ data)))))"

subsection \<open>A loader\<close>

text \<open>What the operating system does with a 64-bit file: the program headers are read at
  \<open>e_phoff\<close>, and an address inside a \<open>PT_LOAD\<close> segment holds the file's byte, or zero behind
  the file part.\<close>

record segment =
  s_type :: int
  s_flags :: int
  s_offset :: int
  s_vaddr :: int
  s_filesz :: int
  s_memsz :: int

definition ehdr64 :: "bytes \<Rightarrow> int list" where
  "ehdr64 blob = unpack EHDR64 (drop 16 blob)"

definition segment_of :: "int list \<Rightarrow> segment" where
  "segment_of p = \<lparr>s_type = p ! 0, s_flags = p ! 1, s_offset = p ! 2, s_vaddr = p ! 3,
     s_filesz = p ! 5, s_memsz = p ! 6\<rparr>"

definition segments64 :: "bytes \<Rightarrow> segment list" where
  "segments64 blob =
    (let h = ehdr64 blob in
     map (\<lambda>k. segment_of (unpack PHDR64 (drop (nat (h ! 4) + k * nat (h ! 8)) blob)))
       [0..<nat (h ! 9)])"

definition entry64 :: "bytes \<Rightarrow> int" where
  "entry64 blob = ehdr64 blob ! 3"

definition in_segment :: "int \<Rightarrow> segment \<Rightarrow> bool" where
  "in_segment addr s \<longleftrightarrow> s_type s = 1 \<and> s_vaddr s \<le> addr \<and> addr < s_vaddr s + s_memsz s"

definition load64_byte :: "bytes \<Rightarrow> int \<Rightarrow> (byte \<times> int) option" where
  "load64_byte blob addr =
    (case find (in_segment addr) (segments64 blob) of None \<Rightarrow> None
     | Some s \<Rightarrow> Some (if addr < s_vaddr s + s_filesz s
         then blob ! nat (s_offset s + (addr - s_vaddr s)) else 0, s_flags s))"

text \<open>The bytes \<open>bs\<close> stand at \<open>addr\<close> in memory, with the given access rights; the address a
  \<open>rel32\<close> operand at \<open>addr\<close> leads to.\<close>

definition loaded :: "bytes \<Rightarrow> int \<Rightarrow> bytes \<Rightarrow> int \<Rightarrow> bool" where
  "loaded blob addr bs flags \<longleftrightarrow>
     (\<forall>k < length bs. load64_byte blob (addr + int k) = Some (bs ! k, flags))"

definition operand_target :: "bytes \<Rightarrow> int \<Rightarrow> int" where
  "operand_target blob addr = addr + 4 + signed_of 4 (from_bytes_le
     (map (\<lambda>i. case load64_byte blob (addr + int i) of None \<Rightarrow> 0 | Some (b, _) \<Rightarrow> b) [0..<4]))"

lemma loaded_nth:
  assumes "loaded blob addr bs fl" and "i + k < length bs"
  shows "load64_byte blob (addr + int i + int k) = Some (bs ! (i + k), fl)"
proof -
  have "load64_byte blob (addr + int (i + k)) = Some (bs ! (i + k), fl)"
    using assms unfolding loaded_def by blast
  then show ?thesis by (simp add: add.assoc)
qed

lemma loaded_slice:
  assumes "loaded blob addr bs fl" and "i + n \<le> length bs"
  shows "map (\<lambda>k. case load64_byte blob (addr + int i + int k) of None \<Rightarrow> 0 | Some (b, _) \<Rightarrow> b) [0..<n] =
    slice i n bs"
proof (rule nth_equalityI)
  show "length (map (\<lambda>k. case load64_byte blob (addr + int i + int k) of None \<Rightarrow> 0 | Some (b, _) \<Rightarrow> b)
      [0..<n]) = length (slice i n bs)"
    using assms(2) by (simp add: slice_def)
next
  fix k assume "k < length (map (\<lambda>k. case load64_byte blob (addr + int i + int k) of None \<Rightarrow> 0
      | Some (b, _) \<Rightarrow> b) [0..<n])"
  then have k: "k < n" by simp
  show "map (\<lambda>k. case load64_byte blob (addr + int i + int k) of None \<Rightarrow> 0 | Some (b, _) \<Rightarrow> b)
      [0..<n] ! k = slice i n bs ! k"
    using k assms(2) loaded_nth [OF assms(1), of i k] by (simp add: slice_def)
qed

lemma loaded_sub:
  assumes "loaded blob addr bs fl" and "i + n \<le> length bs"
  shows "loaded blob (addr + int i) (slice i n bs) fl"
  using assms(2) loaded_nth [OF assms(1), of i] by (simp add: loaded_def [of _ "addr + _"] slice_def)

definition is_exe64 :: "bytes \<Rightarrow> bool" where
  "is_exe64 blob \<longleftrightarrow> take 16 blob = e_ident 2 \<and> ehdr64 blob ! 0 = 2 \<and> ehdr64 blob ! 1 = 0x3E"

subsection \<open>What the writers wrote\<close>

lemma length_e_ident [simp]: "length (e_ident c) = 16"
  by (simp add: e_ident_def)

lemma pack_fmt_length:
  assumes "pack_fmt fs vs = Inr bs" and "length fs = length vs"
  shows "length bs = sum_list (map fmt_width fs)"
proof -
  have "map (fmt_width \<circ> fst) (zip fs vs) = map fmt_width fs"
    using assms(2) by (metis map_fst_zip map_map)
  then show ?thesis using le.pack_length assms(1) by (simp add: pack_fmt_def)
qed

lemma unpack_pack_fmt:
  assumes "pack_fmt fs vs = Inr bs" and "length fs = length vs"
  shows "unpack fs (bs @ rest) = vs"
  using le.unpack_pack [of "zip fs vs" bs rest] assms by (simp add: pack_fmt_def)

lemma pack_fmt_ok_iff:
  "length fs = length vs \<Longrightarrow>
   (\<exists>bs. pack_fmt fs vs = Inr bs) \<longleftrightarrow> list_all2 (\<lambda>f v. 0 \<le> v \<and> v < 256 ^ fmt_width f) fs vs"
  unfolding pack_fmt_def le.pack_ok_iff
  by (auto simp: list_all2_iff pack_le_Inr_iff)

lemma ehdr64_pack:
  assumes "pack_fmt EHDR64 vs = Inr h" and "length vs = 13"
  shows "length h = 48" and "ehdr64 (e_ident 2 @ h @ rest) = vs"
  using pack_fmt_length [OF assms(1)] unpack_pack_fmt [OF assms(1)] assms(2)
  by (simp_all add: EHDR64_def ehdr64_def)

lemma phdr64_pack:
  assumes "pack_fmt PHDR64 vs = Inr p" and "length vs = 8"
  shows "length p = 56" and "unpack PHDR64 (p @ rest) = vs"
  using pack_fmt_length [OF assms(1)] unpack_pack_fmt [OF assms(1)] assms(2)
  by (simp_all add: PHDR64_def)

lemma exe_parts:
  assumes "build_elf64_exe code data off = Inr blob"
  shows "is_exe64 blob" and "entry64 blob = int (LOAD_VADDR + 120 + off)"
    and "segments64 blob = [\<lparr>s_type = 1, s_flags = 7, s_offset = 0, s_vaddr = int LOAD_VADDR,
      s_filesz = 120 + int (length code) + int (length data),
      s_memsz = 120 + int (length code) + int (length data)\<rparr>]"
    and "\<exists>pre. blob = pre @ code @ data \<and> length pre = 120"
proof -
  let ?hv = "[2, 0x3E, 1, int (LOAD_VADDR + 120 + off), 64, 0, 0, 64, 56, 1, 0, 0, 0]"
  let ?pv = "[1, 7, 0, int LOAD_VADDR, int LOAD_VADDR, 120 + int (length code) + int (length data),
    120 + int (length code) + int (length data), int PAGE]"
  obtain h p where h: "pack_fmt EHDR64 ?hv = Inr h" and p: "pack_fmt PHDR64 ?pv = Inr p"
    and blob: "blob = e_ident 2 @ h @ p @ code @ data"
    using assms by (auto simp: build_elf64_exe_def Let_def bindE_Inr_iff EHDR_SIZE_def PHDR_SIZE_def
        algebra_simps)
  note eh = ehdr64_pack [OF h, simplified] and ph = phdr64_pack [OF p, simplified]
  have hdr: "ehdr64 blob = ?hv" unfolding blob by (rule ehdr64_pack(2) [OF h]) simp
  show "is_exe64 blob" using hdr by (simp add: is_exe64_def) (simp add: blob)
  show "entry64 blob = int (LOAD_VADDR + 120 + off)" by (simp add: entry64_def hdr)
  have "drop 64 blob = p @ code @ data" using eh(1) by (simp add: blob)
  then show "segments64 blob = [\<lparr>s_type = 1, s_flags = 7, s_offset = 0, s_vaddr = int LOAD_VADDR,
      s_filesz = 120 + int (length code) + int (length data),
      s_memsz = 120 + int (length code) + int (length data)\<rparr>]"
    using ph(2) [of "code @ data"] by (simp add: segments64_def hdr segment_of_def)
  show "\<exists>pre. blob = pre @ code @ data \<and> length pre = 120"
    using eh(1) ph(1) blob by (intro exI [of _ "e_ident 2 @ h @ p"]) simp
qed

text \<open>A file with one read-write-execute segment from offset 0, whatever follows it.\<close>

lemma one_segment_loads:
  assumes "segments64 blob = [\<lparr>s_type = 1, s_flags = 7, s_offset = 0, s_vaddr = int LOAD_VADDR,
      s_filesz = 120 + int (length code) + int (length data),
      s_memsz = 120 + int (length code) + int (length data)\<rparr>]"
    and "blob = pre @ code @ data @ post" "length pre = 120"
  shows "loaded blob (int (LOAD_VADDR + 120)) code 7"
    and "loaded blob (int (LOAD_VADDR + 120 + length code)) data 7"
proof -
  have at: "load64_byte blob (int (LOAD_VADDR + 120) + int j) = Some (blob ! (120 + j), 7)"
    if "j < length code + length data" for j
    using that unfolding load64_byte_def assms(1) by (simp add: in_segment_def nat_add_distrib)
  show "loaded blob (int (LOAD_VADDR + 120)) code 7"
    unfolding loaded_def using at by (simp add: assms(2,3) nth_append)
  have "load64_byte blob (int (LOAD_VADDR + 120 + length code) + int k) = Some (data ! k, 7)"
    if "k < length data" for k
    using at [of "length code + k"] that by (simp add: assms(2,3) nth_append add.assoc)
  then show "loaded blob (int (LOAD_VADDR + 120 + length code)) data 7"
    by (simp add: loaded_def)
qed

lemma exe_loads:
  assumes "build_elf64_exe code data off = Inr blob"
  shows "loaded blob (int (LOAD_VADDR + 120)) code 7"
    and "loaded blob (int (LOAD_VADDR + 120 + length code)) data 7"
  using one_segment_loads [OF exe_parts(3) [OF assms], of _ "[]"] exe_parts(4) [OF assms] by auto

lemma int_less_exp: "int n < 2 ^ k \<longleftrightarrow> n < 2 ^ k"
  by (metis of_nat_less_iff of_nat_numeral of_nat_power)

lemma exe_writes_iff:
  "(\<exists>blob. build_elf64_exe code data off = Inr blob) \<longleftrightarrow>
   LOAD_VADDR + 120 + off < 2 ^ 64 \<and> 120 + length code + length data < 2 ^ 64"
proof -
  let ?hv = "[2, 0x3E, 1, int (LOAD_VADDR + 120 + off), 64, 0, 0, 64, 56, 1, 0, 0, 0]"
  let ?pv = "[1, 7, 0, int LOAD_VADDR, int LOAD_VADDR, int (120 + length code + length data),
    int (120 + length code + length data), int PAGE]"
  have "(\<exists>blob. build_elf64_exe code data off = Inr blob) \<longleftrightarrow>
      (\<exists>h. pack_fmt EHDR64 ?hv = Inr h) \<and> (\<exists>p. pack_fmt PHDR64 ?pv = Inr p)"
    by (auto simp: build_elf64_exe_def Let_def bindE_Inr_iff EHDR_SIZE_def PHDR_SIZE_def algebra_simps)
  also have "\<dots> \<longleftrightarrow> int (LOAD_VADDR + 120 + off) < 2 ^ 64 \<and>
      int (120 + length code + length data) < 2 ^ 64"
    by (simp add: pack_fmt_ok_iff EHDR64_def PHDR64_def elf_consts)
  finally show ?thesis unfolding int_less_exp .
qed

subsection \<open>The W^X file\<close>

lemma wx_code_off: "align_up PAGE 176 = PAGE"
  by (simp add: align_up_def PAGE_def)

lemma wx_offsets:
  assumes "wx_code_data_file_offsets n = (code_off, data_off)"
  shows "code_off = PAGE" and "code_off + n \<le> data_off" and "PAGE dvd data_off"
    and "data_off < code_off + n + PAGE"
proof -
  have "0 < PAGE" by (simp add: PAGE_def)
  note a = align_up [OF this, of "PAGE + n"]
  have "code_off = PAGE" "data_off = align_up PAGE (PAGE + n)"
    using assms by (auto simp: wx_code_data_file_offsets_def Let_def wx_code_off)
  with a show "code_off = PAGE" "code_off + n \<le> data_off" "PAGE dvd data_off"
    "data_off < code_off + n + PAGE" by simp_all
qed

lemma pad_to_prefix: "length bs \<le> n \<Longrightarrow> \<exists>z. pad_to n v bs = bs @ z \<and> length (bs @ z) = n"
  by (simp add: pad_to_def)

lemma wx_parts:
  assumes "build_elf64_exe_wx code data off = Inr blob"
    and "wx_code_data_file_offsets (length code) = (code_off, data_off)"
  shows "is_exe64 blob" and "entry64 blob = int (LOAD_VADDR + code_off + off)"
    and "segments64 blob =
      [\<lparr>s_type = 1, s_flags = 5, s_offset = int code_off, s_vaddr = int (LOAD_VADDR + code_off),
        s_filesz = int (length code), s_memsz = int (length code)\<rparr>,
       \<lparr>s_type = 1, s_flags = 6, s_offset = int data_off, s_vaddr = int (LOAD_VADDR + data_off),
        s_filesz = int (length data), s_memsz = int (length data)\<rparr>]"
    and "\<exists>pre z. blob = pre @ code @ z @ data \<and> length pre = code_off \<and>
      length (pre @ code @ z) = data_off"
proof -
  let ?hv = "[2, 0x3E, 1, int (LOAD_VADDR + code_off + off), 64, 0, 0, 64, 56, 2, 0, 0, 0]"
  let ?pv = "[1, 5, int code_off, int (LOAD_VADDR + code_off), int (LOAD_VADDR + code_off),
    int (length code), int (length code), int PAGE]"
  let ?qv = "[1, 6, int data_off, int (LOAD_VADDR + data_off), int (LOAD_VADDR + data_off),
    int (length data), int (length data), int PAGE]"
  have off: "align_up PAGE 176 = code_off" "align_up PAGE (code_off + length code) = data_off"
    using assms(2) by (auto simp: wx_code_data_file_offsets_def Let_def)
  obtain h p q where h: "pack_fmt EHDR64 ?hv = Inr h" and p: "pack_fmt PHDR64 ?pv = Inr p"
    and q: "pack_fmt PHDR64 ?qv = Inr q"
    and blob: "blob = pad_to data_off 0 (pad_to code_off 0 (e_ident 2 @ h @ p @ q) @ code) @ data"
    using assms(1) by (auto simp: build_elf64_exe_wx_def Let_def bindE_Inr_iff off algebra_simps)
  note eh = ehdr64_pack(1) [OF h, simplified] and ph = phdr64_pack [OF p, simplified]
    and qh = phdr64_pack [OF q, simplified]
  note wo = wx_offsets [OF assms(2)]
  have le: "length (e_ident 2 @ h @ p @ q) \<le> code_off"
    using wo(1) eh ph(1) qh(1) by (simp add: PAGE_def)
  obtain y where y: "pad_to code_off 0 (e_ident 2 @ h @ p @ q) = (e_ident 2 @ h @ p @ q) @ y"
    and ly: "length ((e_ident 2 @ h @ p @ q) @ y) = code_off"
    using pad_to_prefix [OF le] by blast
  have "length (((e_ident 2 @ h @ p @ q) @ y) @ code) \<le> data_off"
    using wo(2) ly unfolding length_append [of _ code] by simp
  then obtain z where z: "pad_to data_off 0 (((e_ident 2 @ h @ p @ q) @ y) @ code) =
      (((e_ident 2 @ h @ p @ q) @ y) @ code) @ z"
    and lz: "length ((((e_ident 2 @ h @ p @ q) @ y) @ code) @ z) = data_off"
    using pad_to_prefix by blast
  have b: "blob = e_ident 2 @ h @ p @ q @ y @ code @ z @ data"
    unfolding blob y z by simp
  have hdr: "ehdr64 blob = ?hv" unfolding b by (rule ehdr64_pack(2) [OF h]) simp
  show "is_exe64 blob" using hdr by (simp add: is_exe64_def) (simp add: b)
  show "entry64 blob = int (LOAD_VADDR + code_off + off)" by (simp add: entry64_def hdr)
  have "drop 64 blob = p @ q @ y @ code @ z @ data" "drop 120 blob = q @ y @ code @ z @ data"
    using eh ph(1) by (simp_all add: b)
  then show "segments64 blob =
      [\<lparr>s_type = 1, s_flags = 5, s_offset = int code_off, s_vaddr = int (LOAD_VADDR + code_off),
        s_filesz = int (length code), s_memsz = int (length code)\<rparr>,
       \<lparr>s_type = 1, s_flags = 6, s_offset = int data_off, s_vaddr = int (LOAD_VADDR + data_off),
        s_filesz = int (length data), s_memsz = int (length data)\<rparr>]"
    using ph(2) [of "q @ y @ code @ z @ data"] qh(2) [of "y @ code @ z @ data"]
    by (simp add: segments64_def hdr segment_of_def upt_rec)
  show "\<exists>pre z. blob = pre @ code @ z @ data \<and> length pre = code_off \<and>
      length (pre @ code @ z) = data_off"
    using b ly lz by (intro exI [of _ "e_ident 2 @ h @ p @ q @ y"] exI [of _ z]) simp
qed

lemma wx_loads:
  assumes "build_elf64_exe_wx code data off = Inr blob"
    and "wx_code_data_file_offsets (length code) = (code_off, data_off)"
  shows "loaded blob (int (LOAD_VADDR + code_off)) code 5"
    and "loaded blob (int (LOAD_VADDR + data_off)) data 6"
proof -
  obtain pre z where b: "blob = pre @ code @ z @ data" "length pre = code_off"
      "length (pre @ code @ z) = data_off"
    using wx_parts(4) [OF assms] by blast
  note seg = wx_parts(3) [OF assms] and wo = wx_offsets [OF assms(2)]
  have "load64_byte blob (int (LOAD_VADDR + code_off) + int k) = Some (code ! k, 5)"
    if "k < length code" for k
    using that unfolding load64_byte_def seg
    by (simp add: in_segment_def nat_add_distrib b(1) nth_append b(2))
  then show "loaded blob (int (LOAD_VADDR + code_off)) code 5" by (simp add: loaded_def)
  have d: "data_off = code_off + length code + length z" using b by simp
  have "load64_byte blob (int (LOAD_VADDR + data_off) + int k) = Some (data ! k, 6)"
    if "k < length data" for k
    using that unfolding load64_byte_def seg
    by (simp add: in_segment_def nat_add_distrib b(1) nth_append b(2) d)
  then show "loaded blob (int (LOAD_VADDR + data_off)) data 6" by (simp add: loaded_def)
qed

lemma wx_writes:
  assumes "off < 2 ^ 62" "length code < 2 ^ 62" "length data < 2 ^ 62"
  shows "\<exists>blob. build_elf64_exe_wx code data off = Inr blob"
proof -
  define d where "d = align_up PAGE (PAGE + length code)"
  have "d < PAGE + length code + PAGE" using align_up(2) [of PAGE "PAGE + length code"] by (simp add: d_def PAGE_def)
  then have lt: "LOAD_VADDR + PAGE + off < 2 ^ 64" "LOAD_VADDR + PAGE < 2 ^ 64" "LOAD_VADDR + d < 2 ^ 64" "d < 2 ^ 64"
    "length code < 2 ^ 64" "length data < 2 ^ 64"
    using assms by (simp_all add: elf_consts)
  have q: "0 \<le> int n \<and> int n < 2 ^ 64" if "n < 2 ^ 64" for n
    using that unfolding int_less_exp by simp
  let ?hv = "[2, 0x3E, 1, int (LOAD_VADDR + PAGE + off), 64, 0, 0, 64, 56, 2, 0, 0, 0]"
  let ?pv = "[1, 5, int PAGE, int (LOAD_VADDR + PAGE), int (LOAD_VADDR + PAGE), int (length code),
     int (length code), int PAGE]"
  let ?qv = "[1, 6, int d, int (LOAD_VADDR + d), int (LOAD_VADDR + d), int (length data),
     int (length data), int PAGE]"
  obtain h where h: "pack_fmt EHDR64 ?hv = Inr h"
    using q [OF lt(1)] pack_fmt_ok_iff [of EHDR64 ?hv] by (auto simp: EHDR64_def)
  obtain p where p: "pack_fmt PHDR64 ?pv = Inr p"
    using q [OF lt(2)] q [OF lt(5)] pack_fmt_ok_iff [of PHDR64 ?pv] by (auto simp: PHDR64_def PAGE_def)
  obtain r where r: "pack_fmt PHDR64 ?qv = Inr r"
    using q [OF lt(3)] q [OF lt(4)] q [OF lt(6)] pack_fmt_ok_iff [of PHDR64 ?qv] by (auto simp: PHDR64_def PAGE_def)
  show ?thesis
    using h p r by (simp add: build_elf64_exe_wx_def Let_def wx_code_off d_def [symmetric])
qed

end
