(* ===== verification/Kernel_Boot.thy ===== *)
theory Kernel_Boot
  imports Elf_Writer
begin

section \<open>The long-mode kernel image (ACLM/kernel_boot.py)\<close>

text \<open>
  The Multiboot image that takes the processor from 32-bit protected mode into the 64-bit user
  code: GDT, page tables, the two assembler stubs and the layout that puts them at aligned
  physical addresses. Beside them the specification of the four-level page walk, against which
  the tables are checked.
\<close>

definition LOAD_ADDR :: nat where "LOAD_ADDR = 0x100000"

definition HEADER_TOTAL :: nat where "HEADER_TOTAL = 52 + 32"

definition kb_u32 :: "int \<Rightarrow> bytes res" where
  "kb_u32 v = pack [(I, v AND 0xFFFFFFFF)]"

lemma kb_u32_eq: "kb_u32 v = Inr (to_bytes_le 4 v)"
proof -
  have "v AND 0xFFFFFFFF = v mod 2 ^ 32"
    using take_bit_eq_mask [of 32 v] by (simp add: take_bit_eq_mod mask_eq_exp_minus_1)
  then show ?thesis
    using to_bytes_le_mod [of 4 v] by (simp add: kb_u32_def pack_le_def)
qed

subsection \<open>The descriptor table\<close>

definition gdt_entry :: "int \<Rightarrow> int \<Rightarrow> bytes res" where
  "gdt_entry access flags_lim = pack [(H, 0xFFFF), (H, 0x0000), (B, 0x00), (B, access), (B, flags_lim), (B, 0x00)]"

definition build_gdt :: "bytes res" where
  "build_gdt =
    bindE (gdt_entry 0x9A 0xA0) (\<lambda>code64. bindE (gdt_entry 0x92 0xC0) (\<lambda>data.
    bindE (gdt_entry 0xFA 0xA0) (\<lambda>ucode. bindE (gdt_entry 0xF2 0xC0) (\<lambda>udata.
    Inr (replicate 8 0 @ code64 @ data @ ucode @ udata)))))"

subsection \<open>Page tables\<close>

text \<open>\<open>struct.pack_into("<Q", blob, off, v)\<close>.\<close>

definition pack_into_Q :: "nat \<Rightarrow> int \<Rightarrow> bytes \<Rightarrow> bytes res" where
  "pack_into_Q off v blob =
    (if length blob < off + 8 then Inl (PackRange (int off))
     else bindE (pack [(Q, v)]) (\<lambda>bs. Inr (slice_assign off (off + 8) bs blob)))"

definition patch_page_tables :: "int \<Rightarrow> int \<Rightarrow> int \<Rightarrow> bytes \<Rightarrow> bytes res" where
  "patch_page_tables pml4_phys pdpt_phys pd_phys blob =
    seqE ([pack_into_Q 0 ((pdpt_phys AND NOT 0xFFF) OR 0x03),
           pack_into_Q 4096 ((pd_phys AND NOT 0xFFF) OR 0x03)] @
          map (\<lambda>i. pack_into_Q (8192 + i * 8) ((int i * 0x200000) OR 0x83)) [0..<512]) blob"

subsection \<open>The two stubs\<close>

definition build_trampoline32 :: "int \<Rightarrow> int \<Rightarrow> int \<Rightarrow> bytes res" where
  "build_trampoline32 pml4_phys gdtr_phys long_stub_phys =
    bindE (kb_u32 0x90000) (\<lambda>sp. bindE (kb_u32 gdtr_phys) (\<lambda>gdtr.
    bindE (kb_u32 pml4_phys) (\<lambda>pml4. bindE (kb_u32 0xC0000080) (\<lambda>efer.
    bindE (kb_u32 0x100) (\<lambda>lme. bindE (kb_u32 0x80000001) (\<lambda>pgpe.
    bindE (kb_u32 long_stub_phys) (\<lambda>stub. bindE (pack [(H, 0x0008)]) (\<lambda>sel.
    Inr ([0xFA] @ [0xBC] @ sp @ [0xB8] @ gdtr @ [0x0F, 0x01, 0x10] @ [0x0F, 0x20, 0xE0] @
         [0x83, 0xC8, 0x20] @ [0x0F, 0x22, 0xE0] @ [0xB8] @ pml4 @ [0x0F, 0x22, 0xD8] @
         [0xB9] @ efer @ [0x0F, 0x32] @ [0x0D] @ lme @ [0x0F, 0x30] @ [0x0F, 0x20, 0xC0] @
         [0x0D] @ pgpe @ [0x0F, 0x22, 0xC0] @ [0xEA] @ stub @ sel)))))))))"

definition build_long_mode_stub64 :: "int \<Rightarrow> bytes res" where
  "build_long_mode_stub64 kmain_phys =
    bindE (pack [(Q, 0x90000)]) (\<lambda>sp. bindE (pack [(Q, kmain_phys)]) (\<lambda>kmain.
    Inr ([0x66, 0xB8, 0x10, 0x00] @ [0x8E, 0xD8] @ [0x8E, 0xC0] @ [0x8E, 0xD0] @
         [0x48, 0xBC] @ sp @ [0x48, 0xB8] @ kmain @ [0xFF, 0xE0])))"

subsection \<open>The image\<close>

text \<open>\<open>while (code_start + off) % a != 0: off += 1\<close>.\<close>

function advance :: "nat \<Rightarrow> nat \<Rightarrow> nat \<Rightarrow> nat" where
  "advance a start off =
    (if 0 < a \<and> (start + off) mod a \<noteq> 0 then advance a start (off + 1) else off)"
  by auto

termination advance
proof (relation "measure (\<lambda>(a, start, off). (a - (start + off) mod a) mod a)")
  show "wf (measure (\<lambda>(a, start, off). (a - (start + off) mod a) mod (a :: nat)))"
    by (rule wf_measure)
next
  fix a start off :: nat
  assume a: "0 < a \<and> (start + off) mod a \<noteq> 0"
  define r where "r = (start + off) mod a"
  have r: "0 < r" "r < a" using a by (simp_all add: r_def)
  have next': "(start + (off + 1)) mod a = Suc r mod a" by (simp add: r_def mod_Suc_eq)
  have "(a - Suc r mod a) mod a < (a - r) mod a"
    using r by (cases "Suc r = a") auto
  then show "((a, start, off + 1), (a, start, off))
      \<in> measure (\<lambda>(a, start, off). (a - (start + off) mod a) mod a)"
    unfolding in_measure split next' r_def [symmetric] .
qed

declare advance.simps [simp del]

lemma advance_least:
  assumes "0 < a"
  shows "off \<le> advance a start off \<and> advance a start off < off + a \<and>
    a dvd start + advance a start off"
proof -
  have "advance a start off \<le> off + k \<and> off \<le> advance a start off \<and> a dvd start + advance a start off"
    if "a dvd start + off + k" for k
    using that
  proof (induction k arbitrary: off)
    case 0
    then show ?case by (subst (1 2 3) advance.simps) (simp add: mod_eq_0_iff_dvd)
  next
    case (Suc k)
    have "advance a start (off + 1) \<le> off + 1 + k \<and> off + 1 \<le> advance a start (off + 1) \<and>
        a dvd start + advance a start (off + 1)"
      using Suc.IH [of "off + 1"] Suc.prems by simp
    then show ?case using assms
      by (subst (1 2 3) advance.simps) (auto simp: mod_eq_0_iff_dvd)
  qed
  moreover define k where "k = (a - (start + off) mod a) mod a"
  moreover have "a dvd start + off + k"
  proof (cases "(start + off) mod a = 0")
    case True
    then show ?thesis by (simp add: k_def mod_eq_0_iff_dvd)
  next
    case False
    then have "k = a - (start + off) mod a" using assms by (simp add: k_def)
    moreover have "(start + off) mod a < a" using assms by simp
    ultimately have "start + off + k = (start + off) div a * a + a"
      using div_mult_mod_eq [of "start + off" a] by linarith
    then show ?thesis by simp
  qed
  moreover have "k < a" using assms by (simp add: k_def)
  ultimately show ?thesis by fastforce
qed

record layout =
  pml4_off :: nat
  gdtr_off :: nat
  gdt_off :: nat
  stub_off :: nat
  user_off :: nat

definition kernel_layout :: "nat \<Rightarrow> nat \<Rightarrow> nat \<Rightarrow> nat \<Rightarrow> layout" where
  "kernel_layout code_start head_len gdt_len stub_len =
    (let pml4 = advance 4096 code_start head_len;
         gdtr = pml4 + 4096 + 4096 + 4096;
         gdt = advance 8 code_start (gdtr + 6);
         stub = advance 16 code_start (gdt + gdt_len);
         user = advance 16 code_start (stub + stub_len) in
     \<lparr>pml4_off = pml4, gdtr_off = gdtr, gdt_off = gdt, stub_off = stub, user_off = user\<rparr>)"

definition require :: "bool \<Rightarrow> string \<Rightarrow> 'a res \<Rightarrow> 'a res" where
  "require b msg r = (if b then r else Inl (AssertFail msg))"

definition build_long_mode_kernel :: "bytes \<Rightarrow> bytes \<Rightarrow> nat \<Rightarrow> bytes res" where
  "build_long_mode_kernel user64 data_b load_addr =
    bindE build_multiboot_header (\<lambda>mb. bindE build_gdt (\<lambda>gdt.
    bindE (build_trampoline32 0x2000 0x3000 0x100000) (\<lambda>dummy.
    bindE (build_long_mode_stub64 0x100000) (\<lambda>stub0.
    (let tlen = length dummy; stub_len = length stub0;
         code_start = load_addr + HEADER_TOTAL;
         l = kernel_layout code_start (length mb + tlen) (length gdt) stub_len;
         pml4_phys = code_start + pml4_off l;
         pdpt_phys = code_start + (pml4_off l + 4096);
         pd_phys = code_start + (pml4_off l + 4096 + 4096);
         gdt_phys = code_start + gdt_off l;
         gdtr_phys = code_start + gdtr_off l;
         stub_phys = code_start + stub_off l;
         kmain_phys = code_start + user_off l in
     require (pml4_phys mod 4096 = 0) ''pml4'' (
     require (pdpt_phys mod 4096 = 0) ''pdpt'' (
     require (pd_phys mod 4096 = 0) ''pd'' (
     bindE (build_trampoline32 (int pml4_phys) (int gdtr_phys) (int stub_phys)) (\<lambda>tramp.
     require (length tramp = tlen) ''trampoline'' (
     bindE (build_long_mode_stub64 (int kmain_phys)) (\<lambda>stub.
     bindE (patch_page_tables (int pml4_phys) (int pdpt_phys) (int pd_phys) (replicate (4096 * 3) 0)) (\<lambda>pages.
     bindE (pack [(H, int (length gdt) - 1), (I, int gdt_phys AND 0xFFFFFFFF)]) (\<lambda>gdtr6.
     (let b1 = pad_to (pml4_off l) 0 (mb @ tramp) @ pages;
          b2 = pad_to (gdtr_off l) 0 b1 @ gdtr6;
          b3 = pad_to (gdt_off l) 0 b2 @ gdt;
          b4 = pad_to (stub_off l) 0x90 b3 @ stub;
          blob = pad_to (user_off l) 0x90 b4 @ user64 @ data_b @ [0xF4, 0xEB, 0xFE] in
      build_elf32_multiboot blob [] (length mb) load_addr))))))))))))))"

subsection \<open>Entries of a page table\<close>

text \<open>The table as a sequence of 8-byte entries.\<close>

definition entry_at :: "bytes \<Rightarrow> nat \<Rightarrow> int" where
  "entry_at pages k = from_bytes_le (slice (8 * k) 8 pages)"

lemma or_low:
  assumes "0 \<le> b" "b < 2 ^ n"
  shows "push_bit n a OR b = 2 ^ n * a + (b :: int)"
proof -
  have "take_bit n b = b" using assms by (simp add: take_bit_int_eq_self)
  then have "\<not> bit (push_bit n a) k \<or> \<not> bit b k" for k
    by (metis bit_push_bit_iff bit_take_bit_iff linorder_not_less)
  then have "push_bit n a + b = push_bit n a OR b" by (intro disjunctive_add) simp
  then show ?thesis by (simp add: push_bit_eq_mult mult.commute)
qed

lemma or_low_mult: "0 \<le> b \<Longrightarrow> b < 2 ^ n \<Longrightarrow> a * 2 ^ n OR b = 2 ^ n * a + (b :: int)"
  using or_low [of b n a] by (simp add: push_bit_eq_mult)

lemma pack_into_Q_entry:
  assumes "pack_into_Q (8 * j) v blob = Inr blob'"
  shows "length blob' = length blob"
    and "8 * k + 8 \<le> length blob \<Longrightarrow> entry_at blob' k = (if k = j then v else entry_at blob k)"
proof -
  have fits: "8 * j + 8 \<le> length blob" and v: "0 \<le> v" "v < 256 ^ 8"
    and blob': "blob' = slice_assign (8 * j) (8 * j + 8) (to_bytes_le 8 v) blob"
    using assms
    by (auto simp: pack_into_Q_def bindE_Inr_iff pack_le_Inr_iff simp del: to_bytes_le.simps
        split: if_splits)
  show len: "length blob' = length blob"
    using length_slice_assign [of "8 * j" "to_bytes_le 8 v" blob] fits by (simp add: blob')
  show "entry_at blob' k = (if k = j then v else entry_at blob k)" if k: "8 * k + 8 \<le> length blob"
  proof (cases "k = j")
    case True
    then show ?thesis
      using slice_slice_assign_same [of "8 * j" "to_bytes_le 8 v" blob] fits v
      by (simp add: entry_at_def blob' from_to_bytes_le_id)
  next
    case False
    have "slice (8 * k) 8 blob' = slice (8 * k) 8 blob"
    proof (rule slice_eqI [OF len])
      show "8 * k + 8 \<le> length blob'" using k len by simp
    next
      fix i
      assume i: "8 * k \<le> i" "i < 8 * k + 8"
      then have "\<not> (8 * j \<le> i \<and> i < 8 * j + 8)" using False by presburger
      then show "blob' ! i = blob ! i"
        using nth_slice_assign [of "8 * j" "to_bytes_le 8 v" blob i] fits i k by (auto simp: blob')
    qed
    with False show ?thesis by (simp add: entry_at_def)
  qed
qed

lemma pack_into_Q_ok:
  assumes "8 * j + 8 \<le> length blob" "0 \<le> v" "v < 2 ^ 64"
  shows "\<exists>blob'. pack_into_Q (8 * j) v blob = Inr blob'"
  using assms by (simp add: pack_into_Q_def pack_le_def)

definition table_value :: "int \<Rightarrow> int \<Rightarrow> nat \<Rightarrow> nat \<Rightarrow> int" where
  "table_value pdpt_phys pd_phys n k =
    (if k = 0 then pdpt_phys + 3 else if k = 512 then pd_phys + 3
     else if 1024 \<le> k \<and> k < 1024 + n then int (k - 1024) * 2 ^ 21 + 0x83 else 0)"

lemma and_not_fff: "v AND NOT 0xFFF = push_bit 12 (drop_bit 12 v)" for v :: int
proof -
  have "v AND NOT (mask 12) = push_bit 12 (drop_bit 12 v)" by (rule bit_eqI) (auto simp: bit_simps)
  then show ?thesis by (simp add: mask_eq_exp_minus_1)
qed

lemma table_pointer:
  assumes "4096 dvd p"
  shows "(int p AND NOT 0xFFF) OR 0x03 = int p + 3"
proof -
  have "(int p AND NOT 0xFFF) OR 0x03 = 2 ^ 12 * drop_bit 12 (int p) + 3"
    unfolding and_not_fff by (rule or_low) simp_all
  also have "2 ^ 12 * drop_bit 12 (int p) = int p"
    using assms by (auto simp: drop_bit_eq_div)
  finally show ?thesis .
qed

lemma page_entry: "int i * 0x200000 OR 0x83 = int i * 2 ^ 21 + 0x83"
  using or_low_mult [of "0x83" 21 "int i"] by simp

lemma entry_at_zero: "8 * k + 8 \<le> n \<Longrightarrow> entry_at (replicate n 0) k = 0"
proof -
  assume "8 * k + 8 \<le> n"
  then have "slice (8 * k) 8 (replicate n 0) = replicate 8 (0 :: byte)"
    by (simp add: slice_def)
  then show ?thesis by (simp add: entry_at_def eval_nat_numeral)
qed

lemma patch_loop:
  assumes "length blob = 12288" and "n \<le> 512"
    and "\<forall>k < 1536. entry_at blob k = table_value a b 0 k"
  shows "\<exists>blob'. seqE (map (\<lambda>i. pack_into_Q (8192 + i * 8) ((int i * 0x200000) OR 0x83)) [0..<n]) blob
      = Inr blob' \<and> length blob' = 12288 \<and> (\<forall>k < 1536. entry_at blob' k = table_value a b n k)"
  using assms(2)
proof (induction n)
  case 0
  then show ?case using assms by simp
next
  case (Suc n)
  then obtain c where c: "seqE (map (\<lambda>i. pack_into_Q (8192 + i * 8) ((int i * 0x200000) OR 0x83)) [0..<n])
      blob = Inr c" "length c = 12288" "\<forall>k < 1536. entry_at c k = table_value a b n k"
    by auto
  have ix: "8192 + n * 8 = 8 * (1024 + n)" by simp
  have "int n * 2 ^ 21 + 0x83 < 2 ^ 64" using Suc.prems by simp
  then obtain d where d: "pack_into_Q (8 * (1024 + n)) (int n * 2 ^ 21 + 0x83) c = Inr d"
    using pack_into_Q_ok [of "1024 + n" c "int n * 2 ^ 21 + 0x83"] c(2) Suc.prems by auto
  have d': "pack_into_Q (8192 + n * 8) (int n * 2 ^ 21 + 0x83) c = Inr d" using d unfolding ix .
  note e = pack_into_Q_entry [OF d]
  have "\<forall>k < 1536. entry_at d k = table_value a b (Suc n) k"
    using e c Suc.prems by (auto simp: table_value_def)
  moreover have "seqE (map (\<lambda>i. pack_into_Q (8192 + i * 8) ((int i * 0x200000) OR 0x83)) [0..<Suc n])
      blob = Inr d"
    using c(1) d' by (simp add: seqE_append page_entry)
  ultimately show ?case using e(1) c(2) by auto
qed

lemma patch_page_tables:
  assumes "4096 dvd pdpt" "4096 dvd pd" "pdpt + 3 < 2 ^ 64" "pd + 3 < 2 ^ 64"
  shows "\<exists>pages. patch_page_tables pml4 (int pdpt) (int pd) (replicate 12288 0) = Inr pages \<and>
    length pages = 12288 \<and> (\<forall>k < 1536. entry_at pages k = table_value (int pdpt) (int pd) 512 k)"
proof -
  let ?z = "replicate 12288 (0 :: byte)"
  have lt: "int pdpt + 3 < 2 ^ 64" "int pd + 3 < 2 ^ 64"
    using assms(3,4) int_less_exp [of "pdpt + 3" 64] int_less_exp [of "pd + 3" 64] by simp_all
  obtain b where b: "pack_into_Q (8 * 0) (int pdpt + 3) ?z = Inr b"
    using pack_into_Q_ok [of 0 ?z "int pdpt + 3"] lt by auto
  note eb = pack_into_Q_entry [OF b]
  obtain c where c: "pack_into_Q (8 * 512) (int pd + 3) b = Inr c"
    using pack_into_Q_ok [of 512 b "int pd + 3"] lt eb(1) by auto
  note ec = pack_into_Q_entry [OF c]
  have "entry_at c k = table_value (int pdpt) (int pd) 0 k" if "k < 1536" for k
    using that eb ec entry_at_zero [of k 12288] by (simp add: table_value_def)
  then obtain d where "seqE (map (\<lambda>i. pack_into_Q (8192 + i * 8) ((int i * 0x200000) OR 0x83)) [0..<512]) c
      = Inr d" "length d = 12288" "\<forall>k < 1536. entry_at d k = table_value (int pdpt) (int pd) 512 k"
    using patch_loop [of c 512 "int pdpt" "int pd"] eb(1) ec(1) by auto
  then show ?thesis
    using b c
    unfolding patch_page_tables_def table_pointer [OF assms(1)] table_pointer [OF assms(2)]
    by simp
qed

subsection \<open>The page walk\<close>

text \<open>Four-level translation of a 48-bit virtual address; \<open>rd p\<close> is the 8-byte entry at physical
  address \<open>p\<close>. Present is bit 0, page size bit 7, the frame bits 12 to 51.\<close>

definition frame :: "int \<Rightarrow> int" where
  "frame e = e mod 2 ^ 52 div 2 ^ 12 * 2 ^ 12"

definition present :: "int \<Rightarrow> bool" where
  "present e \<longleftrightarrow> e mod 2 = 1"

definition large :: "int \<Rightarrow> bool" where
  "large e \<longleftrightarrow> e div 128 mod 2 = 1"

definition table_entry :: "(int \<Rightarrow> int option) \<Rightarrow> int \<Rightarrow> int \<Rightarrow> nat \<Rightarrow> int option" where
  "table_entry rd table va sh =
    (case rd (table + 8 * (va div 2 ^ sh mod 512)) of None \<Rightarrow> None
     | Some e \<Rightarrow> if present e then Some e else None)"

definition page_walk :: "(int \<Rightarrow> int option) \<Rightarrow> int \<Rightarrow> int \<Rightarrow> int option" where
  "page_walk rd cr3 va =
    (case table_entry rd (frame cr3) va 39 of None \<Rightarrow> None
     | Some e4 \<Rightarrow> (case table_entry rd (frame e4) va 30 of None \<Rightarrow> None
     | Some e3 \<Rightarrow> if large e3 then Some (frame e3 div 2 ^ 30 * 2 ^ 30 + va mod 2 ^ 30)
       else (case table_entry rd (frame e3) va 21 of None \<Rightarrow> None
     | Some e2 \<Rightarrow> if large e2 then Some (frame e2 div 2 ^ 21 * 2 ^ 21 + va mod 2 ^ 21)
       else (case table_entry rd (frame e2) va 12 of None \<Rightarrow> None
     | Some e1 \<Rightarrow> Some (frame e1 + va mod 2 ^ 12)))))"

lemma frame_table:
  assumes "0 \<le> p" "p < 2 ^ 52" "4096 dvd p"
  shows "frame (p + 3) = p" and "present (p + 3)" and "\<not> large (p + 3)" and "frame p = p"
proof -
  obtain q where q: "p = 4096 * q" using assms(3) by blast
  have q0: "0 \<le> q" "q < 2 ^ 40" using assms(1,2) by (simp_all add: q)
  have "(4096 * q + 3) mod 2 ^ 52 = 4096 * q + 3" "4096 * q mod 2 ^ 52 = 4096 * q"
    using q0 by simp_all
  moreover have "(4096 * q + 3) div 2 ^ 12 = q" by simp
  ultimately show "frame (p + 3) = p" "frame p = p" by (simp_all add: frame_def q)
  have "(4096 * q + 3) mod 2 = 1" by presburger
  then show "present (p + 3)" by (simp add: present_def q)
  have "(4096 * q + 3) div 128 = 32 * q" by simp
  then show "\<not> large (p + 3)" by (simp add: large_def q)
qed

lemma frame_page:
  assumes "0 \<le> i" "i < 512"
  shows "frame (i * 2 ^ 21 + 0x83) = i * 2 ^ 21" "present (i * 2 ^ 21 + 0x83)"
    "large (i * 2 ^ 21 + 0x83)"
proof -
  have "(i * 2 ^ 21 + 0x83) mod 2 ^ 52 = i * 2 ^ 21 + 0x83" using assms by simp
  moreover have "(i * 2 ^ 21 + 0x83) div 2 ^ 12 = i * 2 ^ 9" by simp
  ultimately show "frame (i * 2 ^ 21 + 0x83) = i * 2 ^ 21" by (simp add: frame_def)
  have "(i * 2 ^ 21 + 0x83) mod 2 = 1" by presburger
  then show "present (i * 2 ^ 21 + 0x83)" by (simp add: present_def)
  have "(i * 2 ^ 21 + 0x83) div 128 = i * 2 ^ 14 + 1" by simp
  moreover have "(i * 2 ^ 14 + 1) mod 2 = 1" by presburger
  ultimately show "large (i * 2 ^ 21 + 0x83)" by (simp add: large_def)
qed

lemma table_values:
  assumes "0 \<le> i" "i < 512"
  shows "table_value a b 512 (nat i) = (if i = 0 then a + 3 else 0)"
    and "table_value a b 512 (nat (512 + i)) = (if i = 0 then b + 3 else 0)"
    and "table_value a b 512 (nat (1024 + i)) = i * 2 ^ 21 + 0x83"
  using assms by (auto simp: table_value_def nat_add_distrib)

lemma table_entry_at:
  "rd (t + 8 * (va div 2 ^ sh mod 512)) = Some e \<Longrightarrow>
   table_entry rd t va sh = (if present e then Some e else None)"
  by (simp add: table_entry_def)

lemma div_0_less: "x div c = 0 \<Longrightarrow> 0 < c \<Longrightarrow> x < (c :: int)"
  using div_mult_mod_eq [of x c] pos_mod_bound [of c x] by simp

lemma not_present_0: "\<not> present 0"
  by (simp add: present_def)

text \<open>The three tables in consecutive pages map the first gigabyte to itself and nothing else.\<close>

lemma identity_walk:
  assumes cr3: "0 \<le> cr3" "cr3 + 8192 < 2 ^ 52" "4096 dvd cr3"
    and rd: "\<And>k. 0 \<le> k \<Longrightarrow> k < 1536 \<Longrightarrow>
      rd (cr3 + 8 * k) = Some (table_value (cr3 + 4096) (cr3 + 8192) 512 (nat k))"
    and va: "0 \<le> va" "va < 2 ^ 48"
  shows "page_walk rd cr3 va = (if va < 2 ^ 30 then Some va else None)"
proof -
  define i4 i3 i2 where i: "i4 = va div 2 ^ 39 mod 512" "i3 = va div 2 ^ 30 mod 512"
    "i2 = va div 2 ^ 21 mod 512"
  have b: "0 \<le> i4" "i4 < 512" "0 \<le> i3" "i3 < 512" "0 \<le> i2" "i2 < 512" by (simp_all add: i)
  have f3: "frame cr3 = cr3" using frame_table(4) [of cr3] cr3 by simp
  have d: "4096 dvd cr3 + 4096" "4096 dvd cr3 + 8192" by (rule dvd_add [OF cr3(3)], simp)+
  note p3 = frame_table [of "cr3 + 4096", OF _ _ d(1)] and p2 = frame_table [of "cr3 + 8192", OF _ _ d(2)]
  have "rd (cr3 + 8 * (va div 2 ^ 39 mod 512)) = Some (if i4 = 0 then cr3 + 4096 + 3 else 0)"
    using rd [of i4] b table_values(1) [OF b(1,2)] unfolding i(1) [symmetric] by simp
  from table_entry_at [where rd = rd, OF this]
  have e4: "table_entry rd cr3 va 39 = (if i4 = 0 then Some (cr3 + 4096 + 3) else None)"
    using p3(2) cr3 not_present_0 by simp
  have "rd (cr3 + 4096 + 8 * (va div 2 ^ 30 mod 512)) = Some (if i3 = 0 then cr3 + 8192 + 3 else 0)"
    using rd [of "512 + i3"] b table_values(2) [OF b(3,4)] unfolding i(2) [symmetric]
    by (simp add: algebra_simps)
  from table_entry_at [where rd = rd, OF this]
  have e3: "table_entry rd (cr3 + 4096) va 30 = (if i3 = 0 then Some (cr3 + 8192 + 3) else None)"
    using p2(2) cr3 not_present_0 by simp
  have "rd (cr3 + 8192 + 8 * (va div 2 ^ 21 mod 512)) = Some (i2 * 2 ^ 21 + 0x83)"
    using rd [of "1024 + i2"] b table_values(3) [OF b(5,6)] unfolding i(3) [symmetric]
    by (simp add: algebra_simps)
  from table_entry_at [where rd = rd, OF this]
  have e2: "table_entry rd (cr3 + 8192) va 21 = Some (i2 * 2 ^ 21 + 0x83)"
    using frame_page(2) [OF b(5,6)] by simp
  define t4 t3 where t: "t4 = cr3 + 4096 + 3" "t3 = cr3 + 8192 + 3"
  have fr: "frame t4 = cr3 + 4096" "frame t3 = cr3 + 8192" "\<not> large t4" "\<not> large t3"
    using p3 p2 cr3 by (simp_all add: t)
  note e = e4 [folded t] e3 [folded t] e2
  show ?thesis
  proof (cases "va < 2 ^ 30")
    case True
    then have z: "i4 = 0" "i3 = 0" "i2 = va div 2 ^ 21" using va by (simp_all add: i)
    have "i2 * 2 ^ 21 + va mod 2 ^ 21 = va" unfolding z(3) by (rule div_mult_mod_eq)
    moreover have "i2 * 2 ^ 21 div 2 ^ 21 * 2 ^ 21 = i2 * 2 ^ 21" by simp
    ultimately show ?thesis
      using True e frame_page [OF b(5,6)] z(1,2) unfolding page_walk_def f3 by (simp add: fr)
  next
    case False
    have "i4 \<noteq> 0 \<or> i3 \<noteq> 0"
    proof (rule ccontr)
      assume "\<not> (i4 \<noteq> 0 \<or> i3 \<noteq> 0)"
      then have z: "i4 = 0" "i3 = 0" by simp_all
      have "i4 = va div 2 ^ 39"
        unfolding i by (rule mod_pos_pos_trivial) (use va in simp_all)
      with z have "va div 2 ^ 39 = 0" by (simp only:)
      then have v: "va < 2 ^ 39" by (rule div_0_less) simp
      have "i3 = va div 2 ^ 30"
        unfolding i by (rule mod_pos_pos_trivial) (use va v in simp_all)
      with z have "va div 2 ^ 30 = 0" by (simp only:)
      then have "va < 2 ^ 30" by (rule div_0_less) simp
      with False show False by simp
    qed
    then show ?thesis
      using False e unfolding page_walk_def f3 by (auto simp: fr)
  qed
qed

subsection \<open>Sizes of the parts\<close>

lemma pack_into_Q_length: "pack_into_Q off v blob = Inr blob' \<Longrightarrow> length blob' = length blob"
  by (auto simp: pack_into_Q_def bindE_Inr_iff pack_le_Inr_iff slice_assign_def
      simp del: to_bytes_le.simps split: if_splits)

lemma patch_length:
  assumes "patch_page_tables a b c blob = Inr pages"
  shows "length pages = length blob"
proof (rule seqE_invariant [where P = "\<lambda>x. length x = length blob"])
  show "seqE ([pack_into_Q 0 ((b AND NOT 0xFFF) OR 0x03), pack_into_Q 4096 ((c AND NOT 0xFFF) OR 0x03)] @
      map (\<lambda>i. pack_into_Q (8192 + i * 8) ((int i * 0x200000) OR 0x83)) [0..<512]) blob = Inr pages"
    using assms by (simp only: patch_page_tables_def)
next
  fix f x x'
  assume "f \<in> set ([pack_into_Q 0 ((b AND NOT 0xFFF) OR 0x03), pack_into_Q 4096 ((c AND NOT 0xFFF) OR 0x03)] @
      map (\<lambda>i. pack_into_Q (8192 + i * 8) ((int i * 0x200000) OR 0x83)) [0..<512])"
    and "length x = length blob" "f x = Inr x'"
  then show "length x' = length blob" by (auto dest: pack_into_Q_length)
qed simp

lemma le_length: "pack fs = Inr bs \<Longrightarrow> length bs = sum_list (map (fmt_width \<circ> fst) fs)"
  by (rule le.pack_length)

lemma header_length: "build_multiboot_header = Inr mb \<Longrightarrow> length mb = 12"
  by (auto simp: build_multiboot_header_def dest!: pack_fmt_length)

lemma gdt_length: "build_gdt = Inr g \<Longrightarrow> length g = 40"
  by (auto simp: build_gdt_def gdt_entry_def bindE_Inr_iff simp del: pack_seq.simps dest!: le_length)

lemma pack_H_length: "pack [(H, v)] = Inr x \<Longrightarrow> length x = 2"
  by (drule le_length) simp

lemma trampoline_length:
  assumes "build_trampoline32 a b c = Inr t"
  shows "length t = 63"
  using assms unfolding build_trampoline32_def kb_u32_eq bindE.simps(2)
  apply (elim bindE_InrE)
  apply (drule pack_H_length)
  apply (drule sym [of "Inr _"])
  apply (simp only: sum.inject)
  apply (simp only: length_append length_to_bytes_le list.size)
  done

lemma stub_length: "build_long_mode_stub64 k = Inr s \<Longrightarrow> length s = 32"
  by (auto simp: build_long_mode_stub64_def bindE_Inr_iff simp del: pack_seq.simps dest!: le_length)

lemma ehdr32_pack:
  assumes "pack_fmt EHDR32 vs = Inr h" and "length vs = 13"
  shows "length h = 36" and "unpack EHDR32 (h @ rest) = vs"
  using pack_fmt_length [OF assms(1)] unpack_pack_fmt [OF assms(1)] assms(2)
  by (simp_all add: EHDR32_def)

lemma phdr32_pack:
  assumes "pack_fmt PHDR32 vs = Inr p" and "length vs = 8"
  shows "length p = 32" and "unpack PHDR32 (p @ rest) = vs"
  using pack_fmt_length [OF assms(1)] unpack_pack_fmt [OF assms(1)] assms(2)
  by (simp_all add: PHDR32_def)

lemma elf32_parts:
  assumes "build_elf32_multiboot code data off la = Inr f"
  shows "\<exists>hdr. f = hdr @ code @ data \<and> length hdr = 84"
    and "unpack EHDR32 (drop 16 f) ! 3 = int (la + 84 + off)"
    and "unpack PHDR32 (drop 52 f) =
      [1, 0, int la, int la, int (length f), int (length f), 7, int PAGE]"
    and "la < 2 ^ 32" and "length f < 2 ^ 32"
proof -
  let ?hv = "[2, 3, 1, int (la + 84 + off), 52, 0, 0, 52, 32, 1, 0, 0, 0]"
  let ?pv = "[1, 0, int la, int la, int (84 + length code + length data),
    int (84 + length code + length data), 7, int PAGE]"
  obtain h p where h: "pack_fmt EHDR32 ?hv = Inr h" and p: "pack_fmt PHDR32 ?pv = Inr p"
    and f: "f = e_ident 1 @ h @ p @ code @ data"
    using assms by (auto simp: build_elf32_multiboot_def Let_def bindE_Inr_iff)
  have l: "length h = 36" "length p = 32"
    by (rule ehdr32_pack(1) [OF h], simp, rule phdr32_pack(1) [OF p], simp)
  have flen: "length f = 84 + length code + length data" using l by (simp add: f)
  show "\<exists>hdr. f = hdr @ code @ data \<and> length hdr = 84"
    using l by (intro exI [of _ "e_ident 1 @ h @ p"]) (simp add: f)
  have "drop 16 f = h @ p @ code @ data" by (simp add: f)
  then have "unpack EHDR32 (drop 16 f) = ?hv" using ehdr32_pack(2) [OF h] by (simp only:) simp
  then show "unpack EHDR32 (drop 16 f) ! 3 = int (la + 84 + off)" by simp
  have "drop 52 f = p @ code @ data" using l by (simp add: f)
  then show "unpack PHDR32 (drop 52 f) =
      [1, 0, int la, int la, int (length f), int (length f), 7, int PAGE]"
    using phdr32_pack(2) [OF p] unfolding flen by (simp only:) simp
  have "list_all2 (\<lambda>g v. 0 \<le> v \<and> v < 256 ^ fmt_width g) PHDR32 ?pv"
    using p pack_fmt_ok_iff [of PHDR32 ?pv] by (auto simp: PHDR32_def)
  then have "int la < 2 ^ 32" "int (length f) < 2 ^ 32" by (simp_all add: PHDR32_def flen)
  then show "la < 2 ^ 32" "length f < 2 ^ 32" unfolding int_less_exp .
qed

subsection \<open>Where the parts are\<close>

definition at_phys :: "bytes \<Rightarrow> nat \<Rightarrow> nat \<Rightarrow> bytes \<Rightarrow> bool" where
  "at_phys f la a bs \<longleftrightarrow> la \<le> a \<and> slice (a - la) (length bs) f = bs"

lemma at_physI:
  "f = xs @ bs @ ys \<Longrightarrow> a = la + length xs \<Longrightarrow> at_phys f la a bs"
  by (simp add: at_phys_def slice_def)

lemma layout_facts:
  assumes "l = kernel_layout cs head gl sl"
  shows "head \<le> pml4_off l" and "4096 dvd cs + pml4_off l" and "pml4_off l + 12288 = gdtr_off l"
    and "gdtr_off l + 6 \<le> gdt_off l" and "8 dvd cs + gdt_off l" and "gdt_off l + gl \<le> stub_off l"
    and "stub_off l + sl \<le> user_off l"
  using assms advance_least [of 4096 head cs] advance_least [of 8 _ cs] advance_least [of 16 _ cs]
  by (simp_all add: kernel_layout_def Let_def)

lemma layout_aligned:
  assumes "l = kernel_layout cs head gl sl"
  shows "4096 dvd cs + pml4_off l" and "16 dvd cs + stub_off l" and "16 dvd cs + user_off l"
proof -
  note a = advance_least [THEN conjunct2, THEN conjunct2]
  show "4096 dvd cs + pml4_off l" "16 dvd cs + stub_off l" "16 dvd cs + user_off l"
    unfolding assms kernel_layout_def Let_def layout.simps by (rule a, simp)+
qed

lemma requireE:
  assumes "require b msg r = Inr y"
  obtains "b" "r = Inr y"
  using assms by (auto simp: require_def split: if_splits)

lemma kernel_header_total: "HEADER_TOTAL = 84"
  by (simp add: HEADER_TOTAL_def)

lemma kernel_parts:
  assumes "build_long_mode_kernel user64 data_b la = Inr f"
  obtains hdr mb tramp pages gdtr6 gdt stub z1 z2 z3 z4 l where
    "l = kernel_layout (la + 84) 75 40 32"
    "f = hdr @ mb @ tramp @ z1 @ pages @ gdtr6 @ z2 @ gdt @ z3 @ stub @ z4 @ user64 @ data_b @
      [0xF4, 0xEB, 0xFE]"
    "length hdr = 84" "length mb = 12" "length tramp = 63" "length (mb @ tramp @ z1) = pml4_off l"
    "length pages = 12288" "length gdtr6 = 6" "length (mb @ tramp @ z1 @ pages @ gdtr6 @ z2) = gdt_off l"
    "length gdt = 40" "length (mb @ tramp @ z1 @ pages @ gdtr6 @ z2 @ gdt @ z3) = stub_off l"
    "length stub = 32"
    "length (mb @ tramp @ z1 @ pages @ gdtr6 @ z2 @ gdt @ z3 @ stub @ z4) = user_off l"
    "build_multiboot_header = Inr mb" "build_gdt = Inr gdt"
    "build_trampoline32 (int (la + 84 + pml4_off l)) (int (la + 84 + gdtr_off l))
       (int (la + 84 + stub_off l)) = Inr tramp"
    "build_long_mode_stub64 (int (la + 84 + user_off l)) = Inr stub"
    "patch_page_tables (int (la + 84 + pml4_off l)) (int (la + 84 + (pml4_off l + 4096)))
       (int (la + 84 + (pml4_off l + 4096 + 4096))) (replicate (4096 * 3) 0) = Inr pages"
    "pack [(H, int (length gdt) - 1), (I, int (la + 84 + gdt_off l) AND 0xFFFFFFFF)] = Inr gdtr6"
    "unpack EHDR32 (drop 16 f) ! 3 = int (la + 84 + 12)"
    "unpack PHDR32 (drop 52 f) = [1, 0, int la, int la, int (length f), int (length f), 7, int PAGE]"
    "la < 2 ^ 32" "length f < 2 ^ 32"
proof -
  obtain mb gdt dummy stub0 where p1: "build_multiboot_header = Inr mb" "build_gdt = Inr gdt"
      "build_trampoline32 0x2000 0x3000 0x100000 = Inr dummy" "build_long_mode_stub64 0x100000 = Inr stub0"
    using assms by (auto simp: build_long_mode_kernel_def bindE_Inr_iff)
  note len = header_length [OF p1(1)] gdt_length [OF p1(2)] trampoline_length [OF p1(3)]
    stub_length [OF p1(4)]
  define l where "l = kernel_layout (la + 84) 75 40 32"
  have lf: "75 \<le> pml4_off l" "pml4_off l + 12288 = gdtr_off l" "gdtr_off l + 6 \<le> gdt_off l"
      "gdt_off l + 40 \<le> stub_off l" "stub_off l + 32 \<le> user_off l"
    using layout_facts [OF l_def] by simp_all
  have k: "kernel_layout (la + 84) (length mb + length dummy) (length gdt) (length stub0) = l"
    by (simp add: l_def len)
  obtain tramp stub pages gdtr6 where
    p2: "build_trampoline32 (int (la + 84 + pml4_off l)) (int (la + 84 + gdtr_off l))
       (int (la + 84 + stub_off l)) = Inr tramp"
    "build_long_mode_stub64 (int (la + 84 + user_off l)) = Inr stub"
    "patch_page_tables (int (la + 84 + pml4_off l)) (int (la + 84 + (pml4_off l + 4096)))
       (int (la + 84 + (pml4_off l + 4096 + 4096))) (replicate (4096 * 3) 0) = Inr pages"
    "pack [(H, int (length gdt) - 1), (I, int (la + 84 + gdt_off l) AND 0xFFFFFFFF)] = Inr gdtr6"
    and f0: "build_elf32_multiboot
      (pad_to (user_off l) 0x90 (pad_to (stub_off l) 0x90 (pad_to (gdt_off l) 0
        (pad_to (gdtr_off l) 0 (pad_to (pml4_off l) 0 (mb @ tramp) @ pages) @ gdtr6) @ gdt) @ stub)
        @ user64 @ data_b @ [0xF4, 0xEB, 0xFE]) [] (length mb) la = Inr f"
    using assms unfolding build_long_mode_kernel_def Let_def p1 bindE.simps(2) kernel_header_total k
    by (elim bindE_InrE requireE)
  note f = f0 [unfolded len]
  note len2 = trampoline_length [OF p2(1)] stub_length [OF p2(2)] patch_length [OF p2(3)]
    le_length [OF p2(4)]
  note e32 = elf32_parts [OF f]
  obtain hdr where hdr: "f = hdr @ pad_to (user_off l) 0x90 (pad_to (stub_off l) 0x90 (pad_to (gdt_off l) 0
        (pad_to (gdtr_off l) 0 (pad_to (pml4_off l) 0 (mb @ tramp) @ pages) @ gdtr6) @ gdt) @ stub)
        @ user64 @ data_b @ [0xF4, 0xEB, 0xFE]" "length hdr = 84"
    using e32(1) by auto
  obtain z1 where z1: "pad_to (pml4_off l) 0 (mb @ tramp) = (mb @ tramp) @ z1"
      "length ((mb @ tramp) @ z1) = pml4_off l"
    using pad_to_prefix [of "mb @ tramp"] len len2 lf by auto
  let ?b1 = "((mb @ tramp) @ z1) @ pages"
  have l1: "length ?b1 = gdtr_off l" using z1(2) len2 lf unfolding length_append [of _ pages] by simp
  then have b1: "pad_to (gdtr_off l) 0 ?b1 = ?b1" by (simp only: pad_to_def) simp
  have "length (?b1 @ gdtr6) \<le> gdt_off l" using l1 len2 lf unfolding length_append [of _ gdtr6] by simp
  then obtain z2 where z2: "pad_to (gdt_off l) 0 (?b1 @ gdtr6) = (?b1 @ gdtr6) @ z2"
      "length ((?b1 @ gdtr6) @ z2) = gdt_off l"
    using pad_to_prefix by blast
  let ?b2 = "((?b1 @ gdtr6) @ z2) @ gdt"
  have "length ?b2 \<le> stub_off l" using z2(2) len lf unfolding length_append [of _ gdt] by simp
  then obtain z3 where z3: "pad_to (stub_off l) 0x90 ?b2 = ?b2 @ z3" "length (?b2 @ z3) = stub_off l"
    using pad_to_prefix by blast
  let ?b3 = "(?b2 @ z3) @ stub"
  have "length ?b3 \<le> user_off l" using z3(2) len2 lf unfolding length_append [of _ stub] by simp
  then obtain z4 where z4: "pad_to (user_off l) 0x90 ?b3 = ?b3 @ z4" "length (?b3 @ z4) = user_off l"
    using pad_to_prefix by blast
  show thesis
  proof (rule that [OF l_def])
    show "f = hdr @ mb @ tramp @ z1 @ pages @ gdtr6 @ z2 @ gdt @ z3 @ stub @ z4 @ user64 @ data_b @
        [0xF4, 0xEB, 0xFE]"
      unfolding hdr(1) z1(1) b1 z2(1) z3(1) z4(1) by simp
  qed (use hdr(2) len len2 z1(2) z2(2) z3(2) z4(2) p1 p2 e32 in simp_all)
qed

subsection \<open>What the loaded image holds\<close>

text \<open>Physical memory after the loader has put file \<open>f\<close> at \<open>la\<close>: a byte range, a little-endian
  field, and the 8-byte reader of the page walk.\<close>

definition phys :: "bytes \<Rightarrow> nat \<Rightarrow> nat \<Rightarrow> nat \<Rightarrow> bytes" where
  "phys f la p n = slice (p - la) n f"

definition phys_int :: "bytes \<Rightarrow> nat \<Rightarrow> nat \<Rightarrow> nat \<Rightarrow> int" where
  "phys_int f la p n = from_bytes_le (phys f la p n)"

definition phys_entry :: "bytes \<Rightarrow> nat \<Rightarrow> int \<Rightarrow> int option" where
  "phys_entry f la p =
    (if int la \<le> p \<and> p + 8 \<le> int (la + length f) then Some (phys_int f la (nat p) 8) else None)"

lemma phys_sub:
  "la \<le> p \<Longrightarrow> i + n \<le> k \<Longrightarrow> phys f la (p + i) n = slice i n (phys f la p k)"
  by (simp add: phys_def slice_def take_drop add.commute min_def)

lemma slice_parts: "n = length xs \<Longrightarrow> slice n (length bs) (xs @ bs @ ys) = bs"
  by (simp add: slice_def)

lemma slice_inner:
  "i + n \<le> length bs \<Longrightarrow> slice (length xs + i) n (xs @ bs @ ys) = slice i n bs"
  by (simp add: slice_def)

lemma trampoline_fields:
  assumes "build_trampoline32 a b c = Inr t"
  shows "from_bytes_le (slice 24 4 t) = a mod 2 ^ 32" and "from_bytes_le (slice 7 4 t) = b mod 2 ^ 32"
    and "from_bytes_le (slice 57 4 t) = c mod 2 ^ 32"
proof -
  obtain x where t: "t = [0xFA] @ [0xBC] @ to_bytes_le 4 0x90000 @ [0xB8] @ to_bytes_le 4 b @
      [0x0F, 0x01, 0x10] @ [0x0F, 0x20, 0xE0] @ [0x83, 0xC8, 0x20] @ [0x0F, 0x22, 0xE0] @ [0xB8] @
      to_bytes_le 4 a @ [0x0F, 0x22, 0xD8] @ [0xB9] @ to_bytes_le 4 0xC0000080 @ [0x0F, 0x32] @
      [0x0D] @ to_bytes_le 4 0x100 @ [0x0F, 0x30] @ [0x0F, 0x20, 0xC0] @ [0x0D] @
      to_bytes_le 4 0x80000001 @ [0x0F, 0x22, 0xC0] @ [0xEA] @ to_bytes_le 4 c @ x"
    using assms unfolding build_trampoline32_def kb_u32_eq bindE.simps(2)
    by (elim bindE_InrE) (drule sym [of "Inr _"], simp only: sum.inject)
  have "slice 24 4 t = to_bytes_le 4 a" "slice 7 4 t = to_bytes_le 4 b" "slice 57 4 t = to_bytes_le 4 c"
    unfolding t slice_def by simp_all
  then show "from_bytes_le (slice 24 4 t) = a mod 2 ^ 32" "from_bytes_le (slice 7 4 t) = b mod 2 ^ 32"
    "from_bytes_le (slice 57 4 t) = c mod 2 ^ 32"
    by (simp_all add: from_to_bytes_le del: to_bytes_le.simps)
qed

lemma stub_field:
  assumes "build_long_mode_stub64 k = Inr t"
  shows "from_bytes_le (slice 22 8 t) = k"
proof -
  obtain sp km where sp: "pack [(Q, 0x90000)] = Inr sp" and km: "pack [(Q, k)] = Inr km"
    and t: "t = [0x66, 0xB8, 0x10, 0x00] @ [0x8E, 0xD8] @ [0x8E, 0xC0] @ [0x8E, 0xD0] @
         [0x48, 0xBC] @ sp @ [0x48, 0xB8] @ km @ [0xFF, 0xE0]"
    using assms unfolding build_long_mode_stub64_def
    by (elim bindE_InrE) (simp only: sum.inject)
  have "length sp = 8" "length km = 8" using le_length [OF sp] le_length [OF km] by simp_all
  then have "slice 22 8 t = km" unfolding t slice_def by simp
  moreover have "km = to_bytes_le 8 k" "0 \<le> k" "k < 256 ^ 8"
    using km by (auto simp: bindE_Inr_iff pack_le_Inr_iff simp del: to_bytes_le.simps)
  ultimately show ?thesis by (simp add: from_to_bytes_le_id del: to_bytes_le.simps)
qed

text \<open>An image is a decomposition of the file whose parts are at the physical addresses the layout
  gave them.\<close>

lemma phys_part:
  assumes "f = xs @ bs @ ys" and "p = la + length xs" and "i + n \<le> length bs"
  shows "phys f la (p + i) n = slice i n bs"
  using slice_inner [OF assms(3), of xs ys] assms(1,2) by (simp add: phys_def)

lemma patched_entries:
  assumes "f = xs @ pages @ ys" "p = la + length xs" "length pages = 12288" "la + length f < 2 ^ 33"
    and "4096 dvd p"
    and "patch_page_tables (int p) (int (p + 4096)) (int (p + 8192)) (replicate 12288 0) = Inr pages"
    and "0 \<le> k" "k < 1536"
  shows "phys_entry f la (int p + 8 * k) = Some (table_value (int p + 4096) (int p + 8192) 512 (nat k))"
proof -
  have lenf: "p + 12288 \<le> la + length f" "la \<le> p" using assms(1,2,3) by simp_all
  have d: "4096 dvd p + 4096" "4096 dvd p + 8192" using assms(5) by (rule dvd_add, simp)+
  have e: "\<forall>k < 1536. entry_at pages k = table_value (int (p + 4096)) (int (p + 8192)) 512 k"
    using patch_page_tables [OF d, of "int p"] assms(4,6) lenf by auto
  have "nat (int p + 8 * k) = p + 8 * nat k" using assms(7) by simp
  moreover have "8 * nat k + 8 \<le> length pages" using assms(3,7,8) by simp
  ultimately have "phys_int f la (nat (int p + 8 * k)) 8 = entry_at pages (nat k)"
    using phys_part [OF assms(1,2)] by (simp add: phys_int_def entry_at_def)
  moreover have "nat k < 1536" using assms(8) by simp
  ultimately show ?thesis using e lenf assms(7,8) by (simp add: phys_entry_def)
qed

definition kernel_cr3 :: "bytes \<Rightarrow> nat \<Rightarrow> int" where
  "kernel_cr3 f la = phys_int f la (la + 84 + 12 + 24) 4"

definition kernel_stub :: "bytes \<Rightarrow> nat \<Rightarrow> nat" where
  "kernel_stub f la = nat (phys_int f la (la + 84 + 12 + 57) 4)"

definition kernel_main :: "bytes \<Rightarrow> nat \<Rightarrow> nat" where
  "kernel_main f la = nat (phys_int f la (kernel_stub f la + 22) 8)"

lemma kernel_chain:
  assumes "build_long_mode_kernel user64 data_b la = Inr f" and room: "la + length f \<le> 2 ^ 32"
  shows "kernel_cr3 f la mod 4096 = 0"
    and "\<And>va. 0 \<le> va \<Longrightarrow> va < 2 ^ 48 \<Longrightarrow>
      page_walk (phys_entry f la) (kernel_cr3 f la) va = (if va < 2 ^ 30 then Some va else None)"
    and "kernel_stub f la mod 16 = 0"
    and "build_long_mode_stub64 (int (kernel_main f la)) = Inr (phys f la (kernel_stub f la) 32)"
    and "kernel_main f la mod 16 = 0"
    and "phys f la (kernel_main f la) (length user64 + length data_b + 3) =
      user64 @ data_b @ [0xF4, 0xEB, 0xFE]"
    and "la \<le> kernel_main f la"
proof -
  from kernel_parts [OF assms(1)] obtain hdr mb tramp pages gdtr6 gdt stub z1 z2 z3 z4 l where
    k: "l = kernel_layout (la + 84) 75 40 32"
    "f = hdr @ mb @ tramp @ z1 @ pages @ gdtr6 @ z2 @ gdt @ z3 @ stub @ z4 @ user64 @ data_b @
      [0xF4, 0xEB, 0xFE]"
    "length hdr = 84" "length mb = 12" "length tramp = 63" "length (mb @ tramp @ z1) = pml4_off l"
    "length pages = 12288" "length gdtr6 = 6" "length (mb @ tramp @ z1 @ pages @ gdtr6 @ z2) = gdt_off l"
    "length gdt = 40" "length (mb @ tramp @ z1 @ pages @ gdtr6 @ z2 @ gdt @ z3) = stub_off l"
    "length stub = 32"
    "length (mb @ tramp @ z1 @ pages @ gdtr6 @ z2 @ gdt @ z3 @ stub @ z4) = user_off l"
    "build_multiboot_header = Inr mb" "build_gdt = Inr gdt"
    "build_trampoline32 (int (la + 84 + pml4_off l)) (int (la + 84 + gdtr_off l))
       (int (la + 84 + stub_off l)) = Inr tramp"
    "build_long_mode_stub64 (int (la + 84 + user_off l)) = Inr stub"
    "patch_page_tables (int (la + 84 + pml4_off l)) (int (la + 84 + (pml4_off l + 4096)))
       (int (la + 84 + (pml4_off l + 4096 + 4096))) (replicate (4096 * 3) 0) = Inr pages"
    "pack [(H, int (length gdt) - 1), (I, int (la + 84 + gdt_off l) AND 0xFFFFFFFF)] = Inr gdtr6"
    "unpack EHDR32 (drop 16 f) ! 3 = int (la + 84 + 12)"
    "unpack PHDR32 (drop 52 f) = [1, 0, int la, int la, int (length f), int (length f), 7, int PAGE]"
    "la < 2 ^ 32" "length f < 2 ^ 32"
    by (rule kernel_parts [OF assms(1)])
  define P S U where psu: "P = la + 84 + pml4_off l" "S = la + 84 + stub_off l" "U = la + 84 + user_off l"
  have al: "4096 dvd P" "16 dvd S" "16 dvd U" unfolding psu by (rule layout_aligned [OF k(1)])+
  have mem: "f = (hdr @ mb) @ tramp @ (z1 @ pages @ gdtr6 @ z2 @ gdt @ z3 @ stub @ z4 @ user64 @
        data_b @ [0xF4, 0xEB, 0xFE])"
      "f = (hdr @ mb @ tramp @ z1) @ pages @ (gdtr6 @ z2 @ gdt @ z3 @ stub @ z4 @ user64 @ data_b @
        [0xF4, 0xEB, 0xFE])"
      "f = (hdr @ mb @ tramp @ z1 @ pages @ gdtr6 @ z2 @ gdt @ z3) @ stub @ (z4 @ user64 @ data_b @
        [0xF4, 0xEB, 0xFE])"
      "f = (hdr @ mb @ tramp @ z1 @ pages @ gdtr6 @ z2 @ gdt @ z3 @ stub @ z4) @
        (user64 @ data_b @ [0xF4, 0xEB, 0xFE]) @ []"
    by (simp_all only: k(2) append_assoc append_Nil2)
  have at: "la + 84 + 12 = la + length (hdr @ mb)" "P = la + length (hdr @ mb @ tramp @ z1)"
      "S = la + length (hdr @ mb @ tramp @ z1 @ pages @ gdtr6 @ z2 @ gdt @ z3)"
      "U = la + length (hdr @ mb @ tramp @ z1 @ pages @ gdtr6 @ z2 @ gdt @ z3 @ stub @ z4)"
    using k(3,4,6,11,13) unfolding psu length_append [of hdr] by linarith+
  have len: "length f = length (hdr @ mb @ tramp @ z1) + 12288 + length (gdtr6 @ z2 @ gdt @ z3 @ stub @ z4 @
        user64 @ data_b @ [0xF4, 0xEB, 0xFE])"
      "length f = length (hdr @ mb @ tramp @ z1 @ pages @ gdtr6 @ z2 @ gdt @ z3) + 32 +
        length (z4 @ user64 @ data_b @ [0xF4, 0xEB, 0xFE])"
      "length f = length (hdr @ mb @ tramp @ z1 @ pages @ gdtr6 @ z2 @ gdt @ z3 @ stub @ z4) +
        length (user64 @ data_b) + 3"
    by (simp_all only: k(2,7,12) length_append list.size)
  have b: "P < 2 ^ 32" "S < 2 ^ 32" "U < 2 ^ 32" using room len at by linarith+
  have "(2 :: nat) ^ 32 < 2 ^ 33" by simp
  then have b4: "la + length f < 2 ^ 33" using room by (rule le_less_trans [rotated])
  have tr: "phys f la (la + 84 + 12 + i) n = slice i n tramp" if "i + n \<le> 63" for i n
    using phys_part [OF mem(1) at(1)] that k(5) by simp
  have st: "phys f la (S + i) n = slice i n stub" if "i + n \<le> 32" for i n
    using phys_part [OF mem(3) at(3)] that k(12) by simp
  note fields = trampoline_fields [OF k(16) [folded psu]]
  have small: "int P mod 2 ^ 32 = int P" "int S mod 2 ^ 32 = int S"
    using b by (auto intro!: mod_pos_pos_trivial simp flip: int_less_exp)
  have cr3: "kernel_cr3 f la = int P"
    using tr [of 24 4] fields(1) small by (simp add: kernel_cr3_def phys_int_def)
  have S: "kernel_stub f la = S"
    using tr [of 57 4] fields(3) small by (simp add: kernel_stub_def phys_int_def)
  have U: "kernel_main f la = U"
    using st [of 22 8] stub_field [OF k(17) [folded psu]] by (simp add: kernel_main_def S phys_int_def)
  have rd: "phys_entry f la (int P + 8 * q) = Some (table_value (int P + 4096) (int P + 8192) 512 (nat q))"
    if "0 \<le> q" "q < 1536" for q
    by (rule patched_entries [OF mem(2) at(2) k(7) b4 al(1)]) (use k(18) that psu in \<open>simp_all add: add.assoc\<close>)
  have "int P < 2 ^ 32" using b(1) by (simp flip: int_less_exp)
  moreover have "4096 dvd int P" using al(1) by (metis of_nat_dvd_iff of_nat_numeral)
  ultimately show "page_walk (phys_entry f la) (kernel_cr3 f la) va = (if va < 2 ^ 30 then Some va else None)"
    if "0 \<le> va" "va < 2 ^ 48" for va
    unfolding cr3 by (intro identity_walk rd that) simp_all
  show "kernel_cr3 f la mod 4096 = 0" using \<open>4096 dvd int P\<close> by (simp add: cr3)
  show "kernel_stub f la mod 16 = 0" "kernel_main f la mod 16 = 0" using al by (simp_all add: S U)
  show "la \<le> kernel_main f la" by (simp add: U psu)
  show "build_long_mode_stub64 (int (kernel_main f la)) = Inr (phys f la (kernel_stub f la) 32)"
    using st [of 0 32] k(12) k(17) by (simp add: S U psu slice_def)
  show "phys f la (kernel_main f la) (length user64 + length data_b + 3) =
      user64 @ data_b @ [0xF4, 0xEB, 0xFE]"
    using phys_part [OF mem(4) at(4), of 0 "length user64 + length data_b + 3"]
    by (simp add: U slice_def)
qed

subsection \<open>When the image is built\<close>

text \<open>No assertion of the builder can fail: only a size beyond 4 GiB makes it raise.\<close>

lemma layout_bound:
  "user_off (kernel_layout cs 75 40 32) < 16660"
proof -
  let ?l = "kernel_layout cs 75 40 32"
  have b: "0 < a \<Longrightarrow> advance a cs off < off + a" for a off
    using advance_least [of a off cs] by simp
  have "pml4_off ?l < 75 + 4096" "gdtr_off ?l = pml4_off ?l + 12288" "gdt_off ?l < gdtr_off ?l + 6 + 8"
    "stub_off ?l < gdt_off ?l + 40 + 16" "user_off ?l < stub_off ?l + 32 + 16"
    unfolding kernel_layout_def Let_def layout.simps
    using b [of 4096 75] by (simp, simp, intro b, simp, intro b, simp, intro b, simp)
  then show ?thesis by linarith
qed

lemma pack1: "0 \<le> v \<Longrightarrow> v < 256 ^ fmt_width f \<Longrightarrow> pack [(f, v)] = Inr (to_bytes_le (fmt_width f) v)"
  by (simp add: pack_le_def)

lemma trampoline_ok: "\<exists>t. build_trampoline32 a b c = Inr t"
proof -
  have "pack [(H, 8)] = Inr (to_bytes_le 2 8)" using pack1 [of 8 H] by simp
  then show ?thesis unfolding build_trampoline32_def kb_u32_eq bindE.simps(2)
    by (simp only: bindE.simps) blast
qed

lemma stub_ok:
  assumes "0 \<le> k" "k < 2 ^ 64"
  shows "\<exists>s. build_long_mode_stub64 k = Inr s"
proof -
  have "pack [(Q, k)] = Inr (to_bytes_le 8 k)" "pack [(Q, 0x90000)] = Inr (to_bytes_le 8 0x90000)"
    using pack1 [of k Q] pack1 [of "0x90000" Q] assms by simp_all
  then show ?thesis unfolding build_long_mode_stub64_def by (simp only: bindE.simps) blast
qed

lemma elf32_ok:
  assumes "la + 84 + off < 2 ^ 32" "84 + length code + length data < 2 ^ 32"
  shows "\<exists>f. build_elf32_multiboot code data off la = Inr f \<and> length f = 84 + length code + length data"
proof -
  let ?hv = "[2, 0x03, 1, int (la + 84 + off), 52, 0, 0, 52, 32, 1, 0, 0, 0]"
  let ?pv = "[1, 0, int la, int la, int (84 + length code + length data),
     int (84 + length code + length data), 7, int PAGE]"
  have lt: "int (la + 84 + off) < 2 ^ 32" "int la < 2 ^ 32" "int (84 + length code + length data) < 2 ^ 32"
    using assms unfolding int_less_exp by simp_all
  obtain h p where h: "pack_fmt EHDR32 ?hv = Inr h" and p: "pack_fmt PHDR32 ?pv = Inr p"
    using lt pack_fmt_ok_iff [of EHDR32 ?hv] pack_fmt_ok_iff [of PHDR32 ?pv]
    by (auto simp: EHDR32_def PHDR32_def PAGE_def)
  then show ?thesis
    using ehdr32_pack(1) [OF h] phdr32_pack(1) [OF p]
    by (simp add: build_elf32_multiboot_def Let_def)
qed

lemma kernel_builds:
  assumes room: "la + 17000 + length user64 + length data_b \<le> 2 ^ 32"
  shows "\<exists>f. build_long_mode_kernel user64 data_b la = Inr f \<and> la + length f \<le> 2 ^ 32"
proof -
  have "build_multiboot_header = Inr (projr build_multiboot_header)" by code_simp
  then obtain mb where mb: "build_multiboot_header = Inr mb" by blast
  have "build_gdt = Inr (projr build_gdt)" by code_simp
  then obtain gdt where gdt: "build_gdt = Inr gdt" by blast
  define l where "l = kernel_layout (la + 84) 75 40 32"
  have u: "user_off l < 16660" unfolding l_def by (rule layout_bound)
  note fl = layout_facts [OF l_def]
  have al: "(la + HEADER_TOTAL + pml4_off l) mod 4096 = 0"
    "(la + HEADER_TOTAL + (pml4_off l + 4096)) mod 4096 = 0"
    "(la + HEADER_TOTAL + (pml4_off l + 4096 + 4096)) mod 4096 = 0"
    using fl(2) unfolding kernel_header_total mod_eq_0_iff_dvd
    by (simp_all only: add.assoc [symmetric] dvd_add_triv_right_iff)
  obtain t0 where t0: "build_trampoline32 0x2000 0x3000 0x100000 = Inr t0" using trampoline_ok by blast
  obtain s0 where s0: "build_long_mode_stub64 0x100000 = Inr s0" using stub_ok [of "0x100000"] by auto
  let ?p = "\<lambda>n. int (la + HEADER_TOTAL + n)"
  obtain t where t: "build_trampoline32 (?p (pml4_off l)) (?p (gdtr_off l)) (?p (stub_off l)) = Inr t"
    using trampoline_ok by blast
  have small: "la + HEADER_TOTAL + user_off l < 2 ^ 32"
    using room u unfolding kernel_header_total by linarith
  then have "?p (user_off l) < 2 ^ 32" unfolding int_less_exp .
  then have "?p (user_off l) < 2 ^ 64" by (rule order_less_trans) simp
  then obtain s where s: "build_long_mode_stub64 (?p (user_off l)) = Inr s"
    using stub_ok [of "?p (user_off l)"] by auto
  have dv: "4096 dvd la + HEADER_TOTAL + (pml4_off l + 4096)"
    "4096 dvd la + HEADER_TOTAL + (pml4_off l + 4096 + 4096)" using al by (simp_all add: mod_eq_0_iff_dvd)
  have lt: "la + HEADER_TOTAL + (pml4_off l + 4096) + 3 < 2 ^ 64"
    "la + HEADER_TOTAL + (pml4_off l + 4096 + 4096) + 3 < 2 ^ 64"
    using small fl by (auto intro: order_less_trans [of _ "2 ^ 32"])
  obtain pages where pg: "patch_page_tables (?p (pml4_off l)) (?p (pml4_off l + 4096))
      (?p (pml4_off l + 4096 + 4096)) (replicate (4096 * 3) 0) = Inr pages" "length pages = 12288"
    using patch_page_tables [OF dv lt] by auto
  have len: "length mb = 12" "length gdt = 40" "length t0 = 63" "length t = 63" "length s0 = 32" "length s = 32"
    by (rule header_length [OF mb], rule gdt_length [OF gdt], rule trampoline_length [OF t0],
      rule trampoline_length [OF t], rule stub_length [OF s0], rule stub_length [OF s])
  have l: "kernel_layout (la + HEADER_TOTAL) (length mb + length t0) (length gdt) (length s0) = l"
    by (simp add: l_def len kernel_header_total)
  have "?p (gdt_off l) AND 0xFFFFFFFF < 2 ^ 32"
    using take_bit_eq_mask [of 32 "?p (gdt_off l)"] take_bit_int_less_exp [of 32 "?p (gdt_off l)"]
    by (simp add: mask_eq_exp_minus_1)
  then obtain g6 where g6: "pack [(H, int (length gdt) - 1), (I, ?p (gdt_off l) AND 0xFFFFFFFF)] = Inr g6"
    by (simp add: pack_le_def len)
  define blob where "blob = pad_to (user_off l) 0x90 (pad_to (stub_off l) 0x90 (pad_to (gdt_off l) 0
    (pad_to (gdtr_off l) 0 (pad_to (pml4_off l) 0 (mb @ t) @ pages) @ g6) @ gdt) @ s) @ user64 @
    data_b @ [0xF4, 0xEB, 0xFE]"
  have "length g6 = 6" using le_length [OF g6] by simp
  then have blen: "length blob = user_off l + length user64 + length data_b + 3"
    using fl by (simp add: blob_def len pg(2) max_def)
  have "la + 84 + length mb < 2 ^ 32" "84 + length blob + length ([] :: bytes) < 2 ^ 32"
    using room u blen len(1) by simp_all
  from elf32_ok [OF this] obtain f where f: "build_elf32_multiboot blob [] (length mb) la = Inr f"
    "length f = 84 + length blob" by auto
  have "build_long_mode_kernel user64 data_b la = Inr f"
    unfolding build_long_mode_kernel_def mb gdt t0 s0 bindE.simps(2) Let_def l al require_def t s pg(1) g6
    using f(1) by (simp add: len blob_def)
  then show ?thesis using f(2) blen u room by simp
qed

end
