(* ===== verification/Elf_Debug.thy ===== *)
theory Elf_Debug
  imports Elf_Writer
begin

section \<open>The executable with line information (ACLM/elfwriter.py, \<open>build_elf64_exe_debug\<close>)\<close>

text \<open>
  LEB128 integers, the DWARF line program with its unit header, the compile unit and the file
  around them, in the order the code builds them; the LEB128 readers of the DWARF specification
  and an interpreter for the opcodes the program uses. Strings are given as their UTF-8 bytes.
\<close>

subsection \<open>LEB128\<close>

text \<open>The local functions \<open>uleb\<close> and \<open>sleb2\<close>; \<open>uleb\<close> is only called on non-negative values.\<close>

fun uleb :: "nat \<Rightarrow> bytes" where
  "uleb n =
    (if n div 128 = 0 then [of_nat (n mod 128)]
     else of_nat (n mod 128 + 128) # uleb (n div 128))"

declare uleb.simps [simp del]

function sleb2 :: "int \<Rightarrow> bytes" where
  "sleb2 v =
    (let b = v mod 128; v' = v div 128 in
     if v' = 0 \<and> b < 64 then [word_of_int b]
     else if v' = - 1 \<and> 64 \<le> b then [word_of_int b]
     else word_of_int (b + 128) # sleb2 v')"
  by auto

lemma sleb2_decreases:
  fixes v :: int
  assumes "\<not> (v div 128 = 0 \<and> v mod 128 < 64)" and "\<not> (v div 128 = - 1 \<and> 64 \<le> v mod 128)"
  shows "nat \<bar>v div 128\<bar> < nat \<bar>v\<bar>"
proof (cases "0 \<le> v")
  case True
  have "v \<noteq> 0" using assms(1) by auto
  with True show ?thesis by (simp add: nat_less_iff int_div_less_self)
next
  case False
  then have "v div 128 < 0" by simp
  moreover have "v < v div 128"
  proof (rule ccontr)
    assume "\<not> v < v div 128"
    moreover have "v = 128 * (v div 128) + v mod 128" by simp
    ultimately have "127 * (v div 128) + v mod 128 \<le> 0 \<and> 0 \<le> 127 * (v div 128) + v mod 128 \<or>
        127 * (v div 128) + v mod 128 \<ge> 0" by linarith
    moreover have "v mod 128 < 128" by simp
    ultimately have "v div 128 = - 1" "v mod 128 = 127" using \<open>v div 128 < 0\<close> by linarith+
    with assms(2) show False by simp
  qed
  ultimately show ?thesis by (simp add: nat_less_iff)
qed

termination sleb2
proof (relation "measure (\<lambda>v. nat \<bar>v\<bar>)")
  show "wf (measure (\<lambda>v :: int. nat \<bar>v\<bar>))" by (rule wf_measure)
next
  fix v b v' :: int
  assume "b = v mod 128" "v' = v div 128" "\<not> (v' = 0 \<and> b < 64)" "\<not> (v' = - 1 \<and> 64 \<le> b)"
  then show "(v', v) \<in> measure (\<lambda>v. nat \<bar>v\<bar>)"
    using sleb2_decreases [of v] by (simp only: in_measure simp_thms)
qed

declare sleb2.simps [simp del]

text \<open>The readers: the value and the bytes left.\<close>

fun read_uleb :: "bytes \<Rightarrow> (nat \<times> bytes) option" where
  "read_uleb [] = None"
| "read_uleb (b # bs) =
    (if unat b < 128 then Some (unat b, bs)
     else case read_uleb bs of None \<Rightarrow> None | Some (n, r) \<Rightarrow> Some (unat b - 128 + 128 * n, r))"

fun read_sleb :: "bytes \<Rightarrow> (int \<times> bytes) option" where
  "read_sleb [] = None"
| "read_sleb (b # bs) =
    (if uint b < 64 then Some (uint b, bs)
     else if uint b < 128 then Some (uint b - 128, bs)
     else case read_sleb bs of None \<Rightarrow> None | Some (n, r) \<Rightarrow> Some (uint b - 128 + 128 * n, r))"

lemma read_uleb: "read_uleb (uleb n @ bs) = Some (n, bs)"
proof (induction n rule: uleb.induct)
  case (1 n)
  have small: "unat (of_nat k :: byte) = k" if "k < 256" for k
    using that by (simp add: unat_of_nat)
  have "n mod 128 < 256" "n mod 128 + 128 < 256" using mod_less_divisor [of 128 n] by linarith+
  note m = this [THEN small]
  show ?case
  proof (cases "n div 128 = 0")
    case True
    then have "n < 128" by (simp add: div_eq_0_iff)
    with True m(1) show ?thesis by (subst uleb.simps) simp
  next
    case False
    with 1 m(2) show ?thesis by (subst uleb.simps) simp
  qed
qed

lemma read_sleb: "read_sleb (sleb2 v @ bs) = Some (v, bs)"
proof (induction v rule: sleb2.induct)
  case (1 v)
  have b: "0 \<le> v mod 128" "v mod 128 < 128" by simp_all
  have small: "uint (word_of_int k :: byte) = k" if "0 \<le> k \<and> k < 256" for k
    using that by (simp add: uint_byte_of_int)
  have "0 \<le> v mod 128 \<and> v mod 128 < 256" "0 \<le> v mod 128 + 128 \<and> v mod 128 + 128 < 256"
    using b by linarith+
  note m = this [THEN small]
  consider "v div 128 = 0 \<and> v mod 128 < 64" | "v div 128 = - 1 \<and> 64 \<le> v mod 128"
    | "\<not> (v div 128 = 0 \<and> v mod 128 < 64)" "\<not> (v div 128 = - 1 \<and> 64 \<le> v mod 128)" by blast
  then show ?case
  proof cases
    case 1
    then have "v mod 128 = v" using div_mult_mod_eq [of v 128] by linarith
    with 1 m(1) show ?thesis by (subst sleb2.simps) (simp add: Let_def)
  next
    case 2
    then have "v mod 128 = v + 128" using div_mult_mod_eq [of v 128] by linarith
    with 2 m(1) b show ?thesis by (subst sleb2.simps) (simp add: Let_def)
  next
    case 3
    with 1 m(2) b show ?thesis by (subst sleb2.simps) (auto simp: Let_def)
  qed
qed

subsection \<open>The line program\<close>

text \<open>One turn of the loop over the sorted entries: \<open>st = (cur_off, cur_line)\<close> and the opcodes.
  A non-zero line delta appends \<open>3\<close> before the test of its size and again after it, and for
  small negative deltas a byte of its own in between, as the source does.\<close>

definition line_entry :: "nat \<times> int \<Rightarrow> nat \<times> int \<Rightarrow> bytes \<times> (nat \<times> int)" where
  "line_entry st e =
    (case (st, e) of ((cur_off, cur_line), (off, line)) \<Rightarrow>
      (let pc = (if cur_off < off then [2] @ uleb (off - cur_off) else []);
           dline = line - cur_line;
           ln = (if dline \<noteq> 0 then
                   [3] @ (if -64 \<le> dline \<and> dline \<le> 63 then
                            [3] @ (if dline < 0 then [word_of_int ((dline AND 0x7F) OR
                                     (if dline < 0 \<and> drop_bit 6 dline = -1 then 0x40 else 0))]
                                   else []) @ [3] @ sleb2 dline
                          else [3] @ sleb2 dline)
                 else []) in
       (pc @ ln @ [1], (max cur_off off, line))))"

fun line_loop :: "nat \<times> int \<Rightarrow> (nat \<times> int) list \<Rightarrow> bytes" where
  "line_loop st [] = []"
| "line_loop st (e # es) = (case line_entry st e of (bs, st') \<Rightarrow> bs @ line_loop st' es)"

definition emit_ext :: "byte \<Rightarrow> bytes \<Rightarrow> bytes" where
  "emit_ext op' payload = [0] @ uleb (1 + length payload) @ [op'] @ payload"

definition code_base :: nat where
  "code_base = LOAD_VADDR + EHDR_SIZE + PHDR_SIZE"

definition line_program :: "(nat \<times> int) list \<Rightarrow> bytes" where
  "line_program line_entries =
    emit_ext 2 (to_bytes_le 8 (int code_base)) @ [4] @ uleb 1 @
    line_loop (0, 1) (sort_key fst line_entries) @ emit_ext 1 []"

text \<open>\<open>prologue[header_start:]\<close>: the fields after \<open>header_length\<close>.\<close>

definition line_header :: "bytes \<Rightarrow> bytes" where
  "line_header source_path =
    [1, 1, 1, word_of_int (- 5), 14, 13] @ [0, 1, 1, 1, 1, 0, 0, 0, 1, 0, 0, 1] @ [0] @
    source_path @ [0] @ uleb 0 @ uleb 0 @ uleb 0 @ [0]"

definition debug_line_section :: "bytes \<Rightarrow> (nat \<times> int) list \<Rightarrow> bytes res" where
  "debug_line_section source_path line_entries =
    bindE (pack [(H, 4), (I, int (length (line_header source_path)))]) (\<lambda>h.
    let body = h @ line_header source_path @ line_program line_entries in
    bindE (pack [(I, int (length body))]) (\<lambda>l. Inr (l @ body)))"

subsection \<open>The compile unit\<close>

definition abbrev_section :: bytes where
  "abbrev_section =
    uleb 1 @ uleb 17 @ [1] @ uleb 0x03 @ [0x08] @ uleb 0x11 @ [0x01] @ uleb 0x12 @ [0x01] @
    uleb 0x10 @ [0x06] @ [0, 0] @ [0]"

definition info_section :: "bytes \<Rightarrow> nat \<Rightarrow> bytes res" where
  "info_section source_path code_len =
    bindE (pack [(H, 4), (I, 0)]) (\<lambda>h.
    bindE (pack [(Q, int code_base), (Q, int (code_base + code_len)), (I, 0)]) (\<lambda>t.
    let info_body = h @ [8] @ uleb 1 @ source_path @ [0] @ t @ [0] in
    bindE (pack [(I, int (length info_body))]) (\<lambda>l. Inr (l @ info_body))))"

subsection \<open>The file\<close>

definition ascii :: "string \<Rightarrow> bytes" where
  "ascii s = map of_char s"

definition shstr :: bytes where
  "shstr = [0] @ ascii ''.debug_line'' @ [0] @ ascii ''.debug_info'' @ [0] @
     ascii ''.debug_abbrev'' @ [0] @ ascii ''.shstrtab'' @ [0]"

text \<open>\<open>shstr.find(n)\<close> for a name that occurs.\<close>

fun find_sub :: "bytes \<Rightarrow> bytes \<Rightarrow> nat" where
  "find_sub x [] = 0"
| "find_sub x (y # ys) = (if take (length x) (y # ys) = x then 0 else Suc (find_sub x ys))"

definition section_header :: "int \<Rightarrow> int \<Rightarrow> int \<Rightarrow> int \<Rightarrow> bytes res" where
  "section_header name_off sh_type offset sz =
    pack_fmt [I, I, Q, Q, Q, Q, I, I, Q, Q] [name_off, sh_type, 0, 0, offset, sz, 0, 0, 1, 0]"

definition build_elf64_exe_debug ::
  "bytes \<Rightarrow> bytes \<Rightarrow> bytes \<Rightarrow> (nat \<times> int) list \<Rightarrow> nat \<Rightarrow> bytes res" where
  "build_elf64_exe_debug code data source_path line_entries0 entry_offset_in_code =
    (let line_entries = (if line_entries0 = [] then [(0, 1)] else line_entries0) in
     bindE (debug_line_section source_path line_entries) (\<lambda>debug_line.
     bindE (info_section source_path (length code)) (\<lambda>info.
     (let header_total = EHDR_SIZE + PHDR_SIZE;
          payload_end = header_total + length code + length data;
          shstr_off = align_up 8 payload_end;
          dl_off = align_up 8 (shstr_off + length shstr);
          di_off = align_up 8 (dl_off + length debug_line);
          da_off = align_up 8 (di_off + length info);
          shoff = align_up 8 (da_off + length abbrev_section);
          nm = (\<lambda>n. int (find_sub (ascii n) shstr));
          entry = LOAD_VADDR + header_total + entry_offset_in_code;
          filesz = payload_end in
      bindE (section_header 0 0 0 0) (\<lambda>s0.
      bindE (section_header (nm ''.debug_line'') 1 (int dl_off) (int (length debug_line))) (\<lambda>s1.
      bindE (section_header (nm ''.debug_info'') 1 (int di_off) (int (length info))) (\<lambda>s2.
      bindE (section_header (nm ''.debug_abbrev'') 1 (int da_off) (int (length abbrev_section))) (\<lambda>s3.
      bindE (section_header (nm ''.shstrtab'') 3 (int shstr_off) (int (length shstr))) (\<lambda>s4.
      bindE (pack_fmt EHDR64 [2, 0x3E, 1, int entry, int EHDR_SIZE, int shoff, 0, int EHDR_SIZE,
                              int PHDR_SIZE, 1, 64, 5, 4]) (\<lambda>ehdr.
      bindE (pack_fmt PHDR64 [1, 7, 0, int LOAD_VADDR, int LOAD_VADDR, int filesz, int filesz,
                              int PAGE]) (\<lambda>phdr.
      Inr (pad_to shoff 0 (pad_to da_off 0 (pad_to di_off 0 (pad_to dl_off 0
            (pad_to shstr_off 0 (e_ident 2 @ ehdr @ phdr @ code @ data) @ shstr)
            @ debug_line) @ info) @ abbrev_section)
           @ s0 @ s1 @ s2 @ s3 @ s4))))))))))))"

text \<open>The symbol listing of \<open>build_elf64_with_symtab\<close> behind the file; names are their UTF-8
  bytes and the hexadecimal offset is written as \<open>f"{off:x}"\<close> does.\<close>

definition hex_digit :: "nat \<Rightarrow> byte" where
  "hex_digit n = of_nat (if n < 10 then 48 + n else 87 + n)"

fun hex :: "nat \<Rightarrow> bytes" where
  "hex n = (if n < 16 then [hex_digit n] else hex (n div 16) @ [hex_digit (n mod 16)])"

declare hex.simps [simp del]

definition build_elf64_with_symtab ::
  "bytes \<Rightarrow> bytes \<Rightarrow> (bytes \<times> nat) list \<Rightarrow> nat \<Rightarrow> bytes res" where
  "build_elf64_with_symtab code data symbols entry_offset_in_code =
    bindE (build_elf64_exe_debug code data (ascii ''source.aclm'')
             ([(0, 1)] @ map (\<lambda>(_, off). (off, 1)) (take 20 symbols)) entry_offset_in_code) (\<lambda>base.
    Inr (base @ [10] @ ascii ''.symtab'' @ [10] @ ascii ''# ACLM_SYMBOL_TABLE_MARK'' @ [10] @
         concat (map (\<lambda>(name, off). name @ ascii ''=0x'' @ hex off @ [10]) symbols)))"

subsection \<open>Loading the file\<close>

text \<open>The code and data lie in the one segment, as in a file without line information; what follows
  is never loaded.\<close>

lemma pad_to_extends: "\<exists>z. y = x @ z \<Longrightarrow> \<exists>z. pad_to n v y @ b = x @ z"
  by (auto simp: pad_to_def)

lemma debug_parts:
  assumes "build_elf64_exe_debug code data sp les off = Inr blob"
  shows "entry64 (blob @ suf) = int (LOAD_VADDR + 120 + off)"
    and "segments64 (blob @ suf) = [\<lparr>s_type = 1, s_flags = 7, s_offset = 0, s_vaddr = int LOAD_VADDR,
      s_filesz = 120 + int (length code) + int (length data),
      s_memsz = 120 + int (length code) + int (length data)\<rparr>]"
    and "\<exists>pre post. blob @ suf = pre @ code @ data @ post \<and> length pre = 120"
proof -
  let ?pv = "[1, 7, 0, int LOAD_VADDR, int LOAD_VADDR, 120 + int (length code) + int (length data),
    120 + int (length code) + int (length data), int PAGE]"
  obtain h p shoff post where h: "pack_fmt EHDR64 [2, 0x3E, 1, int (LOAD_VADDR + 120 + off), 64, shoff,
      0, 64, 56, 1, 64, 5, 4] = Inr h" and p: "pack_fmt PHDR64 ?pv = Inr p"
    and blob: "blob @ suf = e_ident 2 @ h @ p @ code @ data @ post"
  proof -
    from assms [unfolded build_elf64_exe_debug_def Let_def] obtain h p x where
      "pack_fmt EHDR64 [2, 0x3E, 1, int (LOAD_VADDR + (EHDR_SIZE + PHDR_SIZE) + off),
        int EHDR_SIZE, x, 0, int EHDR_SIZE, int PHDR_SIZE, 1, 64, 5, 4] = Inr h"
      "pack_fmt PHDR64 [1, 7, 0, int LOAD_VADDR, int LOAD_VADDR,
        int (EHDR_SIZE + PHDR_SIZE + length code + length data),
        int (EHDR_SIZE + PHDR_SIZE + length code + length data), int PAGE] = Inr p"
      and b: "\<exists>n1 n2 n3 n4 n5 b1 b2 b3 b4 b5. blob = pad_to n5 0 (pad_to n4 0 (pad_to n3 0 (pad_to n2 0
        (pad_to n1 0 (e_ident 2 @ h @ p @ code @ data) @ b1) @ b2) @ b3) @ b4) @ b5"
      by (elim bindE_InrE) blast
    then have hp: "pack_fmt EHDR64 [2, 0x3E, 1, int (LOAD_VADDR + 120 + off), 64, x, 0, 64, 56, 1, 64,
        5, 4] = Inr h" "pack_fmt PHDR64 ?pv = Inr p"
      by (simp_all add: EHDR_SIZE_def PHDR_SIZE_def)
    have "\<exists>z. blob = (e_ident 2 @ h @ p @ code @ data) @ z"
      using b by (elim exE) (simp only:, intro pad_to_extends exI [of _ "[]"], rule append_Nil2 [symmetric])
    then show thesis using that [OF hp] by (metis append_assoc)
  qed
  note eh = ehdr64_pack [OF h, simplified] and ph = phdr64_pack [OF p, simplified]
  have hdr: "ehdr64 (blob @ suf) = [2, 0x3E, 1, int (LOAD_VADDR + 120 + off), 64, shoff, 0, 64, 56, 1,
      64, 5, 4]"
    unfolding blob by (rule ehdr64_pack(2) [OF h]) simp
  show "entry64 (blob @ suf) = int (LOAD_VADDR + 120 + off)" by (simp add: entry64_def hdr)
  have "drop 64 (blob @ suf) = p @ code @ data @ post" unfolding blob using eh(1) by simp
  then show "segments64 (blob @ suf) = [\<lparr>s_type = 1, s_flags = 7, s_offset = 0,
      s_vaddr = int LOAD_VADDR, s_filesz = 120 + int (length code) + int (length data),
      s_memsz = 120 + int (length code) + int (length data)\<rparr>]"
    using ph(2) [of "code @ data @ post"] by (simp add: segments64_def hdr segment_of_def)
  show "\<exists>pre post. blob @ suf = pre @ code @ data @ post \<and> length pre = 120"
    using eh(1) ph(1) blob by (intro exI [of _ "e_ident 2 @ h @ p"] exI [of _ post]) simp
qed

lemma symtab_loads:
  assumes "build_elf64_with_symtab code data syms off = Inr blob"
  shows "entry64 blob = int (LOAD_VADDR + 120 + off)"
    and "loaded blob (int (LOAD_VADDR + 120)) code 7"
    and "loaded blob (int (LOAD_VADDR + 120 + length code)) data 7"
proof -
  obtain b suf les where b: "build_elf64_exe_debug code data (ascii ''source.aclm'') les off = Inr b"
    and blob: "blob = b @ suf"
    using assms by (auto simp: build_elf64_with_symtab_def bindE_Inr_iff)
  note parts = debug_parts [OF b, of suf, folded blob]
  show "entry64 blob = int (LOAD_VADDR + 120 + off)" by (rule parts(1))
  obtain pre post where "blob = pre @ code @ data @ post" "length pre = 120" using parts(3) by blast
  from one_segment_loads [OF parts(2) this]
  show "loaded blob (int (LOAD_VADDR + 120)) code 7"
    "loaded blob (int (LOAD_VADDR + 120 + length code)) data 7" .
qed

lemma find_sub_le: "find_sub x ys \<le> length ys"
  by (induction ys) auto

lemma length_shstr: "length shstr < 2 ^ 8"
  by (simp add: shstr_def ascii_def)

lemma section_header_ok:
  assumes "0 \<le> n" "n < 2 ^ 32" "0 \<le> ty" "ty < 2 ^ 32" "0 \<le> off" "off < 2 ^ 64" "0 \<le> sz" "sz < 2 ^ 64"
  shows "\<exists>s. section_header n ty off sz = Inr s"
  using assms unfolding section_header_def by (subst pack_fmt_ok_iff) simp_all

lemma debug_writes:
  assumes dl: "debug_line_section sp (if les = [] then [(0, 1)] else les) = Inr dl"
    and di: "info_section sp (length code) = Inr di"
    and room: "length code + length data + length dl + length di + length abbrev_section + off < 2 ^ 62"
  shows "\<exists>blob. build_elf64_exe_debug code data sp les off = Inr blob"
proof -
  let ?pe = "EHDR_SIZE + PHDR_SIZE + length code + length data"
  define so where "so = align_up 8 ?pe"
  define lo where "lo = align_up 8 (so + length shstr)"
  define io where "io = align_up 8 (lo + length dl)"
  define ao where "ao = align_up 8 (io + length di)"
  define sh where "sh = align_up 8 (ao + length abbrev_section)"
  note up = align_up(2) [of 8, simplified]
  have b: "so < ?pe + 8" "lo < so + length shstr + 8" "io < lo + length dl + 8"
    "ao < io + length di + 8" "sh < ao + length abbrev_section + 8"
    unfolding so_def lo_def io_def ao_def sh_def by (rule up)+
  have big: "(2 :: nat) ^ 62 + 2 ^ 32 < 2 ^ 64" by simp
  have so: "so < 2 ^ 64" and lo: "lo < 2 ^ 64" and io: "io < 2 ^ 64" and ao: "ao < 2 ^ 64"
    and sh: "sh < 2 ^ 64" and pe: "?pe < 2 ^ 64" and en: "LOAD_VADDR + (EHDR_SIZE + PHDR_SIZE) + off < 2 ^ 64"
    and l: "length dl < 2 ^ 64" "length di < 2 ^ 64" "length abbrev_section < 2 ^ 64" "length shstr < 2 ^ 64"
    using b room length_shstr by (simp_all add: elf_consts)
  have q: "0 \<le> int n \<and> int n < 2 ^ 64" if "n < 2 ^ 64" for n
    using that unfolding int_less_exp by simp
  have nm: "0 \<le> int (find_sub x shstr) \<and> int (find_sub x shstr) < 2 ^ 32" for x
    using find_sub_le [of x shstr] length_shstr by simp
  note ex = section_header_ok [OF conjunct1 [OF nm] conjunct2 [OF nm] _ _ conjunct1 [OF q] conjunct2 [OF q]
      conjunct1 [OF q] conjunct2 [OF q]]
  obtain s0 where s0: "section_header 0 0 0 0 = Inr s0" using section_header_ok [of 0 0 0 0] by auto
  obtain s1 where s1: "section_header (int (find_sub (ascii ''.debug_line'') shstr)) 1 (int lo) (int (length dl)) = Inr s1"
    using ex [OF _ _ lo lo l(1) l(1), of 1] by auto
  obtain s2 where s2: "section_header (int (find_sub (ascii ''.debug_info'') shstr)) 1 (int io) (int (length di)) = Inr s2"
    using ex [OF _ _ io io l(2) l(2), of 1] by auto
  obtain s3 where s3: "section_header (int (find_sub (ascii ''.debug_abbrev'') shstr)) 1 (int ao) (int (length abbrev_section)) = Inr s3"
    using ex [OF _ _ ao ao l(3) l(3), of 1] by auto
  obtain s4 where s4: "section_header (int (find_sub (ascii ''.shstrtab'') shstr)) 3 (int so) (int (length shstr)) = Inr s4"
    using ex [OF _ _ so so l(4) l(4), of 3] by auto
  let ?hv = "[2, 0x3E, 1, int (LOAD_VADDR + (EHDR_SIZE + PHDR_SIZE) + off), int EHDR_SIZE, int sh, 0,
    int EHDR_SIZE, int PHDR_SIZE, 1, 64, 5, 4]"
  let ?pv = "[1, 7, 0, int LOAD_VADDR, int LOAD_VADDR, int ?pe, int ?pe, int PAGE]"
  obtain h where h: "pack_fmt EHDR64 ?hv = Inr h"
    using q [OF en] q [OF sh] pack_fmt_ok_iff [of EHDR64 ?hv] by (auto simp: EHDR64_def EHDR_SIZE_def PHDR_SIZE_def)
  obtain p where p: "pack_fmt PHDR64 ?pv = Inr p"
    using q [OF pe] pack_fmt_ok_iff [of PHDR64 ?pv] by (auto simp: PHDR64_def PAGE_def LOAD_VADDR_def)
  show ?thesis
    unfolding build_elf64_exe_debug_def Let_def dl di bindE.simps(2) so_def [symmetric] lo_def [symmetric]
      io_def [symmetric] ao_def [symmetric] sh_def [symmetric] s0 s1 s2 s3 s4 h p by blast
qed

lemma symtab_writes:
  assumes "debug_line_section (ascii ''source.aclm'') ([(0, 1)] @ map (\<lambda>(_, off). (off, 1)) (take 20 syms)) = Inr dl"
    and "info_section (ascii ''source.aclm'') (length code) = Inr di"
    and "length code + length data + length dl + length di + length abbrev_section + off < 2 ^ 62"
  shows "\<exists>blob. build_elf64_with_symtab code data syms off = Inr blob"
proof -
  have "\<exists>b. build_elf64_exe_debug code data (ascii ''source.aclm'')
      ([(0, 1)] @ map (\<lambda>(_, off). (off, 1)) (take 20 syms)) off = Inr b"
    by (rule debug_writes [OF _ assms(2,3)]) (use assms(1) in simp)
  then obtain b where "build_elf64_exe_debug code data (ascii ''source.aclm'')
      ([(0, 1)] @ map (\<lambda>(_, off). (off, 1)) (take 20 syms)) off = Inr b" ..
  then show ?thesis unfolding build_elf64_with_symtab_def by (simp only: bindE.simps) blast
qed

subsection \<open>Reading the line program back\<close>

text \<open>The line number machine of the DWARF standard for \<open>line_base = -5\<close>, \<open>line_range = 14\<close>,
  \<open>opcode_base = 13\<close>: the rows (address, line) of one sequence; \<open>None\<close> on an opcode the writer
  has no use for, on a truncated program or when the fuel runs out.\<close>

fun line_vm :: "nat \<Rightarrow> nat \<times> int \<Rightarrow> bytes \<Rightarrow> (nat \<times> int) list option" where
  "line_vm 0 st bs = None"
| "line_vm (Suc n) (pc, ln) bs =
    (case bs of [] \<Rightarrow> None
     | b # r \<Rightarrow>
        if b = 0 then
          (case read_uleb r of None \<Rightarrow> None
           | Some (k, r1) \<Rightarrow>
              if r1 = [] then None
              else if hd r1 = 2 \<and> k = 9 then
                line_vm n (nat (from_bytes_le (take 8 (tl r1))), ln) (drop 8 (tl r1))
              else if hd r1 = 1 \<and> k = 1 then Some [] else None)
        else if b = 1 then map_option (Cons (pc, ln)) (line_vm n (pc, ln) r)
        else if b = 2 then
          (case read_uleb r of None \<Rightarrow> None | Some (k, r1) \<Rightarrow> line_vm n (pc + k, ln) r1)
        else if b = 3 then
          (case read_sleb r of None \<Rightarrow> None | Some (k, r1) \<Rightarrow> line_vm n (pc, ln + k) r1)
        else if b = 4 then
          (case read_uleb r of None \<Rightarrow> None | Some (k, r1) \<Rightarrow> line_vm n (pc, ln) r1)
        else if 13 \<le> unat b then
          (let pc' = pc + (unat b - 13) div 14; ln' = ln + (int ((unat b - 13) mod 14) - 5) in
           map_option (Cons (pc', ln')) (line_vm n (pc', ln') r))
        else None)"

lemma uleb_small: "n < 128 \<Longrightarrow> uleb n = [of_nat n]"
  by (subst uleb.simps) simp

lemma line_vm_loop:
  assumes "sorted (map fst es)" and "\<forall>(off, l) \<in> set es. o' \<le> off \<and> l = 1"
  shows "\<exists>n. line_vm n (base + o', 1) (line_loop (o', 1) es @ emit_ext 1 []) =
    Some (map (\<lambda>(off, _). (base + off, 1)) es)"
  using assms
proof (induction es arbitrary: o')
  case Nil
  show ?case
    by (rule exI [of _ 1]) (simp add: emit_ext_def uleb_small)
next
  case (Cons e es)
  obtain off where e: "e = (off, 1)" and o: "o' \<le> off" using Cons.prems(2) by (cases e) auto
  have "\<forall>(off', l) \<in> set es. off \<le> off' \<and> l = 1"
    using Cons.prems by (fastforce simp: e)
  then obtain n where n: "line_vm n (base + off, 1) (line_loop (off, 1) es @ emit_ext 1 []) =
      Some (map (\<lambda>(off, _). (base + off, 1)) es)"
    using Cons.IH [of off] Cons.prems(1) by auto
  show ?case
  proof (cases "o' < off")
    case True
    then have "line_vm (Suc (Suc n)) (base + o', 1) (line_loop (o', 1) (e # es) @ emit_ext 1 []) =
        Some (map (\<lambda>(off, _). (base + off, 1)) (e # es))"
      using n by (simp add: e line_entry_def read_uleb max_def)
    then show ?thesis by blast
  next
    case False
    then have "o' = off" using o by simp
    then have "line_vm (Suc n) (base + o', 1) (line_loop (o', 1) (e # es) @ emit_ext 1 []) =
        Some (map (\<lambda>(off, _). (base + off, 1)) (e # es))"
      using n by (simp add: e line_entry_def)
    then show ?thesis by blast
  qed
qed

lemma line_program_rows:
  assumes "\<forall>(off, l) \<in> set es. l = 1"
  shows "\<exists>n. line_vm n (0, 1) (line_program es) =
    Some (map (\<lambda>(off, _). (code_base + off, 1)) (sort_key fst es))"
proof -
  have "\<forall>(off, l) \<in> set (sort_key fst es). 0 \<le> off \<and> l = 1" using assms by simp
  then obtain n where n: "line_vm n (code_base + 0, 1)
      (line_loop (0, 1) (sort_key fst es) @ emit_ext 1 []) =
      Some (map (\<lambda>(off, _). (code_base + off, 1)) (sort_key fst es))"
    using line_vm_loop [of "sort_key fst es" 0 code_base] by auto
  have cb: "nat (from_bytes_le (to_bytes_le 8 (int code_base))) = code_base"
    by (simp add: from_to_bytes_le code_base_def elf_consts)
  have "line_vm (Suc (Suc n)) (0, 1) (line_program es) =
      Some (map (\<lambda>(off, _). (code_base + off, 1)) (sort_key fst es))"
    using n cb by (simp add: line_program_def emit_ext_def uleb_small del: to_bytes_le.simps)
  then show ?thesis by blast
qed

text \<open>A changed line number: the duplicated opcode makes the table wrong already for one entry.\<close>

lemma line_program_shift:
  "line_vm (Suc (Suc (Suc (Suc (Suc (Suc 0)))))) (0, 1) (line_program [(0, 3)]) = Some [(code_base, 6)]"
proof -
  have cb: "nat (from_bytes_le (to_bytes_le 8 (int code_base))) = code_base"
    by (simp add: from_to_bytes_le code_base_def elf_consts)
  have "sleb2 2 = [2]" by (subst sleb2.simps) simp
  then have "line_loop (0, 1) [(0, 3)] = [3, 3, 3, 2, 1]" by (simp add: line_entry_def)
  then have "line_program [(0, 3)] =
      [0, 9, 2] @ to_bytes_le 8 (int code_base) @ [4, 1, 3, 3, 3, 2, 1, 0, 1, 1]"
    by (simp add: line_program_def emit_ext_def uleb_small del: line_loop.simps to_bytes_le.simps)
  then show ?thesis using cb by simp
qed

end
