(* ===== verification/Codegen.thy ===== *)
theory Codegen
  imports Codegen_Emit Kernel_Boot Elf_Debug "HOL-Library.List_Lexorder" "HOL-Library.Char_ord"
begin

section \<open>Whole programs (ACLM/codegen.py, \<open>generate\<close>)\<close>

text \<open>
  The passes over a program: structures, data section, code, link with the addresses of labels and
  data, size assertions, image. \<open>generate_code\<close> is the part up to and including \<open>link\<close>,
  \<open>write_image\<close> the choice of the output file.
\<close>

subsection \<open>Structures and data\<close>

text \<open>The fields of a structure with their offsets, and the size.\<close>

fun struct_fields :: "int \<Rightarrow> (string \<times> int) list \<Rightarrow> (string \<times> int) list \<Rightarrow> struct_info" where
  "struct_fields off [] fs = \<lparr>si_fields = fs, si_size = off\<rparr>"
| "struct_fields off ((fname, fsize) # rest) fs =
    struct_fields (off + fsize) rest (AList.update fname off fs)"

fun collect_structs :: "stmt list \<Rightarrow> (string \<times> struct_info) list \<Rightarrow> (string \<times> struct_info) list" where
  "collect_structs [] ss = ss"
| "collect_structs ((ln, StructDef name flds) # rest) ss =
    collect_structs rest (AList.update name (struct_fields 0 flds []) ss)"
| "collect_structs ((ln, FnDef name args body lcls) # rest) ss =
    collect_structs rest (collect_structs body ss)"
| "collect_structs (s # rest) ss = collect_structs rest ss"

definition add_data :: "string \<Rightarrow> int \<Rightarrow> bytes \<Rightarrow> gen \<Rightarrow> gen" where
  "add_data name off bs g =
    g\<lparr>data_layout := AList.update name off (data_layout g), data_bytes := data_bytes g @ bs\<rparr>"

text \<open>\<open>s.encode("utf-8")\<close>: strings are their UTF-8 bytes.\<close>

definition encode_str :: "string \<Rightarrow> bytes" where
  "encode_str s = map (\<lambda>c. of_nat (of_char c)) s"

definition alloc_bytes :: "alloc_size \<Rightarrow> gen \<Rightarrow> int res" where
  "alloc_bytes sz g =
    (case sz of SizeNum n \<Rightarrow> Inr n
     | SizeOf s \<Rightarrow> (case map_of (structs g) s of None \<Rightarrow> Inl (Codegen s) | Some si \<Rightarrow> Inr (si_size si)))"

text \<open>One statement of the data pass; the running offset is threaded along.\<close>

fun collect_one :: "node \<Rightarrow> int \<times> gen \<Rightarrow> (int \<times> gen) res" where
  "collect_one (DataAlloc name sz) (off, g) =
    bindE (alloc_bytes sz g) (\<lambda>n. Inr (off + n, add_data name off (zeros n) g))"
| "collect_one (DataAlign a) (off, g) =
    (if a = 0 then Inl ZeroDivision
     else let pad = (a - off mod a) mod a in
       Inr (off + pad, g\<lparr>data_bytes := data_bytes g @ zeros pad\<rparr>))"
| "collect_one (DataBytes name vals) (off, g) =
    Inr (off + int (length vals),
      add_data name off vals (g\<lparr>string_lens := AList.update name (int (length vals)) (string_lens g)\<rparr>))"
| "collect_one (DataConst name (Number v)) (off, g) =
    Inr (off + 8, add_data name off (u64 v)
      (g\<lparr>data_consts := AList.update name v (data_consts g)\<rparr>))"
| "collect_one (DataConst name (Str s)) (off, g) =
    (let raw = encode_str s @ [0] in
     Inr (off + int (length raw), add_data name off raw
       (g\<lparr>string_lens := AList.update name (int (length raw) - 1) (string_lens g)\<rparr>)))"
| "collect_one _ (off, g) = Inr (off, g)"

definition collect_data :: "stmt list \<Rightarrow> cg" where
  "collect_data stmts g =
    bindE (seqE (map (\<lambda>(ln, s). collect_one s) stmts) (0, g)) (\<lambda>(off, g'). Inr g')"

subsection \<open>Scans of the top level\<close>

definition uses_thread :: "stmt list \<Rightarrow> bool" where
  "uses_thread stmts = list_ex (\<lambda>(ln, s). case s of
     NetStmt (ThreadSpawn _ _) \<Rightarrow> True | NetStmt (ThreadJoin _) \<Rightarrow> True
   | NetStmt ThreadJoinAll \<Rightarrow> True | NetStmt (ThreadExit _) \<Rightarrow> True | _ \<Rightarrow> False) stmts"

definition uses_pulse :: "stmt list \<Rightarrow> bool" where
  "uses_pulse stmts = list_ex (\<lambda>(ln, s). case s of
     RunStmt (PulseSleep _) \<Rightarrow> True | RunStmt (PulseNow _) \<Rightarrow> True | _ \<Rightarrow> False) stmts"

definition ends_exit :: "stmt list \<Rightarrow> bool" where
  "ends_exit stmts =
    (if stmts = [] then False
     else case snd (last stmts) of
       SysCall (SysName s) _ \<Rightarrow> py_lower s \<in> set [''exit'', ''60'']
     | SysCall (SysNum n) _ \<Rightarrow> n = 60
     | _ \<Rightarrow> False)"

definition is_fn :: "stmt \<Rightarrow> bool" where
  "is_fn s = (case snd s of FnDef _ _ _ _ \<Rightarrow> True | _ \<Rightarrow> False)"

definition has_node :: "node \<Rightarrow> stmt list \<Rightarrow> bool" where
  "has_node n stmts = list_ex (\<lambda>s. snd s = n) stmts"

subsection \<open>Link addresses\<close>

definition starts_data :: "string \<Rightarrow> bool" where
  "starts_data n \<longleftrightarrow> take 7 n = ''__data_''"

text \<open>\<open>offs\<close>: the labels, then \<open>__data_<name>\<close> behind the code, moved by the padding of a W^X
  file.\<close>

definition link_offsets :: "gen \<Rightarrow> (string \<times> int) list" where
  "link_offsets g =
    (let code_len = length (code (g_asm g));
         offs = fold (\<lambda>(n, off). AList.update (''__data_'' @ n) (int code_len + off))
           (data_layout g) (label_table (g_asm g)) in
     if use_wx g then
       (let (code_off, data_off) = wx_code_data_file_offsets code_len;
            pad = int data_off - int code_off - int code_len in
        map (\<lambda>(n, off). if starts_data n then (n, off + pad) else (n, off)) offs)
     else offs)"

subsection \<open>Size assertions\<close>

definition assert_size_of :: "gen \<Rightarrow> bytes \<Rightarrow> string \<times> int \<times> string \<times> nat \<Rightarrow> int" where
  "assert_size_of g code_b = (\<lambda>(name, limit, opn, off).
    (let start = (case map_of (labels (g_asm g)) (''__lbl_'' @ name) of Some p \<Rightarrow> p
           | None \<Rightarrow> (case map_of (labels (g_asm g)) name of Some p \<Rightarrow> p | None \<Rightarrow> 0)) in
     if start \<le> off then int off - int start else int (length code_b)))"

definition run_asserts :: "bytes \<Rightarrow> bytes \<Rightarrow> gen \<Rightarrow> unit res" where
  "run_asserts code_b data_b g =
    (if list_ex (\<lambda>(name, limit, opn, off).
          (opn = ''eq'' \<and> assert_size_of g code_b (name, limit, opn, off) \<noteq> limit) \<or>
          (opn = ''le'' \<and> assert_size_of g code_b (name, limit, opn, off) > limit)) (assert_bytes g)
     then Inl (Codegen ''assert:bytes'')
     else if list_ex (\<lambda>(what, limit).
          int (length (if what = ''code'' then code_b else data_b)) > limit) (assert_sizes g)
     then Inl (Codegen ''assert:size'')
     else Inr ())"

subsection \<open>The passes together\<close>

definition append_runtime :: "string \<Rightarrow> nat \<Rightarrow> cg" where
  "append_runtime name n g =
    Inr (add_data name (int (length (data_bytes g))) (replicate n 0) g)"

definition default_exit :: "cg" where
  "default_exit = seqE [asm_do (mov_reg_imm64 ''rax'' 60),
     asm_do (xor_reg_reg ''rdi'' ''rdi''), asm_do syscall]"

definition emit_program :: "program \<Rightarrow> cg" where
  "emit_program stmts = seqE [
    (if has_node TargetBaremetal stmts then set_baremetal else skip),
    (\<lambda>g. Inr (g\<lparr>structs := collect_structs stmts (structs g)\<rparr>)),
    collect_data stmts,
    (if has_node MetalDeterministic stmts then set_deterministic else skip),
    (if uses_pulse stmts then append_runtime ''__timespec'' 16 else skip),
    (if uses_thread stmts then append_runtime ''__thr_futex'' 24 else skip),
    seqE (map emit (filter (\<lambda>s. \<not> is_fn s) stmts)),
    (\<lambda>g. if \<not> baremetal g \<and> \<not> ends_exit stmts then default_exit g else Inr g),
    seqE (map emit (filter is_fn stmts))]"

definition generate_code :: "program \<Rightarrow> cg" where
  "generate_code stmts = seqE [emit_program stmts,
    (\<lambda>g. bindE (link (Some (link_offsets g)) (g_asm g)) (\<lambda>a. Inr (g\<lparr>g_asm := a\<rparr>)))]"

definition write_image :: "gen \<Rightarrow> bytes res" where
  "write_image g =
    (let code_b = code (g_asm g); data_b = data_bytes g in
     bindE (run_asserts code_b data_b g) (\<lambda>_.
       if baremetal g then
         build_long_mode_kernel (if code_b \<noteq> [] then code_b else [0xF4, 0xEB, 0xFE]) data_b LOAD_ADDR
       else if debug_dwarf g then
         build_elf64_with_symtab code_b data_b
           (map (\<lambda>(n, p). (encode_str n, p)) (sort_key fst (labels (g_asm g)))) 0
       else if use_wx g then build_elf64_exe_wx code_b data_b 0
       else build_elf64_exe code_b data_b 0))"

definition generate :: "program \<Rightarrow> gen \<Rightarrow> bytes res" where
  "generate stmts g = bindE (generate_code stmts g) write_image"

end
