(* ===== verification/Core_Language.thy ===== *)
theory Core_Language
  imports Codegen "HOL-Library.Signed_Division"
begin

section \<open>A core of the language: what its statements mean\<close>

text \<open>
  The meaning the programmer reads off the top-level statements that work on registers, memory and
  the stack: \<open>label\<close>, \<open>goto\<close>, \<open>jump_if\<close>, \<open>call\<close>, \<open>ret\<close>, \<open>cpu:cmp\<close>, the binary and unary \<open>cpu\<close>
  operations, \<open>mem:load\<close>, \<open>mem:store\<close>, \<open>stack:push\<close> and \<open>stack:pop\<close>, with operands built from numbers,
  registers, constants, field offsets and the addresses of data. A state is the number of the next
  statement, the registers, the last comparison, the memory, the stack pointer and the stack slots
  still free below it. No instruction, flag or encoding occurs here; \<open>Core_Statements\<close> and
  \<open>Core_Simulation\<close> show that the generated code does the same. A step is \<open>None\<close> behind the last
  statement, at a division by zero or overflow, at a jump without a comparison, when the stack is
  used up, when the free part of the stack is read or written or the code is written, and at a
  statement or operand outside the core.
\<close>

type_synonym regs = "int \<Rightarrow> 64 word"
type_synonym memory = "64 word \<Rightarrow> byte"

record core =
  c_pc :: nat
  c_regs :: regs
  c_cmp :: "(64 word \<times> 64 word) option"
  c_mem :: memory
  c_sp :: "64 word"
  c_room :: nat

text \<open>What a program is run with: its constants, field offsets and data addresses, the addresses of
  its statements and of the end, and the addresses that hold its code.\<close>

record scope =
  e_const :: "string \<Rightarrow> int option"
  e_field :: "string \<Rightarrow> string \<Rightarrow> int option"
  e_addr :: "string \<Rightarrow> 64 word option"
  e_pos :: "64 word list"
  e_code :: "64 word \<Rightarrow> bool"

subsection \<open>Operands\<close>

text \<open>The registers of the core: those the code of other operands does not use. \<open>reg10\<close> (\<open>r12\<close>) is
  not one of them.\<close>

definition core_reg :: "string \<Rightarrow> int option" where
  "core_reg n =
    (case resolve n of Inl _ \<Rightarrow> None
     | Inr p \<Rightarrow> (case reg_num p of Inl _ \<Rightarrow> None
         | Inr r \<Rightarrow> if r \<in> {4, 11, 12, 15} then None else Some r))"

definition core_arith :: "string \<Rightarrow> 64 word \<Rightarrow> 64 word \<Rightarrow> 64 word option" where
  "core_arith opn a b =
    (if opn = ''+'' then Some (a + b) else if opn = ''-'' then Some (a - b)
     else if opn = ''*'' then Some (a * b) else None)"

text \<open>A name is a constant or else the address of its data.\<close>

definition core_name :: "scope \<Rightarrow> string \<Rightarrow> 64 word option" where
  "core_name E n = (case e_const E n of Some v \<Rightarrow> Some (word_of_int v) | None \<Rightarrow> e_addr E n)"

fun core_val :: "scope \<Rightarrow> regs \<Rightarrow> expr \<Rightarrow> 64 word option" where
  "core_val E \<rho> (Number v) = Some (word_of_int v)"
| "core_val E \<rho> (Reg n) = map_option \<rho> (core_reg n)"
| "core_val E \<rho> (Ident n) = core_name E n"
| "core_val E \<rho> (StructFieldRef st f) = map_option word_of_int (e_field E st f)"
| "core_val E \<rho> (BinExpr opn l r) =
    (case (core_val E \<rho> l, core_val E \<rho> r) of (Some a, Some b) \<Rightarrow> core_arith opn a b | _ \<Rightarrow> None)"
| "core_val E \<rho> (Str _) = None"

fun core_vals :: "scope \<Rightarrow> regs \<Rightarrow> expr list \<Rightarrow> 64 word list option" where
  "core_vals E \<rho> [] = Some []"
| "core_vals E \<rho> (e # es) =
    (case (core_val E \<rho> e, core_vals E \<rho> es) of (Some v, Some vs) \<Rightarrow> Some (v # vs) | _ \<Rightarrow> None)"

text \<open>The stack slots the code of an operand needs.\<close>

fun stack_use :: "expr \<Rightarrow> nat" where
  "stack_use (BinExpr opn l r) = max (stack_use l) (Suc (stack_use r))"
| "stack_use e = 0"

fun is_leaf :: "expr \<Rightarrow> bool" where
  "is_leaf (BinExpr _ _ _) \<longleftrightarrow> False"
| "is_leaf _ \<longleftrightarrow> True"

subsection \<open>Memory\<close>

definition fetch :: "nat \<Rightarrow> memory \<Rightarrow> 64 word \<Rightarrow> int" where
  "fetch n \<mu> p = from_bytes_le (map (\<lambda>k. \<mu> (p + of_nat k)) [0..<n])"

fun put_bytes :: "bytes \<Rightarrow> 64 word \<Rightarrow> memory \<Rightarrow> memory" where
  "put_bytes [] p \<mu> = \<mu>"
| "put_bytes (b # bs) p \<mu> = put_bytes bs (p + 1) (\<mu>(p := b))"

definition put :: "nat \<Rightarrow> 64 word \<Rightarrow> 64 word \<Rightarrow> memory \<Rightarrow> memory" where
  "put n p v \<mu> = put_bytes (to_bytes_le n (uint v)) p \<mu>"

text \<open>The free slots below the stack pointer; their contents are unknown.\<close>

definition unused :: "core \<Rightarrow> 64 word \<Rightarrow> bool" where
  "unused s p \<longleftrightarrow> 1 \<le> unat (c_sp s - p) \<and> unat (c_sp s - p) \<le> 8 * c_room s"

definition readable :: "core \<Rightarrow> nat \<Rightarrow> 64 word \<Rightarrow> bool" where
  "readable s n p \<longleftrightarrow> list_all (\<lambda>k. \<not> unused s (p + of_nat k)) [0..<n]"

definition no_code :: "scope \<Rightarrow> nat \<Rightarrow> 64 word \<Rightarrow> bool" where
  "no_code E n p \<longleftrightarrow> list_all (\<lambda>k. \<not> e_code E (p + of_nat k)) [0..<n]"

text \<open>The address \<open>[base + index * scale + offset]\<close>: the base is a register or the name of data, the
  index a register, the offset a constant of 32 bits.\<close>

fun core_base :: "scope \<Rightarrow> regs \<Rightarrow> expr \<Rightarrow> 64 word option" where
  "core_base E \<rho> (Reg n) = map_option \<rho> (core_reg n)"
| "core_base E \<rho> (Ident n) = e_addr E n"
| "core_base E \<rho> _ = None"

fun core_index :: "regs \<Rightarrow> expr option \<Rightarrow> int \<Rightarrow> 64 word option" where
  "core_index \<rho> None sc = Some 0"
| "core_index \<rho> (Some (Reg n)) sc =
    (if sc \<in> {1, 2, 4, 8} then map_option (\<lambda>r. \<rho> r * word_of_int sc) (core_reg n) else None)"
| "core_index \<rho> (Some _) sc = None"

fun core_offset :: "scope \<Rightarrow> expr \<Rightarrow> int option" where
  "core_offset E (Number v) = Some v"
| "core_offset E (StructFieldRef st f) = e_field E st f"
| "core_offset E (BinExpr opn l r) =
    (case (core_offset E l, core_offset E r) of
       (Some a, Some b) \<Rightarrow> (if opn = ''+'' then Some (a + b) else if opn = ''-'' then Some (a - b)
         else if opn = ''*'' then Some (a * b) else None)
     | _ \<Rightarrow> None)"
| "core_offset E _ = None"

definition core_addr :: "scope \<Rightarrow> regs \<Rightarrow> expr \<Rightarrow> expr \<Rightarrow> expr option \<Rightarrow> int \<Rightarrow> 64 word option" where
  "core_addr E \<rho> bas off idx scale =
    (case (core_base E \<rho> bas, core_index \<rho> idx (scale_or_1 scale), core_offset E off) of
       (Some p, Some i, Some d) \<Rightarrow> (if - (2 ^ 31) \<le> d \<and> d < 2 ^ 31 then Some (p + i + word_of_int d) else None)
     | _ \<Rightarrow> None)"

text \<open>The bytes of an access; every size but 8, 16 and 32 bits means 64.\<close>

definition width :: "int \<Rightarrow> nat" where
  "width sz = (if sz = 8 then 1 else if sz = 16 then 2 else if sz = 32 then 4 else 8)"

subsection \<open>Operations\<close>

definition core_div :: "64 word \<Rightarrow> 64 word \<Rightarrow> (64 word \<times> 64 word) option" where
  "core_div a b =
    (let q = sint a sdiv sint b in
     if b = 0 \<or> q \<ge> 2 ^ 63 then None
     else Some (word_of_int q, word_of_int (sint a - q * sint b)))"

definition core_bin :: "string \<Rightarrow> 64 word \<Rightarrow> 64 word \<Rightarrow> 64 word option" where
  "core_bin opn a b =
    (let n = nat (uint b mod 64) in
     if opn = ''set'' then Some b
     else if opn = ''add'' then Some (a + b) else if opn = ''sub'' then Some (a - b)
     else if opn = ''mul'' then Some (a * b)
     else if opn = ''and'' then Some (a AND b) else if opn = ''or'' then Some (a OR b)
     else if opn = ''xor'' then Some (a XOR b)
     else if opn \<in> {''shl'', ''sal''} then Some (push_bit n a)
     else if opn = ''shr'' then Some (drop_bit n a)
     else if opn = ''sar'' then Some (signed_drop_bit n a)
     else if opn = ''rol'' then Some (word_rotl n a) else if opn = ''ror'' then Some (word_rotr n a)
     else if opn = ''div'' then map_option fst (core_div a b)
     else if opn = ''mod'' then map_option snd (core_div a b)
     else None)"

definition core_un :: "string \<Rightarrow> 64 word \<Rightarrow> 64 word option" where
  "core_un opn a =
    (if opn = ''not'' then Some (NOT a) else if opn = ''neg'' then Some (- a)
     else if opn = ''inc'' then Some (a + 1) else if opn = ''dec'' then Some (a - 1) else None)"

text \<open>The conditions of \<open>jump_if\<close> on the operands of the last comparison: \<open>gt\<close>, \<open>lt\<close>, \<open>gte\<close>, \<open>lte\<close> and
  their aliases compare signed numbers; \<open>above\<close>, \<open>below\<close>, \<open>ae\<close>, \<open>be\<close> and theirs unsigned ones.\<close>

definition core_cond :: "string \<Rightarrow> 64 word \<Rightarrow> 64 word \<Rightarrow> bool option" where
  "core_cond c a b =
    (if c \<in> set [''eq'', ''e'', ''z'', ''zf''] then Some (a = b)
     else if c \<in> set [''neq'', ''ne'', ''nz''] then Some (a \<noteq> b)
     else if c \<in> set [''gt'', ''g'', ''nle''] then Some (sint a > sint b)
     else if c \<in> set [''lt'', ''l'', ''nge''] then Some (sint a < sint b)
     else if c \<in> set [''gte'', ''ge'', ''nl''] then Some (sint a \<ge> sint b)
     else if c \<in> set [''lte'', ''le'', ''ng''] then Some (sint a \<le> sint b)
     else if c \<in> set [''above'', ''a'', ''nbe''] then Some (a > b)
     else if c \<in> set [''below'', ''b'', ''c'', ''nae''] then Some (a < b)
     else if c \<in> set [''abe'', ''ae'', ''nb'', ''nc''] then Some (a \<ge> b)
     else if c \<in> set [''be'', ''ble'', ''na''] then Some (a \<le> b)
     else None)"

subsection \<open>Steps\<close>

fun find_label :: "stmt list \<Rightarrow> string \<Rightarrow> nat option" where
  "find_label [] l = None"
| "find_label ((ln, s) # ss) l = (if s = Label l then Some 0 else map_option Suc (find_label ss l))"

fun find_pos :: "64 word list \<Rightarrow> 64 word \<Rightarrow> nat option" where
  "find_pos [] v = None"
| "find_pos (p # ps) v = (if p = v then Some 0 else map_option Suc (find_pos ps v))"

definition core_next :: "core \<Rightarrow> core" where
  "core_next s = s\<lparr>c_pc := Suc (c_pc s)\<rparr>"

definition core_jump :: "stmt list \<Rightarrow> string \<Rightarrow> core \<Rightarrow> core option" where
  "core_jump P l s = map_option (\<lambda>k. s\<lparr>c_pc := k\<rparr>) (find_label P l)"

text \<open>An assignment; the processor forgets the last comparison unless the operation is a plain move.\<close>

definition forget :: "bool \<Rightarrow> core \<Rightarrow> core" where
  "forget moved s = s\<lparr>c_cmp := (if moved then c_cmp s else None)\<rparr>"

definition core_assign :: "int \<Rightarrow> 64 word \<Rightarrow> bool \<Rightarrow> core \<Rightarrow> core" where
  "core_assign r v moved s = core_next (forget moved (s\<lparr>c_regs := (c_regs s)(r := v)\<rparr>))"

text \<open>The stack grows downwards; a popped slot is free and may not be one of the code.\<close>

definition core_push :: "64 word \<Rightarrow> core \<Rightarrow> core" where
  "core_push v s = s\<lparr>c_sp := c_sp s - 8, c_room := c_room s - 1, c_mem := put 8 (c_sp s - 8) v (c_mem s)\<rparr>"

definition core_pop :: "scope \<Rightarrow> core \<Rightarrow> (64 word \<times> core) option" where
  "core_pop E s =
    (if c_room s < 2 ^ 60 \<and> no_code E 8 (c_sp s)
     then Some (word_of_int (fetch 8 (c_mem s) (c_sp s)), s\<lparr>c_sp := c_sp s + 8, c_room := Suc (c_room s)\<rparr>)
     else None)"

text \<open>The arguments of a call go to \<open>rdi\<close>, \<open>rsi\<close>, \<open>rdx\<close>, \<open>rcx\<close>, \<open>r8\<close> and \<open>r9\<close>.\<close>

definition arg_regs :: "int list" where
  "arg_regs = [7, 6, 2, 1, 8, 9]"

fun bind_regs :: "int list \<Rightarrow> 64 word list \<Rightarrow> regs \<Rightarrow> regs" where
  "bind_regs (r # rs) (v # vs) \<rho> = (bind_regs rs vs \<rho>)(r := v)"
| "bind_regs rs vs \<rho> = \<rho>"

fun core_stmt :: "scope \<Rightarrow> stmt list \<Rightarrow> node \<Rightarrow> core \<Rightarrow> core option" where
  "core_stmt E P (Label l) s = Some (core_next s)"
| "core_stmt E P (Goto l) s = core_jump P l s"
| "core_stmt E P (JumpIf c l) s =
    (case c_cmp s of None \<Rightarrow> None
     | Some (a, b) \<Rightarrow> (case core_cond c a b of None \<Rightarrow> None
         | Some taken \<Rightarrow> if taken then core_jump P l s else Some (core_next s)))"
| "core_stmt E P (Cmp l r) s =
    (case (core_val E (c_regs s) l, core_val E (c_regs s) r) of
       (Some a, Some b) \<Rightarrow> Some (core_next (s\<lparr>c_cmp := Some (a, b)\<rparr>)) | _ \<Rightarrow> None)"
| "core_stmt E P (CpuBin opn dest val) s =
    (case (core_reg dest, core_val E (c_regs s) val) of
       (Some r, Some b) \<Rightarrow>
         map_option (\<lambda>v. core_assign r v (opn = ''set'' \<and> is_leaf val) s) (core_bin opn (c_regs s r) b)
     | _ \<Rightarrow> None)"
| "core_stmt E P (CpuUnary opn dest) s =
    (case core_reg dest of None \<Rightarrow> None
     | Some r \<Rightarrow> map_option (\<lambda>v. core_assign r v False s) (core_un opn (c_regs s r)))"
| "core_stmt E P (MemLoad dest bas off sz idx scale) s =
    (case (core_reg dest, core_addr E (c_regs s) bas off idx scale) of
       (Some r, Some p) \<Rightarrow>
         (if readable s (width sz) p
          then Some (core_assign r (word_of_int (fetch (width sz) (c_mem s) p)) True s) else None)
     | _ \<Rightarrow> None)"
| "core_stmt E P (MemStore bas off val sz idx scale) s =
    (case (core_addr E (c_regs s) bas off idx scale, core_val E (c_regs s) val) of
       (Some p, Some v) \<Rightarrow>
         (if readable s (width sz) p \<and> no_code E (width sz) p
          then Some (core_next (forget (is_leaf val) (s\<lparr>c_mem := put (width sz) p v (c_mem s)\<rparr>))) else None)
     | _ \<Rightarrow> None)"
| "core_stmt E P (StackPush val) s =
    map_option (\<lambda>v. core_next (forget (is_leaf val) (core_push v s))) (core_val E (c_regs s) val)"
| "core_stmt E P (StackPop dest) s =
    (case (core_reg dest, core_pop E s) of
       (Some r, Some (v, s')) \<Rightarrow> Some (core_assign r v True s') | _ \<Rightarrow> None)"
| "core_stmt E P (Call l args) s =
    (case core_vals E (c_regs s) (take 6 args) of None \<Rightarrow> None
     | Some vs \<Rightarrow> core_jump P l (core_push (e_pos E ! Suc (c_pc s))
         (forget (list_all is_leaf (take 6 args)) (s\<lparr>c_regs := bind_regs arg_regs vs (c_regs s)\<rparr>))))"
| "core_stmt E P Ret s =
    (case core_pop E s of None \<Rightarrow> None
     | Some (v, s') \<Rightarrow> map_option (\<lambda>k. s'\<lparr>c_pc := k\<rparr>) (find_pos (e_pos E) v))"
| "core_stmt E P (DataAlloc _ _) s = Some (core_next s)"
| "core_stmt E P (DataConst _ _) s = Some (core_next s)"
| "core_stmt E P (DataBytes _ _) s = Some (core_next s)"
| "core_stmt E P (DataAlign _) s = Some (core_next s)"
| "core_stmt E P (StructDef _ _) s = Some (core_next s)"
| "core_stmt E P MetalDeterministic s = Some (core_next s)"
| "core_stmt E P _ s = None"

text \<open>The free stack slots a statement needs.\<close>

fun arg_slots :: "expr list \<Rightarrow> nat" where
  "arg_slots [] = 0"
| "arg_slots (e # es) = max (stack_use e) (Suc (arg_slots es))"

fun slots :: "node \<Rightarrow> nat" where
  "slots (Cmp l r) = max (Suc (stack_use l)) (2 + stack_use r)"
| "slots (CpuBin _ _ val) = max 2 (stack_use val)"
| "slots (MemStore _ _ val _ _ _) = Suc (stack_use val)"
| "slots (StackPush val) = max 1 (stack_use val)"
| "slots (Call _ args) = max 1 (arg_slots (take 6 args))"
| "slots _ = 0"

definition core_step :: "scope \<Rightarrow> stmt list \<Rightarrow> core \<Rightarrow> core option" where
  "core_step E P s =
    (if c_pc s < length P \<and> slots (snd (P ! c_pc s)) \<le> c_room s then core_stmt E P (snd (P ! c_pc s)) s else None)"

fun core_run :: "scope \<Rightarrow> stmt list \<Rightarrow> nat \<Rightarrow> core \<Rightarrow> core option" where
  "core_run E P 0 s = Some s"
| "core_run E P (Suc n) s = (case core_step E P s of None \<Rightarrow> None | Some s' \<Rightarrow> core_run E P n s')"

text \<open>The statements a program runs through from the top: functions stand behind them. A core
  program has only statements of the core there.\<close>

definition main_part :: "program \<Rightarrow> stmt list" where
  "main_part prog = filter (\<lambda>s. \<not> is_fn s) prog"

fun core_node :: "node \<Rightarrow> bool" where
  "core_node (Label _) \<longleftrightarrow> True"
| "core_node (Goto _) \<longleftrightarrow> True"
| "core_node (JumpIf _ _) \<longleftrightarrow> True"
| "core_node (Cmp _ _) \<longleftrightarrow> True"
| "core_node (CpuBin _ _ _) \<longleftrightarrow> True"
| "core_node (CpuUnary _ _) \<longleftrightarrow> True"
| "core_node (MemLoad _ _ _ _ _ _) \<longleftrightarrow> True"
| "core_node (MemStore _ _ _ _ _ _) \<longleftrightarrow> True"
| "core_node (StackPush _) \<longleftrightarrow> True"
| "core_node (StackPop _) \<longleftrightarrow> True"
| "core_node (Call _ _) \<longleftrightarrow> True"
| "core_node Ret \<longleftrightarrow> True"
| "core_node (DataAlloc _ _) \<longleftrightarrow> True"
| "core_node (DataConst _ _) \<longleftrightarrow> True"
| "core_node (DataBytes _ _) \<longleftrightarrow> True"
| "core_node (DataAlign _) \<longleftrightarrow> True"
| "core_node (StructDef _ _) \<longleftrightarrow> True"
| "core_node MetalDeterministic \<longleftrightarrow> True"
| "core_node _ \<longleftrightarrow> False"

definition core_program :: "program \<Rightarrow> bool" where
  "core_program prog \<longleftrightarrow> list_all (\<lambda>(ln, s). core_node s) (main_part prog)"

subsection \<open>The free stack and the code\<close>

text \<open>The free part of the stack is not code: kept by every step, as are the bytes of the code.\<close>

definition safe :: "scope \<Rightarrow> core \<Rightarrow> bool" where
  "safe E s \<longleftrightarrow> c_room s \<le> 2 ^ 60 \<and> (\<forall>p. e_code E p \<longrightarrow> \<not> unused s p)"

end
