(* ===== verification/X86_Decode.thy ===== *)
theory X86_Decode
  imports Prelude
begin

section \<open>A structural decoder for x86-64 instructions\<close>

text \<open>
  The specification side of the encoder: how a 64-bit processor splits a byte sequence into
  legacy prefixes, REX or VEX, opcode map and opcode, ModRM, SIB, displacement and immediate
  (Intel SDM vol. 2, chapter 2 and the opcode maps of appendix A, for the opcodes the program
  emits; any other opcode is \<open>None\<close>). It is written from the manual and knows nothing of
  \<open>x64enc.py\<close>.
\<close>

datatype opmap = M1 | M0F | M0F38 | M0F3A

text \<open>An \<open>r/m\<close> operand: a register, \<open>[base + index * scale + disp]\<close>, or \<open>[rip + disp]\<close>.\<close>

datatype operand =
    OReg int
  | OMem "int option" "(int \<times> int) option" int
  | ORip int

record insn =
  i_pfx :: bytes
  i_rex :: bool
  i_vex :: "(int \<times> int \<times> int) option"
  i_w :: bool
  i_map :: opmap
  i_op :: int
  i_reg :: int
  i_rm :: "operand option"
  i_imm :: int

subsection \<open>Bit fields\<close>

definition field :: "nat \<Rightarrow> nat \<Rightarrow> byte \<Rightarrow> int" where
  "field lo n b = uint b div 2 ^ lo mod 2 ^ n"

definition is_rex :: "byte \<Rightarrow> bool" where
  "is_rex b \<longleftrightarrow> field 4 4 b = 4"

definition is_legacy :: "byte \<Rightarrow> bool" where
  "is_legacy b \<longleftrightarrow> b = 0xF0 \<or> b = 0xF2 \<or> b = 0xF3 \<or> b = 0x66"

fun legacy_prefixes :: "bytes \<Rightarrow> bytes \<times> bytes" where
  "legacy_prefixes [] = ([], [])"
| "legacy_prefixes (b # bs) =
    (if is_legacy b then (let (p, r) = legacy_prefixes bs in (b # p, r)) else ([], b # bs))"

definition read_le :: "nat \<Rightarrow> bytes \<Rightarrow> (int \<times> bytes) option" where
  "read_le n bs = (if length bs < n then None else Some (from_bytes_le (take n bs), drop n bs))"

subsection \<open>Operand formats of the opcodes\<close>

text \<open>Whether a ModRM byte follows, whether the low three bits of the opcode name a register,
  and the immediate: none, 8, 16 or 32 bits, a branch distance of 32 bits, 64 bits under REX.W
  and 32 otherwise, \<open>ENTER\<close>'s 24 bits, or 32 (8) bits for the first two members of group 3.\<close>

datatype immk = I0 | I8 | I16 | I32 | IRel | IV | I24 | G8 | G32

datatype fmt = Fmt (has_modrm: bool) (op_reg: bool) (immediate: immk)

definition fmt_one_byte :: "int \<Rightarrow> fmt option" where
  "fmt_one_byte op' =
    (if op' < 0x40 then
       (if op' mod 8 < 4 then Some (Fmt True False I0)
        else if op' mod 8 = 4 then Some (Fmt False False I8)
        else if op' mod 8 = 5 then Some (Fmt False False I32)
        else None)
     else if 0x50 \<le> op' \<and> op' \<le> 0x5F then Some (Fmt False True I0)
     else if op' = 0x63 then Some (Fmt True False I0)
     else if op' \<in> {0x69, 0x81, 0xC7} then Some (Fmt True False I32)
     else if op' \<in> {0x6B, 0x80, 0x83, 0xC0, 0xC1, 0xC6} then Some (Fmt True False I8)
     else if op' \<in> {0x68, 0xA9} then Some (Fmt False False I32)
     else if op' \<in> {0x6A, 0xA8, 0xCD, 0xEB} \<or> 0x70 \<le> op' \<and> op' \<le> 0x7F then
       Some (Fmt False False I8)
     else if 0x84 \<le> op' \<and> op' \<le> 0x8B \<or> op' = 0x8D \<or> 0xD0 \<le> op' \<and> op' \<le> 0xD3 \<or>
             0xD8 \<le> op' \<and> op' \<le> 0xDF \<or> op' \<in> {0xFE, 0xFF} then
       Some (Fmt True False I0)
     else if 0x90 \<le> op' \<and> op' \<le> 0x97 then Some (Fmt False True I0)
     else if op' \<in> {0x98, 0x99, 0x9C, 0x9D, 0xA4, 0xA5, 0xA6, 0xA7, 0xAA, 0xAB, 0xAC, 0xAD,
                    0xAE, 0xAF, 0xC3, 0xC9, 0xCC, 0xCF, 0xEC, 0xED, 0xEE, 0xEF, 0xF4, 0xF5} \<or>
             0xF8 \<le> op' \<and> op' \<le> 0xFD then Some (Fmt False False I0)
     else if 0xB0 \<le> op' \<and> op' \<le> 0xB7 then Some (Fmt False True I8)
     else if 0xB8 \<le> op' \<and> op' \<le> 0xBF then Some (Fmt False True IV)
     else if op' = 0xC2 then Some (Fmt False False I16)
     else if op' = 0xC8 then Some (Fmt False False I24)
     else if op' \<in> {0xE8, 0xE9} then Some (Fmt False False IRel)
     else if op' = 0xF6 then Some (Fmt True False G8)
     else if op' = 0xF7 then Some (Fmt True False G32)
     else None)"

definition fmt_0f :: "int \<Rightarrow> fmt option" where
  "fmt_0f op' =
    (if op' \<in> {0x05, 0x06, 0x07, 0x08, 0x09, 0x0B, 0x77, 0xA2} \<or> 0x30 \<le> op' \<and> op' \<le> 0x35 then
       Some (Fmt False False I0)
     else if op' \<in> {0x70, 0xA4, 0xAC, 0xBA, 0xC2, 0xC6} then Some (Fmt True False I8)
     else if 0x80 \<le> op' \<and> op' \<le> 0x8F then Some (Fmt False False IRel)
     else if 0xC8 \<le> op' \<and> op' \<le> 0xCF then Some (Fmt False True I0)
     else if op' \<le> 0x03 \<or> op' = 0x0D \<or> 0x10 \<le> op' \<and> op' \<le> 0x18 \<or> op' \<in> {0x1E, 0x1F} \<or>
             0x28 \<le> op' \<and> op' \<le> 0x2F \<or> 0x40 \<le> op' \<and> op' \<le> 0x7F \<or> 0x90 \<le> op' \<and> op' \<le> 0x9F \<or>
             op' \<in> {0xA3, 0xA5, 0xAB, 0xAD, 0xAE, 0xAF, 0xB0, 0xB1, 0xB3} \<or>
             0xB6 \<le> op' \<and> op' \<le> 0xB8 \<or> 0xBB \<le> op' \<and> op' \<le> 0xC1 \<or> op' = 0xC7 \<or> 0xD0 \<le> op'
     then Some (Fmt True False I0)
     else None)"

definition fmt_of :: "opmap \<Rightarrow> int \<Rightarrow> fmt option" where
  "fmt_of m op' = (case m of M1 \<Rightarrow> fmt_one_byte op' | M0F \<Rightarrow> fmt_0f op'
     | M0F38 \<Rightarrow> Some (Fmt True False I0) | M0F3A \<Rightarrow> Some (Fmt True False I8))"

definition imm_len :: "immk \<Rightarrow> bool \<Rightarrow> bool \<Rightarrow> int \<Rightarrow> nat" where
  "imm_len k w opsize digit = (case k of I0 \<Rightarrow> 0 | I8 \<Rightarrow> 1 | I16 \<Rightarrow> 2 | IRel \<Rightarrow> 4 | I24 \<Rightarrow> 3
     | I32 \<Rightarrow> (if opsize \<and> \<not> w then 2 else 4)
     | IV \<Rightarrow> (if w then 8 else if opsize then 2 else 4)
     | G8 \<Rightarrow> (if digit < 2 then 1 else 0)
     | G32 \<Rightarrow> (if digit < 2 then (if opsize \<and> \<not> w then 2 else 4) else 0))"

subsection \<open>ModRM, SIB and displacement\<close>

text \<open>\<open>rm_operand md rm x b bs\<close>: the operand of mode \<open>md\<close> and field \<open>rm\<close> with the extension bits
  \<open>x\<close> and \<open>b\<close>, and the bytes left.\<close>

definition with_disp :: "nat \<Rightarrow> (int \<Rightarrow> operand) \<Rightarrow> bytes \<Rightarrow> (operand \<times> bytes) option" where
  "with_disp n f bs =
    (case read_le n bs of None \<Rightarrow> None
     | Some (v, r) \<Rightarrow> Some (f (if n = 0 then 0 else signed_of n v), r))"

definition disp_len :: "int \<Rightarrow> nat" where
  "disp_len md = (if md = 1 then 1 else if md = 2 then 4 else 0)"

definition rm_operand :: "int \<Rightarrow> int \<Rightarrow> int \<Rightarrow> int \<Rightarrow> bytes \<Rightarrow> (operand \<times> bytes) option" where
  "rm_operand md rm x b bs =
    (if md = 3 then Some (OReg (rm + 8 * b), bs)
     else if rm = 4 then
       (case bs of [] \<Rightarrow> None
        | sib # r \<Rightarrow>
            (let ix = field 3 3 sib + 8 * x;
                 index = (if ix = 4 then None else Some (ix, 2 ^ nat (field 6 2 sib)))
             in if field 0 3 sib = 5 \<and> md = 0 then with_disp 4 (OMem None index) r
                else with_disp (disp_len md) (OMem (Some (field 0 3 sib + 8 * b)) index) r))
     else if rm = 5 \<and> md = 0 then with_disp 4 ORip bs
     else with_disp (disp_len md) (OMem (Some (rm + 8 * b)) None) bs)"

subsection \<open>Decoding one instruction\<close>

text \<open>The part after the opcode, for the extension bits found before it.\<close>

definition decode_tail ::
  "bytes \<Rightarrow> bool \<Rightarrow> (int \<times> int \<times> int) option \<Rightarrow> int \<Rightarrow> int \<Rightarrow> int \<Rightarrow> int \<Rightarrow> opmap \<Rightarrow> bytes \<Rightarrow> (insn \<times> bytes) option"
where
  "decode_tail pfx has_rex vex w r x b m bs =
    (case bs of [] \<Rightarrow> None
     | opb # bs1 \<Rightarrow>
        (case fmt_of m (uint opb) of None \<Rightarrow> None
         | Some f \<Rightarrow>
            (if has_modrm f then
               (case bs1 of [] \<Rightarrow> None
                | mr # bs2 \<Rightarrow>
                   (case rm_operand (field 6 2 mr) (field 0 3 mr) x b bs2 of None \<Rightarrow> None
                    | Some (rm, bs3) \<Rightarrow>
                       (case read_le (imm_len (immediate f) (w = 1) (0x66 \<in> set pfx) (field 3 3 mr)) bs3 of
                          None \<Rightarrow> None
                        | Some (imm, bs4) \<Rightarrow>
                           Some (\<lparr>i_pfx = pfx, i_rex = has_rex, i_vex = vex, i_w = (w = 1), i_map = m,
                                   i_op = uint opb, i_reg = field 3 3 mr + 8 * r, i_rm = Some rm,
                                   i_imm = imm\<rparr>, bs4))))
             else
               (case read_le (imm_len (immediate f) (w = 1) (0x66 \<in> set pfx) 0) bs1 of None \<Rightarrow> None
                | Some (imm, bs2) \<Rightarrow>
                   Some (\<lparr>i_pfx = pfx, i_rex = has_rex, i_vex = vex, i_w = (w = 1), i_map = m,
                           i_op = (if op_reg f then uint opb - uint opb mod 8 else uint opb),
                           i_reg = (if op_reg f then uint opb mod 8 + 8 * b else 0), i_rm = None,
                           i_imm = imm\<rparr>, bs2)))))"

definition decode_escape ::
  "bytes \<Rightarrow> bool \<Rightarrow> int \<Rightarrow> int \<Rightarrow> int \<Rightarrow> int \<Rightarrow> bytes \<Rightarrow> (insn \<times> bytes) option" where
  "decode_escape pfx has_rex w r x b bs =
    (if take 2 bs = [0x0F, 0x38] then decode_tail pfx has_rex None w r x b M0F38 (drop 2 bs)
     else if take 2 bs = [0x0F, 0x3A] then decode_tail pfx has_rex None w r x b M0F3A (drop 2 bs)
     else if take 1 bs = [0x0F] then decode_tail pfx has_rex None w r x b M0F (drop 1 bs)
     else decode_tail pfx has_rex None w r x b M1 bs)"

text \<open>The VEX forms carry the register extensions inverted.\<close>

definition vex_map :: "int \<Rightarrow> opmap option" where
  "vex_map m = (if m = 1 then Some M0F else if m = 2 then Some M0F38 else if m = 3 then Some M0F3A
     else None)"

definition decode_vex3 :: "bytes \<Rightarrow> bytes \<Rightarrow> (insn \<times> bytes) option" where
  "decode_vex3 pfx bs =
    (case bs of p # q # bs' \<Rightarrow>
       (case vex_map (field 0 5 p) of None \<Rightarrow> None
        | Some m \<Rightarrow> decode_tail pfx False (Some (15 - field 3 4 q, field 2 1 q, field 0 2 q))
            (field 7 1 q) (1 - field 7 1 p) (1 - field 6 1 p) (1 - field 5 1 p) m bs')
     | _ \<Rightarrow> None)"

definition decode_vex2 :: "bytes \<Rightarrow> bytes \<Rightarrow> (insn \<times> bytes) option" where
  "decode_vex2 pfx bs =
    (case bs of q # bs' \<Rightarrow>
       decode_tail pfx False (Some (15 - field 3 4 q, field 2 1 q, field 0 2 q))
         0 (1 - field 7 1 q) 0 0 M0F bs'
     | _ \<Rightarrow> None)"

definition decode :: "bytes \<Rightarrow> (insn \<times> bytes) option" where
  "decode bs =
    (let (pfx, rest) = legacy_prefixes bs in
     case rest of [] \<Rightarrow> None
     | c # bs' \<Rightarrow>
        if is_rex c then
          decode_escape pfx True (field 3 1 c) (field 2 1 c) (field 1 1 c) (field 0 1 c) bs'
        else if c = 0xC4 then decode_vex3 pfx bs'
        else if c = 0xC5 then decode_vex2 pfx bs'
        else decode_escape pfx False 0 0 0 0 rest)"

subsection \<open>Decoding a whole block\<close>

text \<open>\<open>disasm bs is\<close>: the bytes are exactly the instructions \<open>is\<close>, one after the other.\<close>

fun disasm :: "bytes \<Rightarrow> insn list \<Rightarrow> bool" where
  "disasm bs [] \<longleftrightarrow> bs = []"
| "disasm bs (i # is) \<longleftrightarrow>
    (case decode bs of None \<Rightarrow> False | Some (j, rest) \<Rightarrow> i = j \<and> disasm rest is)"

text \<open>\<open>encodes bs i\<close>: at the front of any instruction stream \<open>bs\<close> reads as \<open>i\<close> and no more.\<close>

definition encodes :: "bytes \<Rightarrow> insn \<Rightarrow> bool" where
  "encodes bs i \<longleftrightarrow> (\<forall>rest. decode (bs @ rest) = Some (i, rest))"

lemma disasm_encodes_Cons: "encodes bs i \<Longrightarrow> disasm (bs @ cs) (i # is) = disasm cs is"
  by (simp add: encodes_def)

subsection \<open>Sanity of the decoder\<close>

lemma decode_samples:
  "map_option fst (decode [0x48, 0x01, 0xD8]) = Some \<lparr>i_pfx = [], i_rex = True, i_vex = None,
     i_w = True, i_map = M1, i_op = 0x01, i_reg = 3, i_rm = Some (OReg 0), i_imm = 0\<rparr>"
  "map_option (\<lambda>(i, r). (i_rm i, r)) (decode [0x4C, 0x8B, 0xA4, 0x24, 0xF8, 0xFF, 0xFF, 0xFF]) =
     Some (Some (OMem (Some 4) None (- 8)), [])"
  "map_option (\<lambda>(i, r). (i_op i, i_reg i, i_imm i, r)) (decode [0x49, 0xBC, 1, 0, 0, 0, 0, 0, 0, 0x80, 0xC3])
     = Some (0xB8, 12, 2 ^ 63 + 1, [0xC3])"
  by code_simp+

end
