(* ===== verification/Encode_Bytes.thy ===== *)
theory Encode_Bytes
  imports Encode_Isa Link X86_Decode
begin

section \<open>How the decoder reads the bytes the encoder builds\<close>

text \<open>
  The bridge between \<open>u8\<close>, \<open>rex\<close>, \<open>modrm\<close> and the SIB expressions of the encoder and the bit
  fields of the decoder: the rules the correctness proofs of the instruction methods rewrite
  with, collected in \<open>enc_simps\<close>; and \<open>gives f is\<close>, a method that appends exactly the
  instructions \<open>is\<close>, with its closure under sequencing.
\<close>

named_theorems enc_simps "reading back the encoder's bytes"

subsection \<open>Register numbers\<close>

lemma reg_num_range: "reg_num n = Inr r \<Longrightarrow> 0 \<le> r \<and> r < 16"
proof -
  have "\<forall>(k, v) \<in> set REGISTERS. 0 \<le> v \<and> v < 16"
    by (simp add: REGISTERS_def)
  moreover assume "reg_num n = Inr r"
  then have "(n, r) \<in> set REGISTERS"
    by (auto simp: reg_num_def dest: map_of_SomeD split: option.splits)
  ultimately show ?thesis by auto
qed

lemma reg16_cases:
  assumes "0 \<le> r" and "r < (16 :: int)"
  shows "r \<in> set [0, 1, 2, 3, 4, 5, 6, 7, 8, 9, 10, 11, 12, 13, 14, 15]"
proof -
  have "r \<in> {0..<16}" using assms by simp
  also have "{0..<16} = set [0..15 :: int]" by auto
  also have "[0..15 :: int] = [0, 1, 2, 3, 4, 5, 6, 7, 8, 9, 10, 11, 12, 13, 14, 15]" by code_simp
  finally show ?thesis .
qed

lemma and_7: "(v :: int) AND 7 = v mod 8"
  using take_bit_eq_mask [of 3 v] by (simp add: take_bit_eq_mod mask_eq_exp_minus_1)

lemma and_3: "(v :: int) AND 3 = v mod 4"
  using take_bit_eq_mask [of 2 v] by (simp add: take_bit_eq_mod mask_eq_exp_minus_1)

lemma and_255: "(v :: int) AND 255 = v mod 256"
  using take_bit_eq_mask [of 8 v] by (simp add: take_bit_eq_mod mask_eq_exp_minus_1)

lemma and_1: "(v :: int) AND 1 = v mod 2"
  using take_bit_eq_mask [of 1 v] by (simp add: take_bit_eq_mod mask_eq_exp_minus_1)

lemma drop_3: "drop_bit 3 (v :: int) = v div 8"
  by (simp add: drop_bit_eq_div)

lemma uint_u8: "uint (u8 v) = v mod 256"
  by (simp add: u8_def and_255 uint_byte_of_int)

subsection \<open>REX, ModRM and SIB bytes\<close>

lemma rex_table:
  "\<forall>w \<in> set [0, 1]. \<forall>r \<in> set [0, 1]. \<forall>x \<in> set [0, 1]. \<forall>b \<in> set [0, 1].
     rex w r x b = 64 + 8 * w + 4 * r + 2 * x + b"
  by code_simp

lemma modrm_table:
  "\<forall>m \<in> set [0..3]. \<forall>r \<in> set [0..7]. \<forall>b \<in> set [0..7].
     push_bit 6 m OR push_bit 3 r OR b = 64 * m + 8 * r + (b :: int)"
  by code_simp

lemma fields_table:
  "\<forall>m \<in> set [0..3]. \<forall>r \<in> set [0..7]. \<forall>b \<in> set [0..7].
     (64 * m + 8 * r + b) mod 256 div 64 mod 4 = m \<and> (64 * m + 8 * r + b) mod 256 div 8 mod 8 = r \<and>
     (64 * m + 8 * r + b) mod 256 mod 8 = (b :: int)"
  by code_simp

lemma or3_eq:
  assumes "0 \<le> m" "m < 4" "0 \<le> r" "r < 8" "0 \<le> b" "b < 8"
  shows "push_bit 6 m OR push_bit 3 r OR b = 64 * m + 8 * r + (b :: int)"
  using modrm_table [rule_format, of m r b] assms by auto

lemma modrm_eq: "modrm m r b = 64 * (m mod 4) + 8 * (r mod 8) + b mod 8"
  by (simp only: modrm_def and_7 and_3 or3_eq pos_mod_bound pos_mod_sign zero_less_numeral)

lemma bit_cases: "0 \<le> (w :: int) \<Longrightarrow> w < 2 \<Longrightarrow> w \<in> set [0, 1]"
  by auto

lemma rex_eq:
  assumes "0 \<le> w" "w < 2" "0 \<le> r" "r < 2" "0 \<le> x" "x < 2" "0 \<le> b" "b < 2"
  shows "rex w r x b = 64 + 8 * w + 4 * r + 2 * x + b"
  using rex_table bit_cases assms by blast

lemma field_modrm [enc_simps]:
  "field 6 2 (u8 (modrm m r b)) = m mod 4"
  "field 3 3 (u8 (modrm m r b)) = r mod 8"
  "field 0 3 (u8 (modrm m r b)) = b mod 8"
proof -
  have "m mod 4 \<in> set [0..3]" "r mod 8 \<in> set [0..7]" "b mod 8 \<in> set [0..7]" by auto
  note f = fields_table [rule_format, OF this]
  show "field 6 2 (u8 (modrm m r b)) = m mod 4"
    "field 3 3 (u8 (modrm m r b)) = r mod 8"
    "field 0 3 (u8 (modrm m r b)) = b mod 8"
    using f by (simp_all add: field_def uint_u8 modrm_eq)
qed

lemma field_sib [enc_simps]:
  assumes "0 \<le> s" "s < 4" "0 \<le> i" "i < 8" "0 \<le> b" "b < 8"
  shows "field 6 2 (u8 (push_bit 6 s OR push_bit 3 i OR b)) = s"
    and "field 3 3 (u8 (push_bit 6 s OR push_bit 3 i OR b)) = i"
    and "field 0 3 (u8 (push_bit 6 s OR push_bit 3 i OR b)) = b"
proof -
  have "push_bit 6 s OR push_bit 3 i OR b = modrm s i b"
    using assms by (simp add: modrm_def and_7 and_3)
  then show "field 6 2 (u8 (push_bit 6 s OR push_bit 3 i OR b)) = s"
    "field 3 3 (u8 (push_bit 6 s OR push_bit 3 i OR b)) = i"
    "field 0 3 (u8 (push_bit 6 s OR push_bit 3 i OR b)) = b"
    using assms by (simp_all add: field_modrm)
qed

lemma rex_fields_table:
  "\<forall>w \<in> set [0, 1]. \<forall>r \<in> set [0, 1]. \<forall>x \<in> set [0, 1]. \<forall>b \<in> set [0, 1].
     is_rex (u8 (rex w r x b)) \<and> field 3 1 (u8 (rex w r x b)) = w \<and>
     field 2 1 (u8 (rex w r x b)) = r \<and> field 1 1 (u8 (rex w r x b)) = x \<and>
     field 0 1 (u8 (rex w r x b)) = b \<and> \<not> is_legacy (u8 (rex w r x b))"
  by code_simp

lemma rex_fields [unfolded One_nat_def, enc_simps]:
  assumes "0 \<le> w" "w < 2" "0 \<le> r" "r < 2" "0 \<le> x" "x < 2" "0 \<le> b" "b < 2"
  shows "is_rex (u8 (rex w r x b))" "field 3 1 (u8 (rex w r x b)) = w"
    "field 2 1 (u8 (rex w r x b)) = r" "field 1 1 (u8 (rex w r x b)) = x"
    "field 0 1 (u8 (rex w r x b)) = b" "\<not> is_legacy (u8 (rex w r x b))"
  using rex_fields_table bit_cases assms by blast+

subsection \<open>Composing a decode\<close>

lemma u8_numeral [enc_simps]: "u8 (numeral n) = numeral n"
proof (rule word_uint_eqI)
  show "uint (u8 (numeral n)) = uint (numeral n :: byte)"
    unfolding uint_u8 by (metis uint_byte_of_int word_of_int_numeral)
qed

lemma u8_0_1 [enc_simps]: "u8 0 = 0" "u8 1 = 1"
  by (simp_all add: u8_def)

lemma legacy_bytes [enc_simps]: "is_legacy 0xF0" "is_legacy 0xF2" "is_legacy 0xF3" "is_legacy 0x66"
  by (simp_all add: is_legacy_def)

lemma uint_u8_reg [enc_simps]:
  "0 \<le> c \<Longrightarrow> c \<le> 248 \<Longrightarrow> uint (u8 (c + r mod 8)) = c + r mod 8"
proof -
  assume c: "0 \<le> c" "c \<le> 248"
  have "0 \<le> r mod 8" "r mod 8 < 8" by simp_all
  with c have "0 \<le> c + r mod 8" "c + r mod 8 < 256" by linarith+
  then show ?thesis by (simp only: uint_u8 mod_pos_pos_trivial)
qed

lemma read_le_0 [enc_simps]: "read_le 0 bs = Some (0, bs)"
  by (simp add: read_le_def)

lemma read_le_1 [enc_simps]: "read_le (Suc 0) (u8 v # bs) = Some (v mod 256, bs)"
  by (simp add: read_le_def uint_u8)

lemma read_le_to_bytes: "read_le n (to_bytes_le n v @ bs) = Some (v mod 256 ^ n, bs)"
  by (simp add: read_le_def from_to_bytes_le)

lemma and_mask32: "(v :: int) AND 0xFFFFFFFF = v mod 2 ^ 32"
  using take_bit_eq_mask [of 32 v] by (simp add: take_bit_eq_mod mask_eq_exp_minus_1)

lemma and_mask64: "(v :: int) AND 0xFFFFFFFFFFFFFFFF = v mod 2 ^ 64"
  using take_bit_eq_mask [of 64 v] by (simp add: take_bit_eq_mod mask_eq_exp_minus_1)

lemma u32_eq: "u32 v = to_bytes_le 4 v"
  using to_bytes_le_mod [of 4 v] by (simp add: u32_def and_mask32)

lemma u64_eq: "u64 v = to_bytes_le 8 v"
  using to_bytes_le_mod [of 8 v] by (simp add: u64_def and_mask64)

lemma read_le_u32 [enc_simps]: "read_le 4 (u32 v @ bs) = Some (v mod 2 ^ 32, bs)"
  using read_le_to_bytes [of 4 v bs] by (simp add: u32_eq)

lemma read_le_u64 [enc_simps]: "read_le 8 (u64 v @ bs) = Some (v mod 2 ^ 64, bs)"
  using read_le_to_bytes [of 8 v bs] by (simp add: u64_eq)

lemma decode_rex [enc_simps]:
  assumes "is_rex c" and "\<not> is_legacy c"
  shows "decode (c # bs) =
    decode_escape [] True (field 3 1 c) (field 2 1 c) (field 1 1 c) (field 0 1 c) bs"
  using assms by (simp add: decode_def)

lemma decode_legacy_rex [enc_simps]:
  assumes "is_legacy p" and "is_rex c" and "\<not> is_legacy c"
  shows "decode (p # c # bs) =
    decode_escape [p] True (field 3 1 c) (field 2 1 c) (field 1 1 c) (field 0 1 c) bs"
  using assms by (simp add: decode_def)

lemma decode_plain [enc_simps]:
  assumes "\<not> is_legacy c" and "\<not> is_rex c" and "c \<noteq> 0xC4" and "c \<noteq> 0xC5"
  shows "decode (c # bs) = decode_escape [] False 0 0 0 0 (c # bs)"
  using assms by (simp add: decode_def)

lemma decode_legacy_plain [enc_simps]:
  assumes "is_legacy p" and "\<not> is_legacy c" and "\<not> is_rex c" and "c \<noteq> 0xC4" and "c \<noteq> 0xC5"
  shows "decode (p # c # bs) = decode_escape [p] False 0 0 0 0 (c # bs)"
  using assms by (simp add: decode_def)

lemma decode_escape_1 [enc_simps]:
  "c \<noteq> 0x0F \<Longrightarrow> decode_escape p hr w r x b (c # bs) = decode_tail p hr None w r x b M1 (c # bs)"
  by (simp add: decode_escape_def)

lemma decode_escape_0f [enc_simps]:
  "c \<noteq> 0x38 \<Longrightarrow> c \<noteq> 0x3A \<Longrightarrow>
   decode_escape p hr w r x b (0x0F # c # bs) = decode_tail p hr None w r x b M0F (c # bs)"
  "decode_escape p hr w r x b (0x0F # 0x38 # bs) = decode_tail p hr None w r x b M0F38 bs"
  "decode_escape p hr w r x b (0x0F # 0x3A # bs) = decode_tail p hr None w r x b M0F3A bs"
  by (simp_all add: decode_escape_def)

text \<open>The register form of a ModRM instruction, and the forms without ModRM.\<close>

lemma decode_tail_reg [enc_simps]:
  assumes "fmt_of m (uint opb) \<noteq> None" and "has_modrm (the (fmt_of m (uint opb)))"
  shows "decode_tail pfx hr vex w r x b m (opb # u8 (modrm 3 g e) # bs) =
    map_option (\<lambda>(imm, bs'). (\<lparr>i_pfx = pfx, i_rex = hr, i_vex = vex, i_w = (w = 1), i_map = m,
        i_op = uint opb, i_reg = g mod 8 + 8 * r, i_rm = Some (OReg (e mod 8 + 8 * b)),
        i_imm = imm\<rparr>, bs'))
      (read_le (imm_len (immediate (the (fmt_of m (uint opb)))) (w = 1) (0x66 \<in> set pfx) (g mod 8)) bs)"
  using assms
  by (auto simp: decode_tail_def field_modrm rm_operand_def split: option.splits)

lemma decode_tail_none [enc_simps]:
  assumes "fmt_of m (uint opb) \<noteq> None" and "\<not> has_modrm (the (fmt_of m (uint opb)))"
  shows "decode_tail pfx hr vex w r x b m (opb # bs) =
    map_option (\<lambda>(imm, bs'). (\<lparr>i_pfx = pfx, i_rex = hr, i_vex = vex, i_w = (w = 1), i_map = m,
        i_op = (if op_reg (the (fmt_of m (uint opb))) then uint opb - uint opb mod 8 else uint opb),
        i_reg = (if op_reg (the (fmt_of m (uint opb))) then uint opb mod 8 + 8 * b else 0),
        i_rm = None, i_imm = imm\<rparr>, bs'))
      (read_le (imm_len (immediate (the (fmt_of m (uint opb)))) (w = 1) (0x66 \<in> set pfx) 0) bs)"
  using assms by (auto simp: decode_tail_def split: option.splits)

lemma reg_split [enc_simps]:
  "0 \<le> r \<Longrightarrow> r < 16 \<Longrightarrow> r mod 8 + 8 * (r div 8) = (r :: int)"
  by simp

lemma reg_div_8: "0 \<le> r \<Longrightarrow> r < 16 \<Longrightarrow> 0 \<le> r div 8 \<and> r div 8 < (2 :: int)"
  by auto

subsection \<open>Flattening a method body into one block of bytes\<close>

named_theorems flat_simps "a sequence of emissions as a single emission"

definition fits32 :: "int \<Rightarrow> bool" where
  "fits32 v \<longleftrightarrow> - (2 ^ 31) \<le> v \<and> v \<le> 2 ^ 31 - 1"

lemma seqE_emits [flat_simps]:
  "seqE (emits xs # emits ys # fs) = seqE (emits (xs @ ys) # fs)"
  "seqE (emits xs # skip_op # fs) = seqE (emits xs # fs)"
  "seqE (skip_op # fs) = seqE fs"
  "seqE [emits xs] = emits xs"
  by (rule ext, simp add: emits_def skip_op_def)+

lemma seqE_nested [flat_simps]: "seqE (emits xs # seqE fs # gs) = seqE (emits xs # fs @ gs)"
  by (rule ext) (simp add: emits_def seqE_append)

lemma emit_s32_fits [flat_simps]: "fits32 v \<Longrightarrow> emit_s32 v = emits (to_bytes_le 4 v)"
  by (rule ext) (simp add: emit_s32_def s32_def fits32_def)

lemma emit_s32_range: "\<not> fits32 v \<Longrightarrow> emit_s32 v a = Inl (Imm32Range v)"
  by (auto simp: emit_s32_def s32_def fits32_def)

lemma read_le_s32 [enc_simps]:
  "read_le 4 (to_bytes_le 4 v @ bs) = Some (v mod 2 ^ 32, bs)"
  using read_le_to_bytes [of 4 v bs] by simp

lemma read_le_last [enc_simps]:
  "read_le 4 (to_bytes_le 4 v) = Some (v mod 2 ^ 32, [])"
  "read_le 4 (u32 v) = Some (v mod 2 ^ 32, [])"
  using read_le_to_bytes [of 4 v "[]"] by (simp_all add: u32_eq)

lemma and_63: "(v :: int) AND 63 = v mod 64"
  using take_bit_eq_mask [of 6 v] by (simp add: take_bit_eq_mod mask_eq_exp_minus_1)

lemma mod_64_256 [simp]: "(v :: int) mod 64 mod 256 = v mod 64"
proof -
  have "0 \<le> v mod 64" "v mod 64 < 64" by simp_all
  then have "0 \<le> v mod 64" "v mod 64 < 256" by linarith+
  then show ?thesis by (rule mod_pos_pos_trivial)
qed

lemma signed32_mod: "fits32 v \<Longrightarrow> signed_of 4 (v mod 2 ^ 32) = v"
  using signed_of_mod [of 4 v] by (simp add: fits32_def)

subsection \<open>Opcodes that carry a register\<close>

lemma opreg_table:
  "\<forall>c \<in> set [0x50, 0x58, 0x90, 0xB8]. \<forall>m \<in> set [0..7].
     u8 (c + m) \<noteq> 0x0F \<and> \<not> is_legacy (u8 (c + m)) \<and> \<not> is_rex (u8 (c + m)) \<and>
     u8 (c + m) \<noteq> 0xC4 \<and> u8 (c + m) \<noteq> 0xC5 \<and> uint (u8 (c + m)) = c + m \<and> (c + m) mod 8 = m \<and>
     fmt_one_byte (c + m) = Some (Fmt False True (if c = 0xB8 then IV else I0))"
  "\<forall>m \<in> set [0..7]. u8 (0xC8 + m) \<noteq> 0x38 \<and> u8 (0xC8 + m) \<noteq> 0x3A \<and> uint (u8 (0xC8 + m)) = 0xC8 + m \<and>
     (0xC8 + m) mod 8 = m \<and> fmt_0f (0xC8 + m) = Some (Fmt False True I0)"
  by code_simp+

lemma mod_8_mem: "(d :: int) mod 8 \<in> set [0..7]"
  by simp

lemma opreg_plain:
  assumes "c \<in> set [0x50, 0x58, 0x90, 0xB8]"
  shows "\<not> is_legacy (u8 (c + d mod 8))" "\<not> is_rex (u8 (c + d mod 8))"
    "u8 (c + d mod 8) \<noteq> 0xC4" "u8 (c + d mod 8) \<noteq> 0xC5"
  using opreg_table(1) [rule_format, OF assms mod_8_mem [of d]] by simp_all

lemma decode_escape_opreg:
  assumes "c \<in> set [0x50, 0x58, 0x90, 0xB8]"
  shows "decode_escape p hr w r x b (u8 (c + d mod 8) # bs) =
    map_option (\<lambda>(imm, bs'). (\<lparr>i_pfx = p, i_rex = hr, i_vex = None, i_w = (w = 1), i_map = M1,
        i_op = c, i_reg = d mod 8 + 8 * b, i_rm = None, i_imm = imm\<rparr>, bs'))
      (read_le (imm_len (if c = 0xB8 then IV else I0) (w = 1) (0x66 \<in> set p) 0) bs)"
proof -
  note t = opreg_table(1) [rule_format, OF assms mod_8_mem [of d]]
  have "decode_escape p hr w r x b (u8 (c + d mod 8) # bs) =
      decode_tail p hr None w r x b M1 (u8 (c + d mod 8) # bs)"
    using t by (intro decode_escape_1) simp
  also have "\<dots> = map_option (\<lambda>(imm, bs'). (\<lparr>i_pfx = p, i_rex = hr, i_vex = None, i_w = (w = 1),
        i_map = M1, i_op = c, i_reg = d mod 8 + 8 * b, i_rm = None, i_imm = imm\<rparr>, bs'))
      (read_le (imm_len (if c = 0xB8 then IV else I0) (w = 1) (0x66 \<in> set p) 0) bs)"
    using t by (subst decode_tail_none) (simp_all add: fmt_of_def)
  finally show ?thesis .
qed

lemmas decode_opreg [enc_simps] =
  decode_escape_opreg [of "0x50", simplified] decode_escape_opreg [of "0x58", simplified]
  decode_escape_opreg [of "0x90", simplified] decode_escape_opreg [of "0xB8", simplified]

lemmas opreg_bytes [enc_simps] =
  opreg_plain [of "0x50", simplified] opreg_plain [of "0x58", simplified]
  opreg_plain [of "0x90", simplified] opreg_plain [of "0xB8", simplified]

lemma decode_0f_opreg [enc_simps]:
  "decode_escape p hr w r x b (0x0F # u8 (0xC8 + d mod 8) # bs) =
    map_option (\<lambda>(imm, bs'). (\<lparr>i_pfx = p, i_rex = hr, i_vex = None, i_w = (w = 1), i_map = M0F,
        i_op = 0xC8, i_reg = d mod 8 + 8 * b, i_rm = None, i_imm = imm\<rparr>, bs')) (read_le 0 bs)"
proof -
  note t = opreg_table(2) [rule_format, OF mod_8_mem [of d]]
  have "decode_escape p hr w r x b (0x0F # u8 (0xC8 + d mod 8) # bs) =
      decode_tail p hr None w r x b M0F (u8 (0xC8 + d mod 8) # bs)"
    using t by (intro decode_escape_0f) simp_all
  also have "\<dots> = map_option (\<lambda>(imm, bs'). (\<lparr>i_pfx = p, i_rex = hr, i_vex = None, i_w = (w = 1),
        i_map = M0F, i_op = 0xC8, i_reg = d mod 8 + 8 * b, i_rm = None, i_imm = imm\<rparr>, bs'))
      (read_le 0 bs)"
    using t by (subst decode_tail_none) (simp_all add: fmt_of_def imm_len_def)
  finally show ?thesis .
qed

end
