(* ===== verification/Encode_Correct.thy ===== *)
theory Encode_Correct
  imports Encode_Bytes
begin

section \<open>The instruction methods encode the instructions they name\<close>

text \<open>
  For each family of \<open>Assembler\<close> methods of one shape, a table that pairs every method with the
  instruction the manual gives for its mnemonic, and the theorem that the method appends bytes
  the decoder reads as that instruction, for all registers and immediates.
\<close>

subsection \<open>Methods that append given instructions\<close>

definition encodes_all :: "bytes \<Rightarrow> insn list \<Rightarrow> bool" where
  "encodes_all bs is \<longleftrightarrow> (\<exists>bss. bs = concat bss \<and> list_all2 encodes bss is)"

definition gives :: "bool \<Rightarrow> asm_op \<Rightarrow> insn list \<Rightarrow> bool" where
  "gives det f is \<longleftrightarrow>
     (\<forall>a. deterministic a = det \<longrightarrow>
        (\<exists>bs. f a = Inr (a\<lparr>code := code a @ bs\<rparr>) \<and> encodes_all bs is))"

lemma encodes_all_Nil [simp]: "encodes_all [] []"
  by (simp add: encodes_all_def)

lemma encodes_all_single: "encodes bs i \<Longrightarrow> encodes_all bs [i]"
  unfolding encodes_all_def by (intro exI [of _ "[bs]"]) simp

lemma encodes_all_one: "encodes_all bs [i] \<longleftrightarrow> encodes bs i"
proof
  assume "encodes_all bs [i]"
  then show "encodes bs i" unfolding encodes_all_def by (auto simp: list_all2_Cons2)
qed (rule encodes_all_single)

lemma encodes_all_append:
  assumes "encodes_all bs is" and "encodes_all cs js"
  shows "encodes_all (bs @ cs) (is @ js)"
proof -
  obtain bss css where "bs = concat bss" "list_all2 encodes bss is"
      "cs = concat css" "list_all2 encodes css js"
    using assms by (auto simp: encodes_all_def)
  then have "bs @ cs = concat (bss @ css) \<and> list_all2 encodes (bss @ css) (is @ js)"
    by (simp add: list_all2_appendI)
  then show ?thesis unfolding encodes_all_def by blast
qed

lemma disasm_encodes_all: "encodes_all bs is \<Longrightarrow> disasm (bs @ cs) (is @ js) = disasm cs js"
proof -
  have "disasm (concat bss @ cs) (is @ js) = disasm cs js" if "list_all2 encodes bss is" for bss
    using that
    by (induction bss "is" rule: list_all2_induct)
      (simp_all add: disasm_encodes_Cons del: disasm.simps(2))
  moreover assume "encodes_all bs is"
  ultimately show ?thesis by (auto simp: encodes_all_def)
qed

lemma disasm_whole: "encodes_all bs is \<Longrightarrow> disasm bs is"
  using disasm_encodes_all [of bs "is" "[]" "[]"] by simp

lemma givesE:
  assumes "gives (deterministic a) f is"
  obtains bs where "f a = Inr (a\<lparr>code := code a @ bs\<rparr>)" and "encodes_all bs is"
  using assms unfolding gives_def by blast

lemma gives_single:
  assumes "gives (deterministic a) f [i]"
  shows "\<exists>bs. f a = Inr (a\<lparr>code := code a @ bs\<rparr>) \<and> (\<forall>rest. decode (bs @ rest) = Some (i, rest))"
  using assms by (rule givesE) (auto simp: encodes_all_one encodes_def)

lemma gives_skip: "gives det skip_op []"
  unfolding gives_def skip_op_def by (intro allI impI exI [of _ "[]"]) simp

lemma gives_seqE_Nil: "gives det (seqE []) []"
  unfolding gives_def by (intro allI impI exI [of _ "[]"]) simp

lemma gives_seqE_Cons:
  assumes f: "gives det f is" and fs: "gives det (seqE fs) js"
  shows "gives det (seqE (f # fs)) (is @ js)"
  unfolding gives_def
proof (intro allI impI)
  fix a :: asm
  assume a: "deterministic a = det"
  then obtain bs where bs: "f a = Inr (a\<lparr>code := code a @ bs\<rparr>)" "encodes_all bs is"
    using f unfolding gives_def by blast
  let ?b = "a\<lparr>code := code a @ bs\<rparr>"
  have "deterministic ?b = det" using a by simp
  then obtain cs where cs: "seqE fs ?b = Inr (?b\<lparr>code := code ?b @ cs\<rparr>)" "encodes_all cs js"
    using fs unfolding gives_def by blast
  show "\<exists>bs. seqE (f # fs) a = Inr (a\<lparr>code := code a @ bs\<rparr>) \<and> encodes_all bs (is @ js)"
    using bs cs encodes_all_append [OF bs(2) cs(2)] by (intro exI [of _ "bs @ cs"]) simp
qed

lemma gives_emits: "encodes bs i \<Longrightarrow> gives det (emits bs) [i]"
  unfolding gives_def emits_def using encodes_all_single by blast

lemma gives_with_reg:
  "reg_num n = Inr d \<Longrightarrow> gives det (f d) is \<Longrightarrow> gives det (with_reg n f) is"
  by (simp add: gives_def with_reg_def)

subsection \<open>Instruction templates\<close>

text \<open>\<open>mr\<close>: the second operand in ModRM.reg, the destination in ModRM.rm; \<open>rm\<close> the other way
  round; \<open>grp\<close>: an opcode extension in ModRM.reg.\<close>

definition rex_insn :: "bytes \<Rightarrow> opmap \<Rightarrow> int \<Rightarrow> int \<Rightarrow> operand option \<Rightarrow> int \<Rightarrow> insn" where
  "rex_insn pfx m op' reg rm imm =
    \<lparr>i_pfx = pfx, i_rex = True, i_vex = None, i_w = True, i_map = m, i_op = op', i_reg = reg,
     i_rm = rm, i_imm = imm\<rparr>"

definition mr :: "bytes \<Rightarrow> opmap \<Rightarrow> int \<Rightarrow> int \<Rightarrow> int \<Rightarrow> insn" where
  "mr pfx m op' d s = rex_insn pfx m op' s (Some (OReg d)) 0"

definition rm :: "bytes \<Rightarrow> opmap \<Rightarrow> int \<Rightarrow> int \<Rightarrow> int \<Rightarrow> insn" where
  "rm pfx m op' d s = rex_insn pfx m op' d (Some (OReg s)) 0"

definition rr_table :: "((string \<Rightarrow> string \<Rightarrow> asm_op) \<times> (int \<Rightarrow> int \<Rightarrow> insn)) list" where
  "rr_table =
    [(add_reg_reg, mr [] M1 0x01), (or_reg_reg, mr [] M1 0x09), (adc_reg_reg, mr [] M1 0x11),
     (sbb_reg_reg, mr [] M1 0x19), (and_reg_reg, mr [] M1 0x21), (sub_reg_reg, mr [] M1 0x29),
     (xor_reg_reg, mr [] M1 0x31), (cmp_reg_reg, mr [] M1 0x39), (test_reg_reg, mr [] M1 0x85),
     (imul_reg_reg, rm [] M0F 0xAF), (movsxd_reg_reg, rm [] M1 0x63),
     (movzx_r64_r8, rm [] M0F 0xB6), (movzx_r64_r16, rm [] M0F 0xB7),
     (movsx_r64_r8, rm [] M0F 0xBE), (movsx_r64_r16, rm [] M0F 0xBF),
     (xadd_reg_reg, mr [] M0F 0xC1), (cmpxchg_reg_reg, mr [] M0F 0xB1),
     (bt_reg_reg, mr [] M0F 0xA3), (bts_reg_reg, mr [] M0F 0xAB), (btr_reg_reg, mr [] M0F 0xB3),
     (btc_reg_reg, mr [] M0F 0xBB), (bsf_reg_reg, rm [] M0F 0xBC), (bsr_reg_reg, rm [] M0F 0xBD),
     (shrd_reg_reg, mr [] M0F 0xAD), (popcnt_reg_reg, rm [0xF3] M0F 0xB8),
     (lzcnt_reg_reg, rm [0xF3] M0F 0xBD), (tzcnt_reg_reg, rm [0xF3] M0F 0xBC),
     (adcx_reg_reg, rm [0x66] M0F38 0xF6), (adox_reg_reg, rm [0xF3] M0F38 0xF6),
     (crc32_reg_reg, rm [0xF2] M0F38 0xF1), (lar_reg_reg, rm [] M0F 0x02),
     (lsl_reg_reg, rm [] M0F 0x03)]"

lemmas rr_defs =
  add_reg_reg_def or_reg_reg_def adc_reg_reg_def sbb_reg_reg_def and_reg_reg_def sub_reg_reg_def
  xor_reg_reg_def cmp_reg_reg_def test_reg_reg_def imul_reg_reg_def movsxd_reg_reg_def
  movzx_r64_r8_def movzx_r64_r16_def movsx_r64_r8_def movsx_r64_r16_def xadd_reg_reg_def
  cmpxchg_reg_reg_def bt_reg_reg_def bts_reg_reg_def btr_reg_reg_def btc_reg_reg_def
  bsf_reg_reg_def bsr_reg_reg_def shrd_reg_reg_def popcnt_reg_reg_def lzcnt_reg_reg_def
  tzcnt_reg_reg_def adcx_reg_reg_def adox_reg_reg_def crc32_reg_reg_def lar_reg_reg_def
  lsl_reg_reg_def binop_reg_reg_def

lemma rr_encode:
  assumes "0 \<le> d" "d < 16" "0 \<le> s" "s < 16"
    and dst: "reg_num dst = Inr d" and src: "reg_num src = Inr s"
  shows "list_all (\<lambda>(f, i). gives det (f dst src) [i d s]) rr_table"
  using assms reg_div_8 [OF assms(1,2)] reg_div_8 [OF assms(3,4)]
  unfolding rr_table_def list.pred_inject split rr_defs
  by (intro conjI TrueI gives_with_reg [OF dst] gives_with_reg [OF src] gives_emits)
    (simp_all add: encodes_def enc_simps drop_3 and_7 fmt_of_def fmt_one_byte_def fmt_0f_def
      imm_len_def mr_def rm_def rex_insn_def)

lemmas tmpl_defs = fmt_of_def fmt_one_byte_def fmt_0f_def imm_len_def rex_insn_def

subsection \<open>One register\<close>

definition grp :: "bytes \<Rightarrow> opmap \<Rightarrow> int \<Rightarrow> int \<Rightarrow> int \<Rightarrow> insn" where
  "grp pfx m op' digit d = rex_insn pfx m op' digit (Some (OReg d)) 0"

definition r_table :: "((string \<Rightarrow> asm_op) \<times> (int \<Rightarrow> insn)) list" where
  "r_table =
    [(not_reg, grp [] M1 0xF7 2), (neg_reg, grp [] M1 0xF7 3), (mul_reg, grp [] M1 0xF7 4),
     (div_reg, grp [] M1 0xF7 6), (idiv_reg, grp [] M1 0xF7 7),
     (inc_reg, grp [] M1 0xFF 0), (dec_reg, grp [] M1 0xFF 1), (call_reg, grp [] M1 0xFF 2),
     (rol_reg_cl, grp [] M1 0xD3 0), (ror_reg_cl, grp [] M1 0xD3 1), (rcl_reg_cl, grp [] M1 0xD3 2),
     (rcr_reg_cl, grp [] M1 0xD3 3), (shl_reg_cl, grp [] M1 0xD3 4), (shr_reg_cl, grp [] M1 0xD3 5),
     (sar_reg_cl, grp [] M1 0xD3 7), (sal_reg_cl, grp [] M1 0xD3 4),
     (rdrand_reg, grp [] M0F 0xC7 6), (rdseed_reg, grp [] M0F 0xC7 7),
     (rdfsbase_reg, grp [0xF3] M0F 0xAE 0), (rdgsbase_reg, grp [0xF3] M0F 0xAE 1),
     (wrfsbase_reg, grp [0xF3] M0F 0xAE 2), (wrgsbase_reg, grp [0xF3] M0F 0xAE 3),
     (bswap_reg, \<lambda>d. rex_insn [] M0F 0xC8 d None 0),
     (xchg_reg_rax, \<lambda>d. rex_insn [] M1 0x90 d None 0)]"

lemmas r_defs =
  not_reg_def neg_reg_def mul_reg_def div_reg_def idiv_reg_def inc_reg_def dec_reg_def
  call_reg_def rol_reg_cl_def ror_reg_cl_def rcl_reg_cl_def rcr_reg_cl_def shl_reg_cl_def
  shr_reg_cl_def sar_reg_cl_def sal_reg_cl_def rdrand_reg_def rdseed_reg_def rdfsbase_reg_def
  rdgsbase_reg_def wrfsbase_reg_def wrgsbase_reg_def bswap_reg_def xchg_reg_rax_def

lemma r_encode:
  assumes "0 \<le> d" "d < 16" and dst: "reg_num dst = Inr d"
  shows "list_all (\<lambda>(f, i). gives det (f dst) [i d]) r_table"
  using assms reg_div_8 [OF assms(1,2)]
  unfolding r_table_def list.pred_inject split r_defs
  by (intro conjI TrueI gives_with_reg [OF dst] gives_emits)
    (simp_all add: encodes_def enc_simps drop_3 and_7 tmpl_defs grp_def)

subsection \<open>A register and an immediate\<close>

definition grpi :: "opmap \<Rightarrow> int \<Rightarrow> int \<Rightarrow> int \<Rightarrow> int \<Rightarrow> insn" where
  "grpi m op' digit d imm = rex_insn [] m op' digit (Some (OReg d)) imm"

text \<open>Shift counts are reduced to six bits, or left to the processor, which reduces them.\<close>

definition ri8_table :: "((string \<Rightarrow> int \<Rightarrow> asm_op) \<times> (int \<Rightarrow> int \<Rightarrow> insn)) list" where
  "ri8_table =
    [(rol_reg_imm8, \<lambda>d imm. grpi M1 0xC1 0 d (imm mod 64)),
     (ror_reg_imm8, \<lambda>d imm. grpi M1 0xC1 1 d (imm mod 64)),
     (rcl_reg_imm8, \<lambda>d imm. grpi M1 0xC1 2 d (imm mod 256)),
     (rcr_reg_imm8, \<lambda>d imm. grpi M1 0xC1 3 d (imm mod 256)),
     (shl_reg_imm8, \<lambda>d imm. grpi M1 0xC1 4 d (imm mod 64)),
     (sal_reg_imm8, \<lambda>d imm. grpi M1 0xC1 4 d (imm mod 64)),
     (shr_reg_imm8, \<lambda>d imm. grpi M1 0xC1 5 d (imm mod 64)),
     (sar_reg_imm8, \<lambda>d imm. grpi M1 0xC1 7 d (imm mod 256)),
     (bt_reg_imm8, \<lambda>d imm. grpi M0F 0xBA 4 d (imm mod 256)),
     (bts_reg_imm8, \<lambda>d imm. grpi M0F 0xBA 5 d (imm mod 256)),
     (btr_reg_imm8, \<lambda>d imm. grpi M0F 0xBA 6 d (imm mod 256)),
     (btc_reg_imm8, \<lambda>d imm. grpi M0F 0xBA 7 d (imm mod 256))]"

lemmas ri8_defs =
  rol_reg_imm8_def ror_reg_imm8_def rcl_reg_imm8_def rcr_reg_imm8_def shl_reg_imm8_def
  sal_reg_imm8_def shr_reg_imm8_def sar_reg_imm8_def bt_reg_imm8_def bts_reg_imm8_def
  btr_reg_imm8_def btc_reg_imm8_def

lemma ri8_encode:
  assumes "0 \<le> d" "d < 16" and dst: "reg_num dst = Inr d"
  shows "list_all (\<lambda>(f, i). gives det (f dst imm) [i d imm]) ri8_table"
  using assms reg_div_8 [OF assms(1,2)]
  unfolding ri8_table_def list.pred_inject split ri8_defs
  by (intro conjI TrueI gives_with_reg [OF dst] gives_emits)
    (simp_all add: encodes_def enc_simps drop_3 and_7 and_63 and_255 tmpl_defs grpi_def)

definition ri32_table :: "((string \<Rightarrow> int \<Rightarrow> asm_op) \<times> (int \<Rightarrow> int \<Rightarrow> insn)) list" where
  "ri32_table =
    [(add_reg_imm, grpi M1 0x81 0), (or_reg_imm, grpi M1 0x81 1), (and_reg_imm, grpi M1 0x81 4),
     (sub_reg_imm, grpi M1 0x81 5), (xor_reg_imm, grpi M1 0x81 6), (cmp_reg_imm, grpi M1 0x81 7),
     (test_reg_imm32, grpi M1 0xF7 0),
     (imul_reg_imm, \<lambda>d. rex_insn [] M1 0x69 d (Some (OReg d)))]"

lemmas ri32_defs =
  add_reg_imm_def or_reg_imm_def and_reg_imm_def sub_reg_imm_def xor_reg_imm_def cmp_reg_imm_def
  test_reg_imm32_def imul_reg_imm_def binop_reg_imm32_def

lemma ri32_encode:
  assumes "0 \<le> d" "d < 16" and dst: "reg_num dst = Inr d" and imm: "fits32 imm"
  shows "list_all (\<lambda>(f, i). gives det (f dst imm) [i d (imm mod 2 ^ 32)]) ri32_table"
  using assms reg_div_8 [OF assms(1,2)]
  unfolding ri32_table_def list.pred_inject split ri32_defs seqE_emits emit_s32_fits [OF imm]
  by (intro conjI TrueI gives_with_reg [OF dst] gives_emits)
    (simp_all add: encodes_def enc_simps drop_3 and_7 and_mask32 tmpl_defs grpi_def)

subsection \<open>Loads of constants, moves, the stack\<close>

text \<open>The instruction \<open>mov_reg_imm64\<close> chooses: the 10-byte form in deterministic mode, else the
  shortest of a zero-extending 32-bit load, a sign-extending one and the 10-byte form.\<close>

definition mov_imm_insn :: "bool \<Rightarrow> int \<Rightarrow> int \<Rightarrow> insn" where
  "mov_imm_insn det d imm =
    (let v = imm mod 2 ^ 64 in
     if det then rex_insn [] M1 0xB8 d None v
     else if v \<le> 0xFFFFFFFF then
       \<lparr>i_pfx = [], i_rex = (8 \<le> d), i_vex = None, i_w = False, i_map = M1, i_op = 0xB8,
        i_reg = d, i_rm = None, i_imm = v\<rparr>
     else if 0xFFFFFFFF80000000 \<le> v then rex_insn [] M1 0xC7 0 (Some (OReg d)) (v mod 2 ^ 32)
     else rex_insn [] M1 0xB8 d None v)"


lemma rex_b_only [unfolded One_nat_def, enc_simps]:
  "is_rex 0x41" "\<not> is_legacy 0x41" "field 3 1 0x41 = 0" "field 2 1 0x41 = 0"
  "field 1 1 0x41 = 0" "field 0 1 0x41 = 1"
  by code_simp+

text \<open>A register below 8 needs no extension bit.\<close>

lemma reg_low_high:
  assumes "0 \<le> d" "d < (16 :: int)"
  obtains (low) e where "d = e mod 8" "\<not> 8 \<le> e mod 8" | (high) "8 \<le> d" "d mod 8 + 8 = d" "d div 8 = 1"
proof (cases "8 \<le> d")
  case True
  then show ?thesis using assms by (intro high) presburger+
next
  case False
  then show ?thesis using assms by (intro low [of d]) simp_all
qed

definition mov_imm_bytes :: "bool \<Rightarrow> int \<Rightarrow> int \<Rightarrow> bytes" where
  "mov_imm_bytes det d v =
    (if det then [u8 (rex 1 0 0 (d div 8)), u8 (0xB8 + d mod 8)] @ u64 v
     else if v \<le> 0xFFFFFFFF then (if 8 \<le> d then [0x41] else []) @ [u8 (0xB8 + d mod 8)] @ u32 v
     else if 0xFFFFFFFF80000000 \<le> v then
       [u8 (rex 1 0 0 (d div 8)), u8 0xC7, u8 (modrm 3 0 (d mod 8))] @ u32 (v mod 2 ^ 32)
     else [u8 (rex 1 0 0 (d div 8)), u8 (0xB8 + d mod 8)] @ u64 v)"

lemma mov_imm_bytes:
  assumes "reg_num dst = Inr d"
  shows "mov_reg_imm64 dst imm a =
    emits (mov_imm_bytes (deterministic a) d (imm mod 2 ^ 64)) a"
proof -
  have v: "0 \<le> imm mod 2 ^ 64" "imm mod 2 ^ 64 < 2 ^ 64" by simp_all
  have m: "(v - 0x10000000000000000) mod 0x100000000 = v mod (0x100000000 :: int)" for v
    by (simp add: mod_diff_eq [symmetric])
  show ?thesis
    using assms v unfolding mov_reg_imm64_def mov_imm_bytes_def
    by (auto simp: with_reg_def Let_def and_mask64 and_mask32 m and_7 drop_3 emits_def skip_op_def
        enc_simps)
qed

lemma mov_imm_encodes:
  assumes d: "0 \<le> d" "d < 16" and v: "0 \<le> v" "v < 2 ^ 64"
  shows "encodes (mov_imm_bytes det d v) (mov_imm_insn det d v)"
proof -
  have m: "v mod 2 ^ 64 = v" "v \<le> 0xFFFFFFFF \<Longrightarrow> v mod 2 ^ 32 = v" using v by simp_all
  from d show ?thesis
  proof (cases rule: reg_low_high)
    case (low e)
    with m show ?thesis
      unfolding mov_imm_bytes_def mov_imm_insn_def encodes_def Let_def
      by (simp add: enc_simps tmpl_defs)
  next
    case high
    with m show ?thesis
      unfolding mov_imm_bytes_def mov_imm_insn_def encodes_def Let_def
      by (simp add: enc_simps tmpl_defs)
  qed
qed

lemma mov_imm_encode:
  assumes d: "0 \<le> d" "d < 16" and dst: "reg_num dst = Inr d"
  shows "gives det (mov_reg_imm64 dst imm) [mov_imm_insn det d imm]"
proof -
  have "mov_imm_insn det d (imm mod 2 ^ 64) = mov_imm_insn det d imm"
    by (simp add: mov_imm_insn_def)
  moreover have "encodes (mov_imm_bytes det d (imm mod 2 ^ 64)) (mov_imm_insn det d (imm mod 2 ^ 64))"
    by (rule mov_imm_encodes [OF d]) simp_all
  ultimately show ?thesis
    unfolding gives_def mov_imm_bytes [OF dst] emits_def by (auto intro: encodes_all_single)
qed

lemma mov_reg_encode:
  assumes "0 \<le> d" "d < 16" "0 \<le> s" "s < 16"
    and dst: "reg_num dst = Inr d" and src: "reg_num src = Inr s"
  shows "gives det (mov_reg_reg dst src) (if dst = src then [] else [mr [] M1 0x89 d s])"
proof (cases "dst = src")
  case True
  then show ?thesis by (simp add: mov_reg_reg_def gives_skip)
next
  case False
  then show ?thesis
    using assms reg_div_8 [OF assms(1,2)] reg_div_8 [OF assms(3,4)]
    unfolding mov_reg_reg_def if_not_P [OF False]
    by (intro gives_with_reg [OF dst] gives_with_reg [OF src] gives_emits)
      (simp_all add: encodes_def enc_simps drop_3 and_7 tmpl_defs mr_def)
qed

definition stack_insn :: "int \<Rightarrow> int \<Rightarrow> insn" where
  "stack_insn op' d =
    \<lparr>i_pfx = [], i_rex = (8 \<le> d), i_vex = None, i_w = False, i_map = M1, i_op = op',
     i_reg = d, i_rm = None, i_imm = 0\<rparr>"

lemma stack_encodes:
  assumes "0 \<le> d" "d < 16" and c: "c = 0x50 \<or> c = 0x58"
  shows "encodes ((if 8 \<le> d then [u8 (rex 0 0 0 1)] else []) @ [u8 (c + d mod 8)]) (stack_insn c d)"
  using assms(1,2)
proof (cases rule: reg_low_high)
  case (low e)
  with c show ?thesis by (auto simp: encodes_def stack_insn_def enc_simps tmpl_defs)
next
  case high
  with c show ?thesis by (auto simp: encodes_def stack_insn_def enc_simps tmpl_defs)
qed

lemma push_pop_encode:
  assumes d: "0 \<le> d" "d < 16" and r: "reg_num r = Inr d"
  shows "gives det (push_reg r) [stack_insn 0x50 d]" and "gives det (pop_reg r) [stack_insn 0x58 d]"
proof -
  have e: "seqE [(if 8 \<le> d then emits [u8 (rex 0 0 0 1)] else skip_op), emits [b]] =
      emits ((if 8 \<le> d then [u8 (rex 0 0 0 1)] else []) @ [b])" for b
    by (simp add: flat_simps)
  show "gives det (push_reg r) [stack_insn 0x50 d]" "gives det (pop_reg r) [stack_insn 0x58 d]"
    unfolding push_reg_def pop_reg_def and_7
    by (rule gives_with_reg [OF r], unfold e, rule gives_emits, rule stack_encodes [OF d], simp)+
qed


end
