(* ===== verification/X86_Machine.thy ===== *)
theory X86_Machine
  imports X86_Decode
begin

section \<open>What the decoded instructions do\<close>

text \<open>
  The integer core of the processor as the specification of the generated code: sixteen 64-bit
  registers, a flat byte memory, the instruction pointer and the flags CF, ZF, SF, OF, each
  \<open>None\<close> where the manual leaves it undefined (or where the model does not compute it). \<open>exec i m\<close>
  runs one decoded instruction in a state whose \<open>rip\<close> already points behind it; \<open>None\<close> is a
  fault (\<open>#DE\<close>) or an instruction outside the modelled core. No segmentation, paging or faults on
  memory accesses.
\<close>

record flags =
  cf :: "bool option"
  zf :: "bool option"
  sf :: "bool option"
  ovf :: "bool option"

record mach =
  rg :: "int \<Rightarrow> 64 word"
  mem :: "64 word \<Rightarrow> byte"
  rip :: "64 word"
  fl :: flags

subsection \<open>Registers and memory\<close>

definition set_rg :: "int \<Rightarrow> 64 word \<Rightarrow> mach \<Rightarrow> mach" where
  "set_rg r v m = m\<lparr>rg := (rg m)(r := v)\<rparr>"

definition load_le :: "nat \<Rightarrow> 64 word \<Rightarrow> mach \<Rightarrow> int" where
  "load_le n p m = from_bytes_le (map (\<lambda>k. mem m (p + of_nat k)) [0..<n])"

fun store_bytes :: "bytes \<Rightarrow> 64 word \<Rightarrow> mach \<Rightarrow> mach" where
  "store_bytes [] p m = m"
| "store_bytes (b # bs) p m = store_bytes bs (p + 1) (m\<lparr>mem := (mem m)(p := b)\<rparr>)"

definition store_le :: "nat \<Rightarrow> 64 word \<Rightarrow> 64 word \<Rightarrow> mach \<Rightarrow> mach" where
  "store_le n p v m = store_bytes (to_bytes_le n (uint v)) p m"

definition load64 :: "64 word \<Rightarrow> mach \<Rightarrow> 64 word" where
  "load64 p m = word_of_int (load_le 8 p m)"

definition store64 :: "64 word \<Rightarrow> 64 word \<Rightarrow> mach \<Rightarrow> mach" where
  "store64 p v m = store_bytes (to_bytes_le 8 (uint v)) p m"

fun is_reg :: "operand \<Rightarrow> bool" where
  "is_reg (OReg r) \<longleftrightarrow> True"
| "is_reg _ \<longleftrightarrow> False"

definition eff_addr :: "mach \<Rightarrow> operand \<Rightarrow> 64 word" where
  "eff_addr m x = (case x of OReg r \<Rightarrow> 0
     | OMem b ix d \<Rightarrow> (case b of None \<Rightarrow> 0 | Some r \<Rightarrow> rg m r) +
         (case ix of None \<Rightarrow> 0 | Some (r, s) \<Rightarrow> rg m r * word_of_int s) + word_of_int d
     | ORip d \<Rightarrow> rip m + word_of_int d)"

definition read_rm :: "mach \<Rightarrow> operand \<Rightarrow> 64 word" where
  "read_rm m x = (case x of OReg r \<Rightarrow> rg m r | _ \<Rightarrow> load64 (eff_addr m x) m)"

text \<open>The low \<open>n\<close> bytes of an operand.\<close>

definition read_low :: "nat \<Rightarrow> operand \<Rightarrow> mach \<Rightarrow> int" where
  "read_low n x m = (case x of OReg r \<Rightarrow> uint (rg m r) mod 256 ^ n | _ \<Rightarrow> load_le n (eff_addr m x) m)"

definition write_rm :: "operand \<Rightarrow> 64 word \<Rightarrow> mach \<Rightarrow> mach" where
  "write_rm x v m = (case x of OReg r \<Rightarrow> set_rg r v m | _ \<Rightarrow> store64 (eff_addr m x) v m)"

subsection \<open>Arithmetic\<close>

definition zs_flags :: "64 word \<Rightarrow> bool option \<Rightarrow> bool option \<Rightarrow> flags" where
  "zs_flags r c v = \<lparr>cf = c, zf = Some (r = 0), sf = Some (sint r < 0), ovf = v\<rparr>"

definition add_flags :: "64 word \<Rightarrow> 64 word \<Rightarrow> flags" where
  "add_flags a b = zs_flags (a + b) (Some (uint a + uint b \<ge> 2 ^ 64))
     (Some (sint (a + b) \<noteq> sint a + sint b))"

definition sub_flags :: "64 word \<Rightarrow> 64 word \<Rightarrow> flags" where
  "sub_flags a b = zs_flags (a - b) (Some (a < b)) (Some (sint (a - b) \<noteq> sint a - sint b))"

definition logic_flags :: "64 word \<Rightarrow> flags" where
  "logic_flags r = zs_flags r (Some False) (Some False)"

text \<open>The eight operations of opcodes \<open>00\<close>--\<open>3F\<close> and of group 1 (ADC and SBB are not modelled):
  the result to write back, if any, and the flags.\<close>

definition alu :: "int \<Rightarrow> 64 word \<Rightarrow> 64 word \<Rightarrow> (64 word option \<times> flags) option" where
  "alu k a b =
    (if k = 0 then Some (Some (a + b), add_flags a b)
     else if k = 1 then Some (Some (a OR b), logic_flags (a OR b))
     else if k = 4 then Some (Some (a AND b), logic_flags (a AND b))
     else if k = 5 then Some (Some (a - b), sub_flags a b)
     else if k = 6 then Some (Some (a XOR b), logic_flags (a XOR b))
     else if k = 7 then Some (None, sub_flags a b)
     else None)"

definition no_flags :: flags where
  "no_flags = \<lparr>cf = None, zf = None, sf = None, ovf = None\<rparr>"

text \<open>Shifts and rotates of group 2 by a 6-bit count; a zero count leaves the flags alone.\<close>

definition shift :: "int \<Rightarrow> 64 word \<Rightarrow> nat \<Rightarrow> 64 word option" where
  "shift k a n =
    (if k = 0 then Some (word_rotl n a) else if k = 1 then Some (word_rotr n a)
     else if k = 4 then Some (push_bit n a) else if k = 5 then Some (drop_bit n a)
     else if k = 7 then Some (signed_drop_bit n a) else None)"

definition shift_flags :: "int \<Rightarrow> nat \<Rightarrow> 64 word \<Rightarrow> flags \<Rightarrow> flags" where
  "shift_flags k n r f =
    (if n = 0 then f
     else if k < 4 then f\<lparr>cf := None, ovf := None\<rparr>
     else zs_flags r None None)"

text \<open>Truncating division of the 128-bit dividend \<open>hi:lo\<close> (Intel: \<open>#DE\<close> on a zero divisor or a
  quotient that does not fit).\<close>

definition quot :: "int \<Rightarrow> int \<Rightarrow> int" where
  "quot a b = sgn a * sgn b * (\<bar>a\<bar> div \<bar>b\<bar>)"

definition idiv_rax :: "64 word \<Rightarrow> mach \<Rightarrow> mach option" where
  "idiv_rax v m =
    (let n = sint (rg m 2) * 2 ^ 64 + uint (rg m 0); q = quot n (sint v) in
     if v = 0 \<or> q < - (2 ^ 63) \<or> 2 ^ 63 \<le> q then None
     else Some (set_rg 2 (word_of_int (n - q * sint v)) (set_rg 0 (word_of_int q) m)\<lparr>fl := no_flags\<rparr>))"

definition div_rax :: "64 word \<Rightarrow> mach \<Rightarrow> mach option" where
  "div_rax v m =
    (let n = uint (rg m 2) * 2 ^ 64 + uint (rg m 0) in
     if v = 0 \<or> 2 ^ 64 \<le> n div uint v then None
     else Some (set_rg 2 (word_of_int (n mod uint v))
                 (set_rg 0 (word_of_int (n div uint v)) m)\<lparr>fl := no_flags\<rparr>))"

subsection \<open>Conditions\<close>

definition lift2 :: "('a \<Rightarrow> 'b \<Rightarrow> 'c) \<Rightarrow> 'a option \<Rightarrow> 'b option \<Rightarrow> 'c option" where
  "lift2 f x y = (case x of None \<Rightarrow> None | Some a \<Rightarrow> map_option (f a) y)"

text \<open>The condition in the low four bits of \<open>Jcc\<close>, \<open>SETcc\<close> and \<open>CMOVcc\<close>; an odd code negates.\<close>

definition cond_even :: "int \<Rightarrow> flags \<Rightarrow> bool option" where
  "cond_even k f =
    (if k = 0 then ovf f else if k = 2 then cf f else if k = 4 then zf f
     else if k = 6 then lift2 (\<or>) (cf f) (zf f) else if k = 8 then sf f
     else if k = 12 then lift2 (\<noteq>) (sf f) (ovf f)
     else if k = 14 then lift2 (\<or>) (zf f) (lift2 (\<noteq>) (sf f) (ovf f))
     else None)"

definition cond_holds :: "int \<Rightarrow> flags \<Rightarrow> bool option" where
  "cond_holds k f = (if k mod 2 = 0 then cond_even k f else map_option Not (cond_even (k - 1) f))"

subsection \<open>Executing one instruction\<close>

definition sext :: "nat \<Rightarrow> int \<Rightarrow> 64 word" where
  "sext n v = word_of_int (signed_of n v)"

definition alu_exec :: "int \<Rightarrow> operand \<Rightarrow> 64 word \<Rightarrow> mach \<Rightarrow> mach option" where
  "alu_exec k x b m =
    (case alu k (read_rm m x) b of None \<Rightarrow> None
     | Some (r, f) \<Rightarrow> Some ((case r of None \<Rightarrow> m | Some v \<Rightarrow> write_rm x v m)\<lparr>fl := f\<rparr>))"

definition shift_exec :: "int \<Rightarrow> operand \<Rightarrow> nat \<Rightarrow> mach \<Rightarrow> mach option" where
  "shift_exec k x n m =
    (case shift k (read_rm m x) n of None \<Rightarrow> None
     | Some v \<Rightarrow> Some ((write_rm x v m)\<lparr>fl := shift_flags k n v (fl m)\<rparr>))"

definition group3 :: "int \<Rightarrow> operand \<Rightarrow> int \<Rightarrow> mach \<Rightarrow> mach option" where
  "group3 k x imm m =
    (let v = read_rm m x in
     if k = 0 then Some (m\<lparr>fl := logic_flags (v AND sext 4 imm)\<rparr>)
     else if k = 2 then Some (write_rm x (NOT v) m)
     else if k = 3 then Some ((write_rm x (- v) m)\<lparr>fl := sub_flags 0 v\<rparr>)
     else if k = 6 then div_rax v m
     else if k = 7 then idiv_rax v m
     else None)"

definition push64 :: "64 word \<Rightarrow> mach \<Rightarrow> mach" where
  "push64 v m = store64 (rg m 4 - 8) v (set_rg 4 (rg m 4 - 8) m)"

text \<open>\<open>POP r\<close> reads the stack, moves \<open>rsp\<close>, then writes \<open>r\<close>.\<close>

definition pop64 :: "int \<Rightarrow> mach \<Rightarrow> mach" where
  "pop64 r m = set_rg r (load64 (rg m 4) m) (set_rg 4 (rg m 4 + 8) m)"

text \<open>An operand whose register names are full width: under REX every byte register is a low
  byte, so the \<open>AH\<close>--\<open>BH\<close> reading of the encodings 4 to 7 without REX does not arise.\<close>

definition exec_rm :: "insn \<Rightarrow> operand \<Rightarrow> mach \<Rightarrow> mach option" where
  "exec_rm i x m =
    (let k = i_op i; r = i_reg i in
     if k < 0x40 \<and> k mod 8 = 1 then alu_exec (k div 8) x (rg m r) m
     else if k = 0x81 then alu_exec r x (sext 4 (i_imm i)) m
     else if k = 0x85 then Some (m\<lparr>fl := logic_flags (read_rm m x AND rg m r)\<rparr>)
     else if k = 0x89 then Some (write_rm x (rg m r) m)
     else if k = 0x8B then Some (set_rg r (read_rm m x) m)
     else if k = 0x8D then (case x of OReg _ \<Rightarrow> None | _ \<Rightarrow> Some (set_rg r (eff_addr m x) m))
     else if k = 0x87 then Some (set_rg r (read_rm m x) (write_rm x (rg m r) m))
     else if k = 0xC7 \<and> r = 0 then Some (write_rm x (sext 4 (i_imm i)) m)
     else if k = 0xF7 then group3 r x (i_imm i) m
     else if k = 0xC1 then shift_exec r x (nat (i_imm i mod 64)) m
     else if k = 0xD3 then shift_exec r x (nat (uint (rg m 1) mod 64)) m
     else if k = 0xFF \<and> r = 0 then
       Some ((write_rm x (read_rm m x + 1) m)\<lparr>fl := (add_flags (read_rm m x) 1)\<lparr>cf := cf (fl m)\<rparr>\<rparr>)
     else if k = 0xFF \<and> r = 1 then
       Some ((write_rm x (read_rm m x - 1) m)\<lparr>fl := (sub_flags (read_rm m x) 1)\<lparr>cf := cf (fl m)\<rparr>\<rparr>)
     else None)"

definition exec_0f :: "insn \<Rightarrow> operand \<Rightarrow> mach \<Rightarrow> mach option" where
  "exec_0f i x m =
    (let k = i_op i; r = i_reg i; v = read_rm m x in
     if k = 0xAF then
       Some (set_rg r (rg m r * v) m\<lparr>fl :=
         (let o' = Some (sint (rg m r * v) \<noteq> sint (rg m r) * sint v) in
          \<lparr>cf = o', zf = None, sf = None, ovf = o'\<rparr>)\<rparr>)
     else if k = 0xB6 then Some (set_rg r (word_of_int (read_low 1 x m)) m)
     else if k = 0xB7 then Some (set_rg r (word_of_int (read_low 2 x m)) m)
     else if 0x40 \<le> k \<and> k \<le> 0x4F then
       map_option (\<lambda>c. if c then set_rg r v m else m) (cond_holds (k - 0x40) (fl m))
     else None)"

text \<open>Loads and stores of 8, 16 (prefix \<open>66\<close>) and 32 bits; without REX only \<open>al\<close> to \<open>bl\<close> are the low
  bytes of their registers.\<close>

definition exec_narrow :: "insn \<Rightarrow> operand \<Rightarrow> mach \<Rightarrow> mach option" where
  "exec_narrow i x m =
    (let k = i_op i; r = i_reg i in
     if is_reg x then None
     else if k = 0x88 \<and> i_pfx i = [] \<and> (i_rex i \<or> r < 4) then Some (store_le 1 (eff_addr m x) (rg m r) m)
     else if k = 0x89 then Some (store_le (if i_pfx i = [] then 4 else 2) (eff_addr m x) (rg m r) m)
     else if k = 0x8B \<and> i_pfx i = [] then Some (set_rg r (word_of_int (load_le 4 (eff_addr m x) m)) m)
     else None)"

text \<open>Forms whose operand size is not 64 bits, or whose registers are in the opcode.\<close>

definition exec_plain :: "insn \<Rightarrow> mach \<Rightarrow> mach option" where
  "exec_plain i m =
    (let k = i_op i; r = i_reg i in
     if k = 0xB8 then Some (set_rg r (word_of_int (i_imm i)) m)
     else if k = 0x50 then Some (push64 (rg m r) m)
     else if k = 0x58 then Some (pop64 r m)
     else if k = 0x99 \<and> i_w i then
       Some (set_rg 2 (if sint (rg m 0) < 0 then - 1 else 0) m)
     else if k = 0x90 \<and> r = 0 then Some m
     else if k = 0xE9 then Some (m\<lparr>rip := rip m + sext 4 (i_imm i)\<rparr>)
     else if k = 0xE8 then Some (push64 (rip m) m\<lparr>rip := rip m + sext 4 (i_imm i)\<rparr>)
     else if k = 0xC3 then
       Some (set_rg 4 (rg m 4 + 8) m\<lparr>rip := load64 (rg m 4) m\<rparr>)
     else if k = 0xC9 then Some (pop64 5 (set_rg 4 (rg m 5) m))
     else None)"

definition setcc_exec :: "insn \<Rightarrow> int \<Rightarrow> mach \<Rightarrow> mach option" where
  "setcc_exec i n m =
    (if \<not> i_rex i \<and> 4 \<le> n then None
     else map_option (\<lambda>c. set_rg n (word_of_int (256 * (uint (rg m n) div 256) + (if c then 1 else 0))) m)
       (cond_holds (i_op i - 0x90) (fl m)))"

definition exec :: "insn \<Rightarrow> mach \<Rightarrow> mach option" where
  "exec i m =
    (if i_vex i \<noteq> None then None
     else if i_pfx i = [0x66] then
       (case (i_map i, i_rm i) of (M1, Some x) \<Rightarrow> (if i_w i then None else exec_narrow i x m) | _ \<Rightarrow> None)
     else if i_pfx i \<noteq> [] then None
     else case (i_map i, i_rm i) of
       (M1, Some x) \<Rightarrow> (if i_w i then exec_rm i x m else exec_narrow i x m)
     | (M1, None) \<Rightarrow> exec_plain i m
     | (M0F, Some x) \<Rightarrow>
         (if i_w i then exec_0f i x m
          else case x of OReg n \<Rightarrow>
              (if 0x90 \<le> i_op i \<and> i_op i \<le> 0x9F then setcc_exec i n m else None)
            | _ \<Rightarrow> None)
     | (M0F, None) \<Rightarrow>
         (if 0x80 \<le> i_op i \<and> i_op i \<le> 0x8F then
            map_option (\<lambda>c. if c then m\<lparr>rip := rip m + sext 4 (i_imm i)\<rparr> else m)
              (cond_holds (i_op i - 0x80) (fl m))
          else None)
     | _ \<Rightarrow> None)"

fun exec_list :: "insn list \<Rightarrow> mach \<Rightarrow> mach option" where
  "exec_list [] m = Some m"
| "exec_list (i # is) m = (case exec i m of None \<Rightarrow> None | Some m' \<Rightarrow> exec_list is m')"

lemma exec_list_append:
  "exec_list (is @ js) m = (case exec_list is m of None \<Rightarrow> None | Some m' \<Rightarrow> exec_list js m')"
  by (induction "is" arbitrary: m) (auto split: option.splits)

subsection \<open>Running code from memory\<close>

text \<open>The code bytes \<open>c\<close> stand at address \<open>base\<close>. One step decodes at \<open>rip\<close>, moves \<open>rip\<close> behind
  the instruction and executes it.\<close>

definition step :: "64 word \<Rightarrow> bytes \<Rightarrow> mach \<Rightarrow> mach option" where
  "step base c m =
    (let off = unat (rip m - base) in
     case decode (drop off c) of None \<Rightarrow> None
     | Some (i, rest) \<Rightarrow> exec i (m\<lparr>rip := base + of_nat (length c - length rest)\<rparr>))"

fun steps :: "64 word \<Rightarrow> bytes \<Rightarrow> nat \<Rightarrow> mach \<Rightarrow> mach option" where
  "steps base c 0 m = Some m"
| "steps base c (Suc n) m = (case step base c m of None \<Rightarrow> None | Some m' \<Rightarrow> steps base c n m')"

lemma steps_add:
  "steps base c (n + k) m = (case steps base c n m of None \<Rightarrow> None | Some m' \<Rightarrow> steps base c k m')"
  by (induction n arbitrary: m) (auto split: option.splits)

subsection \<open>Straight-line instructions\<close>

text \<open>Instructions that neither transfer control nor address memory relative to \<open>rip\<close>: they run
  alike wherever the code stands.\<close>

fun not_rip :: "operand \<Rightarrow> bool" where
  "not_rip (ORip d) \<longleftrightarrow> False"
| "not_rip _ \<longleftrightarrow> True"

definition straight :: "insn \<Rightarrow> bool" where
  "straight i \<longleftrightarrow>
     (case i_rm i of Some x \<Rightarrow> not_rip x
      | None \<Rightarrow> i_map i = M1 \<and> i_op i \<notin> {0xE8, 0xE9, 0xC3})"

abbreviation at_rip :: "64 word \<Rightarrow> mach \<Rightarrow> mach" where
  "at_rip p m \<equiv> m\<lparr>rip := p\<rparr>"

lemma set_rg_rip [simp]: "set_rg r v (at_rip p m) = at_rip p (set_rg r v m)"
  by (simp add: set_rg_def)

lemma set_rg_fl [simp]: "set_rg r v (m\<lparr>fl := f\<rparr>) = (set_rg r v m)\<lparr>fl := f\<rparr>"
  by (simp add: set_rg_def)

lemma set_rg_sel [simp]:
  "rg (set_rg r v m) = (rg m)(r := v)" "mem (set_rg r v m) = mem m"
  "rip (set_rg r v m) = rip m" "fl (set_rg r v m) = fl m"
  by (simp_all add: set_rg_def)

lemma load64_rip [simp]: "load64 a (at_rip p m) = load64 a m"
  by (simp add: load64_def load_le_def)

lemma store_bytes_rip [simp]: "store_bytes bs a (at_rip p m) = at_rip p (store_bytes bs a m)"
proof (induction bs arbitrary: a m)
  case Nil
  then show ?case by simp
next
  case (Cons b bs)
  have swap: "(at_rip p m)\<lparr>mem := (mem m)(a := b)\<rparr> = at_rip p (m\<lparr>mem := (mem m)(a := b)\<rparr>)"
    by (cases m) simp
  then show ?case using Cons [of "a + 1" "m\<lparr>mem := (mem m)(a := b)\<rparr>"] by (simp add: swap)
qed

lemma store_bytes_sel [simp]:
  "rg (store_bytes bs a m) = rg m" "rip (store_bytes bs a m) = rip m" "fl (store_bytes bs a m) = fl m"
  by (induction bs arbitrary: a m) simp_all

lemma load_le_rip [simp]: "load_le n a (at_rip p m) = load_le n a m"
  by (simp add: load_le_def)

lemma store_le_rip [simp]: "store_le n a v (at_rip p m) = at_rip p (store_le n a v m)"
  by (simp add: store_le_def)

lemma store_le_sel [simp]:
  "rg (store_le n a v m) = rg m" "rip (store_le n a v m) = rip m" "fl (store_le n a v m) = fl m"
  by (simp_all add: store_le_def)

lemma store64_rip [simp]: "store64 a v (at_rip p m) = at_rip p (store64 a v m)"
  by (simp add: store64_def)

lemma store64_sel [simp]:
  "rg (store64 a v m) = rg m" "rip (store64 a v m) = rip m" "fl (store64 a v m) = fl m"
  by (simp_all add: store64_def)

lemma eff_addr_rip: "not_rip x \<Longrightarrow> eff_addr (at_rip p m) x = eff_addr m x"
  by (cases x) (auto simp: eff_addr_def split: option.split)

lemma read_rm_rip: "not_rip x \<Longrightarrow> read_rm (at_rip p m) x = read_rm m x"
  by (cases x) (simp_all add: read_rm_def eff_addr_rip)

lemma write_rm_rip: "not_rip x \<Longrightarrow> write_rm x v (at_rip p m) = at_rip p (write_rm x v m)"
  by (cases x) (simp_all add: write_rm_def eff_addr_rip)

lemma read_low_rip: "not_rip x \<Longrightarrow> read_low n x (at_rip p m) = read_low n x m"
  by (cases x) (simp_all add: read_low_def eff_addr_rip)

lemmas rip_simps = eff_addr_rip read_rm_rip write_rm_rip read_low_rip

lemma idiv_rip: "idiv_rax v (at_rip p m) = map_option (at_rip p) (idiv_rax v m)"
  by (simp add: idiv_rax_def Let_def)

lemma div_rip: "div_rax v (at_rip p m) = map_option (at_rip p) (div_rax v m)"
  by (simp add: div_rax_def Let_def)

lemma group3_rip: "not_rip x \<Longrightarrow> group3 k x imm (at_rip p m) = map_option (at_rip p) (group3 k x imm m)"
  by (simp add: group3_def Let_def rip_simps idiv_rip div_rip)

lemma alu_exec_rip: "not_rip x \<Longrightarrow> alu_exec k x b (at_rip p m) = map_option (at_rip p) (alu_exec k x b m)"
  by (auto simp: alu_exec_def rip_simps split: option.splits)

lemma shift_exec_rip:
  "not_rip x \<Longrightarrow> shift_exec k x n (at_rip p m) = map_option (at_rip p) (shift_exec k x n m)"
  by (auto simp: shift_exec_def rip_simps split: option.splits)

lemma exec_rm_rip: "not_rip x \<Longrightarrow> exec_rm i x (at_rip p m) = map_option (at_rip p) (exec_rm i x m)"
  by (auto simp: exec_rm_def Let_def rip_simps group3_rip alu_exec_rip shift_exec_rip
      split: operand.splits)

lemma exec_0f_rip: "not_rip x \<Longrightarrow> exec_0f i x (at_rip p m) = map_option (at_rip p) (exec_0f i x m)"
  by (auto simp: exec_0f_def Let_def rip_simps option.map_comp o_def intro: option.map_cong)

lemma exec_narrow_rip: "not_rip x \<Longrightarrow> exec_narrow i x (at_rip p m) = map_option (at_rip p) (exec_narrow i x m)"
  by (auto simp: exec_narrow_def Let_def rip_simps)

lemma setcc_rip: "setcc_exec i n (at_rip p m) = map_option (at_rip p) (setcc_exec i n m)"
  by (auto simp: setcc_exec_def option.map_comp o_def)

lemma exec_plain_rip:
  "i_op i \<notin> {0xE8, 0xE9, 0xC3} \<Longrightarrow> exec_plain i (at_rip p m) = map_option (at_rip p) (exec_plain i m)"
  by (simp add: exec_plain_def Let_def push64_def pop64_def)

lemma exec_rip:
  assumes "straight i"
  shows "exec i (at_rip p m) = map_option (at_rip p) (exec i m)"
proof (cases "i_rm i")
  case None
  with assms show ?thesis by (simp add: exec_def straight_def exec_plain_rip)
next
  case (Some x)
  with assms have "not_rip x" by (simp add: straight_def)
  with Some show ?thesis
    by (auto simp: exec_def exec_rm_rip exec_0f_rip exec_narrow_rip setcc_rip split: opmap.split operand.split)
qed

lemma exec_rip_same: "straight i \<Longrightarrow> exec i m = Some m' \<Longrightarrow> rip m' = rip m"
proof -
  assume "straight i" and e: "exec i m = Some m'"
  then have "exec i (at_rip (rip m) m) = Some (at_rip (rip m) m')"
    using exec_rip [of i "rip m" m] by simp
  then have "m' = at_rip (rip m) m'" using e by simp
  then show ?thesis by (metis mach.select_convs(3) mach.surjective mach.update_convs(3))
qed

lemma exec_list_rip:
  "list_all straight is \<Longrightarrow>
   exec_list is (at_rip p m) = map_option (at_rip p) (exec_list is m)"
  by (induction "is" arbitrary: m) (auto simp: exec_rip split: option.splits)

end
