(* ===== verification/Block_Correct.thy ===== *)
theory Block_Correct
  imports Encode_Correct X86_Machine
begin

section \<open>Running the emitted bytes\<close>

text \<open>
  From instruction lists to machine runs: a block of bytes that encodes the straight-line
  instructions \<open>is\<close>, standing anywhere in a code image, takes the machine through
  \<open>exec_list is\<close> and leaves \<open>rip\<close> behind the block. With it, what single methods do to the
  registers.
\<close>

subsection \<open>Straight-line blocks\<close>

lemma step_encodes:
  assumes "encodes bs i" and "straight i"
    and "length (pre @ bs @ post) < 2 ^ 64" and "rip m = base + of_nat (length pre)"
  shows "step base (pre @ bs @ post) m =
    map_option (at_rip (base + of_nat (length pre + length bs))) (exec i m)"
proof -
  have "unat (rip m - base) = length pre"
    using assms(3,4) by (simp add: unat_of_nat)
  moreover have "decode (bs @ post) = Some (i, post)"
    using assms(1) by (simp add: encodes_def)
  ultimately show ?thesis
    using assms(2) by (simp add: step_def exec_rip)
qed

lemma steps_straight:
  assumes "list_all2 encodes bss is" and "list_all straight is"
    and "length (pre @ concat bss @ post) < 2 ^ 64" and "rip m = base + of_nat (length pre)"
    and "exec_list is m = Some m'"
  shows "steps base (pre @ concat bss @ post) (length is) m =
    Some (at_rip (base + of_nat (length pre + length (concat bss))) m')"
  using assms
proof (induction bss "is" arbitrary: pre m m' rule: list_all2_induct)
  case Nil
  then have "m = m'" by simp
  with Nil show ?case by (cases m) simp
next
  case (Cons bs bss i "is")
  obtain m1 where m1: "exec i m = Some m1" "exec_list is m1 = Some m'"
    using Cons.prems(4) by (auto split: option.splits)
  let ?p = "base + of_nat (length pre + length bs)"
  have "step base (pre @ bs @ (concat bss @ post)) m = Some (at_rip ?p m1)"
    using step_encodes [OF Cons.hyps(1), of pre "concat bss @ post" m base] Cons.prems m1(1) by simp
  moreover have "exec_list is (at_rip ?p m1) = Some (at_rip ?p m')"
    using Cons.prems(1) m1(2) by (simp add: exec_list_rip)
  then have "steps base ((pre @ bs) @ concat bss @ post) (length is) (at_rip ?p m1) =
      Some (at_rip (base + of_nat (length (pre @ bs) + length (concat bss))) (at_rip ?p m'))"
    using Cons.prems by (intro Cons.IH) simp_all
  ultimately show ?case by (simp add: algebra_simps)
qed

lemma steps_block:
  assumes "encodes_all bs is" and "list_all straight is"
    and "length (pre @ bs @ post) < 2 ^ 64" and "rip m = base + of_nat (length pre)"
    and "exec_list is m = Some m'"
  shows "steps base (pre @ bs @ post) (length is) m =
    Some (at_rip (base + of_nat (length pre + length bs)) m')"
  using assms steps_straight unfolding encodes_all_def by blast

text \<open>\<open>computes det f g\<close>: the method \<open>f\<close> appends straight-line code that takes every machine
  state \<open>m\<close> to \<open>g m\<close>, up to \<open>rip\<close>.\<close>

definition computes :: "bool \<Rightarrow> asm_op \<Rightarrow> (mach \<Rightarrow> mach option) \<Rightarrow> bool" where
  "computes det f g \<longleftrightarrow> (\<exists>is. gives det f is \<and> list_all straight is \<and> exec_list is = g)"

lemma computesI: "gives det f is \<Longrightarrow> list_all straight is \<Longrightarrow> computes det f (exec_list is)"
  by (auto simp: computes_def)

lemma computes_run:
  assumes "computes (deterministic a) f g" and "f a = Inr a'"
    and "g m = Some m'" and "length (code a' @ post) < 2 ^ 64"
    and "rip m = base + of_nat (length (code a))"
  shows "\<exists>n. steps base (code a' @ post) n m = Some (at_rip (base + of_nat (length (code a'))) m')"
proof -
  obtain "is" where i: "gives (deterministic a) f is" "list_all straight is" "exec_list is = g"
    using assms(1) by (auto simp: computes_def)
  obtain bs where bs: "f a = Inr (a\<lparr>code := code a @ bs\<rparr>)" "encodes_all bs is"
    using i(1) by (rule givesE)
  have c: "code a' = code a @ bs" using bs(1) assms(2) by auto
  have "steps base (code a @ bs @ post) (length is) m =
      Some (at_rip (base + of_nat (length (code a) + length bs)) m')"
    using assms(3-5) c i by (intro steps_block [OF bs(2) i(2)]) simp_all
  with c show ?thesis by (metis append.assoc length_append)
qed

lemma computes_seq:
  assumes "computes det f g" and "computes det (seqE fs) h"
  shows "computes det (seqE (f # fs)) (\<lambda>m. case g m of None \<Rightarrow> None | Some m' \<Rightarrow> h m')"
proof -
  obtain "is" js where "gives det f is" "list_all straight is" "exec_list is = g"
      "gives det (seqE fs) js" "list_all straight js" "exec_list js = h"
    using assms by (auto simp: computes_def)
  then show ?thesis
    unfolding computes_def
    by (intro exI [of _ "is @ js"]) (auto simp: gives_seqE_Cons exec_list_append)
qed

lemma computes_Nil: "computes det (seqE []) Some"
  unfolding computes_def by (intro exI [of _ "[]"]) (auto simp: gives_seqE_Nil)

subsection \<open>Constants, moves, arithmetic\<close>

lemma word_of_int_sext:
  assumes "0xFFFFFFFF80000000 \<le> v" "v < 2 ^ 64"
  shows "sext 4 (v mod 2 ^ 32) = (word_of_int v :: 64 word)"
proof -
  define w where "w = v - 0xFFFFFFFF00000000"
  have w: "2 ^ 31 \<le> w" "w < 2 ^ 32" and v: "v = w + 2 ^ 32 * 0xFFFFFFFF"
    using assms by (simp_all add: w_def)
  have "v mod 2 ^ 32 = w mod 2 ^ 32" unfolding v by (rule mod_mult_self2)
  also have "\<dots> = w" using w by simp
  finally have "signed_of 4 (v mod 2 ^ 32) = v - 2 ^ 64"
    using w by (simp add: signed_of_def v)
  then show ?thesis by (simp add: sext_def)
qed

lemma exec_mov_imm:
  "exec_list [mov_imm_insn det d imm] m = Some (set_rg d (word_of_int imm) m)"
proof -
  have w: "(word_of_int (imm mod 2 ^ 64) :: 64 word) = word_of_int imm"
    by (simp add: word_of_int_eq_iff take_bit_eq_mod)
  have b: "imm mod 2 ^ 64 < 2 ^ 64" by simp
  show ?thesis
    using w word_of_int_sext [OF _ b]
    by (auto simp: mov_imm_insn_def Let_def exec_def exec_plain_def exec_rm_def rex_insn_def write_rm_def)
qed

lemma straight_mov_imm [simp]: "straight (mov_imm_insn det d imm)"
  by (simp add: mov_imm_insn_def Let_def straight_def rex_insn_def)

lemma straight_rex_reg [simp]: "straight (rex_insn p m op' r (Some (OReg d)) imm)"
  by (simp add: straight_def rex_insn_def)

lemma computes_mov_imm:
  assumes "reg_num dst = Inr d"
  shows "computes det (mov_reg_imm64 dst imm) (\<lambda>m. Some (set_rg d (word_of_int imm) m))"
proof -
  have "exec_list [mov_imm_insn det d imm] = (\<lambda>m. Some (set_rg d (word_of_int imm) m))"
    by (rule ext) (rule exec_mov_imm)
  moreover have "gives det (mov_reg_imm64 dst imm) [mov_imm_insn det d imm]"
    using reg_num_range [OF assms] assms by (intro mov_imm_encode) simp_all
  ultimately show ?thesis unfolding computes_def by (intro exI [of _ "[mov_imm_insn det d imm]"]) simp
qed

end
