(* ===== verification/Mem_Operands.thy ===== *)
theory Mem_Operands
  imports Encode_Correct
begin

section \<open>Memory operands\<close>

text \<open>
  The ModRM, SIB and displacement bytes of the memory forms: for every base register, every index
  register but \<open>rsp\<close>, every scale and every 32-bit displacement the decoder reads back exactly
  \<open>[base + index * scale + disp]\<close>, the special cases of \<open>rsp\<close>, \<open>r12\<close>, \<open>rbp\<close> and \<open>r13\<close> included.
  \<open>lea_reg_mem\<close> has its own emitter, with an 8-bit displacement.
\<close>

subsection \<open>The operand bytes\<close>

text \<open>The index operand as the decoder reports it.\<close>

fun index_is :: "string option \<Rightarrow> int \<Rightarrow> (int \<times> int) option \<Rightarrow> bool" where
  "index_is None scale ix \<longleftrightarrow> ix = None"
| "index_is (Some i) scale ix \<longleftrightarrow>
     (case reg_num i of Inl _ \<Rightarrow> False
      | Inr r \<Rightarrow> r \<noteq> 4 \<and> scale \<in> set [1, 2, 4, 8] \<and> ix = Some (r, scale))"

lemma index_is_Some:
  "index_is (Some i) scale ix \<longleftrightarrow>
     (\<exists>r. reg_num i = Inr r \<and> r \<noteq> 4 \<and> scale \<in> set [1, 2, 4, 8] \<and> ix = Some (r, scale))"
  by (simp split: sum.split)

declare index_is.simps(2) [simp del] index_is_Some [simp]

definition mem_mode :: "int \<Rightarrow> int \<Rightarrow> int" where
  "mem_mode b disp = (if disp \<noteq> 0 \<or> b mod 8 = 5 then 2 else 0)"

definition mem_tail :: "bool \<Rightarrow> int \<Rightarrow> int \<Rightarrow> int \<Rightarrow> bytes" where
  "mem_tail use_sib sib b disp =
    (if use_sib then [u8 sib] else []) @ (if mem_mode b disp = 2 then to_bytes_le 4 disp else [])"

lemma disp_bytes:
  assumes "fits32 disp"
  shows "with_disp (disp_len (mem_mode b disp)) f
      ((if mem_mode b disp = 2 then to_bytes_le 4 disp else []) @ rest) = Some (f disp, rest)"
  using assms signed32_mod [OF assms]
  by (auto simp: with_disp_def disp_len_def mem_mode_def enc_simps)

lemma scale_cases:
  assumes "scale \<in> set [1, 2, 4, 8]"
  obtains s where "scale_bits scale = Inr s" "0 \<le> s" "s < 4" "2 ^ nat s = scale"
    "map_of [(1, 0), (2, 1), (4, 2), (8, 3)] scale = Some s"
  using assms by (auto simp: scale_bits_def)

lemma rm_operand_mem:
  assumes b: "0 \<le> b" "b < 16" and sib: "mem_sib b index scale = Inr (use_sib, x, sib)"
    and ix: "index_is index scale ix" and disp: "fits32 disp"
  shows "rm_operand (mem_mode b disp) (if use_sib then 4 else b mod 8) x (b div 8)
      (mem_tail use_sib sib b disp @ rest) = Some (OMem (Some b) ix disp, rest)"
    and "0 \<le> x" "x < 2"
proof -
  have m3: "mem_mode b disp \<noteq> 3" "mem_mode b disp = 0 \<Longrightarrow> b mod 8 \<noteq> 5" by (auto simp: mem_mode_def)
  have bm: "0 \<le> b mod 8" "b mod 8 < 8" "b mod 8 + 8 * (b div 8) = b" by simp_all
  have "rm_operand (mem_mode b disp) (if use_sib then 4 else b mod 8) x (b div 8)
      (mem_tail use_sib sib b disp @ rest) = Some (OMem (Some b) ix disp, rest) \<and> 0 \<le> x \<and> x < 2"
  proof (cases index)
    case None
    then have s: "use_sib = (b mod 8 = 4)" "x = 0" "sib = push_bit 6 0 OR push_bit 3 4 OR (b mod 8)"
      "ix = None"
      using sib ix by (auto simp: mem_sib_def and_7)
    have f: "field 3 3 (u8 sib) = 4" "field 0 3 (u8 sib) = b mod 8"
      unfolding s(3) using field_sib [of 0 4 "b mod 8"] bm by simp_all
    have b4: "b mod 8 = 4 \<Longrightarrow> 4 + 8 * (b div 8) = b" using bm(3) by simp
    show ?thesis
      using m3 bm b4 disp_bytes [OF disp, of b]
      by (auto simp: rm_operand_def mem_tail_def s(1,2,4) f Let_def)
  next
    case (Some i)
    then obtain r where r: "reg_num i = Inr r" "r \<noteq> 4" "scale \<in> set [1, 2, 4, 8]" "ix = Some (r, scale)"
      using ix by auto
    obtain sc where sc: "scale_bits scale = Inr sc" "0 \<le> sc" "sc < 4" "2 ^ nat sc = scale"
      using r(3) by (rule scale_cases)
    have s: "use_sib" "x = r div 8" "sib = push_bit 6 sc OR push_bit 3 (r mod 8) OR (b mod 8)"
      using sib Some r(1) sc(1) by (auto simp: mem_sib_def and_7 drop_3)
    note rr = reg_num_range [OF r(1)]
    have f: "field 6 2 (u8 sib) = sc" "field 3 3 (u8 sib) = r mod 8" "field 0 3 (u8 sib) = b mod 8"
      unfolding s(3) using field_sib [of sc "r mod 8" "b mod 8"] sc bm by simp_all
    have rs: "r mod 8 + 8 * (r div 8) = r" by simp
    show ?thesis
      using m3 bm disp_bytes [OF disp, of b] rr r(2) s(1)
      by (auto simp: rm_operand_def mem_tail_def f s(2) r(4) sc(4) rs Let_def)
  qed
  then show "rm_operand (mem_mode b disp) (if use_sib then 4 else b mod 8) x (b div 8)
      (mem_tail use_sib sib b disp @ rest) = Some (OMem (Some b) ix disp, rest)" "0 \<le> x" "x < 2"
    by simp_all
qed

lemma mem_sib_ok:
  assumes "index_is index scale ix"
  obtains use_sib x sib where "mem_sib b index scale = Inr (use_sib, x, sib)"
proof (cases index)
  case None
  then show ?thesis by (intro that) (simp add: mem_sib_def)
next
  case (Some i)
  then obtain r where r: "reg_num i = Inr r" "scale \<in> set [1, 2, 4, 8]" using assms by auto
  obtain sc where "scale_bits scale = Inr sc" using r(2) by (rule scale_cases)
  with r Some show ?thesis by (intro that) (simp add: mem_sib_def)
qed

text \<open>The tail as the emitters write it.\<close>

lemma mem_tail_emits:
  assumes "fits32 disp"
  shows "seqE [emits pre, (if use_sib then emits [u8 sib] else skip_op),
      (if (if disp \<noteq> 0 \<or> b AND 7 = 5 then 2 else 0) = (2 :: int) then emit_s32 disp else skip_op)] =
    emits (pre @ mem_tail use_sib sib b disp)"
  using assms by (simp add: mem_tail_def mem_mode_def and_7 flat_simps)

lemma mem_mode_field: "(if disp \<noteq> 0 \<or> b AND 7 = 5 then 2 else 0) = mem_mode b disp"
  by (simp add: mem_mode_def and_7)

lemma mem_mode_mod [simp]: "mem_mode b disp mod 4 = mem_mode b disp"
  by (simp add: mem_mode_def)

lemma gives_with_sib:
  "mem_sib b index scale = Inr (u, x, s) \<Longrightarrow> gives det (f u x s) is \<Longrightarrow>
   gives det (with_sib b index scale f) is"
  by (simp add: gives_def with_sib_def)

lemma decode_tail_mem:
  assumes "fmt_of m (uint opb) = Some (Fmt True rf I0)"
    and "rm_operand (md mod 4) (e mod 8) x b bs = Some (opnd, rest)"
  shows "decode_tail pfx hr vex w r x b m (opb # u8 (modrm md g e) # bs) =
    Some (\<lparr>i_pfx = pfx, i_rex = hr, i_vex = vex, i_w = (w = 1), i_map = m, i_op = uint opb,
      i_reg = g mod 8 + 8 * r, i_rm = Some opnd, i_imm = 0\<rparr>, rest)"
  using assms by (simp add: decode_tail_def field_modrm imm_len_def read_le_0)

subsection \<open>Loads and stores\<close>

text \<open>The values a memory emitter works with: the register field, the base, what \<open>mem_sib\<close>
  returned, and the operand meant.\<close>

definition mem_form ::
  "int \<Rightarrow> int \<Rightarrow> bool \<Rightarrow> int \<Rightarrow> int \<Rightarrow> string option \<Rightarrow> int \<Rightarrow> (int \<times> int) option \<Rightarrow> int \<Rightarrow> bool" where
  "mem_form r b use_sib x sib index scale ix disp \<longleftrightarrow>
     0 \<le> r \<and> r < 16 \<and> 0 \<le> b \<and> b < 16 \<and> mem_sib b index scale = Inr (use_sib, x, sib) \<and>
     index_is index scale ix \<and> fits32 disp"

definition modrm_byte :: "int \<Rightarrow> int \<Rightarrow> bool \<Rightarrow> int \<Rightarrow> byte" where
  "modrm_byte r b use_sib disp = u8 (modrm (mem_mode b disp) (r mod 8) (if use_sib then 4 else b mod 8))"

lemma modrm_byte_eq:
  "u8 (modrm (if disp \<noteq> 0 \<or> b AND 7 = 5 then 2 else 0) (r AND 7) (if u then 4 else b AND 7)) =
    modrm_byte r b u disp"
  by (simp add: modrm_byte_def mem_mode_def and_7)

lemma mem_form_tail:
  assumes "mem_form r b use_sib x sib index scale ix disp"
    and "fmt_of m (uint opb) = Some (Fmt True rf I0)"
  shows "decode_tail pfx hr vex w r' x (b div 8) m
      (opb # modrm_byte r b use_sib disp # mem_tail use_sib sib b disp @ rest) =
    Some (\<lparr>i_pfx = pfx, i_rex = hr, i_vex = vex, i_w = (w = 1), i_map = m, i_op = uint opb,
      i_reg = r mod 8 + 8 * r', i_rm = Some (OMem (Some b) ix disp), i_imm = 0\<rparr>, rest)"
proof -
  have "rm_operand (mem_mode b disp mod 4) ((if use_sib then 4 else b mod 8) mod 8) x (b div 8)
      (mem_tail use_sib sib b disp @ rest) = Some (OMem (Some b) ix disp, rest)"
    using assms(1) rm_operand_mem(1) [of b index scale use_sib x sib ix disp rest]
    unfolding mem_form_def by (cases use_sib) simp_all
  then show ?thesis unfolding modrm_byte_def by (simp add: decode_tail_mem [OF assms(2)])
qed

lemma mem_form_bits:
  assumes "mem_form r b use_sib x sib index scale ix disp"
  shows "0 \<le> x" "x < 2" "0 \<le> r div 8" "r div 8 < 2" "0 \<le> b div 8" "b div 8 < 2"
    "r mod 8 + 8 * (r div 8) = r"
  using assms rm_operand_mem(2,3) [of b index scale use_sib x sib ix disp]
  unfolding mem_form_def by auto

lemma mem_one_byte:
  assumes "mem_form r b use_sib x sib index scale ix disp"
    and "fmt_one_byte (uint opb) = Some (Fmt True rf I0)" and "opb \<noteq> 0x0F"
  shows "encodes ([u8 (rex 1 (r div 8) x (b div 8)), opb, modrm_byte r b use_sib disp] @
      mem_tail use_sib sib b disp)
    (rex_insn [] M1 (uint opb) r (Some (OMem (Some b) ix disp)) 0)"
  using assms(3) mem_form_bits [OF assms(1)] mem_form_tail [OF assms(1), of M1 opb rf] assms(2)
  by (simp add: encodes_def rex_insn_def fmt_of_def enc_simps)

lemma mem_two_byte:
  assumes "mem_form r b use_sib x sib index scale ix disp"
    and "fmt_0f (uint opb) = Some (Fmt True rf I0)" and "opb \<noteq> 0x38" "opb \<noteq> 0x3A"
  shows "encodes ([u8 (rex 1 (r div 8) x (b div 8)), 0x0F, opb, modrm_byte r b use_sib disp] @
      mem_tail use_sib sib b disp)
    (rex_insn [] M0F (uint opb) r (Some (OMem (Some b) ix disp)) 0)"
  using assms(3,4) mem_form_bits [OF assms(1)] mem_form_tail [OF assms(1), of M0F opb rf] assms(2)
  by (simp add: encodes_def rex_insn_def fmt_of_def enc_simps)

text \<open>The forms of 8, 16 and 32 bits, whose REX byte comes only where it is needed.\<close>

definition narrow :: "bytes \<Rightarrow> bool \<Rightarrow> int \<Rightarrow> int \<Rightarrow> operand \<Rightarrow> insn" where
  "narrow pfx has_rex op' r x =
    \<lparr>i_pfx = pfx, i_rex = has_rex, i_vex = None, i_w = False, i_map = M1, i_op = op', i_reg = r,
     i_rm = Some x, i_imm = 0\<rparr>"

text \<open>A register from \<open>r8\<close> on among the three.\<close>

fun extended :: "int \<Rightarrow> operand \<Rightarrow> bool" where
  "extended r (OMem (Some b) ix d) \<longleftrightarrow> r \<ge> 8 \<or> b \<ge> 8 \<or> (case ix of None \<Rightarrow> False | Some (i, s) \<Rightarrow> i \<ge> 8)"
| "extended r _ \<longleftrightarrow> r \<ge> 8"

lemma mem_form_extended:
  assumes "mem_form r b use_sib x sib index scale ix disp"
  shows "x \<noteq> 0 \<longleftrightarrow> (case ix of None \<Rightarrow> False | Some (i, s) \<Rightarrow> i \<ge> 8)"
proof (cases index)
  case None
  then show ?thesis using assms by (auto simp: mem_form_def mem_sib_def)
next
  case (Some i)
  then obtain q where q: "reg_num i = Inr q" "scale \<in> set [1, 2, 4, 8]" "ix = Some (q, scale)"
    using assms by (auto simp: mem_form_def)
  obtain sc where sc: "scale_bits scale = Inr sc" using q(2) by (rule scale_cases)
  have "x = q div 8" using assms Some q(1) sc by (auto simp: mem_form_def mem_sib_def drop_3)
  moreover have "0 \<le> q" "q < 16" using reg_num_range [OF q(1)] by simp_all
  ultimately show ?thesis using q(3) by auto
qed

lemma mem_narrow_rex:
  assumes "mem_form r b use_sib x sib index scale ix disp"
    and "fmt_one_byte (uint opb) = Some (Fmt True rf I0)" and "opb \<noteq> 0x0F" and "pfx = [] \<or> pfx = [0x66]"
  shows "encodes (pfx @ [u8 (rex 0 (r div 8) x (b div 8)), opb, modrm_byte r b use_sib disp] @
      mem_tail use_sib sib b disp)
    (narrow pfx True (uint opb) r (OMem (Some b) ix disp))"
  using assms(3,4) mem_form_bits [OF assms(1)] mem_form_tail [OF assms(1), of M1 opb rf] assms(2)
  by (auto simp: encodes_def narrow_def fmt_of_def enc_simps)

lemma mem_narrow_plain:
  assumes "mem_form r b use_sib x sib index scale ix disp" and "r < 8" "b < 8" "x = 0"
    and "fmt_one_byte (uint opb) = Some (Fmt True rf I0)" and "opb = 0x88 \<or> opb = 0x8B"
  shows "encodes ([opb, modrm_byte r b use_sib disp] @ mem_tail use_sib sib b disp)
    (narrow [] False (uint opb) r (OMem (Some b) ix disp))"
proof -
  have z: "r div 8 = 0" "b div 8 = 0" "r mod 8 = r" using assms(1-3) by (auto simp: mem_form_def)
  have o: "\<not> is_legacy opb" "\<not> is_rex opb" "opb \<noteq> 0xC4" "opb \<noteq> 0xC5" "opb \<noteq> 0x0F"
    using assms(6) by (auto simp: is_legacy_def is_rex_def field_def)
  have "decode ((opb # modrm_byte r b use_sib disp # mem_tail use_sib sib b disp) @ rest) =
      decode_tail [] False None 0 0 0 0 M1 (opb # modrm_byte r b use_sib disp # mem_tail use_sib sib b disp @ rest)" for rest
    using o by (simp add: decode_def decode_escape_def)
  then show ?thesis
    using mem_form_tail [OF assms(1), of M1 opb rf "[]" False None 0 0] assms(4,5) z
    by (simp add: encodes_def narrow_def fmt_of_def)
qed

text \<open>The methods of this shape, with the instruction each stands for; the index is optional in all.\<close>

definition mem_table ::
  "((string \<Rightarrow> string \<Rightarrow> int \<Rightarrow> string option \<Rightarrow> int \<Rightarrow> asm_op) \<times> (int \<Rightarrow> operand \<Rightarrow> insn)) list" where
  "mem_table =
    [(mov_reg_mem, \<lambda>r x. rex_insn [] M1 0x8B r (Some x) 0),
     (\<lambda>reg base disp. mov_mem_reg base disp reg, \<lambda>r x. rex_insn [] M1 0x89 r (Some x) 0),
     (mov8_reg_mem, \<lambda>r x. rex_insn [] M0F 0xB6 r (Some x) 0),
     (mov16_reg_mem, \<lambda>r x. rex_insn [] M0F 0xB7 r (Some x) 0),
     (mov32_reg_mem, \<lambda>r x. narrow [] (extended r x) 0x8B r x),
     (\<lambda>reg base disp. mov8_mem_reg base disp reg, \<lambda>r x. narrow [] (r \<ge> 4 \<or> extended r x) 0x88 r x),
     (\<lambda>reg base disp. mov16_mem_reg base disp reg, \<lambda>r x. narrow [0x66] True 0x89 r x),
     (\<lambda>reg base disp. mov32_mem_reg base disp reg, \<lambda>r x. narrow [] True 0x89 r x)]"

lemma mem_form_ok:
  assumes "reg_num reg = Inr r" "reg_num base = Inr b" "index_is index scale ix" "fits32 disp"
  obtains u x s where "mem_form r b u x s index scale ix disp" "mem_sib b index scale = Inr (u, x, s)"
proof -
  obtain u x s where "mem_sib b index scale = Inr (u, x, s)" using assms(3) by (rule mem_sib_ok)
  then show thesis
    using assms reg_num_range [OF assms(1)] reg_num_range [OF assms(2)]
    by (intro that) (simp_all add: mem_form_def)
qed

lemma seqE_last: "seqE [f, seqE fs] = seqE (f # fs)" "seqE [f, g, seqE fs] = seqE (f # g # fs)"
proof -
  have e: "bindE z (seqE []) = z" for z :: "'e + 'a" by (cases z) simp_all
  have p: "seqE [f, seqE fs] x = seqE (f # fs) x" for f :: "'a \<Rightarrow> 'e + 'a" and fs x
    by (cases "f x") (simp_all add: e)
  then show "seqE [f, seqE fs] = seqE (f # fs)" by blast
  have "seqE [g, seqE fs] = seqE (g # fs)" using p by blast
  then show "seqE [f, g, seqE fs] = seqE (f # g # fs)" by (intro ext) (simp only: seqE.simps(2) [of f])
qed

lemmas sized_tail = seqE_last [where fs = "[emits bs, if u then emits [u8 s] else skip_op, t]" for bs u s t, symmetric]

lemma mem_encode:
  assumes "reg_num reg = Inr r" "reg_num base = Inr b" "index_is index scale ix" "fits32 disp"
  shows "list_all (\<lambda>(f, i). gives det (f reg base disp index scale) [i r (OMem (Some b) ix disp)]) mem_table"
proof -
  obtain u x s where mf: "mem_form r b u x s index scale ix disp"
    and sib: "mem_sib b index scale = Inr (u, x, s)" using assms by (rule mem_form_ok)
  note regs = gives_with_reg [OF assms(1)] gives_with_reg [OF assms(2)] gives_with_sib [OF sib]
  have one: "gives det (emit_mem_op op' reg base disp index scale)
      [rex_insn [] M1 (uint (u8 op')) r (Some (OMem (Some b) ix disp)) 0]"
    if "fmt_one_byte (uint (u8 op')) = Some (Fmt True False I0)" "u8 op' \<noteq> 0x0F" for op'
    unfolding emit_mem_op_def Let_def mem_tail_emits [OF assms(4)] modrm_byte_eq drop_3
    using mem_one_byte [OF mf that] by (intro regs gives_emits) (simp add: enc_simps)
  have two: "gives det (emit_mem_op_0f op' reg base disp index scale)
      [rex_insn [] M0F (uint (u8 op')) r (Some (OMem (Some b) ix disp)) 0]"
    if "fmt_0f (uint (u8 op')) = Some (Fmt True False I0)" "u8 op' \<noteq> 0x38" "u8 op' \<noteq> 0x3A" for op'
    unfolding emit_mem_op_0f_def Let_def mem_tail_emits [OF assms(4)] modrm_byte_eq drop_3
    using mem_two_byte [OF mf that] by (intro regs gives_emits) (simp add: enc_simps)
  have ext: "extended r (OMem (Some b) ix disp) \<longleftrightarrow> r \<ge> 8 \<or> b \<ge> 8 \<or> x \<noteq> 0"
    using mem_form_extended [OF mf] by simp
  note rng = reg_num_range [OF assms(1)]
  have plain: "encodes ([u8 op', modrm_byte r b u disp] @ mem_tail u s b disp)
      (narrow [] False op' r (OMem (Some b) ix disp))"
    if "op' = 0x88 \<or> op' = 0x8B" "\<not> (r \<ge> 8 \<or> b \<ge> 8 \<or> x \<noteq> 0)" for op'
    using mem_narrow_plain [OF mf, of "u8 op'" False] that by (auto simp: enc_simps fmt_one_byte_def)
  have rexed: "encodes (pfx @ [u8 (rex 0 (r div 8) x (b div 8)), u8 op', modrm_byte r b u disp] @ mem_tail u s b disp)
      (narrow pfx True op' r (OMem (Some b) ix disp))"
    if "op' \<in> {0x88, 0x89, 0x8B}" "pfx = [] \<or> pfx = [0x66]" for op' pfx
    using mem_narrow_rex [OF mf, of "u8 op'" False pfx] that by (auto simp: enc_simps fmt_one_byte_def)
  have st: "gives det (emit_mem_op_sized op' reg base disp index scale sz)
      [narrow (if sz = 16 then [0x66] else []) (sz \<noteq> 8 \<or> r \<ge> 4 \<or> extended r (OMem (Some b) ix disp)) op' r
        (OMem (Some b) ix disp)]"
    if "op' = (if sz = 8 then 0x88 else 0x89)" "sz \<in> {8, 16, 32}" for op' sz
    unfolding emit_mem_op_sized_def Let_def sized_tail mem_tail_emits [OF assms(4)] modrm_byte_eq drop_3 ext
    using plain [of "0x88"] rexed [of op' "[]"] rexed [of op' "[0x66]"] that rng
    by (intro regs) (auto simp: flat_simps intro!: gives_emits)
  have ld: "gives det (mov32_reg_mem reg base disp index scale)
      [narrow [] (extended r (OMem (Some b) ix disp)) 0x8B r (OMem (Some b) ix disp)]"
    unfolding mov32_reg_mem_def Let_def sized_tail mem_tail_emits [OF assms(4)] modrm_byte_eq drop_3 ext
    using plain [of "0x8B"] rexed [of "0x8B" "[]"]
    by (intro regs) (auto simp: flat_simps intro!: gives_emits)
  show ?thesis
    unfolding mem_table_def mov_reg_mem_def mov_mem_reg_def mov8_reg_mem_def mov16_reg_mem_def
      mov8_mem_reg_def mov16_mem_reg_def mov32_mem_reg_def
    using one [of "0x8B"] one [of "0x89"] two [of "0xB6"] two [of "0xB7"] ld
      st [of "0x88" 8] st [of "0x89" 16] st [of "0x89" 32]
    by (simp add: enc_simps fmt_one_byte_def fmt_0f_def)
qed

subsection \<open>\<open>lea\<close>\<close>

text \<open>The displacement is always one byte, taken modulo 256: exact from -128 to 127 only.\<close>

definition lea_disp :: "int \<Rightarrow> int" where
  "lea_disp disp = signed_of 1 (disp mod 256)"

lemma lea_disp_exact_iff: "lea_disp disp = disp \<longleftrightarrow> - 128 \<le> disp \<and> disp \<le> 127"
proof
  have "0 \<le> disp mod 256" "disp mod 256 < 256" by simp_all
  then show "lea_disp disp = disp \<Longrightarrow> - 128 \<le> disp \<and> disp \<le> 127"
    unfolding lea_disp_def signed_of_def by (simp split: if_splits)
qed (use signed_of_mod [of 1 disp] in \<open>simp add: lea_disp_def\<close>)

lemma lea_rex_table:
  "\<forall>r \<in> set [0, 1]. \<forall>x \<in> set [0, 1]. \<forall>b \<in> set [0, 1].
     0x48 OR push_bit 2 r OR push_bit 1 x OR b = rex 1 r x b \<and> 0x48 OR push_bit 2 r OR b = rex 1 r 0 b"
  by code_simp

lemma lea_rex:
  assumes "0 \<le> r" "r < 2" "0 \<le> x" "x < 2" "0 \<le> b" "b < 2"
  shows "0x48 OR push_bit 2 r OR push_bit 1 x OR b = rex 1 r x b"
    and "0x48 OR push_bit 2 r OR b = rex 1 r 0 b"
  using lea_rex_table bit_cases assms by blast+

lemma disp8_bytes: "with_disp 1 f (u8 (disp AND 0xFF) # rest) = Some (f (lea_disp disp), rest)"
  by (simp add: with_disp_def enc_simps and_255 lea_disp_def)

lemma disp_zero: "lea_disp 0 = 0"
  by (simp add: lea_disp_def signed_of_def)

lemma fmt_lea: "fmt_of M1 (uint (u8 0x8D)) = Some (Fmt True False I0)" "u8 0x8D \<noteq> 0x0F"
  by (simp_all add: fmt_of_def fmt_one_byte_def enc_simps)

text \<open>The operand bytes of the two forms, behind the opcode.\<close>

lemma lea_operand_sib:
  assumes "0 \<le> b" "b < 16" "b mod 8 = 4"
  shows "rm_operand (if disp \<noteq> 0 then 1 else 0) 4 0 (b div 8)
      (u8 (push_bit 6 0 OR push_bit 3 4 OR b mod 8) # (if disp \<noteq> 0 then [u8 (disp AND 0xFF)] else []) @ rest) =
    Some (OMem (Some b) None (lea_disp disp), rest)"
proof -
  define sib where "sib = push_bit 6 0 OR push_bit 3 4 OR b mod 8"
  have f: "field 3 3 (u8 sib) = 4" "field 0 3 (u8 sib) = b mod 8"
    unfolding sib_def using field_sib [of 0 4 "b mod 8"] assms by simp_all
  have b4: "4 + 8 * (b div 8) = b" using mult_div_mod_eq [of 8 b] assms(3) by simp
  show ?thesis unfolding sib_def [symmetric]
    using f assms(3) b4 disp8_bytes disp_zero
    by (auto simp: rm_operand_def Let_def disp_len_def with_disp_def enc_simps)
qed

lemma lea_operand_plain:
  assumes "0 \<le> b" "b < 16" "b mod 8 \<noteq> 4"
  shows "rm_operand 1 (b mod 8) 0 (b div 8) (u8 (disp AND 0xFF) # rest) =
      Some (OMem (Some b) None (lea_disp disp), rest)"
    and "b mod 8 \<noteq> 5 \<Longrightarrow> rm_operand 0 (b mod 8) 0 (b div 8) rest =
      Some (OMem (Some b) None (lea_disp 0), rest)"
  using assms disp8_bytes disp_zero
  by (auto simp: rm_operand_def Let_def disp_len_def with_disp_def enc_simps)

lemma lea_operand_index:
  assumes b: "0 \<le> b" "b < 16" and r: "0 \<le> r" "r < 16" "r \<noteq> 4" and sc: "0 \<le> sc" "sc < 4"
  shows "rm_operand (if disp \<noteq> 0 \<or> b mod 8 = 5 then 1 else 0) 4 (r div 8) (b div 8)
      (u8 (push_bit 6 sc OR push_bit 3 (r mod 8) OR b mod 8) #
       (if disp \<noteq> 0 \<or> b mod 8 = 5 then [u8 (disp AND 0xFF)] else []) @ rest) =
    Some (OMem (Some b) (Some (r, 2 ^ nat sc)) (lea_disp disp), rest)"
proof -
  define sib where "sib = push_bit 6 sc OR push_bit 3 (r mod 8) OR b mod 8"
  have f: "field 6 2 (u8 sib) = sc" "field 3 3 (u8 sib) = r mod 8" "field 0 3 (u8 sib) = b mod 8"
    unfolding sib_def using field_sib [of sc "r mod 8" "b mod 8"] assms by simp_all
  have s: "b mod 8 + 8 * (b div 8) = b" "r mod 8 + 8 * (r div 8) = r" by simp_all
  show ?thesis unfolding sib_def [symmetric]
    using f r(3) s disp8_bytes disp_zero
    by (auto simp: rm_operand_def Let_def disp_len_def with_disp_def enc_simps)
qed

lemma lea_bytes:
  assumes r: "0 \<le> d" "d < 16" and x: "0 \<le> x" "x < 2" and b: "0 \<le> b" "b < 16"
    and op': "\<And>rest. rm_operand (md mod 4) (e mod 8) x (b div 8) (tl' @ rest) = Some (opnd, rest)"
  shows "encodes ([u8 (rex 1 (d div 8) x (b div 8)), u8 0x8D, u8 (modrm md (d mod 8) e)] @ tl')
    (rex_insn [] M1 0x8D d (Some opnd) 0)"
proof -
  have "decode_tail [] True None 1 (d div 8) x (b div 8) M1 (u8 0x8D # u8 (modrm md (d mod 8) e) # tl' @ rest) =
      Some (\<lparr>i_pfx = [], i_rex = True, i_vex = None, i_w = True, i_map = M1, i_op = 0x8D,
        i_reg = d, i_rm = Some opnd, i_imm = 0\<rparr>, rest)" for rest
    using decode_tail_mem [OF fmt_lea(1) op'] by (simp add: enc_simps)
  then show ?thesis
    using reg_div_8 [OF r] reg_div_8 [OF b] x fmt_lea(2)
    by (simp add: encodes_def rex_insn_def enc_simps)
qed

lemma lea_encode:
  assumes dst: "reg_num dst = Inr d" and base: "reg_num base = Inr b" and ix: "index_is index scale ix"
  shows "gives det (lea_reg_mem dst base disp index scale)
    [rex_insn [] M1 0x8D d (Some (OMem (Some b) ix (lea_disp disp))) 0]"
proof -
  note d = reg_num_range [OF dst] and b = reg_num_range [OF base]
  note bits = reg_div_8 [OF d [THEN conjunct1] d [THEN conjunct2]]
    reg_div_8 [OF b [THEN conjunct1] b [THEN conjunct2]]
  note lb = lea_bytes [OF d [THEN conjunct1] d [THEN conjunct2] _ _ b [THEN conjunct1] b [THEN conjunct2]]
  show ?thesis
  proof (cases index)
    case None
    then have [simp]: "ix = None" using ix by simp
    have rx: "0x48 OR push_bit 2 (d div 8) OR b div 8 = rex 1 (d div 8) 0 (b div 8)"
      using bits by (intro lea_rex(2) [of _ 0]) simp_all
    consider "b mod 8 = 4" | "b mod 8 \<noteq> 4" "disp \<noteq> 0 \<or> b mod 8 = 5" | "b mod 8 \<noteq> 4" "b mod 8 \<noteq> 5" "disp = 0"
      by blast
    then show ?thesis
    proof cases
      case 1
      have "encodes ([u8 (rex 1 (d div 8) 0 (b div 8)), u8 0x8D, u8 (modrm (if disp \<noteq> 0 then 1 else 0) (d mod 8) 4)] @
          u8 (push_bit 6 0 OR push_bit 3 4 OR b mod 8) # (if disp \<noteq> 0 then [u8 (disp AND 0xFF)] else []))
          (rex_insn [] M1 0x8D d (Some (OMem (Some b) None (lea_disp disp))) 0)"
        using lea_operand_sib [of b disp] b 1 by (intro lb) (auto split: if_splits)
      then show ?thesis
        unfolding lea_reg_mem_def None option.case Let_def drop_3 and_7 rx
        using 1 by (intro gives_with_reg [OF dst] gives_with_reg [OF base]) (auto simp: flat_simps rx intro: gives_emits)
    next
      case 2
      have "encodes ([u8 (rex 1 (d div 8) 0 (b div 8)), u8 0x8D, u8 (modrm 1 (d mod 8) (b mod 8))] @
          [u8 (disp AND 0xFF)]) (rex_insn [] M1 0x8D d (Some (OMem (Some b) None (lea_disp disp))) 0)"
        using lea_operand_plain(1) [of b disp] b 2 by (intro lb) simp_all
      then show ?thesis
        unfolding lea_reg_mem_def None option.case Let_def drop_3 and_7 rx
        using 2 by (intro gives_with_reg [OF dst] gives_with_reg [OF base]) (auto simp: flat_simps rx intro: gives_emits)
    next
      case 3
      have "encodes ([u8 (rex 1 (d div 8) 0 (b div 8)), u8 0x8D, u8 (modrm 0 (d mod 8) (b mod 8))] @ [])
          (rex_insn [] M1 0x8D d (Some (OMem (Some b) None (lea_disp 0))) 0)"
        using lea_operand_plain(2) [of b] b 3 by (intro lb) simp_all
      then show ?thesis
        unfolding lea_reg_mem_def None option.case Let_def drop_3 and_7 rx
        using 3 by (intro gives_with_reg [OF dst] gives_with_reg [OF base]) (auto simp: flat_simps rx intro: gives_emits)
    qed
  next
    case (Some i)
    then obtain r where r: "reg_num i = Inr r" "r \<noteq> 4" "scale \<in> set [1, 2, 4, 8]" "ix = Some (r, scale)"
      using ix by auto
    obtain sc where sc: "scale_bits scale = Inr sc" "0 \<le> sc" "sc < 4" "2 ^ nat sc = scale"
      "map_of [(1, 0), (2, 1), (4, 2), (8, 3)] scale = Some sc"
      using r(3) by (rule scale_cases)
    have sc': "(case map_of [(1, 0), (2, 1), (4, 2), (8, 3)] scale of None \<Rightarrow> 0 | Some s \<Rightarrow> s) = sc"
      unfolding sc(5) by simp
    note rr = reg_num_range [OF r(1)]
    note rb = reg_div_8 [OF rr [THEN conjunct1] rr [THEN conjunct2]]
    have rx: "0x48 OR push_bit 2 (d div 8) OR push_bit 1 (r div 8) OR b div 8 = rex 1 (d div 8) (r div 8) (b div 8)"
      using bits rb by (intro lea_rex(1)) simp_all
    have "encodes ([u8 (rex 1 (d div 8) (r div 8) (b div 8)), u8 0x8D,
          u8 (modrm (if disp \<noteq> 0 \<or> b mod 8 = 5 then 1 else 0) (d mod 8) 4)] @
        u8 (push_bit 6 sc OR push_bit 3 (r mod 8) OR b mod 8) #
        (if disp \<noteq> 0 \<or> b mod 8 = 5 then [u8 (disp AND 0xFF)] else []))
        (rex_insn [] M1 0x8D d (Some (OMem (Some b) ix (lea_disp disp))) 0)"
      using lea_operand_index [of b r sc disp] b rr rb r(2,4) sc(2-4) by (intro lb) (auto split: if_splits)
    then show ?thesis
      unfolding lea_reg_mem_def Some option.case Let_def drop_3 and_7
      by (intro gives_with_reg [OF dst] gives_with_reg [OF base] gives_with_reg [OF r(1)], unfold rx sc')
        (auto simp: flat_simps intro: gives_emits)
  qed
qed

end
