(* ===== verification/Eval_Correct.thy ===== *)
theory Eval_Correct
  imports Codegen_Base Block_Correct Mem_Operands
begin

section \<open>What evaluating an operand computes\<close>

text \<open>
  The machine meaning of \<open>_eval\<close>: for every operand expression without data addresses, the value
  it denotes in a machine state (\<open>expr_val\<close>), the emitted instructions, and the theorem that
  running them puts the value into the destination register and disturbs only \<open>r11\<close>, \<open>r12\<close>, the
  flags and the stack below \<open>rsp\<close>.
\<close>

subsection \<open>Emitters of straight-line code\<close>

definition at_code :: "gen \<Rightarrow> bytes \<Rightarrow> gen" where
  "at_code g c = g\<lparr>g_asm := (g_asm g)\<lparr>code := c\<rparr>\<rparr>"

definition gen_gives :: "cg \<Rightarrow> gen \<Rightarrow> insn list \<Rightarrow> bool" where
  "gen_gives f g is \<longleftrightarrow>
     (\<forall>c. \<exists>bs. f (at_code g c) = Inr (at_code g (c @ bs)) \<and> encodes_all bs is)"

lemma at_code_code [simp]: "at_code g (code (g_asm g)) = g" "at_code (at_code g c) c' = at_code g c'"
  by (simp_all add: at_code_def)

lemma at_code_sel [simp]:
  "g_asm (at_code g c) = (g_asm g)\<lparr>code := c\<rparr>" "fn_args (at_code g c) = fn_args g"
  "fn_locals (at_code g c) = fn_locals g" "data_consts (at_code g c) = data_consts g"
  "string_lens (at_code g c) = string_lens g" "data_layout (at_code g c) = data_layout g"
  "structs (at_code g c) = structs g"
  by (simp_all add: at_code_def)

lemma gen_gives_asm:
  assumes "gives (deterministic (g_asm g)) f is"
  shows "gen_gives (asm_do f) g is"
  unfolding gen_gives_def
proof
  fix c
  obtain bs where "f ((g_asm g)\<lparr>code := c\<rparr>) = Inr ((g_asm g)\<lparr>code := c @ bs\<rparr>)" "encodes_all bs is"
    using assms unfolding gives_def by (auto dest!: spec [of _ "(g_asm g)\<lparr>code := c\<rparr>"])
  then show "\<exists>bs. asm_do f (at_code g c) = Inr (at_code g (c @ bs)) \<and> encodes_all bs is"
    by (auto simp: asm_do_def at_code_def)
qed

lemma gen_gives_Nil: "gen_gives (seqE []) g []"
  by (auto simp: gen_gives_def intro: exI [of _ "[]"])

lemma gen_gives_skip: "gen_gives skip g []"
  by (auto simp: gen_gives_def skip_def intro: exI [of _ "[]"])

lemma gen_gives_Cons:
  assumes "gen_gives f g is" and "gen_gives (seqE fs) g js"
  shows "gen_gives (seqE (f # fs)) g (is @ js)"
  unfolding gen_gives_def
proof
  fix c
  obtain bs where bs: "f (at_code g c) = Inr (at_code g (c @ bs))" "encodes_all bs is"
    using assms(1) unfolding gen_gives_def by blast
  obtain cs where cs: "seqE fs (at_code g (c @ bs)) = Inr (at_code g ((c @ bs) @ cs))" "encodes_all cs js"
    using assms(2) unfolding gen_gives_def by blast
  show "\<exists>bs. seqE (f # fs) (at_code g c) = Inr (at_code g (c @ bs)) \<and> encodes_all bs (is @ js)"
    using bs cs by (intro exI [of _ "bs @ cs"]) (simp add: encodes_all_append)
qed

lemma gen_gives_res: "resolve n = Inr r \<Longrightarrow> gen_gives (k r) g is \<Longrightarrow> gen_gives (with_res n k) g is"
  by (simp add: gen_gives_def with_res_def)

lemma gen_givesE:
  assumes "gen_gives f g is"
  obtains bs where "f g = Inr (at_code g (code (g_asm g) @ bs))" "encodes_all bs is"
  using assms unfolding gen_gives_def by (metis at_code_code(1))

subsection \<open>The stack\<close>

text \<open>The addresses of the \<open>8 * k\<close> bytes below a stack pointer.\<close>

definition below :: "64 word \<Rightarrow> nat \<Rightarrow> 64 word \<Rightarrow> bool" where
  "below sp k p \<longleftrightarrow> (\<exists>j \<in> {1..8 * k}. p = sp - of_nat j)"

lemma below_iff:
  assumes "8 * k < 2 ^ 64"
  shows "below sp k p \<longleftrightarrow> 1 \<le> unat (sp - p) \<and> unat (sp - p) \<le> 8 * k"
proof
  assume "below sp k p"
  then obtain j where j: "1 \<le> j" "j \<le> 8 * k" "p = sp - of_nat j" by (auto simp: below_def)
  then have "unat (sp - p) = j" using assms by (simp add: unat_of_nat)
  then show "1 \<le> unat (sp - p) \<and> unat (sp - p) \<le> 8 * k" using j by simp
next
  assume "1 \<le> unat (sp - p) \<and> unat (sp - p) \<le> 8 * k"
  then show "below sp k p" unfolding below_def by (intro bexI [of _ "unat (sp - p)"]) simp_all
qed

lemma below_mono: "below sp k p \<Longrightarrow> k \<le> k' \<Longrightarrow> below sp k' p"
  by (fastforce simp: below_def)

lemma below_push: "below (sp - 8) k p \<Longrightarrow> below sp (Suc k) p"
proof -
  assume "below (sp - 8) k p"
  then obtain j where j: "1 \<le> j" "j \<le> 8 * k" "p = sp - 8 - of_nat j" by (auto simp: below_def)
  then show ?thesis unfolding below_def by (intro bexI [of _ "j + 8"]) simp_all
qed

lemma below_slot: "i < 8 \<Longrightarrow> below sp (Suc k) (sp - 8 + of_nat i)"
  unfolding below_def by (intro bexI [of _ "8 - i"]) (auto simp: of_nat_diff)

lemma word_of_nat_0: "(of_nat n :: 64 word) = 0 \<Longrightarrow> n < 2 ^ 64 \<Longrightarrow> n = 0"
  by (auto simp: word_of_nat_eq_0_iff dest: dvd_imp_le)

lemma not_below_slot:
  assumes "i < 8" and "8 * k + 8 < 2 ^ 64"
  shows "\<not> below (sp :: 64 word) k (sp + of_nat i)"
proof
  assume "below sp k (sp + of_nat i)"
  then obtain j where j: "1 \<le> j" "j \<le> 8 * k" "sp + of_nat i = sp - of_nat j"
    by (auto simp: below_def)
  then have "(of_nat i :: 64 word) = - of_nat j" by simp
  then have "(of_nat (i + j) :: 64 word) = 0" by (simp add: eq_neg_iff_add_eq_0)
  then have "i + j = 0" using j(2) assms by (intro word_of_nat_0) simp_all
  then show False using j(1) by simp
qed

lemma mem_store_bytes_other:
  "(\<And>i. i < length bs \<Longrightarrow> q \<noteq> p + of_nat i) \<Longrightarrow> mem (store_bytes bs p m) q = mem m q"
proof (induction bs arbitrary: p m)
  case Nil
  then show ?case by simp
next
  case (Cons b bs)
  have "q \<noteq> p + 1 + of_nat i" if "i < length bs" for i
    using Cons.prems [of "Suc i"] that by (simp add: add.assoc)
  moreover have "q \<noteq> p" using Cons.prems [of 0] by simp
  ultimately show ?case using Cons.IH [of "p + 1"] by simp
qed

lemma mem_store_bytes_same:
  assumes "i < length bs" and "length bs < 2 ^ 64"
  shows "mem (store_bytes bs p m) (p + of_nat i) = bs ! i"
  using assms
proof (induction bs arbitrary: p m i)
  case Nil
  then show ?case by simp
next
  case (Cons b bs)
  show ?case
  proof (cases i)
    case 0
    have "p \<noteq> p + 1 + of_nat k" if "k < length bs" for k
    proof
      assume "p = p + 1 + of_nat k"
      then have "(of_nat (Suc k) :: 64 word) = 0" by (simp add: add.assoc)
      then have "Suc k = 0" using that Cons.prems(2) by (intro word_of_nat_0) simp_all
      then show False by simp
    qed
    then show ?thesis using 0 by (simp add: mem_store_bytes_other)
  next
    case (Suc k)
    then show ?thesis using Cons.IH [of k "p + 1"] Cons.prems by (simp add: add.assoc)
  qed
qed

lemma load64_store64 [simp]: "load64 p (store64 p v m) = v"
proof -
  have "map (\<lambda>k. mem (store64 p v m) (p + of_nat k)) [0..<8] = to_bytes_le 8 (uint v)"
    unfolding store64_def
    by (intro nth_equalityI) (simp_all add: mem_store_bytes_same)
  then have "load_le 8 p (store64 p v m) = uint v"
    using uint_lt2p [of v] by (simp add: load_le_def from_to_bytes_le)
  then show ?thesis by (simp add: load64_def)
qed

lemma mem_store64_other: "(\<And>i. i < 8 \<Longrightarrow> q \<noteq> p + of_nat i) \<Longrightarrow> mem (store64 p v m) q = mem m q"
  unfolding store64_def by (rule mem_store_bytes_other) simp

lemma load64_set_rg [simp]: "load64 p (set_rg r v m) = load64 p m"
  by (simp add: load64_def load_le_def set_rg_def)

lemma load64_cong: "(\<And>i. i < 8 \<Longrightarrow> mem m (p + of_nat i) = mem m' (p + of_nat i)) \<Longrightarrow> load64 p m = load64 p m'"
  unfolding load64_def load_le_def by (intro arg_cong [of _ _ word_of_int] arg_cong [of _ _ from_bytes_le]) simp

subsection \<open>Values\<close>

text \<open>Where a leaf operand's value comes from: a register, a frame slot, or a constant; \<open>None\<close>
  for a data address and for what \<open>_eval\<close> refuses.\<close>

datatype src = SReg int | SSlot int | SConst int

definition phys_src :: "string \<Rightarrow> src option" where
  "phys_src r = (case reg_num r of Inl _ \<Rightarrow> None | Inr n \<Rightarrow> Some (SReg n))"

definition ident_src :: "gen \<Rightarrow> string \<Rightarrow> src option" where
  "ident_src g name =
    (case map_of (fn_args g) name of Some r \<Rightarrow> phys_src r
     | None \<Rightarrow> (case map_of (fn_locals g) name of Some off \<Rightarrow> Some (SSlot off)
     | None \<Rightarrow> (case const_value name g of Some v \<Rightarrow> Some (SConst v)
     | None \<Rightarrow> (case map_of (data_layout g) name of Some _ \<Rightarrow> None
     | None \<Rightarrow> map_option (\<lambda>si. SConst (si_size si)) (map_of (structs g) name)))))"

fun leaf_src :: "gen \<Rightarrow> expr \<Rightarrow> src option" where
  "leaf_src g (Number v) = Some (SConst v)"
| "leaf_src g (Reg n) = (case resolve n of Inl _ \<Rightarrow> None | Inr r \<Rightarrow> phys_src r)"
| "leaf_src g (Ident n) = ident_src g n"
| "leaf_src g (StructFieldRef s f) =
    (case field_offset s f g of Inl _ \<Rightarrow> None | Inr off \<Rightarrow> Some (SConst off))"
| "leaf_src g _ = None"

fun src_val :: "mach \<Rightarrow> src \<Rightarrow> 64 word" where
  "src_val m (SReg r) = rg m r"
| "src_val m (SSlot off) = load64 (rg m 5 + word_of_int off) m"
| "src_val m (SConst v) = word_of_int v"

definition binop :: "string \<Rightarrow> 64 word \<Rightarrow> 64 word \<Rightarrow> 64 word" where
  "binop opn a b = (if opn = ''+'' then a + b else if opn = ''-'' then a - b else a * b)"

fun expr_val :: "gen \<Rightarrow> mach \<Rightarrow> expr \<Rightarrow> 64 word" where
  "expr_val g m (BinExpr opn l r) = binop opn (expr_val g m l) (expr_val g m r)"
| "expr_val g m e = src_val m (the (leaf_src g e))"

fun leaves :: "expr \<Rightarrow> expr list" where
  "leaves (BinExpr opn l r) = leaves l @ leaves r"
| "leaves e = [e]"

fun pushes :: "expr \<Rightarrow> nat" where
  "pushes (BinExpr opn l r) = max (pushes l) (Suc (pushes r))"
| "pushes e = 0"

fun ops_ok :: "expr \<Rightarrow> bool" where
  "ops_ok (BinExpr opn l r) \<longleftrightarrow> opn \<in> set [''+'', ''-'', ''*''] \<and> ops_ok l \<and> ops_ok r"
| "ops_ok e \<longleftrightarrow> True"

text \<open>An operand the code evaluates as meant: the leaves have sources, slots in reach, and inside
  a compound operand no leaf reads \<open>rsp\<close>, \<open>r11\<close> or \<open>r12\<close>, which the evaluation uses.\<close>

fun src_ok :: "int list \<Rightarrow> src option \<Rightarrow> bool" where
  "src_ok bad None \<longleftrightarrow> False"
| "src_ok bad (Some (SReg r)) \<longleftrightarrow> r \<notin> set bad"
| "src_ok bad (Some (SSlot off)) \<longleftrightarrow> fits32 off"
| "src_ok bad (Some (SConst v)) \<longleftrightarrow> True"

definition expr_ok :: "int list \<Rightarrow> gen \<Rightarrow> expr \<Rightarrow> bool" where
  "expr_ok bad g e \<longleftrightarrow> ops_ok e \<and> list_all (\<lambda>x. src_ok bad (leaf_src g x)) (leaves e)"

definition used :: "expr \<Rightarrow> int list" where
  "used e = (case e of BinExpr _ _ _ \<Rightarrow> [4, 11, 12] | _ \<Rightarrow> [])"

text \<open>The frame slots of the operand lie outside the \<open>8 * k\<close> bytes below \<open>rsp\<close>.\<close>

definition slots_apart :: "gen \<Rightarrow> mach \<Rightarrow> nat \<Rightarrow> expr \<Rightarrow> bool" where
  "slots_apart g m k e \<longleftrightarrow>
     (\<forall>x \<in> set (leaves e). \<forall>off i. leaf_src g x = Some (SSlot off) \<longrightarrow> i < 8 \<longrightarrow>
        \<not> below (rg m 4) k (rg m 5 + word_of_int off + of_nat i))"

text \<open>What a computation leaves alone: the registers outside \<open>R\<close> and the memory outside the
  \<open>8 * k\<close> bytes below \<open>rsp\<close>.\<close>

definition keeps :: "int set \<Rightarrow> nat \<Rightarrow> mach \<Rightarrow> mach \<Rightarrow> bool" where
  "keeps R k m m' \<longleftrightarrow>
     (\<forall>r. r \<notin> R \<longrightarrow> rg m' r = rg m r) \<and> (\<forall>p. \<not> below (rg m 4) k p \<longrightarrow> mem m' p = mem m p)"

lemma expr_val_push:
  assumes "keeps {4, 11, 12} k m m'" and "expr_ok [4, 11, 12] g e" and "slots_apart g m k e"
  shows "expr_val g m' e = expr_val g m e"
  using assms(2,3)
proof (induction e)
  case (BinExpr opn l r)
  then show ?case by (simp add: expr_ok_def slots_apart_def ball_Un)
qed (use assms(1) in \<open>auto simp: expr_ok_def slots_apart_def keeps_def intro!: load64_cong
    elim!: src_ok.elims\<close>)

subsection \<open>Single instructions\<close>

lemma exec_stack:
  "exec (stack_insn 0x50 d) m = Some (push64 (rg m d) m)" "exec (stack_insn 0x58 d) m = Some (pop64 d m)"
  by (simp_all add: exec_def exec_plain_def stack_insn_def)

lemma straight_stack [simp]: "straight (stack_insn 0x50 d)" "straight (stack_insn 0x58 d)"
  by (simp_all add: straight_def stack_insn_def)

lemma straight_mem [simp]: "straight (rex_insn p m op' r (Some (OMem b ix d)) imm)"
  by (simp add: straight_def rex_insn_def)

lemma straight_mr [simp]: "straight (mr p m op' d s)" "straight (rm p m op' d s)"
  by (simp_all add: mr_def rm_def)

lemma exec_mov: "exec (mr [] M1 0x89 d s) m = Some (set_rg d (rg m s) m)"
  by (simp add: exec_def exec_rm_def mr_def rex_insn_def write_rm_def)

lemma exec_load:
  "exec (rex_insn [] M1 0x8B d (Some (OMem (Some b) None off)) 0) m =
    Some (set_rg d (load64 (rg m b + word_of_int off) m) m)"
  by (simp add: exec_def exec_rm_def rex_insn_def read_rm_def eff_addr_def)

lemma exec_arith:
  "\<exists>f. exec (mr [] M1 0x01 d s) m = Some ((set_rg d (rg m d + rg m s) m)\<lparr>fl := f\<rparr>)"
  "\<exists>f. exec (mr [] M1 0x29 d s) m = Some ((set_rg d (rg m d - rg m s) m)\<lparr>fl := f\<rparr>)"
  "\<exists>f. exec (rm [] M0F 0xAF d s) m = Some ((set_rg d (rg m d * rg m s) m)\<lparr>fl := f\<rparr>)"
  by (simp_all add: exec_def exec_rm_def exec_0f_def mr_def rm_def rex_insn_def alu_exec_def alu_def
      read_rm_def write_rm_def Let_def) blast+

subsection \<open>Leaves\<close>

lemma reg_num_rbp: "reg_num ''rbp'' = Inr 5" "reg_num ''r11'' = Inr 11" "reg_num ''r12'' = Inr 12"
  by code_simp+

definition puts :: "cg \<Rightarrow> gen \<Rightarrow> int \<Rightarrow> (mach \<Rightarrow> 64 word) \<Rightarrow> bool" where
  "puts f g d val \<longleftrightarrow>
     (\<exists>is. gen_gives f g is \<and> list_all straight is \<and> (\<forall>m. exec_list is m = Some (set_rg d (val m) m)))"

lemma puts_const:
  assumes "reg_num dst = Inr d"
  shows "puts (asm_do (mov_reg_imm64 dst v)) g d (\<lambda>m. word_of_int v)"
proof -
  have "gives det (mov_reg_imm64 dst v) [mov_imm_insn det d v]" for det
    using reg_num_range [OF assms] assms by (intro mov_imm_encode) simp_all
  then show ?thesis
    unfolding puts_def using exec_mov_imm [of _ d v] by (blast intro: gen_gives_asm straight_mov_imm list.pred_inject(2) [THEN iffD2] list.pred_inject(1))
qed

lemma puts_reg:
  assumes dst: "reg_num dst = Inr d" and r: "reg_num r = Inr n"
  shows "puts (if r \<noteq> dst then asm_do (mov_reg_reg dst r) else skip) g d (\<lambda>m. rg m n)"
proof (cases "r = dst")
  case True
  then have "n = d" using assms by simp
  then have "set_rg d (rg m n) m = m" for m by (simp add: set_rg_def)
  then show ?thesis using True unfolding puts_def
    by (intro exI [of _ "[]"]) (simp add: gen_gives_skip)
next
  case False
  have "gives det (mov_reg_reg dst r) [mr [] M1 0x89 d n]" for det
    using mov_reg_encode [of d n dst r det] reg_num_range [OF dst] reg_num_range [OF r] dst r False by simp
  then show ?thesis using False unfolding puts_def
    by (intro exI [of _ "[mr [] M1 0x89 d n]"]) (simp add: gen_gives_asm exec_mov)
qed

lemma puts_slot:
  assumes dst: "reg_num dst = Inr d" and off: "fits32 off"
  shows "puts (asm_do (mov_reg_mem dst ''rbp'' off None 1)) g d (\<lambda>m. load64 (rg m 5 + word_of_int off) m)"
proof -
  have "gives det (mov_reg_mem dst ''rbp'' off None 1) [rex_insn [] M1 0x8B d (Some (OMem (Some 5) None off)) 0]"
    for det
    using mem_encode [OF dst reg_num_rbp(1), of None 1 None off det] off by (simp add: mem_table_def)
  then show ?thesis unfolding puts_def
    by (intro exI [of _ "[rex_insn [] M1 0x8B d (Some (OMem (Some 5) None off)) 0]"])
      (simp add: gen_gives_asm exec_load)
qed

lemma puts_cong:
  "puts f' g d val' \<Longrightarrow> (\<And>c. f (at_code g c) = f' (at_code g c)) \<Longrightarrow> (\<And>m. val m = val' m) \<Longrightarrow>
   puts f g d val"
  by (simp add: puts_def gen_gives_def)

lemma const_value_at [simp]: "const_value n (at_code g c) = const_value n g"
  and field_offset_at [simp]: "field_offset s f (at_code g c) = field_offset s f g"
  by (simp_all add: const_value_def field_offset_def)

lemma puts_leaf:
  assumes dst: "reg_num dst = Inr d" and ok: "src_ok [] (leaf_src g e)"
  shows "puts (eval_expr e dst) g d (\<lambda>m. src_val m (the (leaf_src g e)))"
proof (cases e)
  case (Number v)
  then show ?thesis using puts_const [OF dst] by simp
next
  case (Reg n)
  then obtain r k where r: "resolve n = Inr r" "reg_num r = Inr k"
    using ok by (auto simp: phys_src_def split: sum.splits)
  show ?thesis
    using Reg r by (intro puts_cong [OF puts_reg [OF dst r(2), of g]])
      (auto simp: with_res_def phys_src_def)
next
  case (StructFieldRef s f)
  then obtain off where off: "field_offset s f g = Inr off"
    using ok by (auto split: sum.splits)
  then show ?thesis
    using StructFieldRef by (intro puts_cong [OF puts_const [OF dst, of off g]]) simp_all
next
  case (Ident n)
  consider (arg) r where "map_of (fn_args g) n = Some r"
    | (slot) off where "map_of (fn_args g) n = None" "map_of (fn_locals g) n = Some off"
    | (const) v where "map_of (fn_args g) n = None" "map_of (fn_locals g) n = None" "const_value n g = Some v"
    | (struct) si where "map_of (fn_args g) n = None" "map_of (fn_locals g) n = None" "const_value n g = None"
        "map_of (data_layout g) n = None" "map_of (structs g) n = Some si"
    using ok Ident by (cases "map_of (structs g) n") (auto simp: ident_src_def split: option.splits)
  then show ?thesis
  proof cases
    case arg
    then obtain k where k: "reg_num r = Inr k" "ident_src g n = Some (SReg k)"
      using ok Ident by (auto simp: ident_src_def phys_src_def split: sum.splits)
    show ?thesis using Ident arg k
      by (intro puts_cong [OF puts_reg [OF dst k(1), of g]]) (auto simp: eval_ident_def skip_def)
  next
    case slot
    then have k: "ident_src g n = Some (SSlot off)" "fits32 off"
      using ok Ident by (auto simp: ident_src_def)
    show ?thesis using Ident slot k
      by (intro puts_cong [OF puts_slot [OF dst k(2), of g]]) (auto simp: eval_ident_def)
  next
    case const
    then show ?thesis using Ident
      by (intro puts_cong [OF puts_const [OF dst, of v g]]) (auto simp: eval_ident_def ident_src_def)
  next
    case struct
    then show ?thesis using Ident
      by (intro puts_cong [OF puts_const [OF dst, of "si_size si" g]]) (auto simp: eval_ident_def ident_src_def)
  qed
qed (use ok in simp_all)

subsection \<open>Compound operands\<close>

lemma keeps_refl: "keeps R k m m"
  by (simp add: keeps_def)

lemma keeps_weaken: "keeps R k m m' \<Longrightarrow> R \<subseteq> S \<Longrightarrow> k \<le> l \<Longrightarrow> keeps S l m m'"
  using below_mono unfolding keeps_def by blast

lemma keeps_trans: "keeps R k m m' \<Longrightarrow> keeps R k m' m'' \<Longrightarrow> 4 \<notin> R \<Longrightarrow> keeps R k m m''"
  by (simp add: keeps_def)

lemma keeps_set_rg: "keeps R k m m' \<Longrightarrow> d \<in> R \<Longrightarrow> keeps R k m (set_rg d v m')"
  by (auto simp: keeps_def)

lemma keeps_fl [simp]: "keeps R k m (m'\<lparr>fl := f\<rparr>) = keeps R k m m'"
  by (simp add: keeps_def)

text \<open>A push, a computation that works below it, and the pop.\<close>

lemma push_pop:
  assumes m2: "m2 = push64 v m1" and k: "keeps R k m2 m3" "4 \<notin> R" and small: "8 * k + 8 < 2 ^ 64"
    and m4: "m4 = pop64 d m3" and d: "d \<noteq> 4"
  shows "rg m4 d = v" and "keeps (insert d R) (Suc k) m1 m4"
proof -
  let ?sp = "rg m1 4 - 8"
  have sp2: "rg m2 4 = ?sp" "rg m3 4 = ?sp" using m2 k by (simp_all add: push64_def keeps_def)
  have "mem m3 (?sp + of_nat i) = mem m2 (?sp + of_nat i)" if "i < 8" for i
    using k(1) not_below_slot [OF that small, of ?sp] by (simp add: keeps_def sp2)
  then have "load64 ?sp m3 = load64 ?sp m2" by (rule load64_cong)
  also have "\<dots> = v" by (simp add: m2 push64_def)
  finally have v: "load64 ?sp m3 = v" .
  then show "rg m4 d = v" using d by (simp add: m4 pop64_def sp2)
  show "keeps (insert d R) (Suc k) m1 m4"
    unfolding keeps_def
  proof (intro conjI allI impI)
    fix r assume "r \<notin> insert d R"
    then show "rg m4 r = rg m1 r"
      using k(1) sp2 by (cases "r = 4") (auto simp: m4 pop64_def keeps_def m2 push64_def)
  next
    fix p assume p: "\<not> below (rg m1 4) (Suc k) p"
    have "p \<noteq> ?sp + of_nat i" if "i < 8" for i using p below_slot [OF that] by blast
    then have "mem m2 p = mem m1 p" by (simp add: m2 push64_def mem_store64_other)
    moreover have "\<not> below (rg m2 4) k p" using p below_push sp2 by auto
    then have "mem m3 p = mem m2 p" using k(1) by (simp add: keeps_def)
    ultimately show "mem m4 p = mem m1 p" by (simp add: m4 pop64_def)
  qed
qed

text \<open>\<open>is\<close> is the code of \<open>e\<close>, and running it puts the value of \<open>e\<close> into register \<open>d\<close>.\<close>

definition evaluates :: "gen \<Rightarrow> expr \<Rightarrow> string \<Rightarrow> int \<Rightarrow> insn list \<Rightarrow> bool" where
  "evaluates g e dst d is \<longleftrightarrow>
     gen_gives (eval_expr e dst) g is \<and> list_all straight is \<and>
     (\<forall>m. slots_apart g m (pushes e) e \<longrightarrow>
        (\<exists>m'. exec_list is m = Some m' \<and> rg m' d = expr_val g m e \<and>
           keeps (insert d (if used e = [] then {} else {11, 12})) (pushes e) m m'))"

lemma leaf_evaluates:
  assumes "reg_num dst = Inr d" and "src_ok [] (leaf_src g e)" and "pushes e = 0" "used e = []"
    "\<And>m. expr_val g m e = src_val m (the (leaf_src g e))"
  shows "\<exists>is. evaluates g e dst d is"
proof -
  obtain "is" where i: "gen_gives (eval_expr e dst) g is" "list_all straight is"
    "\<And>m. exec_list is m = Some (set_rg d (src_val m (the (leaf_src g e))) m)"
    using puts_leaf [OF assms(1,2)] unfolding puts_def by blast
  then show ?thesis
    unfolding evaluates_def using assms(3-5)
    by (intro exI [of _ "is"]) (simp add: keeps_set_rg keeps_refl)
qed

lemma combine_gives:
  assumes "opn \<in> set [''+'', ''-'', ''*'']"
  shows "\<exists>i. gen_gives (combine_op opn) g [i] \<and> straight i \<and>
    (\<forall>m. \<exists>f. exec i m = Some ((set_rg 11 (binop opn (rg m 11) (rg m 12)) m)\<lparr>fl := f\<rparr>))"
proof -
  note rr = rr_encode [of 11 12 "''r11''" "''r12''" "deterministic (g_asm g)", OF _ _ _ _ reg_num_rbp(2,3), simplified]
  have "gives (deterministic (g_asm g)) (add_reg_reg ''r11'' ''r12'') [mr [] M1 0x01 11 12]"
    "gives (deterministic (g_asm g)) (sub_reg_reg ''r11'' ''r12'') [mr [] M1 0x29 11 12]"
    "gives (deterministic (g_asm g)) (imul_reg_reg ''r11'' ''r12'') [rm [] M0F 0xAF 11 12]"
    using rr by (simp_all add: rr_table_def)
  note g = this [THEN gen_gives_asm]
  consider "opn = ''+''" | "opn = ''-''" | "opn = ''*''" using assms by auto
  then show ?thesis
  proof cases
    case 1
    then show ?thesis using g(1) exec_arith(1) [of 11 12]
      by (intro exI [of _ "mr [] M1 0x01 11 12"]) (simp add: combine_op_def binop_def)
  next
    case 2
    then show ?thesis using g(2) exec_arith(2) [of 11 12]
      by (intro exI [of _ "mr [] M1 0x29 11 12"]) (simp add: combine_op_def binop_def)
  next
    case 3
    then show ?thesis using g(3) exec_arith(3) [of 11 12]
      by (intro exI [of _ "rm [] M0F 0xAF 11 12"]) (simp add: combine_op_def binop_def)
  qed
qed

lemma stack_gives:
  "gen_gives (asm_do (push_reg ''r11'')) g [stack_insn 0x50 11]"
  "gen_gives (asm_do (pop_reg ''r11'')) g [stack_insn 0x58 11]"
  using push_pop_encode [of 11 "''r11''"] reg_num_rbp(2) by (auto intro!: gen_gives_asm)

lemma src_ok_mono: "src_ok bad s \<Longrightarrow> set bad' \<subseteq> set bad \<Longrightarrow> src_ok bad' s"
  by (cases "(bad, s)" rule: src_ok.cases) auto

lemma expr_ok_mono: "expr_ok bad g e \<Longrightarrow> set bad' \<subseteq> set bad \<Longrightarrow> expr_ok bad' g e"
  using src_ok_mono unfolding expr_ok_def list_all_iff by blast

lemma used_subset: "set (used e) \<subseteq> {4, 11, 12}"
  by (cases e) (auto simp: used_def)

lemma slots_apart_mono: "slots_apart g m k e \<Longrightarrow> l \<le> k \<Longrightarrow> slots_apart g m l e"
  using below_mono unfolding slots_apart_def by blast

lemma slots_apart_push:
  assumes "slots_apart g m (Suc k) e" and "rg m' 4 = rg m 4 - 8" "rg m' 5 = rg m 5"
  shows "slots_apart g m' k e"
  using assms below_push unfolding slots_apart_def by metis

lemma bin_run:
  assumes l: "evaluates g l ''r11'' 11 ls" and r: "evaluates g r ''r12'' 12 rs"
    and okr: "expr_ok [4, 11, 12] g r" and small: "8 * Suc (pushes r) < 2 ^ 64"
    and ap: "slots_apart g m (pushes (BinExpr opn l r)) (BinExpr opn l r)"
  shows "\<exists>m'. exec_list (ls @ [stack_insn 0x50 11] @ rs @ [stack_insn 0x58 11]) m = Some m' \<and>
    rg m' 11 = expr_val g m l \<and> rg m' 12 = expr_val g m r \<and>
    keeps {11, 12} (pushes (BinExpr opn l r)) m m'"
proof -
  let ?k = "pushes (BinExpr opn l r)"
  have k: "pushes l \<le> ?k" "Suc (pushes r) \<le> ?k" by simp_all
  have apl: "slots_apart g m ?k l" and apr: "slots_apart g m ?k r"
    using ap by (auto simp: slots_apart_def)
  obtain m1 where m1: "exec_list ls m = Some m1" "rg m1 11 = expr_val g m l"
    and k1: "keeps (insert 11 (if used l = [] then {} else {11, 12})) (pushes l) m m1"
    using l slots_apart_mono [OF apl k(1)] unfolding evaluates_def by blast
  have k1': "keeps {11, 12} ?k m m1" by (rule keeps_weaken [OF k1 _ k(1)]) auto
  define m2 where "m2 = push64 (rg m1 11) m1"
  have sp: "rg m1 4 = rg m 4" "rg m1 5 = rg m 5" using k1' by (simp_all add: keeps_def)
  have m2r: "rg m2 4 = rg m 4 - 8" "rg m2 5 = rg m 5" "q \<noteq> 4 \<Longrightarrow> rg m2 q = rg m1 q" for q
    by (simp_all add: m2_def push64_def sp)
  have mem2: "mem m2 p = mem m1 p" if "\<not> below (rg m 4) ?k p" for p
  proof -
    have "p \<noteq> rg m1 4 - 8 + of_nat i" if "i < 8" for i
      using below_mono [OF below_slot [OF that] k(2), of "rg m 4"] \<open>\<not> below (rg m 4) ?k p\<close> sp(1) by auto
    then show ?thesis by (simp add: m2_def push64_def mem_store64_other)
  qed
  have "slots_apart g m2 (pushes r) r"
    by (rule slots_apart_push [OF slots_apart_mono [OF apr k(2)] m2r(1,2)])
  then obtain m3 where m3: "exec_list rs m2 = Some m3" "rg m3 12 = expr_val g m2 r"
    and k3: "keeps (insert 12 (if used r = [] then {} else {11, 12})) (pushes r) m2 m3"
    using r unfolding evaluates_def by blast
  have k3': "keeps {11, 12} (pushes r) m2 m3" by (rule keeps_weaken [OF k3]) auto
  define m4 where "m4 = pop64 11 m3"
  have small': "8 * pushes r + 8 < 2 ^ 64" using small by simp
  note pp = push_pop [OF m2_def k3' _ small' m4_def]
  have v11: "rg m4 11 = expr_val g m l" using pp(1) m1(2) by simp
  have "keeps (insert 11 {11, 12}) (Suc (pushes r)) m1 m4" using pp(2) by simp
  then have "keeps {11, 12} ?k m1 m4" by (rule keeps_weaken) (use k in auto)
  with k1' have keep: "keeps {11, 12} ?k m m4" by (rule keeps_trans) simp
  have "keeps {4, 11, 12} ?k m m2"
    using k1' m2r(3) mem2 by (auto simp: keeps_def)
  then have "expr_val g m2 r = expr_val g m r"
    using okr apr m2r(2) by (intro expr_val_push) auto
  then have "rg m4 12 = expr_val g m r"
    using m3(2) by (simp add: m4_def pop64_def)
  moreover have "exec_list (ls @ [stack_insn 0x50 11] @ rs @ [stack_insn 0x58 11]) m = Some m4"
    by (simp add: exec_list_append m1(1) m3(1) exec_stack m2_def [symmetric] m4_def [symmetric])
  ultimately show ?thesis using v11 keep by blast
qed

lemma eval_correct:
  assumes "reg_num dst = Inr d" "d \<noteq> 4" and "expr_ok (used e) g e" and "8 * pushes e < 2 ^ 64"
  shows "\<exists>is. evaluates g e dst d is"
  using assms
proof (induction e arbitrary: dst d)
  case (BinExpr opn l r)
  have ok: "expr_ok [4, 11, 12] g l" "expr_ok [4, 11, 12] g r" and opn: "opn \<in> set [''+'', ''-'', ''*'']"
    using BinExpr.prems(3) by (simp_all add: expr_ok_def used_def)
  have small: "8 * pushes l < 2 ^ 64" "8 * pushes r < 2 ^ 64" "8 * Suc (pushes r) < 2 ^ 64"
    using BinExpr.prems(4) by simp_all
  obtain ls where l: "evaluates g l ''r11'' 11 ls"
    using BinExpr.IH(1) [OF reg_num_rbp(2)] expr_ok_mono [OF ok(1), of "used l"] used_subset small by auto
  obtain rs where r: "evaluates g r ''r12'' 12 rs"
    using BinExpr.IH(2) [OF reg_num_rbp(3)] expr_ok_mono [OF ok(2), of "used r"] used_subset small by auto
  obtain i where i: "gen_gives (combine_op opn) g [i]" "straight i"
    "\<And>m. \<exists>f. exec i m = Some ((set_rg 11 (binop opn (rg m 11) (rg m 12)) m)\<lparr>fl := f\<rparr>)"
    using combine_gives [OF opn] by blast
  have "puts (if dst \<noteq> ''r11'' then asm_do (mov_reg_reg dst ''r11'') else skip) g d (\<lambda>m. rg m 11)"
    by (rule puts_cong [OF puts_reg [OF BinExpr.prems(1) reg_num_rbp(2)]]) auto
  then obtain mv where mv: "gen_gives (if dst \<noteq> ''r11'' then asm_do (mov_reg_reg dst ''r11'') else skip) g mv"
    "list_all straight mv" "\<And>m. exec_list mv m = Some (set_rg d (rg m 11) m)"
    unfolding puts_def by blast
  let ?is = "ls @ [stack_insn 0x50 11] @ rs @ [stack_insn 0x58 11] @ [i] @ mv @ []"
  have "gen_gives (eval_expr (BinExpr opn l r) dst) g ?is"
    unfolding eval_expr.simps using l r i(1) mv(1) unfolding evaluates_def
    by (intro gen_gives_Cons gen_gives_Nil stack_gives) simp_all
  moreover have "list_all straight ?is" using l r i(2) mv(2) by (simp add: evaluates_def)
  moreover have "\<exists>m'. exec_list ?is m = Some m' \<and> rg m' d = expr_val g m (BinExpr opn l r) \<and>
      keeps {d, 11, 12} (pushes (BinExpr opn l r)) m m'"
    if ap: "slots_apart g m (pushes (BinExpr opn l r)) (BinExpr opn l r)" for m
  proof -
    obtain m4 where m4: "exec_list (ls @ [stack_insn 0x50 11] @ rs @ [stack_insn 0x58 11]) m = Some m4"
      "rg m4 11 = expr_val g m l" "rg m4 12 = expr_val g m r"
      "keeps {11, 12} (pushes (BinExpr opn l r)) m m4"
      using bin_run [OF l r ok(2) small(3) ap] by blast
    obtain f where f: "exec i m4 = Some ((set_rg 11 (binop opn (rg m4 11) (rg m4 12)) m4)\<lparr>fl := f\<rparr>)"
      using i(3) by blast
    let ?m5 = "(set_rg 11 (binop opn (rg m4 11) (rg m4 12)) m4)\<lparr>fl := f\<rparr>"
    have "exec_list ?is m = Some (set_rg d (rg ?m5 11) ?m5)"
    proof -
      have "?is = (ls @ [stack_insn 0x50 11] @ rs @ [stack_insn 0x58 11]) @ [i] @ mv" by simp
      then show ?thesis
        using f mv(3) by (simp only: exec_list_append [of "ls @ _ @ rs @ _"] m4(1)) simp
    qed
    moreover have "keeps {d, 11, 12} (pushes (BinExpr opn l r)) m (set_rg d (rg ?m5 11) ?m5)"
      using keeps_weaken [OF m4(4), of "{d, 11, 12}" "pushes (BinExpr opn l r)"]
      by (intro keeps_set_rg) (simp_all add: keeps_set_rg)
    ultimately show ?thesis using m4(2,3) by simp
  qed
  ultimately show ?case
    unfolding evaluates_def by (intro exI [of _ ?is]) (simp add: used_def)
next
  case (Str s)
  then show ?case by (simp add: expr_ok_def)
qed (rule leaf_evaluates; simp add: expr_ok_def used_def)+

subsection \<open>Running the operand code\<close>

lemma gen_gives_steps:
  assumes "gen_gives f g is" "list_all straight is" and "f g = Inr g'" and "exec_list is m = Some m'"
    and "length (code (g_asm g') @ post) < 2 ^ 64" and "rip m = base + of_nat (length (code (g_asm g)))"
  shows "steps base (code (g_asm g') @ post) (length is) m =
    Some (at_rip (base + of_nat (length (code (g_asm g')))) m')"
proof -
  obtain bs where bs: "f g = Inr (at_code g (code (g_asm g) @ bs))" "encodes_all bs is"
    using assms(1) by (rule gen_givesE)
  then have c: "code (g_asm g') = code (g_asm g) @ bs" using assms(3) by auto
  show ?thesis
    using steps_block [OF bs(2) assms(2), of "code (g_asm g)" post m base m'] assms(4-6) by (simp add: c)
qed

lemma eval_runs:
  assumes "reg_num dst = Inr d" "d \<noteq> 4" and "expr_ok (used e) g e" and "8 * pushes e < 2 ^ 64"
    and "eval_expr e dst g = Inr g'" and "slots_apart g m (pushes e) e"
    and "length (code (g_asm g') @ post) < 2 ^ 64" and "rip m = base + of_nat (length (code (g_asm g)))"
  shows "\<exists>n m'. steps base (code (g_asm g') @ post) n m = Some m' \<and>
    rip m' = base + of_nat (length (code (g_asm g'))) \<and> rg m' d = expr_val g m e \<and>
    keeps (insert d (if used e = [] then {} else {11, 12})) (pushes e) m m'"
proof -
  obtain "is" where i: "evaluates g e dst d is" using eval_correct [OF assms(1-4)] by blast
  then obtain m' where m': "exec_list is m = Some m'" "rg m' d = expr_val g m e"
      "keeps (insert d (if used e = [] then {} else {11, 12})) (pushes e) m m'"
    using assms(6) unfolding evaluates_def by blast
  have "steps base (code (g_asm g') @ post) (length is) m =
      Some (at_rip (base + of_nat (length (code (g_asm g')))) m')"
    using i unfolding evaluates_def by (intro gen_gives_steps [where f = "eval_expr e dst", OF _ _ assms(5) m'(1) assms(7,8)]) simp_all
  moreover have "keeps R k m (at_rip v m') = keeps R k m m'" for R k v by (simp add: keeps_def)
  ultimately show ?thesis using m'(2,3)
    by (intro exI [of _ "length is"] exI [of _ "at_rip (base + of_nat (length (code (g_asm g')))) m'"])
      simp
qed

lemma eval_succeeds:
  assumes "reg_num dst = Inr d" "d \<noteq> 4" and "expr_ok (used e) g e" and "8 * pushes e < 2 ^ 64"
  shows "\<exists>g'. eval_expr e dst g = Inr g'"
  using eval_correct [OF assms] unfolding evaluates_def by (blast elim: gen_givesE)

subsection \<open>A compound operand that reads \<open>r12\<close>\<close>

text \<open>\<open>reg10\<close> is \<open>r12\<close>: behind a compound left operand it reads the right operand of that one.\<close>

lemma puts_exec:
  assumes "puts f g d val"
  obtains "is" where "gen_gives f g is" "list_all straight is" "\<And>m. exec_list is m = Some (set_rg d (val m) m)"
  using assms unfolding puts_def by blast

definition r12_operand :: "int \<Rightarrow> int \<Rightarrow> expr" where
  "r12_operand a b = BinExpr ''+'' (BinExpr ''+'' (Number a) (Number b)) (Reg ''reg10'')"

lemma r12_code:
  "\<exists>is. gen_gives (eval_expr (r12_operand a b) ''rax'') g is \<and> list_all straight is \<and>
    (\<forall>m. \<exists>m'. exec_list is m = Some m' \<and> rg m' 0 = word_of_int a + word_of_int b + word_of_int b)"
proof -
  have ok: "src_ok [] (leaf_src g (Number v))" for v by simp
  obtain ls where l: "gen_gives (eval_expr (Number a) ''r11'') g ls" "list_all straight ls"
      "\<And>m. exec_list ls m = Some (set_rg 11 (word_of_int a) m)"
    using puts_leaf [OF reg_num_rbp(2) ok [of a]] by (rule puts_exec) simp
  obtain rs where r: "gen_gives (eval_expr (Number b) ''r12'') g rs" "list_all straight rs"
      "\<And>m. exec_list rs m = Some (set_rg 12 (word_of_int b) m)"
    using puts_leaf [OF reg_num_rbp(3) ok [of b]] by (rule puts_exec) simp
  obtain i where i: "gen_gives (combine_op ''+'') g [i]" "straight i"
    "\<And>m. \<exists>f. exec i m = Some ((set_rg 11 (binop ''+'' (rg m 11) (rg m 12)) m)\<lparr>fl := f\<rparr>)"
    using combine_gives [of "''+''" g] by auto
  have rax: "reg_num ''rax'' = Inr 0" by code_simp
  have "puts (asm_do (mov_reg_reg ''rax'' ''r11'')) g 0 (\<lambda>m. rg m 11)"
    using puts_reg [OF rax reg_num_rbp(2), of g] by simp
  then obtain mv where mv: "gen_gives (asm_do (mov_reg_reg ''rax'' ''r11'')) g mv"
    "list_all straight mv" "\<And>m. exec_list mv m = Some (set_rg 0 (rg m 11) m)" by (rule puts_exec) simp
  have res: "resolve ''reg10'' = Inr ''r12''" by code_simp
  let ?in = "ls @ [stack_insn 0x50 11] @ rs @ [stack_insn 0x58 11] @ [i]"
  let ?is = "?in @ [stack_insn 0x50 11] @ [stack_insn 0x58 11] @ [i] @ mv"
  have "gen_gives (eval_expr (BinExpr ''+'' (Number a) (Number b)) ''r11'') g (?in @ [] @ [])"
    unfolding eval_expr.simps(5) using l(1) r(1) i(1)
    by (simp only: append_assoc) (intro gen_gives_Cons gen_gives_Nil stack_gives; simp add: gen_gives_skip)
  then have "gen_gives (eval_expr (r12_operand a b) ''rax'') g ((?in @ [] @ []) @ [stack_insn 0x50 11] @ [] @
      [stack_insn 0x58 11] @ [i] @ mv @ [])"
    unfolding r12_operand_def eval_expr.simps(5) [of _ "BinExpr _ _ _"] using i(1) mv(1)
    by (intro gen_gives_Cons gen_gives_Nil stack_gives) (simp_all add: gen_gives_skip gen_gives_res res)
  then have "gen_gives (eval_expr (r12_operand a b) ''rax'') g ?is" by simp
  moreover have "\<exists>m'. exec_list ?is m = Some m' \<and> rg m' 0 = word_of_int a + word_of_int b + word_of_int b" for m
  proof -
    have pp: "exec_list ([stack_insn 0x50 11] @ rs @ [stack_insn 0x58 11]) m =
        Some (pop64 11 (set_rg 12 (word_of_int b) (push64 (rg m 11) m)))" for m
      by (simp add: exec_list_append r(3) exec_stack)
    obtain m4 where m4: "exec_list (ls @ [stack_insn 0x50 11] @ rs @ [stack_insn 0x58 11]) m = Some m4"
      "rg m4 11 = word_of_int a" "rg m4 12 = word_of_int b"
      using pp [of "set_rg 11 (word_of_int a) m"]
      by (simp only: exec_list_append [of ls] l(3)) (simp add: pop64_def push64_def)
    obtain f where f: "exec i m4 = Some ((set_rg 11 (word_of_int a + word_of_int b) m4)\<lparr>fl := f\<rparr>)"
      using i(3) [of m4] m4 by (auto simp: binop_def)
    define m5 where "m5 = (set_rg 11 (word_of_int a + word_of_int b) m4)\<lparr>fl := f\<rparr>"
    have m6: "exec_list ([stack_insn 0x50 11] @ [stack_insn 0x58 11]) m5 = Some (pop64 11 (push64 (rg m5 11) m5))"
      by (simp add: exec_stack)
    have e: "rg (pop64 11 (push64 (rg m5 11) m5)) 11 = word_of_int a + word_of_int b"
        "rg (pop64 11 (push64 (rg m5 11) m5)) 12 = word_of_int b"
      using m4(3) by (simp_all add: m5_def pop64_def push64_def)
    obtain f' where f': "exec i (pop64 11 (push64 (rg m5 11) m5)) = Some ((set_rg 11 (word_of_int a + word_of_int b +
        word_of_int b) (pop64 11 (push64 (rg m5 11) m5)))\<lparr>fl := f'\<rparr>)"
      using i(3) [of "pop64 11 (push64 (rg m5 11) m5)"] unfolding e by (auto simp: binop_def)
    have "?is = (ls @ [stack_insn 0x50 11] @ rs @ [stack_insn 0x58 11]) @ [i] @
        ([stack_insn 0x50 11] @ [stack_insn 0x58 11]) @ [i] @ mv" by simp
    then show ?thesis
      using f f' m6 mv(3)
      by (simp only: exec_list_append [of "ls @ _ @ rs @ _"] exec_list_append [of "[stack_insn 0x50 11] @ _"]
          exec_list_append [of "[i]"] m4(1)) (simp add: m5_def [symmetric])
  qed
  ultimately show ?thesis using l(2) r(2) i(2) mv(2) by (intro exI [of _ ?is]) simp
qed

lemma r12_lost:
  "\<exists>g'. eval_expr (r12_operand a b) ''rax'' g = Inr g' \<and>
    (\<forall>base post m. length (code (g_asm g') @ post) < 2 ^ 64 \<and> rip m = base + of_nat (length (code (g_asm g))) \<longrightarrow>
      (\<exists>n m'. steps base (code (g_asm g') @ post) n m = Some m' \<and>
        rip m' = base + of_nat (length (code (g_asm g'))) \<and>
        rg m' 0 = word_of_int a + word_of_int b + word_of_int b))"
proof -
  obtain "is" where i: "gen_gives (eval_expr (r12_operand a b) ''rax'') g is" "list_all straight is"
    "\<And>m :: mach. \<exists>m'. exec_list is m = Some m' \<and> rg m' 0 = word_of_int a + word_of_int b + word_of_int b"
    using r12_code by blast
  obtain g' where g': "eval_expr (r12_operand a b) ''rax'' g = Inr g'" using i(1) by (blast elim: gen_givesE)
  show ?thesis
  proof (rule exI, rule conjI, rule g', intro allI impI, elim conjE)
    fix base post and m :: mach
    assume a: "length (code (g_asm g') @ post) < 2 ^ 64" "rip m = base + of_nat (length (code (g_asm g)))"
    obtain m' where m': "exec_list is m = Some m'" "rg m' 0 = word_of_int a + word_of_int b + word_of_int b"
      using i(3) by blast
    show "\<exists>n m'. steps base (code (g_asm g') @ post) n m = Some m' \<and>
        rip m' = base + of_nat (length (code (g_asm g'))) \<and>
        rg m' 0 = word_of_int a + word_of_int b + word_of_int b"
      by (rule exI, rule exI, rule conjI, rule gen_gives_steps [OF i(1,2) g' m'(1) a]) (use m'(2) in simp)
  qed
qed

end
