(* ===== verification/Core_Correct.thy ===== *)
theory Core_Correct
  imports Core_Language Eval_Correct
begin

section \<open>The code of the register operations\<close>

text \<open>
  A small program logic (\<open>triple\<close>) for generated code without branches and addresses, and the code
  of the binary and unary operations of the core language: arithmetic, shifts and division leave
  the registers, the stack and the memory as the language says.
\<close>

subsection \<open>Triples\<close>

definition triple :: "(mach \<Rightarrow> bool) \<Rightarrow> cg \<Rightarrow> gen \<Rightarrow> (mach \<Rightarrow> bool) \<Rightarrow> bool" where
  "triple P f g R \<longleftrightarrow>
     (\<exists>is. gen_gives f g is \<and> list_all straight is \<and>
        (\<forall>m. P m \<longrightarrow> (\<exists>m'. exec_list is m = Some m' \<and> R m')))"

lemma triple_Nil: "(\<And>m. P m \<Longrightarrow> R m) \<Longrightarrow> triple P (seqE []) g R"
  unfolding triple_def using gen_gives_Nil [of g] by (intro exI [of _ "[]"]) simp

lemma triple_skip: "(\<And>m. P m \<Longrightarrow> R m) \<Longrightarrow> triple P skip g R"
  unfolding triple_def using gen_gives_skip [of g] by (intro exI [of _ "[]"]) simp

lemma triple_Cons:
  assumes "triple P f g R" and "triple R (seqE fs) g S"
  shows "triple P (seqE (f # fs)) g S"
proof -
  obtain "is" js where i: "gen_gives f g is" "list_all straight is"
      "\<And>m. P m \<Longrightarrow> \<exists>m'. exec_list is m = Some m' \<and> R m'"
    and j: "gen_gives (seqE fs) g js" "list_all straight js"
      "\<And>m. R m \<Longrightarrow> \<exists>m'. exec_list js m = Some m' \<and> S m'"
    using assms unfolding triple_def by blast
  have "\<exists>m'. exec_list (is @ js) m = Some m' \<and> S m'" if "P m" for m
    using i(3) [OF that] j(3) by (auto simp: exec_list_append)
  then show ?thesis unfolding triple_def
    using gen_gives_Cons [OF i(1) j(1)] i(2) j(2) by (intro exI [of _ "is @ js"]) simp
qed

lemma triple_weaken:
  "triple P f g R \<Longrightarrow> (\<And>m. P' m \<Longrightarrow> P m) \<Longrightarrow> (\<And>m. R m \<Longrightarrow> R' m) \<Longrightarrow> triple P' f g R'"
  unfolding triple_def by blast

lemma triple_res: "resolve n = Inr r \<Longrightarrow> triple P (k r) g R \<Longrightarrow> triple P (with_res n k) g R"
  unfolding triple_def using gen_gives_res by blast

lemma seqE_single [simp]: "seqE [f] = (f :: 'a \<Rightarrow> 'e + 'a)"
proof (rule ext)
  fix s show "seqE [f] s = f s" by (cases "f s") simp_all
qed

lemma triple_append:
  assumes "triple P (seqE fs) g R" and "triple R (seqE gs) g S"
  shows "triple P (seqE (fs @ gs)) g S"
proof -
  have "seqE (fs @ gs) = seqE [seqE fs, seqE gs]"
    by (intro ext) (simp only: seqE_append seqE.simps(2) [of "seqE fs"] seqE_single)
  moreover have "triple R (seqE [seqE gs]) g S" using assms(2) by (rule triple_Cons) (rule triple_Nil)
  ultimately show ?thesis using triple_Cons [OF assms(1)] by simp
qed

lemma triple_cong: "triple P f' g R \<Longrightarrow> (\<And>c. f (at_code g c) = f' (at_code g c)) \<Longrightarrow> triple P f g R"
  by (simp add: triple_def gen_gives_def)

text \<open>The instructions do not depend on the state they are run in.\<close>

lemma disasm_unique: "disasm bs is \<Longrightarrow> disasm bs js \<Longrightarrow> is = js"
proof (induction bs "is" arbitrary: js rule: disasm.induct)
  case (1 bs)
  then show ?case by (cases js) (auto simp: decode_def split: option.splits)
next
  case (2 bs i "is")
  then show ?case by (cases js) (auto simp: decode_def split: option.splits prod.splits)
qed

lemma gen_gives_unique: "gen_gives f g is \<Longrightarrow> gen_gives f g js \<Longrightarrow> is = js"
proof (elim gen_givesE)
  fix bs cs
  assume "encodes_all bs is" "encodes_all cs js"
    and "f g = Inr (at_code g (code (g_asm g) @ bs))" "f g = Inr (at_code g (code (g_asm g) @ cs))"
  moreover from this have "code (g_asm (at_code g (code (g_asm g) @ bs))) = code (g_asm (at_code g (code (g_asm g) @ cs)))"
    by (metis sum.inject(2))
  then have "cs = bs" by simp
  ultimately have "disasm bs is" "disasm bs js" by (simp_all add: disasm_whole)
  then show "is = js" by (rule disasm_unique)
qed

lemma triple_all:
  assumes "\<And>m0. P m0 \<Longrightarrow> triple (\<lambda>m. m = m0) f g R" and "P m1"
  shows "triple P f g R"
proof -
  obtain "is" where i: "gen_gives f g is" "list_all straight is"
    using assms(1) [OF assms(2)] unfolding triple_def by blast
  have "\<exists>m'. exec_list is m = Some m' \<and> R m'" if "P m" for m
  proof -
    note assms(1) [OF that]
    then obtain js where j: "gen_gives f g js" "\<exists>m'. exec_list js m = Some m' \<and> R m'"
      unfolding triple_def by blast
    have "js = is" by (rule gen_gives_unique [OF j(1) i(1)])
    then show ?thesis using j(2) by simp
  qed
  then show ?thesis unfolding triple_def using i by blast
qed

text \<open>One instruction, and any straight-line method that is one.\<close>

lemma triple_insn:
  assumes "gives (deterministic (g_asm g)) f [i]" and "straight i"
    and "\<And>m. P m \<Longrightarrow> \<exists>m'. exec i m = Some m' \<and> R m'"
  shows "triple P (asm_do f) g R"
proof -
  have "\<exists>m'. exec_list [i] m = Some m' \<and> R m'" if "P m" for m using assms(3) [OF that] by auto
  then show ?thesis
    unfolding triple_def using gen_gives_asm [OF assms(1)] assms(2) by (intro exI [of _ "[i]"]) simp
qed

lemma triple_at:
  "gives (deterministic (g_asm g)) f [i] \<Longrightarrow> straight i \<Longrightarrow> exec i m0 = Some m1 \<Longrightarrow> R m1 \<Longrightarrow>
     triple (\<lambda>m. m = m0) (asm_do f) g R"
  by (rule triple_insn) auto

lemma triple_push:
  "reg_num r = Inr d \<Longrightarrow> (\<And>m. P m \<Longrightarrow> R (push64 (rg m d) m)) \<Longrightarrow> triple P (asm_do (push_reg r)) g R"
  by (rule triple_insn [OF push_pop_encode(1)]) (use reg_num_range in \<open>auto simp: exec_stack\<close>)

lemma triple_pop:
  "reg_num r = Inr d \<Longrightarrow> (\<And>m. P m \<Longrightarrow> R (pop64 d m)) \<Longrightarrow> triple P (asm_do (pop_reg r)) g R"
  by (rule triple_insn [OF push_pop_encode(2)]) (use reg_num_range in \<open>auto simp: exec_stack\<close>)

lemma set_rg_same [simp]: "set_rg d (rg m d) m = m"
  by (simp add: set_rg_def)

lemma triple_mov:
  assumes "reg_num r = Inr d" "reg_num r' = Inr s" and "\<And>m. P m \<Longrightarrow> R (set_rg d (rg m s) m)"
  shows "triple P (asm_do (mov_reg_reg r r')) g R"
proof (cases "r = r'")
  case True
  then have "d = s" using assms by simp
  have "gen_gives (asm_do (mov_reg_reg r r')) g []"
    by (rule gen_gives_asm) (simp add: True mov_reg_reg_def gives_skip)
  then show ?thesis unfolding triple_def
    using assms(3) by (intro exI [of _ "[]"]) (simp add: \<open>d = s\<close>)
next
  case False
  have "gives (deterministic (g_asm g)) (mov_reg_reg r r') [mr [] M1 0x89 d s]"
    using mov_reg_encode [of d s r r' "deterministic (g_asm g)"] reg_num_range assms(1,2) False by auto
  then show ?thesis by (rule triple_insn) (simp_all add: exec_mov assms(3))
qed

subsection \<open>States of the core and of the processor\<close>

definition scratch :: "int set" where
  "scratch = {11, 12, 15}"

text \<open>The processor has what the state says: the registers of the core, the stack pointer and the
  memory outside the free slots.\<close>

definition holds :: "core \<Rightarrow> mach \<Rightarrow> bool" where
  "holds s m \<longleftrightarrow> (\<forall>r. r \<noteq> 4 \<longrightarrow> r \<notin> scratch \<longrightarrow> rg m r = c_regs s r) \<and> rg m 4 = c_sp s \<and>
     (\<forall>p. \<not> unused s p \<longrightarrow> mem m p = c_mem s p)"

abbreviation set_reg :: "int \<Rightarrow> 64 word \<Rightarrow> core \<Rightarrow> core" where
  "set_reg r v s \<equiv> s\<lparr>c_regs := (c_regs s)(r := v)\<rparr>"

lemma core_regE:
  assumes "core_reg n = Some r"
  obtains p where "resolve n = Inr p" "reg_num p = Inr r" "r \<noteq> 4" "r \<notin> scratch"
  using assms by (auto simp: core_reg_def scratch_def split: sum.splits if_splits)

text \<open>States with free slots for \<open>k\<close> pushes.\<close>

definition roomy :: "nat \<Rightarrow> core \<Rightarrow> bool" where
  "roomy k s \<longleftrightarrow> k \<le> c_room s \<and> c_room s \<le> 2 ^ 60"

lemma roomy_small: "roomy k s \<Longrightarrow> 8 * k + 8 < 2 ^ 64"
  by (simp add: roomy_def)

lemma unused_below: "c_room s \<le> 2 ^ 60 \<Longrightarrow> unused s p \<longleftrightarrow> below (c_sp s) (c_room s) p"
  by (subst below_iff) (simp_all add: unused_def)

lemma holds_changed:
  assumes "holds s m" and "keeps S k m m'" "4 \<notin> S" and "roomy k s"
    and "\<And>q. q \<noteq> 4 \<Longrightarrow> q \<notin> scratch \<Longrightarrow> rg m' q = \<rho> q"
  shows "holds (s\<lparr>c_regs := \<rho>\<rparr>) m'"
proof -
  have "mem m' p = mem m p" if "\<not> unused s p" for p
  proof -
    have "\<not> below (c_sp s) k p" using that assms(4) below_mono by (auto simp: unused_below roomy_def)
    then show ?thesis using assms(1,2) by (simp add: keeps_def holds_def)
  qed
  then show ?thesis using assms by (simp add: holds_def unused_def keeps_def)
qed

lemma holds_keeps: "keeps S k m m' \<Longrightarrow> S \<subseteq> scratch \<Longrightarrow> roomy k s \<Longrightarrow> holds s m \<Longrightarrow> holds s m'"
proof -
  assume k: "keeps S k m m'" "S \<subseteq> scratch" and m: "roomy k s" "holds s m"
  have "rg m' q = c_regs s q" if "q \<noteq> 4" "q \<notin> scratch" for q using k m(2) that by (auto simp: keeps_def holds_def)
  then have "holds (s\<lparr>c_regs := c_regs s\<rparr>) m'" using k m by (intro holds_changed) (auto simp: scratch_def)
  then show ?thesis by simp
qed

subsection \<open>Operations\<close>

lemma exec_logic:
  "\<exists>f. exec (mr [] M1 0x21 d s) m = Some ((set_rg d (rg m d AND rg m s) m)\<lparr>fl := f\<rparr>)"
  "\<exists>f. exec (mr [] M1 0x09 d s) m = Some ((set_rg d (rg m d OR rg m s) m)\<lparr>fl := f\<rparr>)"
  "\<exists>f. exec (mr [] M1 0x31 d s) m = Some ((set_rg d (rg m d XOR rg m s) m)\<lparr>fl := f\<rparr>)"
  by (simp_all add: exec_def exec_rm_def mr_def rex_insn_def alu_exec_def alu_def
      read_rm_def write_rm_def Let_def) blast+

lemma exec_one:
  "exec (grp [] M1 0xF7 2 d) m = Some (set_rg d (NOT (rg m d)) m)"
  "\<exists>f. exec (grp [] M1 0xF7 3 d) m = Some ((set_rg d (- rg m d) m)\<lparr>fl := f\<rparr>)"
  "\<exists>f. exec (grp [] M1 0xFF 0 d) m = Some ((set_rg d (rg m d + 1) m)\<lparr>fl := f\<rparr>)"
  "\<exists>f. exec (grp [] M1 0xFF 1 d) m = Some ((set_rg d (rg m d - 1) m)\<lparr>fl := f\<rparr>)"
  by (simp_all add: exec_def exec_rm_def grp_def rex_insn_def group3_def
      read_rm_def write_rm_def Let_def) blast+

lemma holds_set [simp]: "d \<noteq> 4 \<Longrightarrow> d \<notin> scratch \<Longrightarrow> holds s m \<Longrightarrow> holds (set_reg d v s) (set_rg d v m)"
  and holds_scratch [simp]: "d \<in> scratch \<Longrightarrow> holds s (set_rg d v m) = holds s m"
  and holds_fl [simp]: "holds s (m\<lparr>fl := f\<rparr>) = holds s m"
  and holds_rg: "holds s m \<Longrightarrow> d \<noteq> 4 \<Longrightarrow> d \<notin> scratch \<Longrightarrow> rg m d = c_regs s d"
  by (auto simp: holds_def unused_def scratch_def)

lemma reg_num_r15: "reg_num ''r15'' = Inr 15"
  by code_simp

text \<open>An instruction that writes \<open>v\<close> into \<open>d\<close> and maybe flags.\<close>

lemma triple_write:
  assumes "gives (deterministic (g_asm g)) f [i]" and "straight i"
    and "\<And>m. P m \<Longrightarrow> \<exists>fg. exec i m = Some ((set_rg d v m)\<lparr>fl := fg\<rparr>)"
    and "\<And>m. P m \<Longrightarrow> holds s m" and "d \<noteq> 4" "d \<notin> scratch"
  shows "triple P (asm_do f) g (holds (set_reg d v s))"
proof (rule triple_insn [OF assms(1,2)])
  fix m assume "P m"
  with assms(3-6) show "\<exists>m'. exec i m = Some m' \<and> holds (set_reg d v s) m'" by fastforce
qed

lemma triple_arith:
  assumes dst: "reg_num dst = Inr d" "d \<noteq> 4" "d \<notin> scratch" and v: "core_bin opn (c_regs s d) b = Some v"
    and opn: "opn \<in> {''add'', ''sub'', ''and'', ''or'', ''xor'', ''mul''}"
  shows "triple (\<lambda>m. holds s m \<and> rg m 15 = b) (cpu_bin_op opn dst ''r15'' lit) g (holds (set_reg d v s))"
proof -
  let ?det = "deterministic (g_asm g)"
  note rr = rr_encode [of d 15 dst "''r15''" ?det, OF _ _ _ _ dst(1) reg_num_r15] and rn = reg_num_range [OF dst(1)]
  have "gives ?det (add_reg_reg dst ''r15'') [mr [] M1 0x01 d 15]" "gives ?det (sub_reg_reg dst ''r15'') [mr [] M1 0x29 d 15]"
    "gives ?det (and_reg_reg dst ''r15'') [mr [] M1 0x21 d 15]" "gives ?det (or_reg_reg dst ''r15'') [mr [] M1 0x09 d 15]"
    "gives ?det (xor_reg_reg dst ''r15'') [mr [] M1 0x31 d 15]" "gives ?det (imul_reg_reg dst ''r15'') [rm [] M0F 0xAF d 15]"
    using rr rn by (simp_all add: rr_table_def)
  note w = this [THEN triple_write, where P = "\<lambda>m. holds s m \<and> rg m 15 = b" and d = d and s = s]
  have d: "holds s m \<Longrightarrow> rg m d = c_regs s d" for m using holds_rg dst(2,3) by blast
  have e: "\<exists>fg. exec (mr [] M1 0x01 d 15) m = Some ((set_rg d (c_regs s d + b) m)\<lparr>fl := fg\<rparr>)"
    "\<exists>fg. exec (mr [] M1 0x29 d 15) m = Some ((set_rg d (c_regs s d - b) m)\<lparr>fl := fg\<rparr>)"
    "\<exists>fg. exec (mr [] M1 0x21 d 15) m = Some ((set_rg d (c_regs s d AND b) m)\<lparr>fl := fg\<rparr>)"
    "\<exists>fg. exec (mr [] M1 0x09 d 15) m = Some ((set_rg d (c_regs s d OR b) m)\<lparr>fl := fg\<rparr>)"
    "\<exists>fg. exec (mr [] M1 0x31 d 15) m = Some ((set_rg d (c_regs s d XOR b) m)\<lparr>fl := fg\<rparr>)"
    "\<exists>fg. exec (rm [] M0F 0xAF d 15) m = Some ((set_rg d (c_regs s d * b) m)\<lparr>fl := fg\<rparr>)"
    if "holds s m \<and> rg m 15 = b" for m
    using that d [of m] exec_arith [of d 15 m] exec_logic [of d 15 m] by auto
  note t = w(1) [OF _ e(1)] w(2) [OF _ e(2)] w(3) [OF _ e(3)] w(4) [OF _ e(4)] w(5) [OF _ e(5)] w(6) [OF _ e(6)]
  from opn show ?thesis
    using v by (elim insertE emptyE) (auto simp: cpu_bin_op_def core_bin_def t dst)
qed

subsection \<open>Shifts\<close>

text \<open>The digit of an operation in the shift group.\<close>

definition shift_digit :: "string \<Rightarrow> int" where
  "shift_digit opn = (if opn = ''shl'' \<or> opn = ''sal'' then 4 else if opn = ''shr'' then 5
     else if opn = ''sar'' then 7 else if opn = ''rol'' then 0 else 1)"

definition shift_ops :: "string set" where
  "shift_ops = {''shl'', ''sal'', ''shr'', ''sar'', ''rol'', ''ror''}"

lemma shift_value:
  "opn \<in> shift_ops \<Longrightarrow> core_bin opn a b = Some v \<Longrightarrow>
     shift (shift_digit opn) a (nat (uint b mod 64)) = Some v"
  unfolding shift_ops_def by (elim insertE emptyE) (auto simp: core_bin_def shift_digit_def shift_def)

lemma shift_gives:
  assumes "reg_num dst = Inr d" and "opn \<in> shift_ops"
  shows "gives det (invoke (CRI (opn @ ''_reg_imm8'') dst (v AND 63))) [grpi M1 0xC1 (shift_digit opn) d (v mod 64)]"
    and "gives det (invoke (CR (opn @ ''_reg_cl'') dst)) [grp [] M1 0xD3 (shift_digit opn) d]"
proof -
  note t = ri8_encode [where imm = "v AND 63" and det = det, OF _ _ assms(1)] r_encode [where det = det, OF _ _ assms(1)]
  show "gives det (invoke (CRI (opn @ ''_reg_imm8'') dst (v AND 63))) [grpi M1 0xC1 (shift_digit opn) d (v mod 64)]"
    using assms(2) reg_num_range [OF assms(1)] t(1) unfolding shift_ops_def and_63
    by (elim insertE emptyE)
      (simp_all add: lookup_method_def isa_ri_def shift_digit_def ri8_table_def)
  show "gives det (invoke (CR (opn @ ''_reg_cl'') dst)) [grp [] M1 0xD3 (shift_digit opn) d]"
    using assms(2) reg_num_range [OF assms(1)] t(2) unfolding shift_ops_def
    by (elim insertE emptyE)
      (simp_all add: lookup_method_def isa_r_def isa_r0_def shift_digit_def r_table_def)
qed

lemma exec_shift:
  "shift k (rg m d) (nat (n mod 64)) = Some v \<Longrightarrow>
     \<exists>fg. exec (grpi M1 0xC1 k d n) m = Some ((set_rg d v m)\<lparr>fl := fg\<rparr>)"
  "shift k (rg m d) (nat (uint (rg m 1) mod 64)) = Some v \<Longrightarrow>
     \<exists>fg. exec (grp [] M1 0xD3 k d) m = Some ((set_rg d v m)\<lparr>fl := fg\<rparr>)"
  by (auto simp: exec_def exec_rm_def grpi_def grp_def rex_insn_def shift_exec_def read_rm_def
      write_rm_def Let_def)

text \<open>Code between a push and the pop of the same register.\<close>

lemma triple_saved:
  assumes "reg_num r = Inr d" "d \<noteq> 4" "4 \<notin> S" and small: "8 * k + 8 < 2 ^ 64"
    and body: "triple (\<lambda>m. m = push64 (rg m0 d) m0) (seqE fs) g (\<lambda>m. keeps S k (push64 (rg m0 d) m0) m \<and> T m)"
    and post: "\<And>m m'. T m \<Longrightarrow> (\<And>q. q \<noteq> 4 \<Longrightarrow> rg m' q = (if q = d then rg m0 d else rg m q)) \<Longrightarrow>
      keeps (insert d S) (Suc k) m0 m' \<Longrightarrow> fl m' = fl m \<Longrightarrow> R m'"
  shows "triple (\<lambda>m. m = m0) (seqE (asm_do (push_reg r) # fs @ [asm_do (pop_reg r)])) g R"
proof -
  have push: "triple (\<lambda>m. m = m0) (asm_do (push_reg r)) g (\<lambda>m. m = push64 (rg m0 d) m0)"
    by (rule triple_push [OF assms(1)]) simp
  have "triple (\<lambda>m. m = push64 (rg m0 d) m0) (seqE (fs @ [asm_do (pop_reg r)])) g R"
  proof (rule triple_append [OF body], rule triple_Cons [OF triple_pop [OF assms(1)]])
    fix m assume m: "keeps S k (push64 (rg m0 d) m0) m \<and> T m"
    note pp = push_pop [OF refl conjunct1 [OF m] assms(3) small refl assms(2)]
    show "R (pop64 d m)"
      using m pp by (intro post [of m "pop64 d m"]) (simp_all add: pop64_def)
  qed (rule triple_Nil)
  with push show ?thesis by (rule triple_Cons)
qed

lemma reg_num_inject: "reg_num a = Inr n \<Longrightarrow> reg_num b = Inr n \<Longrightarrow> a = b"
proof -
  have d: "distinct (map snd REGISTERS)" by code_simp
  assume "reg_num a = Inr n" "reg_num b = Inr n"
  then have "(a, n) \<in> set REGISTERS" "(b, n) \<in> set REGISTERS"
    by (auto simp: reg_num_def dest: map_of_SomeD split: option.splits)
  then show "a = b" using d unfolding distinct_map inj_on_def by force
qed

lemma reg_num_samples: "reg_num ''rax'' = Inr 0" "reg_num ''rcx'' = Inr 1" "reg_num ''rdx'' = Inr 2"
  by code_simp+

text \<open>The instruction of a shift by \<open>cl\<close>.\<close>

lemma triple_cl:
  assumes "reg_num dst = Inr d" and "opn \<in> shift_ops" and "core_bin opn (rg m0 d) (rg m0 1) = Some v"
    and "\<And>fg. R ((set_rg d v m0)\<lparr>fl := fg\<rparr>)"
  shows "triple (\<lambda>m. m = m0) (asm_do (invoke (CR (opn @ ''_reg_cl'') dst))) g R"
proof (rule triple_insn [OF shift_gives(2) [OF assms(1,2)]])
  show "straight (grp [] M1 0xD3 (shift_digit opn) d)" by (simp add: grp_def)
  show "\<exists>m'. exec (grp [] M1 0xD3 (shift_digit opn) d) m = Some m' \<and> R m'" if "m = m0" for m
    using exec_shift(2) [OF shift_value [OF assms(2,3)]] assms(4) that by blast
qed

lemma triple_mov_at:
  assumes "reg_num r = Inr d" "reg_num r' = Inr s" and "triple (\<lambda>m. m = set_rg d (rg m0 s) m0) (seqE fs) g R"
  shows "triple (\<lambda>m. m = m0) (seqE (asm_do (mov_reg_reg r r') # fs)) g R"
  by (rule triple_Cons [OF triple_mov [OF assms(1,2)] assms(3)]) simp

lemma triple_single: "triple P f g R \<Longrightarrow> triple P (seqE [f]) g R"
  by simp

lemma triple_shift_cl:
  assumes dst: "reg_num dst = Inr d" "d \<noteq> 4" "d \<notin> scratch" and opn: "opn \<in> shift_ops"
    and v: "core_bin opn (c_regs s d) b = Some v" and m0: "holds s m0" "rg m0 15 = b" and room: "roomy 2 s"
  shows "triple (\<lambda>m. m = m0) (cpu_bin_op opn dst ''r15'' None) g (holds (set_reg d v s))"
proof -
  have a: "rg m0 d = c_regs s d" using holds_rg m0(1) dst(2,3) by blast
  have r: "roomy 1 s" using room by (simp add: roomy_def)
  note rn = reg_num_samples reg_num_r15
  show ?thesis
  proof (cases "dst = ''rcx''")
    case False
    then have d1: "d \<noteq> 1" using dst(1) reg_num_inject rn(2) by blast
    let ?m1 = "push64 (rg m0 1) m0" and ?fs = "[asm_do (mov_reg_reg ''rcx'' ''r15''), asm_do (invoke (CR (opn @ ''_reg_cl'') dst))]"
    have "triple (\<lambda>m. m = ?m1) (seqE ?fs) g
      (\<lambda>m. keeps {1, d} 0 ?m1 m \<and> (rg m d = v \<and> (\<forall>q. q \<noteq> 4 \<longrightarrow> q \<noteq> 1 \<longrightarrow> q \<noteq> d \<longrightarrow> rg m q = rg m0 q)))"
      using a m0(2) v d1 dst(2)
      by (intro triple_mov_at [OF rn(2,4)] triple_single triple_cl [OF dst(1) opn]) (simp_all add: push64_def keeps_def)
    then have "triple (\<lambda>m. m = m0) (seqE (asm_do (push_reg ''rcx'') # ?fs @ [asm_do (pop_reg ''rcx'')])) g (holds (set_reg d v s))"
      using dst(2) d1 m0(1) by (elim triple_saved [OF rn(2), rotated -2])
        (auto intro!: holds_changed [OF m0(1) _ _ r, where S = "{1, d}"] simp: holds_rg)
    then show ?thesis
      using False opn unfolding cpu_bin_op_def shift_ops_def by (elim insertE emptyE) simp_all
  next
    case True
    then have d1: "d = 1" using dst(1) rn(2) by simp
    let ?m1 = "push64 (rg m0 0) m0" and ?fs = "[asm_do (mov_reg_reg ''rax'' ''rcx''), asm_do (mov_reg_reg ''rcx'' ''r15''),
      asm_do (invoke (CR (opn @ ''_reg_cl'') ''rax'')), asm_do (mov_reg_reg ''rcx'' ''rax'')]"
    have "triple (\<lambda>m. m = ?m1) (seqE ?fs) g
      (\<lambda>m. keeps {0, 1} 0 ?m1 m \<and> (rg m 1 = v \<and> (\<forall>q. q \<noteq> 4 \<longrightarrow> q \<noteq> 0 \<longrightarrow> q \<noteq> 1 \<longrightarrow> rg m q = rg m0 q)))"
      using a m0(2) v d1
      by (intro triple_mov_at [OF rn(1,2)] triple_mov_at [OF rn(2,4)] triple_Cons [OF triple_cl [OF rn(1) opn]]
          triple_single triple_mov [OF rn(2,1)]) (auto simp: push64_def keeps_def)
    then have "triple (\<lambda>m. m = m0) (seqE (asm_do (push_reg ''rax'') # ?fs @ [asm_do (pop_reg ''rax'')])) g (holds (set_reg d v s))"
      using d1 m0(1) by (elim triple_saved [OF rn(1), rotated -2])
        (auto intro!: holds_changed [OF m0(1) _ _ r, where S = "{0, 1}"] simp: holds_rg)
    then show ?thesis
      using True opn unfolding cpu_bin_op_def shift_ops_def by (elim insertE emptyE) simp_all
  qed
qed

lemma triple_shift_imm:
  assumes dst: "reg_num dst = Inr d" "d \<noteq> 4" "d \<notin> scratch" and opn: "opn \<in> shift_ops"
    and v: "core_bin opn (c_regs s d) (word_of_int n) = Some v"
  shows "triple (holds s) (cpu_bin_op opn dst ''r15'' (Some n)) g (holds (set_reg d v s))"
proof -
  have n: "uint (word_of_int n :: 64 word) mod 64 = n mod 64"
    by (simp add: uint_word_of_int mod_mod_cancel)
  have "triple (holds s) (asm_do (invoke (CRI (opn @ ''_reg_imm8'') dst (n AND 63)))) g (holds (set_reg d v s))"
  proof (rule triple_write [OF shift_gives(1) [OF dst(1) opn] _ _ _ dst(2,3)])
    show "straight (grpi M1 0xC1 (shift_digit opn) d (n mod 64))" by (simp add: grpi_def)
    fix m assume "holds s m"
    then have "rg m d = c_regs s d" using holds_rg dst(2,3) by blast
    then show "\<exists>fg. exec (grpi M1 0xC1 (shift_digit opn) d (n mod 64)) m = Some ((set_rg d v m)\<lparr>fl := fg\<rparr>)"
      using shift_value [OF opn v] by (intro exec_shift(1)) (simp add: n)
  qed
  then show ?thesis
    using opn unfolding cpu_bin_op_def shift_ops_def by (elim insertE emptyE) simp_all
qed

subsection \<open>Division\<close>

lemma cqo_gives: "gives det cqo [rex_insn [] M1 0x99 0 None 0]"
  unfolding cqo_def
  by (rule gives_emits) (simp add: encodes_def decode_def is_legacy_def is_rex_def field_def decode_escape_def
      decode_tail_def read_le_def tmpl_defs)

lemma quot_sdiv: "quot a b = a sdiv b"
  by (simp add: quot_def signed_divide_int_def mult.assoc)

lemma sdiv_lower: "- (2 ^ 63) \<le> sint (a :: 64 word) sdiv k"
proof -
  have "\<bar>sint a\<bar> div \<bar>k\<bar> \<le> \<bar>sint a\<bar>" using zdiv_mono2 [of "\<bar>sint a\<bar>" 1 "\<bar>k\<bar>"] by (cases "k = 0") simp_all
  moreover have "\<bar>sgn x * sgn y * z\<bar> \<le> \<bar>z\<bar>" for x y z :: int by (auto simp: sgn_if)
  from this [of "sint a" k "\<bar>sint a\<bar> div \<bar>k\<bar>"] have "\<bar>sint a sdiv k\<bar> \<le> \<bar>\<bar>sint a\<bar> div \<bar>k\<bar>\<bar>"
    unfolding quot_sdiv [symmetric] quot_def .
  moreover have "0 \<le> \<bar>sint a\<bar> div \<bar>k\<bar>" by (simp add: div_int_pos_iff)
  ultimately have "\<bar>sint a sdiv k\<bar> \<le> \<bar>sint a\<bar>" by linarith
  moreover have "\<bar>sint a\<bar> \<le> 2 ^ 63" using sint_ge [of a] sint_lt [of a] by simp
  ultimately show ?thesis by simp
qed

lemma sint_cases: "sint (a :: 64 word) = uint a - (if sint a < 0 then 2 ^ 64 else 0)"
proof -
  have s: "sint a = (uint a + 2 ^ 63) mod 2 ^ 64 - 2 ^ 63"
    by (simp add: sint_uint signed_take_bit_eq_take_bit_shift take_bit_eq_mod)
  have u: "0 \<le> uint a" "uint a < 2 ^ 64" using uint_lt2p [of a] by simp_all
  show ?thesis
  proof (cases "uint a < 2 ^ 63")
    case True
    then have "(uint a + 2 ^ 63) mod 2 ^ 64 = uint a + 2 ^ 63" using u by (intro mod_pos_pos_trivial) simp_all
    with s u show ?thesis by simp
  next
    case False
    then have "(uint a - 2 ^ 63) mod 2 ^ 64 = uint a - 2 ^ 63" using u by (intro mod_pos_pos_trivial) simp_all
    moreover have "(uint a + 2 ^ 63) mod 2 ^ 64 = (uint a - 2 ^ 63 + 2 ^ 64) mod 2 ^ 64" by (simp add: add.commute)
    ultimately have "(uint a + 2 ^ 63) mod 2 ^ 64 = uint a - 2 ^ 63" by (simp only: mod_add_self2)
    with s u False show ?thesis by simp
  qed
qed

lemma idiv_core:
  assumes "core_div (rg m 0) b = Some (q, r)" and "rg m 2 = (if sint (rg m 0) < 0 then - 1 else 0)"
  shows "idiv_rax b m = Some (set_rg 2 r (set_rg 0 q m)\<lparr>fl := no_flags\<rparr>)"
proof -
  have "sint (rg m 2) * 2 ^ 64 + uint (rg m 0) = sint (rg m 0)"
  proof (cases "sint (rg m 0) < 0")
    case True
    then show ?thesis using sint_cases [of "rg m 0"] unfolding assms(2) if_P [OF True] by simp
  next
    case False
    then show ?thesis using sint_cases [of "rg m 0"] unfolding assms(2) if_not_P [OF False] by simp
  qed
  moreover have "\<not> sint (rg m 0) sdiv sint b < - (2 ^ 63)" using sdiv_lower [of "rg m 0" "sint b"] by simp
  ultimately show ?thesis
    using assms(1) unfolding idiv_rax_def core_div_def Let_def quot_sdiv by (auto split: if_splits)
qed

lemma exec_cqo: "exec (rex_insn [] M1 0x99 0 None 0) m = Some (set_rg 2 (if sint (rg m 0) < 0 then - 1 else 0) m)"
  by (simp add: exec_def exec_plain_def rex_insn_def Let_def)

lemma exec_idiv: "exec (grp [] M1 0xF7 7 s) m = idiv_rax (rg m s) m"
  by (simp add: exec_def exec_rm_def grp_def rex_insn_def group3_def read_rm_def Let_def)

text \<open>The code between the two saved registers.\<close>

lemma triple_divide:
  assumes dst: "reg_num dst = Inr d" and qr: "core_div (rg m0 d) (rg m0 15) = Some (q, r)"
    and opn: "opn \<in> {''div'', ''mod''}"
  shows "triple (\<lambda>m. m = m0) (seqE [asm_do (mov_reg_reg ''rax'' dst), asm_do cqo, asm_do (idiv_reg ''r15''),
      asm_do (mov_reg_reg ''r15'' (if opn = ''mod'' then ''rdx'' else ''rax''))]) g
    (\<lambda>m. keeps {0, 2, 15} 0 m0 m \<and> rg m 15 = (if opn = ''mod'' then r else q))"
proof -
  note rn = reg_num_samples reg_num_r15
  let ?det = "deterministic (g_asm g)"
  let ?m1 = "set_rg 0 (rg m0 d) m0"
  let ?m2 = "set_rg 2 (if sint (rg ?m1 0) < 0 then - 1 else 0) ?m1"
  let ?m3 = "set_rg 2 r (set_rg 0 q ?m2)\<lparr>fl := no_flags\<rparr>"
  have "gives ?det (idiv_reg ''r15'') [grp [] M1 0xF7 7 15]"
    using r_encode [of 15 "''r15''" ?det] rn(4) by (simp add: r_table_def)
  moreover have "straight (grp [] M1 0xF7 7 15)" by (simp add: grp_def)
  moreover have "idiv_rax (rg m0 15) ?m2 = Some ?m3" using qr by (intro idiv_core) simp_all
  then have "exec (grp [] M1 0xF7 7 15) ?m2 = Some ?m3" by (simp only: exec_idiv) simp
  ultimately have idiv: "triple (\<lambda>m. m = ?m2) (asm_do (idiv_reg ''r15'')) g (\<lambda>m. m = ?m3)"
    by (rule triple_at) (rule refl)
  have cqo: "triple (\<lambda>m. m = ?m1) (asm_do cqo) g (\<lambda>m. m = ?m2)"
    by (rule triple_at [OF cqo_gives _ exec_cqo]) (simp_all add: straight_def rex_insn_def)
  have "triple (\<lambda>m. m = ?m3) (asm_do (mov_reg_reg ''r15'' (if opn = ''mod'' then ''rdx'' else ''rax''))) g
      (\<lambda>m. keeps {0, 2, 15} 0 m0 m \<and> rg m 15 = (if opn = ''mod'' then r else q))"
    using opn by (cases "opn = ''mod''") (auto intro!: triple_mov [OF rn(4,3)] triple_mov [OF rn(4,1)] simp: keeps_def)
  from triple_mov_at [OF rn(1) dst triple_Cons [OF cqo triple_Cons [OF idiv triple_single [OF this]]]]
  show ?thesis .
qed

lemma triple_div:
  assumes dst: "reg_num dst = Inr d" "d \<noteq> 4" "d \<notin> scratch" and opn: "opn \<in> {''div'', ''mod''}"
    and v: "core_bin opn (c_regs s d) b = Some v" and m0: "holds s m0" "rg m0 15 = b" and room: "roomy 2 s"
  shows "triple (\<lambda>m. m = m0) (cpu_bin_op opn dst ''r15'' lit) g (holds (set_reg d v s))"
proof -
  note rn = reg_num_samples reg_num_r15
  obtain q r where qr: "core_div (c_regs s d) b = Some (q, r)" "v = (if opn = ''mod'' then r else q)"
    using v opn by (auto simp: core_bin_def)
  have a: "rg m0 d = c_regs s d" using holds_rg m0(1) dst(2,3) by blast
  have post: "holds s m'" if two: "rg m 2 = rg m0 2" and saved: "\<And>q. q \<noteq> 4 \<Longrightarrow> rg m' q = (if q = 0 then rg m0 0 else rg m q)"
    and kept: "keeps {0, 2, 15} (Suc 1) m0 m'" for m m'
  proof -
    have "rg m' q = c_regs s q" if "q \<noteq> 4" "q \<notin> scratch" for q
      using that two kept saved [of 0] saved [of 2] holds_rg [OF m0(1) that]
      by (cases "q = 0"; cases "q = 2") (auto simp: keeps_def scratch_def)
    moreover have "keeps {0, 2, 15} 2 m0 m'" using kept by (rule keeps_weaken) simp_all
    ultimately have "holds (s\<lparr>c_regs := c_regs s\<rparr>) m'" by (intro holds_changed [OF m0(1) _ _ room]) auto
    then show ?thesis by simp
  qed
  let ?p1 = "push64 (rg m0 0) m0" let ?p2 = "push64 (rg ?p1 2) ?p1"
  let ?fs = "[asm_do (mov_reg_reg ''rax'' dst), asm_do cqo, asm_do (idiv_reg ''r15''),
      asm_do (mov_reg_reg ''r15'' (if opn = ''mod'' then ''rdx'' else ''rax''))]"
  have "triple (\<lambda>m. m = ?p2) (seqE ?fs) g (\<lambda>m. keeps {0, 2, 15} 0 ?p2 m \<and> rg m 15 = v)"
    using qr a m0(2) dst(2) by (intro triple_weaken [OF triple_divide [OF dst(1) _ opn]]) (simp_all add: push64_def)
  then have "triple (\<lambda>m. m = ?p1) (seqE (asm_do (push_reg ''rdx'') # ?fs @ [asm_do (pop_reg ''rdx'')])) g
      (\<lambda>m. keeps {0, 2, 15} 1 ?p1 m \<and> (rg m 15 = v \<and> rg m 2 = rg m0 2))"
    by (elim triple_saved [OF rn(3), rotated -2]) (auto simp: insert_commute push64_def)
  then have "triple (\<lambda>m. m = m0) (seqE (asm_do (push_reg ''rax'') # (asm_do (push_reg ''rdx'') # ?fs @ [asm_do (pop_reg ''rdx'')]) @
      [asm_do (pop_reg ''rax'')])) g (\<lambda>m. rg m 15 = v \<and> holds s m)"
    using m0(1) by (elim triple_saved [OF rn(1), rotated -2])
      (auto intro: post simp: insert_commute)
  from triple_append [OF this triple_single [OF triple_mov [OF dst(1) rn(4)]]]
  have "triple (\<lambda>m. m = m0) (seqE ((asm_do (push_reg ''rax'') # (asm_do (push_reg ''rdx'') # ?fs @ [asm_do (pop_reg ''rdx'')]) @
      [asm_do (pop_reg ''rax'')]) @ [asm_do (mov_reg_reg dst ''r15'')])) g (holds (set_reg d v s))"
    using dst(2,3) by auto
  then show ?thesis
    using opn unfolding cpu_bin_op_def by (elim insertE emptyE) simp_all
qed

subsection \<open>All operations\<close>

text \<open>Every binary operation of the core but \<open>set\<close>.\<close>

lemma core_bin_cases:
  assumes "core_bin opn a b = Some v" and "opn \<noteq> ''set''"
  shows "opn \<in> {''add'', ''sub'', ''and'', ''or'', ''xor'', ''mul''} \<or> opn \<in> shift_ops \<or>
    opn \<in> {''div'', ''mod''}"
proof (rule ccontr)
  assume "\<not> ?thesis"
  then have "core_bin opn a b = None"
    unfolding core_bin_def Let_def shift_ops_def de_Morgan_disj insert_iff empty_iff
    using assms(2) by (elim conjE) (simp only: if_False simp_thms)
  then show False using assms(1) by simp
qed

lemma triple_bin_op:
  assumes dst: "reg_num dst = Inr d" "d \<noteq> 4" "d \<notin> scratch" and v: "core_bin opn (c_regs s d) b = Some v"
    and opn: "opn \<noteq> ''set''" and room: "roomy 2 s" and lit: "\<And>n. lit = Some n \<Longrightarrow> b = word_of_int n"
  shows "triple (\<lambda>m. holds s m \<and> rg m 15 = b) (cpu_bin_op opn dst ''r15'' lit) g (holds (set_reg d v s))"
proof -
  obtain m :: mach where m: "holds s m \<and> rg m 15 = b"
    by (rule that [of "undefined\<lparr>rg := (c_regs s)(15 := b, 4 := c_sp s), mem := c_mem s\<rparr>"])
      (simp add: holds_def scratch_def)
  note all = triple_all [of "\<lambda>m. holds s m \<and> rg m 15 = b" _ g _ m, OF _ m]
  from core_bin_cases [OF v opn]
  consider "opn \<in> {''add'', ''sub'', ''and'', ''or'', ''xor'', ''mul''}" | "opn \<in> shift_ops" | "opn \<in> {''div'', ''mod''}"
    by (elim disjE)
  then show ?thesis
  proof cases
    case 1
    with dst v show ?thesis by (rule triple_arith)
  next
    case 2
    show ?thesis
    proof (cases lit)
      case None
      then show ?thesis using triple_shift_cl [where s = s, OF dst 2 v _ _ room] by (intro all) simp
    next
      case (Some n)
      then have "core_bin opn (c_regs s d) (word_of_int n) = Some v" using v lit by simp
      from triple_shift_imm [where s = s, OF dst 2 this] show ?thesis unfolding Some by (rule triple_weaken) simp_all
    qed
  next
    case 3
    show ?thesis using triple_div [where s = s, OF dst 3 v _ _ room] by (intro all) simp
  qed
qed

lemma triple_un:
  assumes p: "reg_num p = Inr r" "r \<noteq> 4" "r \<notin> scratch" and v: "core_un opn (c_regs s r) = Some v"
  shows "triple (holds s) (cpu_unary_op opn p) g (holds (set_reg r v s))"
proof -
  let ?det = "deterministic (g_asm g)"
  have "gives ?det (not_reg p) [grp [] M1 0xF7 2 r]" "gives ?det (neg_reg p) [grp [] M1 0xF7 3 r]"
    "gives ?det (inc_reg p) [grp [] M1 0xFF 0 r]" "gives ?det (dec_reg p) [grp [] M1 0xFF 1 r]"
    using r_encode [of r p ?det] reg_num_range [OF p(1)] p(1) by (simp_all add: r_table_def)
  note w = this [THEN triple_write, where P = "holds s" and d = r and s = s]
  have st: "straight (grp [] M1 k n r)" for k n by (simp add: grp_def)
  have e: "\<exists>fg. exec (grp [] M1 0xF7 2 r) m = Some ((set_rg r (NOT (c_regs s r)) m)\<lparr>fl := fg\<rparr>)"
    "\<exists>fg. exec (grp [] M1 0xF7 3 r) m = Some ((set_rg r (- c_regs s r) m)\<lparr>fl := fg\<rparr>)"
    "\<exists>fg. exec (grp [] M1 0xFF 0 r) m = Some ((set_rg r (c_regs s r + 1) m)\<lparr>fl := fg\<rparr>)"
    "\<exists>fg. exec (grp [] M1 0xFF 1 r) m = Some ((set_rg r (c_regs s r - 1) m)\<lparr>fl := fg\<rparr>)"
    if "holds s m" for m
    using exec_one [of r m] holds_rg [OF that p(2,3)] by (auto intro: exI [of _ "fl m"])
  note t = w(1) [OF st e(1) _ p(2,3)] w(2) [OF st e(2) _ p(2,3)] w(3) [OF st e(3) _ p(2,3)] w(4) [OF st e(4) _ p(2,3)]
  have "opn = ''not'' \<or> opn = ''neg'' \<or> opn = ''inc'' \<or> opn = ''dec''"
    using v by (auto simp: core_un_def split: if_splits)
  then show ?thesis
    using v by (elim disjE) (auto simp: cpu_unary_op_def core_un_def t)
qed

end
