(* ===== verification/Emitters.thy ===== *)
theory Emitters
  imports Codegen
begin

section \<open>Properties of every emitter\<close>

text \<open>
  The emitters of the code generator are built from a handful of operations: a call of the
  assembler, a label, a fresh name, data reserved on first use, a choice on a field of the state.
  The locale \<open>emitter_property\<close> says what a property of emitters needs for these, and proves it of
  each of the emitters; \<open>statement_property\<close> adds what the teaching map needs and covers
  statements. Both are interpreted where a property is stated.
\<close>

subsection \<open>The state without the listing\<close>

definition plain :: "gen \<Rightarrow> gen" where
  "plain g = g\<lparr>g_listing := no_listing\<rparr>"

text \<open>A value read from the state that is not about the listing.\<close>

definition reads_plain :: "(gen \<Rightarrow> 'a) \<Rightarrow> bool" where
  "reads_plain t \<longleftrightarrow> (\<forall>g. t (plain g) = t g)"

lemma resolve_offset_plain: "resolve_offset e (plain g) = resolve_offset e g"
  by (induction e) (simp_all add: field_offset_def plain_def)

lemma state_reads:
  "reads_plain (\<lambda>g. x)" "reads_plain (\<lambda>g. map_of (fn_args g) n)"
  "reads_plain (\<lambda>g. map_of (fn_locals g) n)" "reads_plain (\<lambda>g. map_of (data_layout g) n)"
  "reads_plain (\<lambda>g. map_of (structs g) n)" "reads_plain (\<lambda>g. map_of (data_layout g) n \<noteq> None)"
  "reads_plain (const_value n)" "reads_plain (field_offset s f)" "reads_plain (resolve_offset e)"
  "reads_plain in_fn" "reads_plain baremetal"
  by (simp_all add: reads_plain_def resolve_offset_plain) (simp_all add: plain_def const_value_def [abs_def] field_offset_def [abs_def])

subsection \<open>Labels that are no data names\<close>

lemma not_data_label: "\<not> starts_data (''__lbl_'' @ l)" "\<not> starts_data (''__aclm_'' @ l)"
  by (simp_all add: starts_data_def)

lemma fresh_not_data: "\<not> starts_data (fresh_name p i)"
  unfolding fresh_name_def by (rule not_data_label)

lemma fixed_labels:
  "\<not> starts_data (''__lbl_'' @ l)"
  "\<not> starts_data ''__isr_default''" "\<not> starts_data ''__idt_after_handler''"
  "\<not> starts_data ''__irq0_stub''" "\<not> starts_data ''__after_irq0''"
  "\<not> starts_data ''__pf_stub''" "\<not> starts_data ''__after_pf''"
  "\<not> starts_data ''__syscall_entry''" "\<not> starts_data ''__after_sysentry''"
  "\<not> starts_data ''__irq0_full''" "\<not> starts_data ''__after_irq0_full''"
  "\<not> starts_data ''__nosys''" "\<not> starts_data ''__after_nosys''"
  "\<not> starts_data ''__syscall_dispatch''" "\<not> starts_data ''__after_sysdispatch''"
  "\<not> starts_data ''__nmi_stub''" "\<not> starts_data ''__after_nmi''"
  by (simp_all add: starts_data_def)

subsection \<open>Calls of the assembler by name\<close>

lemma invoke_reg_cl: "quiet_op (invoke (CR (opn @ ''_reg_cl'') r))"
proof (rule quiet.one_reg_rule)
  show "opn @ ''_reg_cl'' \<noteq> ''label''" by (rule notI, drule arg_cong [where f = rev]) simp
qed

lemma invoke_reg: "quiet_op (invoke (CR (opn @ ''_reg'') r))"
proof (rule quiet.one_reg_rule)
  show "opn @ ''_reg'' \<noteq> ''label''" by (rule notI, drule arg_cong [where f = rev]) simp
qed

lemma quiet_invokes:
  "quiet_op (invoke (C0 n))" "quiet_op (invoke (CRR n a b))" "quiet_op (invoke (CRI n a i))"
  "quiet_op (invoke (CV n a b c))" "quiet_op (enter_imm i j)" "quiet_op (raw_bytes bs)"
  by (rule quiet.invoke_rule, simp)+
    (use quiet.invoke_rule [of "CEnter i j"] quiet.invoke_rule [of "CRaw bs"] in simp_all)

lemmas quiet_all = quiet_methods quiet_invokes invoke_reg_cl invoke_reg

subsection \<open>The interface\<close>

named_theorems emitting "an emitter has the property"

locale emitter_property =
  fixes P :: "cg \<Rightarrow> bool"
  assumes asm: "quiet_op m \<Longrightarrow> P (asm_do m)"
    and place: "\<not> starts_data l \<Longrightarrow> P (place l)"
    and fresh: "(\<And>i. P (k (fresh_name p i))) \<Longrightarrow> P (new_label p k)"
    and fail: "P (cg_fail e)"
    and fold: "list_all P fs \<Longrightarrow> P (seqE fs)"
    and read: "(\<And>h. P (r h)) \<Longrightarrow> P (\<lambda>g. r (plain g) g)"
    and reserve: "P (reserve n bs)" "P (reserve_slots n sz ''__dmaring_slots'' v)"
    and once: "P f \<Longrightarrow> P (once n f)"
    and fields: "P (set_locals ls)" "P (enter_fn args)" "P leave_fn" "P (note_line ln)"
      "P (note_assert_bytes nm limit opn)" "P (note_assert_size what limit)" "P set_baremetal"
      "P set_deterministic" "P (note_section nm addr)"
begin

lemma skip: "P skip" "P Inr"
proof -
  have s: "seqE [] = (Inr :: cg)" by (rule ext) simp
  show "P Inr" using fold [of "[]"] unfolding s by simp
  then show "P skip" by (simp add: skip_def [abs_def])
qed

lemma fails: "P (\<lambda>g. Inl e)"
  using fail [of e] by (simp add: cg_fail_def [abs_def])

lemma with_res: "(\<And>r. P (k r)) \<Longrightarrow> P (with_res n k)"
proof -
  assume k: "\<And>r. P (k r)"
  have "with_res n k = (case resolve n of Inl e \<Rightarrow> cg_fail e | Inr r \<Rightarrow> k r)"
    by (rule ext) (simp add: with_res_def cg_fail_def split: sum.split)
  then show ?thesis using fail k by (simp split: sum.split)
qed

lemma choice: "P f \<Longrightarrow> P g \<Longrightarrow> P (if b then f else g)"
  by simp

lemma choice_app: "reads_plain b \<Longrightarrow> P f \<Longrightarrow> P g \<Longrightarrow> P (\<lambda>s. if b s then f s else g s)"
  using read [of "\<lambda>h. if b h then f else g"] by (simp add: reads_plain_def if_distribR)

lemma option: "P f \<Longrightarrow> (\<And>x. P (g x)) \<Longrightarrow> P (case t of None \<Rightarrow> f | Some x \<Rightarrow> g x)"
  by (cases t) auto

lemma option_app:
  assumes "reads_plain t" "P f" "\<And>x. P (g x)"
  shows "P (\<lambda>s. case t s of None \<Rightarrow> f s | Some x \<Rightarrow> g x s)"
proof -
  have "(\<lambda>s. case t s of None \<Rightarrow> f s | Some x \<Rightarrow> g x s) = (\<lambda>s. (case t s of None \<Rightarrow> f | Some x \<Rightarrow> g x) s)"
    by (rule ext) (simp split: option.split)
  moreover have "P (case t h of None \<Rightarrow> f | Some x \<Rightarrow> g x)" for h using assms by (intro option)
  ultimately show ?thesis
    using read [of "\<lambda>h. case t h of None \<Rightarrow> f | Some x \<Rightarrow> g x"] assms(1) by (simp add: reads_plain_def)
qed

lemma pair: "(\<And>x y. P (f x y)) \<Longrightarrow> P (case p of (x, y) \<Rightarrow> f x y)"
  by (cases p) auto

lemma local: "(\<And>x. P (f x)) \<Longrightarrow> P (Let t f)"
  by (simp add: Let_def)

lemma read_res:
  assumes "reads_plain t" "\<And>x. P (f x)"
  shows "P (\<lambda>s. bindE (t s) (\<lambda>x. f x s))"
proof -
  have "(\<lambda>s. bindE (t s) (\<lambda>x. f x s)) = (\<lambda>s. (case t s of Inl e \<Rightarrow> cg_fail e | Inr x \<Rightarrow> f x) s)"
    by (rule ext) (simp add: cg_fail_def split: sum.split)
  then show ?thesis
    using read [of "\<lambda>h. case t h of Inl e \<Rightarrow> cg_fail e | Inr x \<Rightarrow> f x"] assms fail
    by (simp add: reads_plain_def split: sum.split)
qed

lemma when_data: "P f \<Longrightarrow> P (when_data n f)"
  unfolding when_data_def [abs_def] by (intro choice_app state_reads skip)

lemma lists: "list_all P []" "P f \<Longrightarrow> list_all P fs \<Longrightarrow> list_all P (f # fs)"
  "(\<And>x. P (h x)) \<Longrightarrow> list_all P (map h xs)" "P f \<Longrightarrow> list_all P (replicate n f)"
  by (auto simp: list_all_iff)

lemmas rules =
  asm place fresh with_res skip fail fails reserve when_data once fold lists choice choice_app
  option option_app pair local read_res fields

lemmas sides = quiet_all fresh_not_data fixed_labels not_False_eq_True state_reads

lemma eval_ident_emit [emitting]: "P (eval_ident n d)"
  unfolding eval_ident_def [abs_def] by (intro rules emitting; simp only: sides)

lemma combine_op_emit [emitting]: "P (combine_op opn)"
  unfolding combine_op_def by (intro rules emitting; simp only: sides)

lemma eval_expr_emit [emitting]: "P (eval_expr e d)"
proof (induction e arbitrary: d)
  case (BinExpr opn l r)
  show ?case unfolding eval_expr.simps
    by (intro rules emitting BinExpr; simp only: sides)
qed (simp_all only: eval_expr.simps; intro rules emitting; simp only: sides)+

lemma base_emit [emitting]:
  "(\<And>b. P (k b)) \<Longrightarrow> P (base_reg e k)"
  "(\<And>b. P (k b)) \<Longrightarrow> P (base_phys e k)"
  unfolding base_reg_def base_phys_def
  by (cases e; simp only: expr.case; intro rules emitting; simp only: sides)+

lemma with_index_emit [emitting]: "(\<And>b. P (k b)) \<Longrightarrow> P (with_index ix k)"
proof (cases ix)
  case (Some e)
  assume "\<And>b. P (k b)"
  with Some show ?thesis
    unfolding with_index_def by (cases e; simp only: expr.case option.case) (intro rules emitting; simp)+
qed (simp add: with_index_def)

lemma with_offset_emit [emitting]: "(\<And>b. P (k b)) \<Longrightarrow> P (with_offset e k)"
  unfolding with_offset_def [abs_def] by (intro rules emitting; simp only: sides)

lemma cpu_ops_emit [emitting]:
  "P (cpu_bin_op opn d v lit)" "P (cpu_unary_op opn d)"
  "P (load_sized sz d b off ix sc)" "P (store_sized sz b off d ix sc)"
  unfolding cpu_bin_op_def cpu_unary_op_def load_sized_def store_sized_def
  by (intro rules emitting; simp only: sides)+

lemma memory_emit [emitting]:
  "P (cpu_bin opn dest val)" "P (cpu_unary opn dest)"
  "P (mem_load dest bas offset sz idx scale)"
  "P (mem_store bas offset val sz idx scale)"
  unfolding cpu_bin_def [abs_def] cpu_unary_def [abs_def] mem_load_def mem_store_def
  by (intro rules emitting; simp only: sides)+

lemma calls_emit [emitting]:
  "P (push_args t es)" "P (pop_args rs n)" "P (syscall_stmt nu es)"
  "P (call_stmt lab es)"
proof -
  show 1: "P (push_args t es)" for t es
    unfolding push_args_def by (intro rules emitting; simp only: sides)
  show 2: "P (pop_args rs n)" for rs n
    unfolding pop_args_def by (intro rules emitting; simp only: sides)
  show "P (syscall_stmt nu es)" "P (call_stmt lab es)"
    unfolding syscall_stmt_def [abs_def] call_stmt_def
    by (intro rules emitting 1 2; simp only: sides)+
qed

lemma choices_emit [emitting]:
  "P (gate_cas a b c)" "P (gate_spin a)" "P (cpu_movext opn d src sz)"
  "P (cpu_lea d bas idx scale off)" "P (sig_action e h)"
proof -
  show "P (cpu_movext opn d src sz)"
    unfolding cpu_movext_def by (cases src; simp only: expr.case; intro rules emitting; simp only: sides)
qed (unfold cpu_lea_def gate_cas_def gate_spin_def sig_action_def,
    (intro rules emitting; simp only: sides)+)

lemmas straight_defs =
  blast_fill_def blast_copy_def wire_len_def wire_cmp_def wire_copy_def wire_emit_def
  cell_mapfile_def net_poll_def net_epoll_create_def net_epoll_ctl_def net_epoll_wait_def
  cell_map_def cell_free_def pulse_sleep_def pulse_now_def vec_load_def vec_store_def
  cpu_test_def thread_spawn_def thread_join_def thread_join_all_def thread_exit_def
  blast_rep_fill_def blast_rep_copy_def net_socket_def net_connect_def net_send_def net_recv_def
  net_close_def cell_protect_def kbd_poll_def pit_init_def serial_init_def serial_putc_def

lemma straight_emit [emitting]:
  "P (blast_fill s1 e1 e2)" "P (blast_copy s1 e1 e2)"
  "P (wire_len s1 e1)" "P (wire_cmp s1 e1 e2)" "P (wire_copy e1 e2)"
  "P (wire_emit e1 x1)" "P (cell_mapfile s1 e1 e2 x1 x2)"
  "P (net_poll e1 e2 e3)" "P (net_epoll_create s1 x1)"
  "P (net_epoll_ctl e1 e2 e3 e4)" "P (net_epoll_wait s1 e1 e2 e3 e4)"
  "P (cell_map s1 e1 x1 x2)" "P (cell_free e1 e2)"
  "P (pulse_sleep e1)" "P (pulse_now s1)" "P (vec_load s1 e1 i1)"
  "P (vec_store e1 i1 s1)" "P (cpu_test e1 e2)"
  "P (thread_spawn s1 s2)" "P (thread_join x1)" "P thread_join_all"
  "P (thread_exit x1)" "P (blast_rep_fill s1 e1 e2)"
  "P (blast_rep_copy s1 e1 e2)" "P (net_socket s1 e1 e2 e3)"
  "P (net_connect e1 e2 e3)" "P (net_send e1 e2 e3)"
  "P (net_recv e1 e2 e3)" "P (net_close e1)"
  "P (cell_protect e1 e2 e3)" "P (kbd_poll s1)" "P (pit_init i1)"
  "P serial_init" "P (serial_putc e1)"
  unfolding straight_defs by ((intro rules emitting; simp only: sides)+)

subsection \<open>The kernel statements\<close>

lemma ctx_emit [emitting]: "P (kernel_ctx_save d)" "P (kernel_ctx_load s)"
  unfolding kernel_ctx_save_def kernel_ctx_load_def
  by (intro rules emitting; simp only: sides)+

lemmas kernel_defs =
  kernel_coop_switch_def pic_remap_def kernel_heap_init_def kernel_heap_alloc_def
  kernel_idt_install_def kernel_printk_str_def kernel_panic_def kernel_tick_install_def
  kernel_tick_read_def kernel_ramfs_init_def kernel_ramfs_put_def kernel_ramfs_get_def
  kernel_net_init_def kernel_net_poll_def kernel_cs_ring_def kernel_enter_user_def
  kernel_pf_install_def kernel_net_allow_def kernel_net_check_def kernel_preempt_arm_def
  kernel_syscall_init_def kernel_nic_bar_def kernel_nic_read_def kernel_nic_write_def
  kernel_irq_full_save_on_def kernel_syscall_table_init_def kernel_syscall_register_def
  kernel_nmi_install_def kernel_dma_ring_init_def kernel_dma_ring_push_def
  kernel_dma_ring_pop_def

lemma kernel_emit [emitting]:
  "P (kernel_coop_switch s1 s2)" "P pic_remap"
  "P (kernel_heap_init i1)" "P (kernel_heap_alloc s1 e1)"
  "P kernel_idt_install" "P (kernel_printk_str e1)" "P kernel_panic"
  "P kernel_tick_install" "P (kernel_tick_read s1)"
  "P kernel_ramfs_init" "P (kernel_ramfs_put e1 e2 e3)"
  "P (kernel_ramfs_get s1 e1)" "P kernel_net_init"
  "P (kernel_net_poll s1)" "P (kernel_cs_ring s1)"
  "P (kernel_enter_user e1 e2)" "P kernel_pf_install"
  "P (kernel_net_allow i1)" "P (kernel_net_check s1 e1)"
  "P (kernel_preempt_arm s1)" "P kernel_syscall_init"
  "P (kernel_nic_bar e1)" "P (kernel_nic_read s1 e1)"
  "P (kernel_nic_write e1 e2)" "P kernel_irq_full_save_on"
  "P kernel_syscall_table_init" "P (kernel_syscall_register i1 s1)"
  "P kernel_nmi_install" "P (kernel_dma_ring_init i1)"
  "P (kernel_dma_ring_push e1 e2)" "P (kernel_dma_ring_pop s1 s2)"
  unfolding kernel_defs by ((intro rules emitting; simp only: sides)+)

subsection \<open>Statements and functions\<close>

lemma fn_emit [emitting]:
  "P fn_epilogue" "P ret_stmt" "P (gate_fence k)" "P (chip_id e a b c d)"
proof -
  show 1: "P fn_epilogue"
    unfolding fn_epilogue_def by (intro rules emitting; simp only: sides)
  show "P ret_stmt"
    unfolding ret_stmt_def [abs_def] by (intro rules emitting 1; simp only: sides)
  show "P (gate_fence k)" "P (chip_id e a b c d)"
    unfolding gate_fence_def chip_id_def by (intro rules emitting; simp only: sides)+
qed

lemma prologue_emit [emitting]: "P (fn_prologue ls)"
  unfolding fn_prologue_def by (intro rules emitting; simp only: sides)

lemma emit_fn_emit: "P body \<Longrightarrow> P (emit_fn n args body ls)"
  unfolding emit_fn_def by (intro rules emitting; simp only: sides)

lemma groups_emit [emitting]:
  "P (emit_run r)" "P (emit_net n)" "P (emit_chip c)"
  "P (emit_cpu u)" "P (emit_alu a)" "P (emit_kernel k)"
proof -
  show "P (emit_run r)"
    by (cases r; simp only: emit_run.simps; intro rules emitting; simp only: sides)
  show "P (emit_net n)"
    by (cases n; simp only: emit_net.simps; intro rules emitting; simp only: sides)
  show "P (emit_chip c)"
    by (cases c; simp only: emit_chip.simps; intro rules emitting; simp only: sides)
  show "P (emit_cpu u)"
    by (cases u; simp only: emit_cpu.simps; intro rules emitting; simp only: sides)
  show "P (emit_alu a)"
    by (cases a; simp only: emit_alu.simps; intro rules emitting; simp only: sides)
  show "P (emit_kernel k)"
    by (cases k; simp only: emit_kernel.simps; intro rules emitting; simp only: sides)
qed

lemma emit_node_emit [emitting]: "P (emit_node s)"
  by (cases s; simp only: emit_node.simps; intro rules emitting;
    simp only: sides)

lemma default_exit_emit [emitting]: "P default_exit"
  unfolding default_exit_def by (intro rules emitting; simp only: sides)

end

subsection \<open>Statements\<close>

locale statement_property = emitter_property +
  assumes teach: "P (note_teach ln hint)"
begin

lemma emit_emit [emitting]: "P (emit s)"
proof (induction s rule: emit.induct)
  case (1 ln nm ars bdy lcls)
  have "list_all P (map emit bdy)" using 1 by (simp add: list_all_iff)
  then have "P (emit_fn nm ars (seqE (map emit bdy)) lcls)"
    by (intro emit_fn_emit fold)
  then show ?case
    unfolding emit.simps by (intro rules teach)
qed (simp only: emit.simps; intro rules teach emitting)+

lemma emits: "P (seqE (map emit ss))"
  by (intro rules emitting)

end

subsection \<open>The passes before the code\<close>

text \<open>A relation between states that the updates of the data and structure passes stay within.\<close>

locale pass_property = state_preorder R for R :: "gen \<Rightarrow> gen \<Rightarrow> bool" +
  assumes data: "R g (g\<lparr>data_bytes := bs\<rparr>)" "R g (g\<lparr>string_lens := sl\<rparr>)"
      "R g (g\<lparr>data_consts := dc\<rparr>)" "R g (g\<lparr>structs := ss\<rparr>)"
    and layout: "R g (g\<lparr>data_layout := AList.update n off (data_layout g)\<rparr>)"
begin

lemma add: "R g h \<Longrightarrow> R g (add_data n off bs h)"
  unfolding add_data_def by (rule trans, assumption, rule trans, rule layout) (use data(1) in fastforce)

lemma one: "collect_one s (off, g) = Inr (off', g') \<Longrightarrow> R g g'"
  by (cases "(s, (off, g))" rule: collect_one.cases)
    (auto simp: bindE_Inr_iff Let_def refl intro!: add data split: if_splits)

lemma collect: "within R (collect_data stmts)"
proof (rule withinI)
  fix g g'
  assume "collect_data stmts g = Inr g'"
  then obtain off where s: "seqE (map (\<lambda>(ln, s). collect_one s) stmts) (0, g) = Inr (off, g')"
    by (auto simp: collect_data_def bindE_Inr_iff)
  have "R g (snd (off, g'))"
    by (rule seqE_invariant [OF _ _ s, where P = "\<lambda>x. R g (snd x)"])
      (auto dest!: one intro: trans simp: refl)
  then show "R g g'" by simp
qed

lemma passes:
  "within R (\<lambda>g. Inr (g\<lparr>structs := collect_structs stmts (structs g)\<rparr>))"
  "within R (collect_data stmts)" "within R (append_runtime n k)"
  by (simp_all add: collect) (auto simp: within_def append_runtime_def data intro: add refl)

end

end
