(* ===== verification/Codegen_Invariant.thy ===== *)
theory Codegen_Invariant
  imports Emitters
begin

section \<open>What every emitter keeps\<close>

text \<open>
  The relation between the state of the code generator before and after any statement
  (\<open>gen_step\<close>): the assembler moves by a good step, the data only grows, existing data names keep
  their offsets, fresh labels are counted up, and no code label takes the form of a data label.
  Every emitter stays within it (\<open>emits_code\<close>); so does every statement and every program.
\<close>

subsection \<open>The relation\<close>

definition gen_ok :: "gen \<Rightarrow> bool" where
  "gen_ok g \<longleftrightarrow>
     wf_asm (g_asm g) \<and> list_all (\<lambda>(l, p). \<not> starts_data l) (labels (g_asm g)) \<and>
     distinct (map fst (data_layout g))"

text \<open>Names the program defines do not start with two underscores.\<close>

definition internal :: "string \<Rightarrow> bool" where
  "internal n \<longleftrightarrow> take 2 n = ''__''"

definition keeps_data :: "(string \<times> int) list \<Rightarrow> (string \<times> int) list \<Rightarrow> bool" where
  "keeps_data dl dl' \<longleftrightarrow>
     (\<forall>n. \<not> internal n \<longrightarrow> map_of dl n \<noteq> None \<longrightarrow> map_of dl' n = map_of dl n)"

lemma keeps_data_refl [simp]: "keeps_data dl dl"
  by (simp add: keeps_data_def)

lemma keeps_data_trans: "keeps_data a b \<Longrightarrow> keeps_data b c \<Longrightarrow> keeps_data a c"
  by (simp add: keeps_data_def)

lemma keeps_data_update: "map_of dl n = None \<or> internal n \<Longrightarrow> keeps_data dl (AList.update n v dl)"
  by (auto simp: keeps_data_def update_conv')

definition gen_step :: "gen \<Rightarrow> gen \<Rightarrow> bool" where
  "gen_step g g' \<longleftrightarrow>
     appends (g_asm g) (g_asm g') \<and> (\<exists>bs. data_bytes g' = data_bytes g @ bs) \<and>
     keeps_data (data_layout g) (data_layout g') \<and>
     label_i g \<le> label_i g' \<and> use_wx g' = use_wx g \<and> debug_dwarf g' = debug_dwarf g \<and>
     (gen_ok g \<longrightarrow> gen_ok g')"

abbreviation emits_code :: "cg \<Rightarrow> bool" where
  "emits_code \<equiv> within gen_step"

lemma gen_step_trans:
  assumes "gen_step g h" "gen_step h k"
  shows "gen_step g k"
proof -
  have "appends (g_asm g) (g_asm k)"
    using assms appends_trans unfolding gen_step_def by blast
  moreover have "keeps_data (data_layout g) (data_layout k)"
    using assms keeps_data_trans unfolding gen_step_def by blast
  ultimately show ?thesis using assms unfolding gen_step_def by auto
qed

interpretation step: state_preorder gen_step
  by unfold_locales (simp add: gen_step_def, rule gen_step_trans)

subsection \<open>Emitters and statements\<close>

lemma asm_do_emit: "quiet_op f \<Longrightarrow> emits_code (asm_do f)"
  by (auto simp: within_def asm_quiet_def asm_step_def asm_do_def bindE_Inr_iff gen_step_def gen_ok_def)

lemma place_emit:
  assumes "\<not> starts_data l"
  shows "emits_code (place l)"
proof (rule withinI)
  fix g g'
  assume "place l g = Inr g'"
  then obtain a where a: "label_at l (g_asm g) = Inr a" and g': "g' = g\<lparr>g_asm := a\<rparr>"
    by (auto simp: place_def asm_do_def bindE_Inr_iff)
  have "labels a = labels (g_asm g) @ [(l, length (code (g_asm g)))]"
    using a by (auto simp: label_at_def split: if_splits)
  then show "gen_step g g'"
    using withinD [OF good_label a] assms by (simp add: g' gen_step_def asm_step_def gen_ok_def)
qed

lemma new_label_emit:
  assumes "\<And>i. emits_code (k (fresh_name p i))"
  shows "emits_code (new_label p k)"
proof (rule withinI)
  fix g g'
  assume "new_label p k g = Inr g'"
  then have "gen_step (g\<lparr>label_i := label_i g + 1\<rparr>) g'"
    using assms by (simp add: new_label_def Let_def within_def)
  then show "gen_step g g'" by (auto simp: gen_step_def gen_ok_def)
qed

lemma reserve_emit: "emits_code (reserve n bs)" "emits_code (reserve_slots n sz ''__dmaring_slots'' v)"
proof -
  have "internal ''__dmaring_slots''" by (simp add: internal_def)
  then have 1: "keeps_data dl (AList.update ''__dmaring_slots'' v (AList.update n i dl))"
    if "map_of dl n = None" for dl i
    using that by (intro keeps_data_trans [OF keeps_data_update keeps_data_update]) simp_all
  show "emits_code (reserve n bs)"
    by (auto simp: within_def reserve_def gen_step_def gen_ok_def distinct_update keeps_data_update)
  show "emits_code (reserve_slots n sz ''__dmaring_slots'' v)"
    using 1 by (auto simp: within_def reserve_slots_def gen_step_def gen_ok_def distinct_update)
qed

lemma once_emit: "emits_code f \<Longrightarrow> emits_code (once n f)"
  by (auto simp: within_def once_def step.refl bindE_Inr_iff gen_step_def gen_ok_def)

lemma fields_emit:
  "emits_code (set_locals ls)" "emits_code (enter_fn args)" "emits_code leave_fn"
  "emits_code (note_line ln)" "emits_code (note_assert_bytes nm limit opn)"
  "emits_code (note_assert_size what limit)" "emits_code set_baremetal"
  "emits_code (note_section nm addr)" "emits_code (note_teach ln hint)"
  by (simp_all add: within_def gen_step_def gen_ok_def set_locals_def enter_fn_def leave_fn_def note_line_def
      note_assert_bytes_def note_assert_size_def set_baremetal_def note_section_def note_teach_def Let_def)

lemma deterministic_emit: "emits_code set_deterministic"
  by (auto simp: within_def set_deterministic_def gen_step_def gen_ok_def appends_def wf_asm_def)

interpretation codes: statement_property emits_code
proof
  show "emits_code (cg_fail e)" for e by (simp add: within_def cg_fail_def)
  show "emits_code (\<lambda>g. r (plain g) g)" if "\<And>h. emits_code (r h)" for r
    using that by (simp add: within_def)
qed (simp_all add: asm_do_emit place_emit new_label_emit step.fold reserve_emit once_emit fields_emit deterministic_emit)

subsection \<open>Programs\<close>

text \<open>The passes before the code change fields \<open>gen_step\<close> fixes; they keep the invariant.\<close>

definition prog_step :: "gen \<Rightarrow> gen \<Rightarrow> bool" where
  "prog_step g g' \<longleftrightarrow>
     use_wx g' = use_wx g \<and> debug_dwarf g' = debug_dwarf g \<and> (gen_ok g \<longrightarrow> gen_ok g')"

interpretation prog: pass_property prog_step
  by unfold_locales (auto simp: prog_step_def gen_ok_def distinct_update)

lemma prog_emits: "emits_code f \<Longrightarrow> within prog_step f"
  by (auto simp: within_def gen_step_def prog_step_def)

text \<open>The passes before the code, and the code behind them.\<close>

definition before_main :: "program \<Rightarrow> cg" where
  "before_main prog = seqE [
    (if has_node TargetBaremetal prog then set_baremetal else skip),
    (\<lambda>g. Inr (g\<lparr>structs := collect_structs prog (structs g)\<rparr>)),
    collect_data prog,
    (if has_node MetalDeterministic prog then set_deterministic else skip),
    (if uses_pulse prog then append_runtime ''__timespec'' 16 else skip),
    (if uses_thread prog then append_runtime ''__thr_futex'' 24 else skip)]"

lemma emit_program_parts:
  "emit_program prog g0 = bindE (before_main prog g0) (seqE [seqE (map emit (filter (\<lambda>s. \<not> is_fn s) prog)),
    (\<lambda>g. if \<not> baremetal g \<and> \<not> ends_exit prog then default_exit g else Inr g),
    seqE (map emit (filter is_fn prog))])"
  unfolding emit_program_def before_main_def seqE_append [symmetric] by simp

lemma emit_program_step: "within prog_step (emit_program stmts)"
proof -
  have 2: "within prog_step set_deterministic" by (intro prog_emits codes.fields)
  have 4: "within prog_step (seqE (map emit ss))" for ss
    by (intro prog_emits codes.emits)
  have 5: "within prog_step default_exit" by (intro prog_emits codes.default_exit_emit)
  have 6: "within prog_step set_baremetal" by (intro prog_emits codes.fields)
  have 7: "within prog_step skip" by (intro prog_emits codes.skip)
  show ?thesis
    unfolding emit_program_def
    by (intro prog.fold closed prog.skip 2 4 5 6 7 prog.passes)
qed

end
