(* ===== verification/Data_Layout.thy ===== *)
theory Data_Layout
  imports Codegen_Invariant
begin

section \<open>The data section\<close>

text \<open>
  What a program's data statements promise (\<open>data_value\<close>: the bytes of a name, those of its last
  definition) and that the data pass and everything after it keep the promise: each name has an
  offset in the data, its bytes stand there, and no two names share a byte.
\<close>

subsection \<open>The promise\<close>

definition alloc_value :: "(string \<times> struct_info) list \<Rightarrow> alloc_size \<Rightarrow> int option" where
  "alloc_value ss sz =
    (case sz of SizeNum n \<Rightarrow> Some n | SizeOf s \<Rightarrow> map_option si_size (map_of ss s))"

fun data_item :: "(string \<times> struct_info) list \<Rightarrow> node \<Rightarrow> (string \<times> bytes) option" where
  "data_item ss (DataAlloc n sz) = map_option (\<lambda>k. (n, zeros k)) (alloc_value ss sz)"
| "data_item ss (DataBytes n vals) = Some (n, vals)"
| "data_item ss (DataConst n (Number v)) = Some (n, u64 v)"
| "data_item ss (DataConst n (Str s)) = Some (n, encode_str s @ [0])"
| "data_item ss _ = None"

definition data_value :: "(string \<times> struct_info) list \<Rightarrow> stmt list \<Rightarrow> string \<Rightarrow> bytes option" where
  "data_value ss stmts n = map_of (rev (List.map_filter (\<lambda>s. data_item ss (snd s)) stmts)) n"

text \<open>Sizes and alignments that make sense; the code accepts others and misplaces what follows.\<close>

fun size_ok :: "(string \<times> struct_info) list \<Rightarrow> node \<Rightarrow> bool" where
  "size_ok ss (DataAlloc n sz) = (case alloc_value ss sz of None \<Rightarrow> True | Some k \<Rightarrow> 0 \<le> k)"
| "size_ok ss (DataAlign a) = (0 < a)"
| "size_ok ss _ = True"

definition data_ok :: "stmt list \<Rightarrow> bool" where
  "data_ok stmts \<longleftrightarrow> list_all (\<lambda>s. size_ok (collect_structs stmts []) (snd s)) stmts"

subsection \<open>Placed items\<close>

definition stands_at :: "bytes \<Rightarrow> (string \<times> int) list \<Rightarrow> string \<Rightarrow> bytes \<Rightarrow> nat \<Rightarrow> bool" where
  "stands_at data dl n bs i \<longleftrightarrow>
     map_of dl n = Some (int i) \<and> i + length bs \<le> length data \<and> slice i (length bs) data = bs"

definition placed :: "bytes \<Rightarrow> (string \<times> int) list \<Rightarrow> (string \<times> bytes) list \<Rightarrow> bool" where
  "placed data dl items \<longleftrightarrow>
     (\<forall>n bs. map_of items n = Some bs \<longrightarrow> (\<exists>i. stands_at data dl n bs i)) \<and>
     (\<forall>n bs i m cs j. n \<noteq> m \<longrightarrow> map_of items n = Some bs \<longrightarrow> stands_at data dl n bs i \<longrightarrow>
        map_of items m = Some cs \<longrightarrow> stands_at data dl m cs j \<longrightarrow>
        i + length bs \<le> j \<or> j + length cs \<le> i)"

lemma stands_at_unique: "stands_at data dl n bs i \<Longrightarrow> stands_at data dl n cs j \<Longrightarrow> i = j"
  by (simp add: stands_at_def)

lemma stands_at_append: "stands_at data dl n bs i \<Longrightarrow> stands_at (data @ suf) dl n bs i"
  by (simp add: stands_at_def slice_append_left)

lemma placed_append:
  assumes "placed data dl items" shows "placed (data @ x) dl items"
proof -
  have "stands_at data dl n bs i" if "stands_at (data @ x) dl n bs i" "map_of items n = Some bs"
    for n bs i
    using that assms stands_at_unique stands_at_append unfolding placed_def by metis
  then show ?thesis using assms stands_at_append unfolding placed_def by metis
qed

lemma placed_add:
  assumes p: "placed data dl items"
  shows "placed (data @ bs) (AList.update n (int (length data)) dl) ((n, bs) # items)"
proof -
  let ?dl = "AList.update n (int (length data)) dl"
  have new: "stands_at (data @ bs) ?dl n bs (length data)"
    by (simp add: stands_at_def update_conv' slice_def)
  have old: "stands_at (data @ bs) ?dl m cs i \<longleftrightarrow> stands_at (data @ bs) dl m cs i" if "m \<noteq> n" for m cs i
    using that by (simp add: stands_at_def update_conv')
  have below: "i + length cs \<le> length data"
    if "stands_at (data @ bs) dl m cs i" "map_of items m = Some cs" for m cs i
    using that p stands_at_append stands_at_unique unfolding placed_def
    by (metis stands_at_def)
  note pa = placed_append [OF p, of bs]
  show ?thesis
    unfolding placed_def
  proof (intro conjI allI impI)
    fix m cs assume "map_of ((n, bs) # items) m = Some cs"
    then show "\<exists>i. stands_at (data @ bs) ?dl m cs i"
      using new old pa unfolding placed_def by (cases "m = n") auto
  next
    fix m cs i k ds j
    assume a: "m \<noteq> k" "map_of ((n, bs) # items) m = Some cs" "stands_at (data @ bs) ?dl m cs i"
      "map_of ((n, bs) # items) k = Some ds" "stands_at (data @ bs) ?dl k ds j"
    consider "m = n" | "k = n" | "m \<noteq> n" "k \<noteq> n" by blast
    then show "i + length cs \<le> j \<or> j + length ds \<le> i"
    proof cases
      case 1
      then have "i = length data" using a(3) stands_at_unique [OF new] by blast
      then show ?thesis using a 1 old below [of k ds j] by simp
    next
      case 2
      then have "j = length data" using a(5) stands_at_unique [OF new] by blast
      then show ?thesis using a 2 old below [of m cs i] by simp
    next
      case 3
      have ne: "n \<noteq> m" "n \<noteq> k" using 3 by auto
      have "map_of items m = Some cs" "map_of items k = Some ds"
        "stands_at (data @ bs) dl m cs i" "stands_at (data @ bs) dl k ds j"
        using a ne 3 old by simp_all
      then show ?thesis using pa a(1) unfolding placed_def by blast
    qed
  qed
qed

subsection \<open>The data pass\<close>

lemma zero_length: "0 \<le> k \<Longrightarrow> int (length (zeros k)) = k"
  by (simp add: zeros_def)

lemma collect_one_placed:
  assumes "collect_one s (off, g) = Inr (off', g')" and "off = int (length (data_bytes g))"
    and "size_ok (structs g) s" and "placed (data_bytes g) (data_layout g) items"
  shows "structs g' = structs g \<and> off' = int (length (data_bytes g')) \<and>
    placed (data_bytes g') (data_layout g')
      (case data_item (structs g) s of None \<Rightarrow> items | Some it \<Rightarrow> it # items)"
proof -
  note add = placed_add [OF assms(4)]
  show ?thesis
  proof (cases "(s, off, g)" rule: collect_one.cases)
    case (1 n sz)
    then obtain k where k: "alloc_bytes sz g = Inr k" "off' = off + k" "g' = add_data n off (zeros k) g"
      using assms(1) by (auto simp: bindE_Inr_iff)
    have "alloc_value (structs g) sz = Some k"
      using k(1) by (auto simp: alloc_bytes_def alloc_value_def split: alloc_size.splits option.splits)
    then show ?thesis using 1 k assms(2,3) add by (simp add: add_data_def zero_length)
  next
    case (2 a)
    then have a: "0 < a" using assms(3) by simp
    let ?pad = "(a - off mod a) mod a"
    have "off' = off + ?pad" "g' = g\<lparr>data_bytes := data_bytes g @ zeros ?pad\<rparr>"
      using assms(1) 2 a by (auto simp: Let_def)
    then show ?thesis using 2 a assms(2,4) by (simp add: zero_length placed_append)
  next
    case (3 n vals)
    then show ?thesis using assms(1,2) add by (auto simp: add_data_def)
  next
    case (4 n v)
    then show ?thesis using assms(1,2) add by (auto simp: add_data_def u64_def)
  next
    case (5 n s)
    then show ?thesis using assms(1,2) add by (auto simp: add_data_def Let_def)
  qed (use assms in auto)
qed

lemma collect_loop_placed:
  assumes "seqE (map (\<lambda>(ln, s). collect_one s) stmts) (off, g) = Inr (off', g')"
    and "off = int (length (data_bytes g))"
    and "list_all (\<lambda>s. size_ok (structs g) (snd s)) stmts"
    and "placed (data_bytes g) (data_layout g) items"
  shows "structs g' = structs g \<and> placed (data_bytes g') (data_layout g')
    (rev (List.map_filter (\<lambda>s. data_item (structs g) (snd s)) stmts) @ items)"
  using assms
proof (induction stmts arbitrary: off g items)
  case Nil
  then show ?case by (simp add: List.map_filter_def)
next
  case (Cons x stmts)
  obtain ln s where x: "x = (ln, s)" by (cases x)
  obtain off1 g1 where 1: "collect_one s (off, g) = Inr (off1, g1)"
    "seqE (map (\<lambda>(ln, s). collect_one s) stmts) (off1, g1) = Inr (off', g')"
    using Cons.prems(1) by (auto simp: x bindE_Inr_iff)
  have "size_ok (structs g) s" using Cons.prems(3) by (simp add: x)
  note one = collect_one_placed [OF 1(1) Cons.prems(2) this Cons.prems(4)]
  have "structs g' = structs g1 \<and> placed (data_bytes g') (data_layout g')
    (rev (List.map_filter (\<lambda>s. data_item (structs g1) (snd s)) stmts) @
     (case data_item (structs g) s of None \<Rightarrow> items | Some it \<Rightarrow> it # items))"
    using one Cons.prems(3) by (intro Cons.IH [OF 1(2)]) simp_all
  then show ?case using one by (auto simp: x List.map_filter_simps split: option.splits)
qed

lemma collect_data_placed:
  assumes "collect_data stmts g = Inr g'" and "data_bytes g = []"
    and "list_all (\<lambda>s. size_ok (structs g) (snd s)) stmts"
  shows "placed (data_bytes g') (data_layout g')
    (rev (List.map_filter (\<lambda>s. data_item (structs g) (snd s)) stmts))"
proof -
  obtain off where "seqE (map (\<lambda>(ln, s). collect_one s) stmts) (0, g) = Inr (off, g')"
    using assms(1) by (auto simp: collect_data_def bindE_Inr_iff)
  from collect_loop_placed [OF this _ assms(3), of "[]"] show ?thesis
    using assms(2) by (simp add: placed_def)
qed

subsection \<open>After the data pass\<close>

text \<open>Nothing that runs later moves a name of the program or changes its bytes.\<close>

definition data_kept :: "gen \<Rightarrow> gen \<Rightarrow> bool" where
  "data_kept g g' \<longleftrightarrow>
     (\<exists>bs. data_bytes g' = data_bytes g @ bs) \<and> keeps_data (data_layout g) (data_layout g')"

interpretation kept: state_preorder data_kept
  by unfold_locales (auto simp: data_kept_def intro: keeps_data_trans)

lemma kept_emits: "emits_code f \<Longrightarrow> within data_kept f"
  by (auto simp: within_def gen_step_def data_kept_def)

lemma kept_stands:
  assumes "data_kept g g'" and "\<not> internal n" and "stands_at (data_bytes g) (data_layout g) n bs i"
  shows "stands_at (data_bytes g') (data_layout g') n bs i"
proof -
  have "map_of (data_layout g') n = map_of (data_layout g) n"
    using assms unfolding data_kept_def keeps_data_def stands_at_def by blast
  then show ?thesis
    using assms stands_at_append [OF assms(3)] by (auto simp: data_kept_def stands_at_def)
qed

lemma kept_rest:
  "list_all (within data_kept)
    [(if d then set_deterministic else skip),
     (if p then append_runtime ''__timespec'' 16 else skip),
     (if q then append_runtime ''__thr_futex'' 24 else skip),
     seqE (map emit ss),
     (\<lambda>g. if \<not> baremetal g \<and> \<not> ends_exit stmts then default_exit g else Inr g),
     seqE (map emit fs)]"
proof -
  have 2: "within data_kept set_deterministic" by (intro kept_emits codes.fields)
  have "internal ''__timespec''" "internal ''__thr_futex''" by (simp_all add: internal_def)
  then have 3: "within data_kept (append_runtime ''__timespec'' 16)"
    "within data_kept (append_runtime ''__thr_futex'' 24)"
    by (auto simp: within_def append_runtime_def add_data_def data_kept_def keeps_data_update)
  have 4: "within data_kept (seqE (map emit xs))" for xs
    by (intro kept_emits codes.emits)
  have 5: "within data_kept default_exit" by (intro kept_emits codes.default_exit_emit)
  have 7: "within data_kept skip" by (intro kept_emits codes.skip)
  show ?thesis by (intro closed kept.skip 2 3 4 5 7)
qed

lemma program_placed:
  assumes "emit_program stmts g0 = Inr g" and "data_bytes g0 = []" "structs g0 = []" "data_ok stmts"
  obtains h where "data_kept h g" "placed (data_bytes h) (data_layout h)
    (rev (List.map_filter (\<lambda>s. data_item (collect_structs stmts []) (snd s)) stmts))"
proof -
  let ?rest = "[(if has_node MetalDeterministic stmts then set_deterministic else skip),
    (if uses_pulse stmts then append_runtime ''__timespec'' 16 else skip),
    (if uses_thread stmts then append_runtime ''__thr_futex'' 24 else skip),
    seqE (map emit (filter (\<lambda>s. \<not> is_fn s) stmts)),
    (\<lambda>g. if \<not> baremetal g \<and> \<not> ends_exit stmts then default_exit g else Inr g),
    seqE (map emit (filter is_fn stmts))]"
  obtain g1 g2 h where 1: "(if has_node TargetBaremetal stmts then set_baremetal else skip) g0 = Inr g1"
    and 2: "Inr (g1\<lparr>structs := collect_structs stmts (structs g1)\<rparr>) = (Inr g2 :: gen res)"
    and h: "collect_data stmts g2 = Inr h" and g: "seqE ?rest h = Inr g"
    using assms(1) unfolding emit_program_def by - (erule seqE_ConsE, erule seqE_ConsE, erule seqE_ConsE, rule that)
  have "data_bytes g1 = []" "structs g1 = []"
    using 1 assms(2,3) by (auto simp: set_baremetal_def skip_def split: if_splits)
  then have g2: "data_bytes g2 = []" "structs g2 = collect_structs stmts []"
    using 2 by auto
  have "data_kept h g" by (rule withinD [OF kept.fold [OF kept_rest] g])
  moreover have "placed (data_bytes h) (data_layout h)
    (rev (List.map_filter (\<lambda>s. data_item (collect_structs stmts []) (snd s)) stmts))"
    using collect_data_placed [OF h] g2 assms(4) by (simp add: data_ok_def)
  ultimately show thesis by (rule that)
qed

lemma program_data:
  assumes "emit_program stmts g0 = Inr g" and "data_bytes g0 = []" "structs g0 = []" "data_ok stmts"
    and "data_value (collect_structs stmts []) stmts n = Some bs" "\<not> internal n"
  shows "\<exists>i. stands_at (data_bytes g) (data_layout g) n bs i"
    and "data_value (collect_structs stmts []) stmts m = Some cs \<Longrightarrow> \<not> internal m \<Longrightarrow> n \<noteq> m \<Longrightarrow>
      stands_at (data_bytes g) (data_layout g) n bs i \<Longrightarrow>
      stands_at (data_bytes g) (data_layout g) m cs j \<Longrightarrow> i + length bs \<le> j \<or> j + length cs \<le> i"
proof -
  obtain h where h: "data_kept h g" "placed (data_bytes h) (data_layout h)
    (rev (List.map_filter (\<lambda>s. data_item (collect_structs stmts []) (snd s)) stmts))"
    by (rule program_placed [OF assms(1-4)])
  have at: "\<exists>i. stands_at (data_bytes h) (data_layout h) k ds i"
    if "data_value (collect_structs stmts []) stmts k = Some ds" for k ds
    using that h(2) by (simp add: placed_def data_value_def)
  show "\<exists>i. stands_at (data_bytes g) (data_layout g) n bs i"
    using at [OF assms(5)] kept_stands [OF h(1) assms(6)] by blast
  show "i + length bs \<le> j \<or> j + length cs \<le> i"
    if m: "data_value (collect_structs stmts []) stmts m = Some cs" "\<not> internal m" "n \<noteq> m"
      "stands_at (data_bytes g) (data_layout g) n bs i" "stands_at (data_bytes g) (data_layout g) m cs j"
  proof -
    obtain i' j' where ij: "stands_at (data_bytes h) (data_layout h) n bs i'"
      "stands_at (data_bytes h) (data_layout h) m cs j'"
      using at [OF assms(5)] at [OF m(1)] by blast
    then have "i' = i" "j' = j"
      using m(4,5) kept_stands [OF h(1)] assms(6) m(2) stands_at_unique by blast+
    then show ?thesis
      using h(2) ij m(1,3) assms(5) unfolding placed_def data_value_def by blast
  qed
qed

end
