(* ===== verification/Image.thy ===== *)
theory Image
  imports Data_Layout
begin

section \<open>Generated code in the loaded image\<close>

text \<open>
  The code generator, the linker and the file writers together: the table \<open>generate\<close> links with,
  and the address every \<open>rel32\<close> operand of a written file leads to once the file is loaded,
  for each of the four kinds of file.
\<close>

subsection \<open>The link table\<close>

text \<open>Where the generator takes the data to start, counted from the first code byte.\<close>

definition data_start :: "gen \<Rightarrow> int" where
  "data_start g =
    (let n = length (code (g_asm g)) in
     if use_wx g then (case wx_code_data_file_offsets n of (c, d) \<Rightarrow> int d - int c) else int n)"

lemma starts_data_iff: "starts_data k \<longleftrightarrow> (\<exists>n. k = ''__data_'' @ n)"
proof
  assume "starts_data k"
  then have "k = ''__data_'' @ drop 7 k" by (metis append_take_drop_id starts_data_def)
  then show "\<exists>n. k = ''__data_'' @ n" ..
qed (auto simp: starts_data_def)

lemma map_of_data_fold:
  assumes "distinct (map fst dl)"
  shows "map_of (fold (\<lambda>(n, off). AList.update (''__data_'' @ n) (c + off)) dl al) k =
    (case (if starts_data k then map_of dl (drop 7 k) else None) of
       None \<Rightarrow> map_of al k | Some off \<Rightarrow> Some (c + off))"
  using assms
proof (induction dl arbitrary: al)
  case Nil
  then show ?case by simp
next
  case (Cons x dl)
  obtain n off where x: "x = (n, off)" by (cases x)
  have "map_of dl n = None" using Cons.prems by (simp add: x map_of_eq_None_iff)
  moreover have "starts_data k \<and> drop 7 k = n \<longleftrightarrow> k = ''__data_'' @ n"
    by (auto simp: starts_data_iff)
  ultimately show ?case
    using Cons by (auto simp: x update_conv' split: option.splits)
qed

lemma map_of_map_val: "map_of (map (\<lambda>(k, v). (k, f k v)) al) k = map_option (f k) (map_of al k)"
  by (induction al) auto

lemma map_of_label_table: "map_of (label_table a) k = map_option int (map_of (labels a) k)"
  unfolding label_table_def by (rule map_of_map_val)

lemma gen_ok_labels: "gen_ok g \<Longrightarrow> starts_data k \<Longrightarrow> map_of (labels (g_asm g)) k = None"
  by (auto simp: gen_ok_def list_all_iff map_of_eq_None_iff)

lemma gen_ok_layout: "gen_ok g \<Longrightarrow> distinct (map fst (data_layout g))"
  and gen_ok_asm: "gen_ok g \<Longrightarrow> wf_asm (g_asm g)"
  by (simp_all add: gen_ok_def)

lemma link_offsets_lookup:
  assumes "gen_ok g"
  shows "map_of (link_offsets g) k =
    (if starts_data k then map_option (\<lambda>off. data_start g + off) (map_of (data_layout g) (drop 7 k))
     else map_option int (map_of (labels (g_asm g)) k))"
proof -
  let ?n = "length (code (g_asm g))"
  obtain c d where cd: "wx_code_data_file_offsets ?n = (c, d)" by (cases "wx_code_data_file_offsets ?n")
  let ?offs = "fold (\<lambda>(n, off). AList.update (''__data_'' @ n) (int ?n + off)) (data_layout g)
    (label_table (g_asm g))"
  have offs: "map_of ?offs k =
    (if starts_data k then map_option (\<lambda>off. int ?n + off) (map_of (data_layout g) (drop 7 k))
     else map_option int (map_of (labels (g_asm g)) k))"
    using gen_ok_labels [OF assms, of k] unfolding map_of_data_fold [OF gen_ok_layout [OF assms]]
    by (auto simp: map_of_label_table split: option.splits)
  have "map (\<lambda>(n, off). if starts_data n then (n, off + pad) else (n, off)) al =
      map (\<lambda>(n, off). (n, if starts_data n then off + pad else off)) al" for al and pad :: int
    by (auto intro!: map_cong split: prod.splits)
  then have "link_offsets g = (if use_wx g
      then map (\<lambda>(n, off). (n, if starts_data n then off + (int d - int c - int ?n) else off)) ?offs
      else ?offs)"
    by (simp add: link_offsets_def Let_def cd)
  then show ?thesis
    using offs by (cases "map_of ?offs k")
      (auto simp: data_start_def cd map_of_map_val Let_def split: if_splits)
qed

text \<open>The state after the emitters, and what \<open>link\<close> makes of it.\<close>

lemma gen_ok_init: "gen_ok (init_gen\<lparr>use_wx := w, debug_dwarf := d\<rparr>)"
  by (simp add: gen_ok_def init_gen_def) (simp add: init_asm_def)

lemma generated_parts:
  assumes "generate_code prog (init_gen\<lparr>use_wx := w, debug_dwarf := d\<rparr>) = Inr g"
  obtains h a where "link (Some (link_offsets h)) (g_asm h) = Inr a" "g = h\<lparr>g_asm := a\<rparr>"
    "gen_ok h" "use_wx h = w" "debug_dwarf h = d"
proof -
  obtain h a where h: "emit_program prog (init_gen\<lparr>use_wx := w, debug_dwarf := d\<rparr>) = Inr h"
    and a: "link (Some (link_offsets h)) (g_asm h) = Inr a" "g = h\<lparr>g_asm := a\<rparr>"
    using assms by (auto simp: generate_code_def bindE_Inr_iff)
  have "prog_step (init_gen\<lparr>use_wx := w, debug_dwarf := d\<rparr>) h"
    by (rule withinD [OF emit_program_step h])
  then have "gen_ok h" "use_wx h = w" "debug_dwarf h = d"
    by (simp_all add: prog_step_def gen_ok_init)
  with a show thesis by (rule that)
qed

lemma generated_ok:
  assumes "generate_code prog (init_gen\<lparr>use_wx := w, debug_dwarf := d\<rparr>) = Inr g"
  shows "gen_ok g" and "use_wx g = w" and "debug_dwarf g = d"
    and "r \<in> set (relocs (g_asm g)) \<Longrightarrow> hole_ok (length (code (g_asm g))) r"
proof -
  obtain h a where h: "link (Some (link_offsets h)) (g_asm h) = Inr a" "g = h\<lparr>g_asm := a\<rparr>"
    "gen_ok h" "use_wx h = w" "debug_dwarf h = d" by (rule generated_parts [OF assms])
  note fr = link_frame [OF h(1) gen_ok_asm [OF h(3)]]
  show ok: "gen_ok g" "use_wx g = w" "debug_dwarf g = d"
    using h(3-5) fr(1-3) by (simp_all add: h(2) gen_ok_def wf_asm_def)
  show "r \<in> set (relocs (g_asm g)) \<Longrightarrow> hole_ok (length (code (g_asm g))) r"
    using gen_ok_asm [OF ok(1)] by (simp add: wf_asm_def list_all_iff)
qed

lemma generated_target:
  assumes "generate_code prog (init_gen\<lparr>use_wx := w, debug_dwarf := d\<rparr>) = Inr g"
    and "r \<in> set (relocs (g_asm g))"
  shows "if starts_data (r_target r)
    then \<exists>off. map_of (data_layout g) (drop 7 (r_target r)) = Some off \<and>
      rel32_target (code (g_asm g)) r = data_start g + off
    else \<exists>p \<le> length (code (g_asm g)). map_of (labels (g_asm g)) (r_target r) = Some p \<and>
      rel32_target (code (g_asm g)) r = int p"
proof -
  obtain h a where h: "link (Some (link_offsets h)) (g_asm h) = Inr a" "g = h\<lparr>g_asm := a\<rparr>"
    "gen_ok h" "use_wx h = w" "debug_dwarf h = d" by (rule generated_parts [OF assms(1)])
  note fr = link_frame [OF h(1) gen_ok_asm [OF h(3)]]
  have "r \<in> set (relocs (g_asm h))" using assms(2) fr(3) by (simp add: h(2))
  then obtain t where t: "map_of (link_offsets h) (r_target r) = Some t" "rel32_target (code a) r = t"
    using link_reaches [OF h(1) gen_ok_asm [OF h(3)]] by (auto simp: link_table_def)
  have st: "data_start h = data_start g" using fr(1) by (simp add: data_start_def h(2))
  have "p \<le> length (code (g_asm g))" if "map_of (labels (g_asm g)) l = Some p" for l p
    using that gen_ok_asm [OF generated_ok(1) [OF assms(1)]]
    by (auto simp: wf_asm_def list_all_iff dest!: map_of_SomeD)
  then show ?thesis
    using t fr(2) unfolding link_offsets_lookup [OF h(3)] by (auto simp: h(2) st)
qed

subsection \<open>The files\<close>

lemma operand_target:
  assumes "loaded blob base (code (g_asm g)) fl" and "hole_ok (length (code (g_asm g))) r"
  shows "operand_target blob (base + int (r_offset r)) = base + rel32_target (code (g_asm g)) r"
  using loaded_slice [OF assms(1), of "r_offset r" 4] assms(2)
  by (simp add: operand_target_def rel32_target_def hole_ok_def add.assoc)

lemma image_loads:
  assumes "write_image g = Inr blob" and "\<not> baremetal g"
  shows "\<exists>fl. loaded blob (entry64 blob) (code (g_asm g)) fl"
    and "\<not> (use_wx g \<and> debug_dwarf g) \<Longrightarrow>
      loaded blob (entry64 blob + data_start g) (data_bytes g) (if use_wx g then 6 else 7)"
    and "use_wx g \<and> debug_dwarf g \<Longrightarrow>
      loaded blob (entry64 blob + int (length (code (g_asm g)))) (data_bytes g) 7"
proof -
  let ?n = "length (code (g_asm g))"
  consider (dwarf) "debug_dwarf g" "\<exists>syms. build_elf64_with_symtab (code (g_asm g)) (data_bytes g) syms 0 = Inr blob"
    | (wx) "\<not> debug_dwarf g" "use_wx g" "build_elf64_exe_wx (code (g_asm g)) (data_bytes g) 0 = Inr blob"
    | (exe) "\<not> debug_dwarf g" "\<not> use_wx g" "build_elf64_exe (code (g_asm g)) (data_bytes g) 0 = Inr blob"
    using assms by (auto simp: write_image_def bindE_Inr_iff Let_def split: if_splits)
  then have "(\<exists>fl. loaded blob (entry64 blob) (code (g_asm g)) fl) \<and>
    (\<not> (use_wx g \<and> debug_dwarf g) \<longrightarrow>
      loaded blob (entry64 blob + data_start g) (data_bytes g) (if use_wx g then 6 else 7)) \<and>
    (use_wx g \<and> debug_dwarf g \<longrightarrow> loaded blob (entry64 blob + int ?n) (data_bytes g) 7)"
  proof cases
    case dwarf
    then obtain syms where b: "build_elf64_with_symtab (code (g_asm g)) (data_bytes g) syms 0 = Inr blob"
      by blast
    show ?thesis using symtab_loads [OF b] dwarf(1) by (auto simp: data_start_def add_ac)
  next
    case wx
    obtain c d where cd: "wx_code_data_file_offsets ?n = (c, d)" by force
    show ?thesis
      using wx_loads [OF wx(3) cd] wx_parts(2) [OF wx(3) cd] wx(1,2) by (auto simp: data_start_def cd)
  next
    case exe
    show ?thesis using exe_loads [OF exe(3)] exe_parts(2) [OF exe(3)] exe(1,2)
      by (auto simp: data_start_def add_ac)
  qed
  then show "\<exists>fl. loaded blob (entry64 blob) (code (g_asm g)) fl"
    "\<not> (use_wx g \<and> debug_dwarf g) \<Longrightarrow>
      loaded blob (entry64 blob + data_start g) (data_bytes g) (if use_wx g then 6 else 7)"
    "use_wx g \<and> debug_dwarf g \<Longrightarrow>
      loaded blob (entry64 blob + int ?n) (data_bytes g) 7" by blast+
qed

text \<open>When a hosted image is written.\<close>

lemma image_writes:
  assumes "\<not> baremetal g" and "run_asserts (code (g_asm g)) (data_bytes g) g = Inr ()"
    and "length (code (g_asm g)) < 2 ^ 32" "length (data_bytes g) < 2 ^ 32"
    and "debug_dwarf g \<Longrightarrow> \<exists>dl di. debug_line_section (ascii ''source.aclm'') ([(0, 1)] @
        map (\<lambda>(_, off). (off, 1)) (take 20 (map (\<lambda>(n, p). (encode_str n, p)) (sort_key fst (labels (g_asm g)))))) =
      Inr dl \<and> info_section (ascii ''source.aclm'') (length (code (g_asm g))) = Inr di \<and>
      length dl + length di + length abbrev_section < 2 ^ 32"
  shows "\<exists>blob. write_image g = Inr blob"
proof -
  let ?c = "code (g_asm g)" and ?d = "data_bytes g"
  let ?syms = "map (\<lambda>(n, p). (encode_str n, p)) (sort_key fst (labels (g_asm g)))"
  have "(2 :: nat) ^ 32 + 2 ^ 32 + 2 ^ 32 < 2 ^ 62" by simp
  then have lt: "length ?c < 2 ^ 62" "length ?d < 2 ^ 62"
    "k < 2 ^ 32 \<Longrightarrow> length ?c + length ?d + k + 0 < 2 ^ 62" for k
    using assms(3,4) by linarith+
  consider "debug_dwarf g" | "\<not> debug_dwarf g" "use_wx g" | "\<not> debug_dwarf g" "\<not> use_wx g" by blast
  then show ?thesis
  proof cases
    case 1
    then obtain dl di where d: "debug_line_section (ascii ''source.aclm'')
        ([(0, 1)] @ map (\<lambda>(_, off). (off, 1)) (take 20 ?syms)) = Inr dl"
      "info_section (ascii ''source.aclm'') (length ?c) = Inr di"
      "length dl + length di + length abbrev_section < 2 ^ 32"
      using assms(5) by blast
    obtain b where "build_elf64_with_symtab ?c ?d ?syms 0 = Inr b"
      using symtab_writes [OF d(1,2), of ?d 0] lt(3) [OF d(3)] by (auto simp: add.assoc)
    then show ?thesis
      unfolding write_image_def Let_def assms(2) bindE.simps(2) using assms(1) 1 by simp
  next
    case 2
    obtain b where "build_elf64_exe_wx ?c ?d 0 = Inr b" using wx_writes lt(1,2) by fastforce
    then show ?thesis
      unfolding write_image_def Let_def assms(2) bindE.simps(2) using assms(1) 2 by simp
  next
    case 3
    have "LOAD_VADDR + 120 + 0 < 2 ^ 64" "120 + length ?c + length ?d < 2 ^ 64"
      using lt(3) [of 120] by (simp_all add: LOAD_VADDR_def)
    then obtain b where "build_elf64_exe ?c ?d 0 = Inr b" using exe_writes_iff by blast
    then show ?thesis
      unfolding write_image_def Let_def assms(2) bindE.simps(2) using assms(1) 3 by simp
  qed
qed

text \<open>What an operand reaches: the instruction behind its label or the byte of its data name.\<close>

definition reaches_target :: "gen \<Rightarrow> int \<Rightarrow> int \<Rightarrow> string \<Rightarrow> int \<Rightarrow> bool" where
  "reaches_target g code_at data_at target addr \<longleftrightarrow>
     (if starts_data target
      then \<exists>off. map_of (data_layout g) (drop 7 target) = Some off \<and> addr = data_at + off
      else \<exists>p \<le> length (code (g_asm g)). map_of (labels (g_asm g)) target = Some p \<and>
        addr = code_at + int p)"

lemma image_operand:
  assumes "generate_code prog (init_gen\<lparr>use_wx := w, debug_dwarf := d\<rparr>) = Inr g"
    and "write_image g = Inr blob" and "\<not> baremetal g" and "r \<in> set (relocs (g_asm g))"
  shows "reaches_target g (entry64 blob) (entry64 blob + data_start g) (r_target r)
    (operand_target blob (entry64 blob + int (r_offset r)))"
proof -
  obtain fl where "loaded blob (entry64 blob) (code (g_asm g)) fl"
    using image_loads(1) [OF assms(2,3)] by blast
  note operand_target [OF this generated_ok(4) [OF assms(1,4)]]
  then show ?thesis
    using generated_target [OF assms(1,4)]
    by (auto simp: reaches_target_def add.assoc split: if_splits)
qed

lemma data_start_wx:
  assumes "use_wx g"
  shows "data_start g - int (length (code (g_asm g))) = (- int (length (code (g_asm g)))) mod int PAGE"
proof -
  let ?n = "length (code (g_asm g))"
  obtain c d where cd: "wx_code_data_file_offsets ?n = (c, d)" by force
  note wo = wx_offsets [OF cd]
  have "data_start g = int d - int c" using assms by (simp add: data_start_def cd)
  moreover have "PAGE dvd d - c" using wo(1,3) by simp
  then obtain q where "d - c = PAGE * q" by (rule dvdE)
  ultimately have s: "data_start g = int PAGE * int q" using wo(2) by (simp flip: of_nat_mult)
  have "0 \<le> data_start g - int ?n" "data_start g - int ?n < int PAGE"
    using wo(2,4) \<open>data_start g = int d - int c\<close> by linarith+
  then have "data_start g - int ?n = (data_start g - int ?n) mod int PAGE" by simp
  also have "\<dots> = (- int ?n) mod int PAGE"
    using mod_mult_self2 [of "- int ?n" "int PAGE" "int q"] by (simp add: s)
  finally show ?thesis .
qed

subsection \<open>The data of the program\<close>

lemma generated_data:
  assumes "generate_code prog (init_gen\<lparr>use_wx := w, debug_dwarf := d\<rparr>) = Inr g" and "data_ok prog"
    and "data_value (collect_structs prog []) prog n = Some bs" "\<not> internal n"
  shows "\<exists>i. stands_at (data_bytes g) (data_layout g) n bs i"
    and "data_value (collect_structs prog []) prog m = Some cs \<Longrightarrow> \<not> internal m \<Longrightarrow> n \<noteq> m \<Longrightarrow>
      stands_at (data_bytes g) (data_layout g) n bs i \<Longrightarrow>
      stands_at (data_bytes g) (data_layout g) m cs j \<Longrightarrow> i + length bs \<le> j \<or> j + length cs \<le> i"
proof -
  obtain h a where h: "emit_program prog (init_gen\<lparr>use_wx := w, debug_dwarf := d\<rparr>) = Inr h"
    and g: "g = h\<lparr>g_asm := a\<rparr>"
    using assms(1) by (auto simp: generate_code_def bindE_Inr_iff)
  note pd = program_data [OF h _ _ assms(2-4)]
  show "\<exists>i. stands_at (data_bytes g) (data_layout g) n bs i"
    using pd(1) by (simp add: g init_gen_def)
  show "data_value (collect_structs prog []) prog m = Some cs \<Longrightarrow> \<not> internal m \<Longrightarrow> n \<noteq> m \<Longrightarrow>
      stands_at (data_bytes g) (data_layout g) n bs i \<Longrightarrow>
      stands_at (data_bytes g) (data_layout g) m cs j \<Longrightarrow> i + length bs \<le> j \<or> j + length cs \<le> i"
    using pd(2) by (simp add: g init_gen_def)
qed

lemma image_data:
  assumes "generate_code prog (init_gen\<lparr>use_wx := w, debug_dwarf := d\<rparr>) = Inr g"
    and "write_image g = Inr blob" "\<not> baremetal g" "\<not> (w \<and> d)" and "data_ok prog"
    and "data_value (collect_structs prog []) prog n = Some bs" "\<not> internal n"
  shows "\<exists>off. map_of (data_layout g) n = Some off \<and>
    loaded blob (entry64 blob + data_start g + off) bs (if w then 6 else 7)"
proof -
  obtain i where i: "map_of (data_layout g) n = Some (int i)" "i + length bs \<le> length (data_bytes g)"
      "slice i (length bs) (data_bytes g) = bs"
    using generated_data(1) [OF assms(1,5-7)] by (auto simp: stands_at_def)
  have "loaded blob (entry64 blob + data_start g) (data_bytes g) (if w then 6 else 7)"
    using image_loads(2) [OF assms(2,3)] generated_ok(2,3) [OF assms(1)] assms(4) by auto
  from loaded_sub [OF this i(2)] show ?thesis using i(1,3) by simp
qed

text \<open>A separate data segment is laid out for the plain file only; with line information the data
  follows the code directly, and the operands lead past it.\<close>

lemma wx_debug_operand:
  assumes "generate_code prog (init_gen\<lparr>use_wx := True, debug_dwarf := True\<rparr>) = Inr g"
    and "write_image g = Inr blob" "\<not> baremetal g"
    and "r \<in> set (relocs (g_asm g))" "r_target r = ''__data_'' @ n"
  shows "\<exists>off. map_of (data_layout g) n = Some off \<and>
    loaded blob (entry64 blob + int (length (code (g_asm g)))) (data_bytes g) 7 \<and>
    operand_target blob (entry64 blob + int (r_offset r)) =
      entry64 blob + int (length (code (g_asm g))) + off + (- int (length (code (g_asm g)))) mod 4096"
proof -
  note ok = generated_ok(2,3) [OF assms(1)]
  have "starts_data (r_target r)" "drop 7 (r_target r) = n"
    unfolding assms(5) by (simp_all add: starts_data_def)
  then obtain off where off: "map_of (data_layout g) n = Some off"
    "operand_target blob (entry64 blob + int (r_offset r)) = entry64 blob + data_start g + off"
    using image_operand [OF assms(1-4)] by (auto simp: reaches_target_def)
  moreover have "data_start g = int (length (code (g_asm g))) +
      (- int (length (code (g_asm g)))) mod 4096"
    using data_start_wx [of g] ok by (simp add: PAGE_def)
  moreover have "loaded blob (entry64 blob + int (length (code (g_asm g)))) (data_bytes g) 7"
    using image_loads(3) [OF assms(2,3)] ok by simp
  ultimately show ?thesis by (intro exI [of _ off]) simp
qed

subsection \<open>The kernel image\<close>

text \<open>In a bare-metal image the code stands where the long-mode stub jumps, the data behind it.\<close>

definition phys_target :: "bytes \<Rightarrow> nat \<Rightarrow> nat \<Rightarrow> int" where
  "phys_target f la addr = int addr + 4 + signed_of 4 (phys_int f la addr 4)"

lemma kernel_operand:
  assumes "generate_code prog (init_gen\<lparr>use_wx := False, debug_dwarf := d\<rparr>) = Inr g"
    and "write_image g = Inr f" and "baremetal g" and "LOAD_ADDR + length f \<le> 2 ^ 32"
    and "r \<in> set (relocs (g_asm g))"
  shows "reaches_target g (int (kernel_main f LOAD_ADDR))
    (int (kernel_main f LOAD_ADDR) + int (length (code (g_asm g)))) (r_target r)
    (phys_target f LOAD_ADDR (kernel_main f LOAD_ADDR + r_offset r))"
    and "phys f LOAD_ADDR (kernel_main f LOAD_ADDR + length (code (g_asm g))) (length (data_bytes g)) =
      data_bytes g"
proof -
  let ?c = "code (g_asm g)" and ?m = "kernel_main f LOAD_ADDR"
  have h: "hole_ok (length ?c) r" by (rule generated_ok(4) [OF assms(1,5)])
  then have "?c \<noteq> []" by (auto simp: hole_ok_def)
  then have b: "build_long_mode_kernel ?c (data_bytes g) LOAD_ADDR = Inr f"
    using assms(2,3) by (auto simp: write_image_def Let_def bindE_Inr_iff)
  note main = kernel_chain(6) [OF b assms(4)]
  have sub: "phys f LOAD_ADDR (?m + i) n = slice i n (?c @ data_bytes g @ [0xF4, 0xEB, 0xFE])"
    if "i + n \<le> length ?c + length (data_bytes g) + 3" for i n
    using that unfolding main [symmetric] by (intro phys_sub kernel_chain(7) [OF b assms(4)]) simp
  have "phys f LOAD_ADDR (?m + r_offset r) 4 = slice (r_offset r) 4 ?c"
    using h sub [of "r_offset r" 4] by (simp add: hole_ok_def slice_append_left)
  then have "phys_target f LOAD_ADDR (?m + r_offset r) = int ?m + rel32_target ?c r"
    by (simp add: phys_target_def phys_int_def rel32_target_def)
  then show "reaches_target g (int ?m) (int ?m + int (length ?c)) (r_target r)
      (phys_target f LOAD_ADDR (?m + r_offset r))"
    using generated_target [OF assms(1,5)] generated_ok(2) [OF assms(1)]
    by (auto simp: reaches_target_def data_start_def split: if_splits)
  show "phys f LOAD_ADDR (?m + length ?c) (length (data_bytes g)) = data_bytes g"
    using sub [of "length ?c" "length (data_bytes g)"]
    by (simp add: slice_append_right slice_append_left) (simp add: slice_def)
qed

end
