(* ===== verification/Core_Linked.thy ===== *)
theory Core_Linked
  imports Core_Correct Image
begin

section \<open>Code in the linked program\<close>

text \<open>
  A program logic for pieces of generated code where they stand in the linked program: \<open>hoare K P f R\<close>
  says that from the place of the code of \<open>f\<close> the processor comes to its end, and takes states with \<open>P\<close>
  to states with \<open>R\<close>. Straight code comes from \<open>triple\<close>; the addresses of data, which the linker
  fills in, are read here. With these the code of every operand is shown to leave its value.
\<close>

subsection \<open>The linked program\<close>

text \<open>The generator behind the last statement, the linked code, the address it is loaded at, and what
  the names of the program stand for.\<close>

record ctx =
  k_gen :: gen
  k_code :: bytes
  k_base :: "64 word"
  k_env :: scope

definition linked :: "ctx \<Rightarrow> bool" where
  "linked K \<longleftrightarrow>
     (\<exists>a. link (Some (link_offsets (k_gen K))) (g_asm (k_gen K)) = Inr a \<and> k_code K = code a) \<and>
     gen_ok (k_gen K) \<and> length (k_code K) < 2 ^ 64 \<and>
     (\<forall>n p. e_addr (k_env K) n = Some p \<longrightarrow>
        (\<exists>off. map_of (data_layout (k_gen K)) n = Some off \<and> p = k_base K + of_int (data_start (k_gen K) + off)))"

text \<open>The constants the generator knows, a structure name being its size.\<close>

definition gen_const :: "gen \<Rightarrow> string \<Rightarrow> int option" where
  "gen_const g n =
    (case const_value n g of Some v \<Rightarrow> Some v
     | None \<Rightarrow> if map_of (data_layout g) n = None then map_option si_size (map_of (structs g) n) else None)"

definition gen_field :: "gen \<Rightarrow> string \<Rightarrow> string \<Rightarrow> int option" where
  "gen_field g st f = (case field_offset st f g of Inl _ \<Rightarrow> None | Inr v \<Rightarrow> Some v)"

text \<open>The generator outside of functions, with the constants of the program.\<close>

definition sees :: "scope \<Rightarrow> gen \<Rightarrow> bool" where
  "sees E g \<longleftrightarrow> fn_locals g = [] \<and> fn_args g = [] \<and> \<not> in_fn g \<and>
     (\<forall>n. e_const E n = gen_const g n) \<and> (\<forall>st f. e_field E st f = gen_field g st f)"

subsection \<open>What the statements of the core leave alone\<close>

definition same_frame :: "gen \<Rightarrow> gen \<Rightarrow> bool" where
  "same_frame g g' \<longleftrightarrow> fn_locals g' = fn_locals g \<and> fn_args g' = fn_args g \<and> in_fn g' = in_fn g \<and>
     baremetal g' = baremetal g \<and> string_lens g' = string_lens g \<and> data_consts g' = data_consts g \<and>
     data_layout g' = data_layout g \<and> structs g' = structs g"

interpretation frame: state_preorder same_frame
  by unfold_locales (simp_all add: same_frame_def)

lemma sees_frame: "same_frame g g' \<Longrightarrow> sees E g \<Longrightarrow> sees E g'"
proof -
  assume f: "same_frame g g'" and s: "sees E g"
  have "const_value n g' = const_value n g" "field_offset st fd g' = field_offset st fd g" for n st fd
    using f by (simp_all add: same_frame_def const_value_def field_offset_def)
  then have "gen_const g' n = gen_const g n" "gen_field g' st fd = gen_field g st fd" for n st fd
    using f by (auto simp: same_frame_def gen_const_def gen_field_def split: option.split)
  then show "sees E g'" using f s by (simp add: same_frame_def sees_def)
qed

lemma frame_asm [closed]: "within same_frame (asm_do f)"
  by (auto simp: within_def asm_do_def bindE_Inr_iff same_frame_def)

lemma frame_res [closed]: "(\<And>r. within same_frame (k r)) \<Longrightarrow> within same_frame (with_res n k)"
  by (auto simp: within_def with_res_def bindE_Inr_iff)

lemma frame_skip [closed]: "within same_frame skip" "within same_frame (cg_fail e)"
  by (simp_all add: within_def skip_def cg_fail_def frame.refl)

lemma frame_mode [closed]: "within same_frame set_deterministic"
  by (simp add: within_def set_deterministic_def same_frame_def)

lemma frame_expr [closed]: "within same_frame (eval_expr e d)"
proof (induction e arbitrary: d)
  case (BinExpr opn l r)
  show ?case unfolding eval_expr.simps combine_op_def by (intro closed frame.fold BinExpr)
qed (simp_all only: eval_expr.simps eval_ident_def [abs_def]; intro closed frame.fold frame.skip)+

lemma frame_read: "(\<And>x. within same_frame (f x)) \<Longrightarrow> within same_frame (\<lambda>g. f (t g) g)"
  by (simp add: within_def)

lemma frame_base [closed]:
  assumes "\<And>b. within same_frame (k b)"
  shows "within same_frame (base_reg e k)"
  unfolding base_reg_def by (cases e; simp only: expr.case; intro closed frame.fold assms)

lemma frame_index [closed]:
  assumes "\<And>i. within same_frame (k i)"
  shows "within same_frame (with_index ix k)"
proof (cases ix)
  case (Some e)
  show ?thesis
    unfolding with_index_def Some option.case by (cases e; simp only: expr.case; intro closed frame.fold assms)
qed (simp add: with_index_def assms)

lemma frame_offset [closed]: "(\<And>v. within same_frame (h v)) \<Longrightarrow> within same_frame (with_offset e h)"
  unfolding with_offset_def [abs_def] by (rule within_read)

lemma frame_access [closed]:
  "within same_frame (load_sized sz d b off i sc)" "within same_frame (store_sized sz b off d i sc)"
  unfolding load_sized_def store_sized_def by (intro closed; fail)+

subsection \<open>Well-behaved emitters\<close>

definition tame :: "cg \<Rightarrow> bool" where
  "tame f \<longleftrightarrow> emits_code f \<and> within same_frame f"

named_theorems tame_rules "emitters of core statements"

lemma tame_seq [tame_rules]: "list_all tame fs \<Longrightarrow> tame (seqE fs)"
  "list_all tame []" "tame f \<Longrightarrow> list_all tame fs \<Longrightarrow> list_all tame (f # fs)"
  "(\<And>x. tame (h x)) \<Longrightarrow> list_all tame (map h xs)"
  "list_all tame fs \<Longrightarrow> list_all tame gs \<Longrightarrow> list_all tame (fs @ gs)"
  by (auto simp: tame_def list_all_iff intro!: codes.fold frame.fold)

lemma frame_ops: "within same_frame (cpu_bin_op opn d v lit)" "within same_frame (cpu_unary_op opn d)"
  "within same_frame (combine_op opn)"
  unfolding cpu_bin_op_def cpu_unary_op_def combine_op_def by (intro closed frame.fold; fail)+

lemma tame_parts [tame_rules]:
  "quiet_op m \<Longrightarrow> tame (asm_do m)" "tame skip" "tame (eval_expr e d)" "tame (cpu_bin_op opn d v lit)"
  "tame (cpu_unary_op opn d)" "tame f \<Longrightarrow> tame g \<Longrightarrow> tame (if c then f else g)"
  "tame (load_sized sz d b off i sc)" "tame (store_sized sz b off d i sc)" "tame (combine_op opn)"
  "(\<And>r. tame (k r)) \<Longrightarrow> tame (with_res n k)" "(\<And>r. tame (k r)) \<Longrightarrow> tame (base_reg e k)"
  "(\<And>i. tame (l i)) \<Longrightarrow> tame (with_index ix l)" "(\<And>v. tame (h v)) \<Longrightarrow> tame (with_offset e h)"
  unfolding tame_def
  by (auto intro!: closed frame_ops codes.asm codes.skip codes.choice codes.with_res codes.eval_expr_emit
      codes.cpu_ops_emit codes.combine_op_emit codes.base_emit codes.with_index_emit codes.with_offset_emit)

subsection \<open>Triples of linked code\<close>

text \<open>The processor at the place the generator has come to.\<close>

definition at :: "ctx \<Rightarrow> gen \<Rightarrow> mach \<Rightarrow> mach" where
  "at K g m = at_rip (k_base K + of_nat (length (code (g_asm g)))) m"

definition hoare :: "ctx \<Rightarrow> (mach \<Rightarrow> bool) \<Rightarrow> cg \<Rightarrow> (mach \<Rightarrow> bool) \<Rightarrow> bool" where
  "hoare K P f R \<longleftrightarrow> tame f \<and>
     (\<forall>g g' m. f g = Inr g' \<longrightarrow> gen_ok g \<longrightarrow> sees (k_env K) g \<longrightarrow> gen_step g' (k_gen K) \<longrightarrow> P m \<longrightarrow>
        (\<exists>j m'. steps (k_base K) (k_code K) j (at K g m) = Some (at K g' m') \<and> R m'))"

lemma hoare_tame: "hoare K P f R \<Longrightarrow> tame f"
  by (simp add: hoare_def)

lemma hoareD:
  "hoare K P f R \<Longrightarrow> f g = Inr g' \<Longrightarrow> gen_ok g \<Longrightarrow> sees (k_env K) g \<Longrightarrow> gen_step g' (k_gen K) \<Longrightarrow> P m \<Longrightarrow>
     \<exists>j m'. steps (k_base K) (k_code K) j (at K g m) = Some (at K g' m') \<and> R m'"
  unfolding hoare_def by blast

lemma hoare_weaken:
  "hoare K P f R \<Longrightarrow> (\<And>m. P' m \<Longrightarrow> P m) \<Longrightarrow> (\<And>m. R m \<Longrightarrow> R' m) \<Longrightarrow> hoare K P' f R'"
  unfolding hoare_def by blast

lemma hoare_post: "hoare K P f R \<Longrightarrow> (\<And>m. R m \<Longrightarrow> R' m) \<Longrightarrow> hoare K P f R'"
  by (rule hoare_weaken)

lemma hoare_each: "(\<And>m0. P m0 \<Longrightarrow> hoare K (\<lambda>m. m = m0) f R) \<Longrightarrow> tame f \<Longrightarrow> hoare K P f R"
  unfolding hoare_def by blast

lemma tame_step:
  assumes "tame f" and "f g = Inr g'"
  shows "gen_step g g'" and "gen_ok g \<Longrightarrow> gen_ok g'" and "sees E g \<Longrightarrow> sees E g'"
proof -
  show s: "gen_step g g'" using assms by (auto simp: tame_def dest: withinD)
  then show "gen_ok g \<Longrightarrow> gen_ok g'" by (simp add: gen_step_def)
  show "sees E g \<Longrightarrow> sees E g'" using assms sees_frame by (auto simp: tame_def dest: withinD)
qed

lemma hoare_Cons:
  assumes f: "hoare K P f R" and fs: "hoare K R (seqE fs) S"
  shows "hoare K P (seqE (f # fs)) S"
  unfolding hoare_def
proof (intro conjI allI impI)
  have t: "tame f" "tame (seqE fs)" using hoare_tame f fs by blast+
  then have "emits_code (seqE [f, seqE fs])" "within same_frame (seqE [f, seqE fs])"
    by (auto simp: tame_def intro!: codes.fold frame.fold)
  then show "tame (seqE (f # fs))" by (simp only: tame_def seqE_last)
  fix g g' m
  assume a: "seqE (f # fs) g = Inr g'" and g: "gen_ok g" "sees (k_env K) g" "gen_step g' (k_gen K)" "P m"
  obtain g1 where g1: "f g = Inr g1" "seqE fs g1 = Inr g'" using a by (rule seqE_ConsE)
  note s1 = tame_step [OF t(1) g1(1)] and s2 = tame_step(1) [OF t(2) g1(2)]
  have "gen_step g1 (k_gen K)" by (rule step.trans [OF s2 g(3)])
  from hoareD [OF f g1(1) g(1,2) this g(4)] obtain j m1 where
    1: "steps (k_base K) (k_code K) j (at K g m) = Some (at K g1 m1)" "R m1" by blast
  from hoareD [OF fs g1(2) s1(2) [OF g(1)] s1(3) [OF g(2)] g(3) 1(2)] obtain k m2 where
    2: "steps (k_base K) (k_code K) k (at K g1 m1) = Some (at K g' m2)" "S m2" by blast
  from 1 2 show "\<exists>j m'. steps (k_base K) (k_code K) j (at K g m) = Some (at K g' m') \<and> S m'"
    by (intro exI [of _ "j + k"] exI [of _ m2]) (simp add: steps_add)
qed

lemma hoare_Nil: "(\<And>m. P m \<Longrightarrow> R m) \<Longrightarrow> hoare K P (seqE []) R"
  and hoare_skip: "(\<And>m. P m \<Longrightarrow> R m) \<Longrightarrow> hoare K P skip R"
proof -
  assume PR: "\<And>m. P m \<Longrightarrow> R m"
  have "tame (seqE [])" "tame skip" by (intro tame_rules)+
  with PR show "hoare K P (seqE []) R" "hoare K P skip R"
    by (auto simp: hoare_def skip_def intro!: exI [of _ 0])
qed

lemma hoare_single: "hoare K P f R \<Longrightarrow> hoare K P (seqE [f]) R"
  by (rule hoare_Cons, assumption) (rule hoare_Nil)

lemma hoare_append: "hoare K P (seqE fs) R \<Longrightarrow> hoare K R (seqE gs) S \<Longrightarrow> hoare K P (seqE (fs @ gs)) S"
proof -
  assume a: "hoare K P (seqE fs) R" "hoare K R (seqE gs) S"
  have "seqE (fs @ gs) = seqE [seqE fs, seqE gs]"
    by (intro ext) (simp only: seqE_append seqE.simps(2) [of "seqE fs"] seqE_single)
  with hoare_Cons [OF a(1) hoare_single [OF a(2)]] show ?thesis by simp
qed

text \<open>Then, for each state the first part may end in.\<close>

lemma hoare_then:
  "hoare K P f R \<Longrightarrow> (\<And>m1. R m1 \<Longrightarrow> hoare K (\<lambda>m. m = m1) (seqE fs) S) \<Longrightarrow> tame (seqE fs) \<Longrightarrow>
     hoare K P (seqE (f # fs)) S"
  by (rule hoare_Cons, assumption) (rule hoare_each)

lemma hoare_cong:
  assumes "hoare K P f' R" and "tame f"
    and "\<And>g g'. sees (k_env K) g \<Longrightarrow> f g = Inr g' \<Longrightarrow> f' g = Inr g'"
  shows "hoare K P f R"
  using assms unfolding hoare_def by blast

lemma hoare_res:
  assumes "resolve n = Inr r" and "hoare K P (k r) R" and "\<And>r. tame (k r)"
  shows "hoare K P (with_res n k) R"
  by (rule hoare_cong [OF assms(2)]) (use assms in \<open>auto intro: tame_rules simp: with_res_def\<close>)

subsection \<open>Bytes and operands of the linked code\<close>

lemma linked_bytes:
  assumes a: "link base h = Inr a" and h: "wf_asm h" and a1: "wf_asm a1" and a2: "appends a2 h"
    and c: "code a2 = code a1 @ bs @ cs" and r: "relocs a2 = relocs a1 @ rs"
    and new: "\<forall>r \<in> set rs. length (code a1) + length bs \<le> r_offset r"
  shows "slice (length (code a1)) (length bs) (code a) = bs"
    and "length (code a1) + length bs + length cs \<le> length (code a)"
proof -
  obtain ds rs' where d: "code h = code a2 @ ds" "relocs h = relocs a2 @ rs'"
    "list_all (\<lambda>r. length (code a2) \<le> r_offset r) rs'"
    using a2 by (auto simp: appends_def)
  note fr = link_frame [OF a h]
  show len: "length (code a1) + length bs + length cs \<le> length (code a)"
    using fr(1) by (simp add: d(1) c)
  have out: "\<not> in_hole k x" if k: "length (code a1) \<le> k" "k < length (code a1) + length bs" and x: "x \<in> set (relocs h)" for k x
  proof -
    consider "x \<in> set (relocs a1)" | "x \<in> set rs" | "x \<in> set rs'" using x by (auto simp: d(2) r)
    then show ?thesis
      using k a1 new d(3) by cases (auto simp: wf_asm_def list_all_iff hole_ok_def in_hole_def c)
  qed
  have "slice (length (code a1)) (length bs) (code a) = slice (length (code a1)) (length bs) (code h)"
  proof (rule slice_eqI)
    fix k assume k: "length (code a1) \<le> k" "k < length (code a1) + length bs"
    then show "code a ! k = code h ! k" using out k by (intro fr(4)) (auto simp: d(1) c)
  qed (use fr(1) len in simp_all)
  then show "slice (length (code a1)) (length bs) (code a) = bs" by (simp add: slice_def d(1) c)
qed

lemma slice_split: "slice n (length bs) c = bs \<Longrightarrow> n + length bs \<le> length c \<Longrightarrow>
    c = take n c @ bs @ drop (n + length bs) c"
  by (metis add.commute append_take_drop_id drop_drop slice_def)

lemma rel32_lands:
  assumes "r_offset r = n" and "n + 4 \<le> length c"
  shows "read_le 4 (drop n c) = Some (from_bytes_le (slice n 4 c), drop (n + 4) c)"
    and "base + of_nat (n + 4) + sext 4 (from_bytes_le (slice n 4 c)) = base + (of_int (rel32_target c r) :: 64 word)"
proof -
  show "read_le 4 (drop n c) = Some (from_bytes_le (slice n 4 c), drop (n + 4) c)"
    using assms(2) by (simp add: read_le_def slice_def add.commute)
  have "int (n + 4) + signed_of 4 (from_bytes_le (slice n 4 c)) = rel32_target c r"
    using assms(1) by (simp add: rel32_target_def)
  then have "(of_int (int (n + 4) + signed_of 4 (from_bytes_le (slice n 4 c))) :: 64 word) = of_int (rel32_target c r)"
    by simp
  then show "base + of_nat (n + 4) + sext 4 (from_bytes_le (slice n 4 c)) = base + (of_int (rel32_target c r) :: 64 word)"
    unfolding sext_def of_int_add by (simp add: add.assoc)
qed

text \<open>An instruction with an address: the opcode bytes \<open>ops\<close>, then the field the linker filled.\<close>

lemma linked_rel32:
  assumes c: "code a2 = code a1 @ ops @ [0, 0, 0, 0]" and r: "relocs a2 = relocs a1 @ [r]"
    "r_offset r = length (code a1) + length ops"
    and a: "link base h = Inr a" and h: "wf_asm h" and ok: "wf_asm a1" and ap: "appends a2 h"
    and dec: "\<And>bs. decode (ops @ bs) = (case read_le 4 bs of None \<Rightarrow> None | Some (v, r) \<Rightarrow> Some (ins v, r))"
    and len: "length (code a) < 2 ^ 64"
  obtains v where "\<And>m. rip m = b + of_nat (length (code a1)) \<Longrightarrow>
      steps b (code a) 1 m = exec (ins v) (m\<lparr>rip := b + of_nat (length (code a2))\<rparr>)"
    "b + of_nat (length (code a2)) + sext 4 v = b + of_int (rel32_target (code a) r)"
proof -
  let ?n = "length (code a1) + length ops" and ?c = "code a"
  note lb = linked_bytes [OF a h ok ap c r(1)]
  have sp: "?c = take (length (code a1)) ?c @ ops @ drop ?n ?c" and le: "?n + 4 \<le> length ?c"
    using lb r(2) by (auto intro!: slice_split)
  then have dr: "drop (length (code a1)) ?c = ops @ drop ?n ?c"
    by (metis add_leD1 append_eq_conv_conj le_add1 length_take min.absorb2 order.trans)
  have off: "length ?c - length (drop (?n + 4) ?c) = ?n + 4" using le by simp
  have "step b ?c m = exec (ins (from_bytes_le (slice ?n 4 ?c))) (m\<lparr>rip := b + of_nat (?n + 4)\<rparr>)"
    if m: "rip m = b + of_nat (length (code a1))" for m
  proof -
    have "unat (rip m - b) = length (code a1)" using m le len by (simp add: unat_of_nat)
    then show ?thesis
      by (simp only: step_def Let_def dr dec rel32_lands(1) [OF r(2) le] option.case prod.case off)
  qed
  moreover have "?n + 4 = length (code a2)" by (simp add: c)
  ultimately show thesis
    using rel32_lands(2) [OF r(2) le, of b] by (intro that) (simp_all split: option.split)
qed

lemma hoare_triple:
  assumes K: "linked K" and t: "\<And>g. sees (k_env K) g \<Longrightarrow> triple P f g R" and "tame f"
  shows "hoare K P f R"
  unfolding hoare_def
proof (intro conjI allI impI)
  fix g g' m
  assume g: "f g = Inr g'" "gen_ok g" "sees (k_env K) g" "gen_step g' (k_gen K)" "P m"
  let ?n = "length (code (g_asm g))" and ?c = "k_code K" and ?b = "k_base K"
  obtain a where a: "link (Some (link_offsets (k_gen K))) (g_asm (k_gen K)) = Inr a" "?c = code a"
    and h: "wf_asm (g_asm (k_gen K))" and len: "length ?c < 2 ^ 64"
    using K by (auto simp: linked_def gen_ok_def)
  obtain "is" m1 where i: "gen_gives f g is" "list_all straight is" "exec_list is m = Some m1" "R m1"
    using t [OF g(3)] g(5) unfolding triple_def by blast
  obtain bs where bs': "f g = Inr (at_code g (code (g_asm g) @ bs))" "encodes_all bs is"
    using i(1) by (rule gen_givesE)
  then have bs: "g' = at_code g (code (g_asm g) @ bs)" "encodes_all bs is" using g(1) by simp_all
  have c: "code (g_asm g') = code (g_asm g) @ bs @ []" "relocs (g_asm g') = relocs (g_asm g) @ []"
    using bs(1) by simp_all
  have "wf_asm (g_asm g)" "appends (g_asm g') (g_asm (k_gen K))"
    using g(2,4) by (simp_all add: gen_ok_def gen_step_def)
  note lb = linked_bytes [OF a(1) h this c]
  have sp: "?c = take ?n ?c @ bs @ drop (?n + length bs) ?c"
    unfolding a(2) using lb by (intro slice_split) simp_all
  have le: "?n \<le> length ?c" using lb(2) by (simp add: a(2))
  have "exec_list is (at K g m) = Some (at_rip (rip (at K g m)) m1)"
    unfolding at_def exec_list_rip [OF i(2)] i(3) by simp
  then have "steps ?b (take ?n ?c @ bs @ drop (?n + length bs) ?c) (length is) (at K g m) =
      Some (at_rip (?b + of_nat (length (take ?n ?c) + length bs)) (at_rip (rip (at K g m)) m1))"
    using le len sp by (intro steps_block [OF bs(2) i(2)]) (simp_all add: at_def)
  then have "steps ?b ?c (length is) (at K g m) = Some (at K g' m1)"
    unfolding sp [symmetric] using le c(1) by (simp add: at_def min_absorb2)
  with i(4) show "\<exists>j m'. steps ?b ?c j (at K g m) = Some (at K g' m') \<and> R m'" by blast
qed (rule assms(3))

text \<open>The address of data.\<close>

definition rip_insn :: "int \<Rightarrow> int \<Rightarrow> insn" where
  "rip_insn d v = rex_insn [] M1 0x8D d (Some (ORip (signed_of 4 v))) 0"

lemma decode_lea:
  assumes "0 \<le> d" "d < 16"
  shows "decode ([u8 (rex 1 (drop_bit 3 d) 0 0), u8 0x8D, u8 (modrm 0 (d AND 7) 5)] @ bs) =
    (case read_le 4 bs of None \<Rightarrow> None | Some (v, r) \<Rightarrow> Some (rip_insn d v, r))"
proof -
  have "rm_operand 0 5 0 0 bs = (case read_le 4 bs of None \<Rightarrow> None | Some (v, r) \<Rightarrow> Some (ORip (signed_of 4 v), r))"
    by (simp add: rm_operand_def with_disp_def split: option.split)
  then have "decode_tail [] True None 1 (d div 8) 0 0 M1 (u8 0x8D # u8 (modrm 0 (d mod 8) 5) # bs) =
      (case read_le 4 bs of None \<Rightarrow> None | Some (v, r) \<Rightarrow> Some (rip_insn d v, r))"
    using fmt_lea(1) reg_div_8 [OF assms]
    by (simp add: decode_tail_def field_modrm imm_len_def read_le_0 rip_insn_def rex_insn_def enc_simps split: option.split)
  moreover have "decode ([u8 (rex 1 (d div 8) 0 0), u8 0x8D, u8 (modrm 0 (d mod 8) 5)] @ bs) =
      decode_tail [] True None 1 (d div 8) 0 0 M1 (u8 0x8D # u8 (modrm 0 (d mod 8) 5) # bs)"
    using reg_div_8 [OF assms] fmt_lea(2) by (simp add: enc_simps)
  ultimately show ?thesis by (simp only: drop_3 and_7)
qed

lemma exec_lea_rip: "exec (rip_insn d v) m = Some (set_rg d (rip m + sext 4 v) m)"
  by (simp add: exec_def exec_rm_def rip_insn_def rex_insn_def eff_addr_def sext_def)

lemma lea_parts:
  assumes "asm_do (lea_reg_label dst l) g = Inr g'" and "reg_num dst = Inr d"
  obtains r where "code (g_asm g') = code (g_asm g) @ [u8 (rex 1 (drop_bit 3 d) 0 0), u8 0x8D, u8 (modrm 0 (d AND 7) 5)] @ [0, 0, 0, 0]"
    "relocs (g_asm g') = relocs (g_asm g) @ [r]" "r_target r = l"
    "r_offset r = length (code (g_asm g)) + length [u8 (rex 1 (drop_bit 3 d) 0 0), u8 0x8D, u8 (modrm 0 (d AND 7) 5)]"
  using assms by (auto simp: asm_do_def bindE_Inr_iff lea_reg_label_def with_reg_def emits_def emit_rel32_fixup_def Let_def)

lemma tame_lea [tame_rules]: "tame (asm_do (lea_reg_label dst l))"
  by (rule tame_parts(1)) (simp only: codes.sides)

lemma linked_target:
  assumes "linked K" and "gen_step g' (k_gen K)" and "relocs (g_asm g') = rs @ [r]"
  shows "map_of (link_offsets (k_gen K)) (r_target r) = Some (rel32_target (k_code K) r)"
proof -
  obtain a where a: "link (Some (link_offsets (k_gen K))) (g_asm (k_gen K)) = Inr a" "k_code K = code a"
    and h: "wf_asm (g_asm (k_gen K))" using assms(1) by (auto simp: linked_def gen_ok_def)
  have "r \<in> set (relocs (g_asm (k_gen K)))" using assms(2,3) by (auto simp: gen_step_def appends_def)
  from link_reaches [OF a(1) h this] show ?thesis by (auto simp: link_table_def a(2))
qed

text \<open>One instruction with a label, in the linked program.\<close>

lemma linked_step:
  assumes K: "linked K" and g: "gen_ok g" "gen_step g' (k_gen K)"
    and c: "code (g_asm g') = code (g_asm g) @ ops @ [0, 0, 0, 0]" "relocs (g_asm g') = relocs (g_asm g) @ [r]"
    "r_offset r = length (code (g_asm g)) + length ops"
    and dec: "\<And>bs. decode (ops @ bs) = (case read_le 4 bs of None \<Rightarrow> None | Some (v, r) \<Rightarrow> Some (ins v, r))"
  obtains v where "\<And>m. steps (k_base K) (k_code K) 1 (at K g m) = exec (ins v) (at K g' m)"
    "k_base K + of_nat (length (code (g_asm g'))) + sext 4 v = k_base K + of_int (rel32_target (k_code K) r)"
proof -
  obtain a where a: "link (Some (link_offsets (k_gen K))) (g_asm (k_gen K)) = Inr a" "k_code K = code a"
    and h: "wf_asm (g_asm (k_gen K))" "length (code a) < 2 ^ 64" using K by (auto simp: linked_def gen_ok_def)
  have ok: "wf_asm (g_asm g)" "appends (g_asm g') (g_asm (k_gen K))" using g by (simp_all add: gen_ok_def gen_step_def)
  note l = linked_rel32 [OF c a(1) h(1) ok dec h(2), of "k_base K"]
  show thesis
  proof (rule l)
    fix v assume v: "\<And>m. rip m = k_base K + of_nat (length (code (g_asm g))) \<Longrightarrow>
        steps (k_base K) (code a) 1 m = exec (ins v) (m\<lparr>rip := k_base K + of_nat (length (code (g_asm g')))\<rparr>)"
      "k_base K + of_nat (length (code (g_asm g'))) + sext 4 v = k_base K + of_int (rel32_target (code a) r)"
    have "steps (k_base K) (k_code K) 1 (at K g m) = exec (ins v) (at K g' m)" for m
      using v(1) [of "at K g m"] by (simp add: at_def a(2) del: steps.simps)
    then show thesis using v(2) a(2) by (intro that) simp_all
  qed
qed

lemma hoare_lea:
  assumes K: "linked K" and p: "e_addr (k_env K) n = Some p" and dst: "reg_num dst = Inr d"
  shows "hoare K (\<lambda>m. m = m0) (asm_do (lea_reg_label dst (''__data_'' @ n))) (\<lambda>m. m = set_rg d p m0)"
  unfolding hoare_def
proof (intro conjI allI impI)
  fix g g' and m :: mach
  assume g: "asm_do (lea_reg_label dst (''__data_'' @ n)) g = Inr g'" "gen_ok g" "gen_step g' (k_gen K)" "m = m0"
  have d: "0 \<le> d" "d < 16" using reg_num_range [OF dst] by simp_all
  obtain off where off: "map_of (data_layout (k_gen K)) n = Some off" "p = k_base K + of_int (data_start (k_gen K) + off)"
    using K p by (auto simp: linked_def)
  obtain r where r: "code (g_asm g') = code (g_asm g) @ [u8 (rex 1 (drop_bit 3 d) 0 0), u8 0x8D, u8 (modrm 0 (d AND 7) 5)] @ [0, 0, 0, 0]"
    "relocs (g_asm g') = relocs (g_asm g) @ [r]" "r_target r = ''__data_'' @ n"
    "r_offset r = length (code (g_asm g)) + length [u8 (rex 1 (drop_bit 3 d) 0 0), u8 0x8D, u8 (modrm 0 (d AND 7) 5)]"
    using g(1) dst by (rule lea_parts)
  obtain v where v: "\<And>m. steps (k_base K) (k_code K) 1 (at K g m) = exec (rip_insn d v) (at K g' m)"
      "k_base K + of_nat (length (code (g_asm g'))) + sext 4 v = k_base K + of_int (rel32_target (k_code K) r)"
    by (rule linked_step [OF K g(2,3) r(1,2,4) decode_lea [OF d]]) (rule that)
  have "gen_ok (k_gen K)" using K by (simp add: linked_def)
  then have "rel32_target (k_code K) r = data_start (k_gen K) + off"
    using linked_target [OF K g(3) r(2)] off(1)
    by (simp add: link_offsets_lookup r(3)) (simp add: starts_data_def)
  then have "steps (k_base K) (k_code K) 1 (at K g m) = Some (at K g' (set_rg d p m0))"
    using v off(2) g(4) by (simp add: exec_lea_rip at_def del: steps.simps)
  then show "\<exists>j m'. steps (k_base K) (k_code K) j (at K g m) = Some (at K g' m') \<and> m' = set_rg d p m0" by blast
qed (rule tame_lea)

subsection \<open>Leaf operands\<close>

text \<open>The registers of the core have the values \<open>\<rho>\<close>.\<close>

definition reads :: "regs \<Rightarrow> mach \<Rightarrow> bool" where
  "reads \<rho> m \<longleftrightarrow> (\<forall>r. r \<noteq> 4 \<longrightarrow> r \<notin> scratch \<longrightarrow> rg m r = \<rho> r)"

lemma triple_puts: "puts f g d val \<Longrightarrow> triple (\<lambda>m. m = m0) f g (\<lambda>m. m = set_rg d (val m0) m0)"
  unfolding puts_def triple_def by blast

text \<open>A leaf that is not the address of data.\<close>

lemma leaf_source:
  assumes "sees E g" and "core_val E \<rho> e = Some v" and "is_leaf e" and "reads \<rho> m"
    and "\<And>n. e = Ident n \<Longrightarrow> e_const E n \<noteq> None"
  shows "src_ok [] (leaf_src g e) \<and> src_val m (the (leaf_src g e)) = v"
proof (cases e)
  case (Reg n)
  then obtain r where "core_reg n = Some r" "v = \<rho> r" using assms(2) by auto
  then show ?thesis using Reg assms(4) by (auto elim!: core_regE simp: phys_src_def reads_def)
next
  case (Ident n)
  then obtain i where i: "gen_const g n = Some i" "v = word_of_int i"
    using assms by (auto simp: core_name_def sees_def)
  have "ident_src g n = Some (SConst i)"
    using i(1) assms(1) by (auto simp: gen_const_def ident_src_def sees_def split: option.splits if_splits)
  then show ?thesis using Ident i by simp
next
  case (StructFieldRef st f)
  then obtain i where "e_field E st f = Some i" "v = word_of_int i" using assms(2) by auto
  then show ?thesis
    using StructFieldRef assms(1) by (auto simp: sees_def gen_field_def split: sum.splits)
qed (use assms in auto)

lemma eval_data:
  assumes "sees E g" and "e_const E n = None" and "eval_ident n dst g = Inr g'"
  shows "asm_do (lea_reg_label dst (''__data_'' @ n)) g = Inr g'"
proof -
  have "gen_const g n = None" "fn_args g = []" "fn_locals g = []" using assms(1,2) by (auto simp: sees_def)
  then show ?thesis
    using assms(3) by (auto simp: eval_ident_def gen_const_def split: option.splits if_splits)
qed

lemma hoare_leaf:
  assumes K: "linked K" and v: "core_val (k_env K) \<rho> e = Some v" and e: "is_leaf e"
    and dst: "reg_num dst = Inr d" and m0: "reads \<rho> m0"
  shows "hoare K (\<lambda>m. m = m0) (eval_expr e dst) (\<lambda>m. m = set_rg d v m0)"
proof (cases "\<exists>n. e = Ident n \<and> e_const (k_env K) n = None")
  case True
  then obtain n where n: "e = Ident n" "e_const (k_env K) n = None" by blast
  then have "e_addr (k_env K) n = Some v" using v by (simp add: core_name_def)
  then show ?thesis
    unfolding n(1) eval_expr.simps using eval_data [OF _ n(2)] tame_parts(3) [of e dst] n(1)
    by (intro hoare_cong [OF hoare_lea [OF K _ dst]]) simp_all
next
  case False
  show ?thesis
  proof (rule hoare_triple [OF K _ tame_parts(3)])
    fix g assume "sees (k_env K) g"
    then have "src_ok [] (leaf_src g e)" "src_val m0 (the (leaf_src g e)) = v"
      using leaf_source [OF _ v e m0] False by auto
    with triple_puts [OF puts_leaf [OF dst], of g e m0]
    show "triple (\<lambda>m. m = m0) (eval_expr e dst) g (\<lambda>m. m = set_rg d v m0)" by simp
  qed
qed

subsection \<open>Code between a push and its pop\<close>

lemma tame_stack [tame_rules]: "tame (asm_do (push_reg r))" "tame (asm_do (pop_reg r))"
  "tame (asm_do (mov_reg_reg r q))" "tame (asm_do (cmp_reg_reg r q))"
  by (rule tame_parts(1), simp only: codes.sides)+

lemma hoare_push: "linked K \<Longrightarrow> reg_num r = Inr d \<Longrightarrow>
    (\<And>m. P m \<Longrightarrow> R (push64 (rg m d) m)) \<Longrightarrow> hoare K P (asm_do (push_reg r)) R"
  and hoare_pop: "linked K \<Longrightarrow> reg_num r = Inr d \<Longrightarrow>
    (\<And>m. P m \<Longrightarrow> R (pop64 d m)) \<Longrightarrow> hoare K P (asm_do (pop_reg r)) R"
  and hoare_mov: "linked K \<Longrightarrow> reg_num r = Inr d \<Longrightarrow> reg_num q = Inr s \<Longrightarrow>
    (\<And>m. P m \<Longrightarrow> R (set_rg d (rg m s) m)) \<Longrightarrow> hoare K P (asm_do (mov_reg_reg r q)) R"
  by (rule hoare_triple, assumption, rule triple_push triple_pop triple_mov, assumption+, rule tame_stack)+

lemma hoare_saved:
  assumes K: "linked K" and r: "reg_num r = Inr d" "d \<noteq> 4" "4 \<notin> S" and small: "8 * k + 8 < 2 ^ 64"
    and body: "hoare K (\<lambda>m. m = push64 (rg m0 d) m0) (seqE fs) (\<lambda>m. keeps S k (push64 (rg m0 d) m0) m \<and> T m)"
    and post: "\<And>m m'. T m \<Longrightarrow> (\<And>q. q \<noteq> 4 \<Longrightarrow> rg m' q = (if q = d then rg m0 d else rg m q)) \<Longrightarrow>
      keeps (insert d S) (Suc k) m0 m' \<Longrightarrow> fl m' = fl m \<Longrightarrow> R m'"
  shows "hoare K (\<lambda>m. m = m0) (seqE (asm_do (push_reg r) # fs @ [asm_do (pop_reg r)])) R"
proof (rule hoare_Cons [OF hoare_push [OF K r(1)] hoare_append [OF body hoare_single [OF hoare_pop [OF K r(1)]]]])
  fix m assume m: "keeps S k (push64 (rg m0 d) m0) m \<and> T m"
  note pp = push_pop [OF refl conjunct1 [OF m] r(3) small refl r(2)]
  show "R (pop64 d m)"
    using m pp by (intro post [of m "pop64 d m"]) (simp_all add: pop64_def)
qed simp

subsection \<open>Operands\<close>

lemma tame_mov_if [tame_rules]: "tame (if c then asm_do (mov_reg_reg r q) else skip)"
  by (intro tame_rules)

lemma hoare_combine:
  assumes K: "linked K" and v: "core_arith opn (rg m0 11) (rg m0 12) = Some v" and dst: "reg_num dst = Inr d"
  shows "hoare K (\<lambda>m. m = m0) (seqE [combine_op opn, (if dst \<noteq> ''r11'' then asm_do (mov_reg_reg dst ''r11'') else skip)])
    (\<lambda>m. rg m d = v \<and> keeps {d, 11} 0 m0 m)"
proof (rule hoare_Cons)
  have opn: "opn \<in> set [''+'', ''-'', ''*'']" "binop opn (rg m0 11) (rg m0 12) = v"
    using v by (auto simp: core_arith_def binop_def split: if_splits)
  have "triple (\<lambda>m. m = m0) (combine_op opn) g (\<lambda>m. \<exists>f. m = (set_rg 11 v m0)\<lparr>fl := f\<rparr>)" for g
  proof -
    obtain i where "gen_gives (combine_op opn) g [i]" "straight i"
      "\<And>m. \<exists>f. exec i m = Some ((set_rg 11 (binop opn (rg m 11) (rg m 12)) m)\<lparr>fl := f\<rparr>)"
      using combine_gives [OF opn(1)] by blast
    then show ?thesis unfolding triple_def
      using opn(2) by (intro exI [of _ "[i]"]) (fastforce split: option.split)
  qed
  then show "hoare K (\<lambda>m. m = m0) (combine_op opn) (\<lambda>m. \<exists>f. m = (set_rg 11 v m0)\<lparr>fl := f\<rparr>)"
    by (intro hoare_triple [OF K] tame_rules)
  have d11: "dst = ''r11'' \<Longrightarrow> d = 11" using dst reg_num_rbp(2) by simp
  show "hoare K (\<lambda>m. \<exists>f. m = (set_rg 11 v m0)\<lparr>fl := f\<rparr>)
      (seqE [if dst \<noteq> ''r11'' then asm_do (mov_reg_reg dst ''r11'') else skip]) (\<lambda>m. rg m d = v \<and> keeps {d, 11} 0 m0 m)"
    using d11 by (intro hoare_single)
      (auto intro!: hoare_mov [OF K dst reg_num_rbp(2)] hoare_skip simp: keeps_def)
qed

lemma reads_keeps: "keeps S k m m' \<Longrightarrow> S \<subseteq> scratch \<Longrightarrow> reads \<rho> m \<Longrightarrow> reads \<rho> m'"
  by (auto simp: reads_def keeps_def)

lemma reads_push [simp]: "reads \<rho> (push64 v m) = reads \<rho> m"
  by (simp add: reads_def push64_def)

lemma hoare_operand_leaf:
  assumes "linked K" "is_leaf e" "core_val (k_env K) \<rho> e = Some v" "reg_num dst = Inr d" "reads \<rho> m0"
  shows "hoare K (\<lambda>m. m = m0) (eval_expr e dst) (\<lambda>m. rg m d = v \<and> keeps (insert d {11, 12}) (stack_use e) m0 m)"
  by (rule hoare_post [OF hoare_leaf [OF assms(1,3,2,4,5)]]) (simp add: keeps_def)

lemma hoare_operand:
  assumes K: "linked K"
  shows "core_val (k_env K) \<rho> e = Some v \<Longrightarrow> reg_num dst = Inr d \<Longrightarrow> d \<noteq> 4 \<Longrightarrow> 8 * stack_use e < 2 ^ 64 \<Longrightarrow>
    reads \<rho> m0 \<Longrightarrow> hoare K (\<lambda>m. m = m0) (eval_expr e dst)
      (\<lambda>m. rg m d = v \<and> keeps (insert d {11, 12}) (stack_use e) m0 m)"
proof (induction e arbitrary: v dst d m0)
  case (BinExpr opn l r)
  obtain a b where ab: "core_val (k_env K) \<rho> l = Some a" "core_val (k_env K) \<rho> r = Some b" "core_arith opn a b = Some v"
    using BinExpr.prems(1) by (auto split: option.splits)
  note rn = reg_num_rbp(2,3)
  let ?k = "max (stack_use l) (Suc (stack_use r))" and ?ten = "[eval_expr r ''r12'']"
  let ?tl = "[combine_op opn, if dst \<noteq> ''r11'' then asm_do (mov_reg_reg dst ''r11'') else skip]"
  have small: "8 * stack_use l < 2 ^ 64" "8 * stack_use r < 2 ^ 64" "8 * stack_use r + 8 < 2 ^ 64"
    using BinExpr.prems(4) by simp_all
  have 1: "hoare K (\<lambda>m. m = m0) (eval_expr l ''r11'') (\<lambda>m. rg m 11 = a \<and> keeps {11, 12} (stack_use l) m0 m)"
    using BinExpr.IH(1) [OF ab(1) rn(1) _ small(1) BinExpr.prems(5)] by simp
  have 2: "hoare K (\<lambda>m. m = m1) (seqE ((asm_do (push_reg ''r11'') # ?ten @ [asm_do (pop_reg ''r11'')]) @ ?tl))
      (\<lambda>m. rg m d = v \<and> keeps (insert d {11, 12}) ?k m0 m)"
    if m1: "rg m1 11 = a \<and> keeps {11, 12} (stack_use l) m0 m1" for m1
  proof (rule hoare_append [OF hoare_saved [OF K rn(1) _ _ small(3)]])
    have "reads \<rho> m1" using reads_keeps [OF conjunct2 [OF m1] _ BinExpr.prems(5)] by (simp add: scratch_def)
    then show "hoare K (\<lambda>m. m = push64 (rg m1 11) m1) (seqE ?ten)
        (\<lambda>m. keeps {12, 11} (stack_use r) (push64 (rg m1 11) m1) m \<and> rg m 12 = b)"
      using BinExpr.IH(2) [OF ab(2) rn(2) _ small(2), of "push64 (rg m1 11) m1"]
      by (intro hoare_single) (simp add: insert_commute conj_commute)
    fix m m'
    assume "rg m 12 = b" "\<And>q. q \<noteq> 4 \<Longrightarrow> rg m' q = (if q = 11 then rg m1 11 else rg m q)"
      and "keeps (insert 11 {12, 11}) (Suc (stack_use r)) m1 m'"
    then show "rg m' 11 = a \<and> rg m' 12 = b \<and> keeps {11, 12} (Suc (stack_use r)) m1 m'"
      using m1 by (simp add: insert_commute)
  next
    show "hoare K (\<lambda>m. rg m 11 = a \<and> rg m 12 = b \<and> keeps {11, 12} (Suc (stack_use r)) m1 m) (seqE ?tl)
        (\<lambda>m. rg m d = v \<and> keeps (insert d {11, 12}) ?k m0 m)"
    proof (rule hoare_each)
      fix m2 assume m2: "rg m2 11 = a \<and> rg m2 12 = b \<and> keeps {11, 12} (Suc (stack_use r)) m1 m2"
      have k: "keeps (insert d {11, 12}) ?k m0 m1" "keeps (insert d {11, 12}) ?k m1 m2"
        using m1 m2 by (auto elim: keeps_weaken)
      have "keeps (insert d {11, 12}) ?k m2 m" if "keeps {d, 11} 0 m2 m" for m
        using that by (rule keeps_weaken) auto
      then show "hoare K (\<lambda>m. m = m2) (seqE ?tl) (\<lambda>m. rg m d = v \<and> keeps (insert d {11, 12}) ?k m0 m)"
        using m2 ab(3) BinExpr.prems(3) keeps_trans [OF keeps_trans [OF k]]
        by (intro hoare_post [OF hoare_combine [OF K _ BinExpr.prems(2)]]) auto
    qed (intro tame_rules)
  qed simp_all
  have "hoare K (\<lambda>m. m = m0) (seqE (eval_expr l ''r11'' # (asm_do (push_reg ''r11'') # ?ten @ [asm_do (pop_reg ''r11'')]) @ ?tl))
      (\<lambda>m. rg m d = v \<and> keeps (insert d {11, 12}) ?k m0 m)"
    by (rule hoare_then [OF 1 2]) (assumption, simp only: append.simps, intro tame_rules)
  then show ?case by (simp only: eval_expr.simps append.simps stack_use.simps)
qed (rule hoare_operand_leaf [OF K], simp, assumption+)+

text \<open>An operand of a statement.\<close>

definition agrees :: "core \<Rightarrow> mach \<Rightarrow> bool" where
  "agrees s m \<longleftrightarrow> holds s m \<and> (\<forall>a b. c_cmp s = Some (a, b) \<longrightarrow> fl m = sub_flags a b)"

lemma holds_reads: "holds s m \<Longrightarrow> reads (c_regs s) m"
  by (simp add: holds_def reads_def)

lemma unused_upd [simp]: "unused (s\<lparr>c_cmp := c\<rparr>) = unused s" "unused (s\<lparr>c_pc := n\<rparr>) = unused s"
  "unused (s\<lparr>c_regs := \<rho>\<rparr>) = unused s" "unused (s\<lparr>c_mem := \<mu>\<rparr>) = unused s"
  by (simp_all add: unused_def [abs_def])

lemma holds_upd [simp]: "holds (s\<lparr>c_cmp := c\<rparr>) = holds s" "holds (s\<lparr>c_pc := n\<rparr>) = holds s"
  "holds (core_next s) = holds s" "holds (forget b s) = holds s"
  by (simp_all add: holds_def [abs_def] core_next_def forget_def)

lemma agrees_upd [simp]: "agrees (s\<lparr>c_pc := n\<rparr>) = agrees s" "agrees (core_next s) = agrees s"
  by (simp_all add: agrees_def [abs_def] core_next_def)

lemma hoare_value:
  assumes K: "linked K" and v: "core_val (k_env K) (c_regs s) e = Some v" and dst: "reg_num dst = Inr d" "d \<in> scratch"
    and room: "roomy (stack_use e) s"
  shows "hoare K (agrees s) (eval_expr e dst) (\<lambda>m. agrees (forget (is_leaf e) s) m \<and> rg m d = v)"
proof (rule hoare_each [OF _ tame_parts(3)])
  fix m0 assume m0: "agrees s m0"
  then have r: "reads (c_regs s) m0" "holds s m0" by (simp_all add: agrees_def holds_reads)
  show "hoare K (\<lambda>m. m = m0) (eval_expr e dst) (\<lambda>m. agrees (forget (is_leaf e) s) m \<and> rg m d = v)"
  proof (cases "is_leaf e")
    case True
    show ?thesis
      using m0 dst(2) True by (intro hoare_post [OF hoare_leaf [OF K v True dst(1) r(1)]]) (auto simp: agrees_def forget_def)
  next
    case False
    have "8 * stack_use e < 2 ^ 64" "d \<noteq> 4" using roomy_small [OF room] dst(2) by (auto simp: scratch_def)
    then show ?thesis
      using False dst(2) r(2) holds_keeps [OF _ _ room, of "insert d {11, 12}"]
      by (intro hoare_post [OF hoare_operand [OF K v dst(1) _ _ r(1)]])
        (auto simp: agrees_def forget_def scratch_def)
  qed
qed

end
