(* ===== verification/Core_Statements.thy ===== *)
theory Core_Statements
  imports Core_Linked
begin

section \<open>The code of the core statements\<close>

text \<open>
  What the stack and the memory of the core language are in the processor, and for every statement
  without a jump: its code, linked, takes a processor that agrees with the state to one that agrees
  with the state after the statement. Also the code that passes the arguments of a call.
\<close>

subsection \<open>Memory\<close>

lemma load_le_fetch: "load_le n p m = fetch n (mem m) p"
  by (simp add: load_le_def fetch_def)

lemma mem_store_bytes: "mem (store_bytes bs p m) = put_bytes bs p (mem m)"
  by (induction bs arbitrary: p m) simp_all

lemma mem_store_le: "mem (store_le n p v m) = put n p v (mem m)"
  by (simp add: store_le_def put_def mem_store_bytes)

lemma put_bytes_cong: "\<mu> q = \<mu>' q \<Longrightarrow> put_bytes bs p \<mu> q = put_bytes bs p \<mu>' q"
proof (induction bs arbitrary: p \<mu> \<mu>')
  case (Cons b bs)
  then have "(\<mu>(p := b)) q = (\<mu>'(p := b)) q" by simp
  then show ?case unfolding put_bytes.simps by (rule Cons.IH)
qed simp

lemma put_cong: "\<mu> q = \<mu>' q \<Longrightarrow> put n p v \<mu> q = put n p v \<mu>' q"
  unfolding put_def by (rule put_bytes_cong)

lemma put_other: "(\<And>i. i < n \<Longrightarrow> q \<noteq> p + of_nat i) \<Longrightarrow> put n p v \<mu> q = \<mu> q"
  using mem_store_bytes_other [of "to_bytes_le n (uint v)" q p "undefined\<lparr>mem := \<mu>\<rparr>"]
  by (simp add: put_def mem_store_bytes)

lemma put_same: "i < n \<Longrightarrow> n < 2 ^ 64 \<Longrightarrow> put n p v \<mu> (p + of_nat i) = to_bytes_le n (uint v) ! i"
  using mem_store_bytes_same [of i "to_bytes_le n (uint v)" p "undefined\<lparr>mem := \<mu>\<rparr>"]
  by (simp add: put_def mem_store_bytes)

lemma fetch_put [simp]: "word_of_int (fetch 8 (put 8 p v \<mu>) p) = v"
proof -
  have "load64 p (store64 p v (undefined\<lparr>mem := \<mu>\<rparr>)) = v" by simp
  then show ?thesis by (simp add: load64_def store64_def store_le_def [symmetric] load_le_fetch mem_store_le)
qed

lemma fetch_cong: "(\<And>i. i < n \<Longrightarrow> \<mu> (p + of_nat i) = \<mu>' (p + of_nat i)) \<Longrightarrow> fetch n \<mu> p = fetch n \<mu>' p"
  unfolding fetch_def by (intro arg_cong [of _ _ from_bytes_le]) simp

lemma holds_cong:
  "holds s m \<Longrightarrow> c_regs s' = c_regs s \<Longrightarrow> c_sp s' = c_sp s \<Longrightarrow> c_room s' = c_room s \<Longrightarrow>
     (\<And>p. \<not> unused s p \<Longrightarrow> c_mem s' p = c_mem s p) \<Longrightarrow> holds s' m"
  by (simp add: holds_def unused_def)

lemma holds_fetch: "holds s m \<Longrightarrow> readable s n p \<Longrightarrow> fetch n (mem m) p = fetch n (c_mem s) p"
  by (rule fetch_cong) (auto simp: holds_def readable_def list_all_iff)

subsection \<open>The stack\<close>

lemma below_slot_or:
  assumes "below sp (Suc k) p"
  shows "below (sp - 8) k p \<or> (\<exists>i < 8. p = sp - 8 + of_nat i)"
proof -
  obtain j where j: "1 \<le> j" "j \<le> 8 * Suc k" "p = sp - of_nat j" using assms by (auto simp: below_def)
  show ?thesis
  proof (cases "j \<le> 8")
    case True
    then have "p = sp - 8 + of_nat (8 - j)" using j(3) by (simp add: of_nat_diff)
    then show ?thesis using j(1) True by (intro disjI2 exI [of _ "8 - j"]) simp
  next
    case False
    then have "p = sp - 8 - of_nat (j - 8)" using j(3) by (simp add: of_nat_diff)
    then show ?thesis using False j(2) unfolding below_def by (intro disjI1 bexI [of _ "j - 8"]) auto
  qed
qed

lemma core_push_room [simp]: "roomy (Suc k) s \<Longrightarrow> roomy k (core_push v s)"
  by (auto simp: roomy_def core_push_def)

lemma unused_push:
  assumes "roomy 1 s"
  shows "unused s p \<longleftrightarrow> unused (core_push v s) p \<or> (\<exists>i < 8. p = c_sp s - 8 + of_nat i)"
proof -
  obtain k where k: "c_room s = Suc k" "Suc k \<le> 2 ^ 60" using assms by (cases "c_room s") (auto simp: roomy_def)
  have "unused s p = below (c_sp s) (Suc k) p" "unused (core_push v s) p = below (c_sp s - 8) k p"
    using k by (simp_all add: unused_below core_push_def)
  then show ?thesis using below_slot_or below_push below_slot by blast
qed

lemma holds_push:
  assumes "holds s m" and "roomy 1 s"
  shows "holds (core_push v s) (push64 v m)"
proof -
  have m: "rg (push64 v m) = (rg m)(4 := rg m 4 - 8)" "mem (push64 v m) = put 8 (rg m 4 - 8) v (mem m)"
    by (simp_all add: push64_def store64_def store_le_def [symmetric] mem_store_le)
  have "put 8 (c_sp s - 8) v (mem m) p = put 8 (c_sp s - 8) v (c_mem s) p" if "\<not> unused (core_push v s) p" for p
  proof (cases "unused s p")
    case True
    then obtain i where "i < 8" "p = c_sp s - 8 + of_nat i" using unused_push [OF assms(2)] \<open>\<not> unused (core_push v s) p\<close> by blast
    then show ?thesis by (simp add: put_same)
  next
    case False
    then show ?thesis using assms(1) by (intro put_cong) (simp add: holds_def)
  qed
  then show ?thesis using assms(1) by (simp add: holds_def m) (simp add: core_push_def)
qed

definition popped :: "core \<Rightarrow> core" where
  "popped s = s\<lparr>c_sp := c_sp s + 8, c_room := Suc (c_room s)\<rparr>"

lemma core_pop_Some: "core_pop E s = Some (v, s') \<longleftrightarrow>
    c_room s < 2 ^ 60 \<and> no_code E 8 (c_sp s) \<and> v = word_of_int (fetch 8 (c_mem s) (c_sp s)) \<and> s' = popped s"
  by (auto simp: core_pop_def popped_def)

lemma unused_popped:
  assumes "c_room s < 2 ^ 60"
  shows "unused (popped s) p \<longleftrightarrow> unused s p \<or> (\<exists>i < 8. p = c_sp s + of_nat i)"
proof -
  have "unused s p = below (c_sp s) (c_room s) p" "unused (popped s) p = below (c_sp s + 8) (Suc (c_room s)) p"
    using assms by (simp_all add: unused_below popped_def)
  then show ?thesis
    using below_slot_or [of "c_sp s + 8" "c_room s" p] below_push [of "c_sp s + 8" "c_room s" p]
      below_slot [of _ "c_sp s + 8" "c_room s"] by auto
qed

lemma popped_value:
  assumes "holds s m" and "c_room s < 2 ^ 60"
  shows "load64 (rg m 4) m = word_of_int (fetch 8 (c_mem s) (c_sp s))"
proof -
  have "\<not> unused s (c_sp s + of_nat i)" if "i < 8" for i
    using not_below_slot [OF that, of "c_room s" "c_sp s"] assms(2) by (simp add: unused_below)
  then have "fetch 8 (mem m) (c_sp s) = fetch 8 (c_mem s) (c_sp s)"
    using assms(1) by (intro fetch_cong) (simp add: holds_def)
  then show ?thesis using assms(1) by (simp add: load64_def load_le_fetch holds_def)
qed

lemma holds_pop:
  assumes "holds s m" and "c_room s < 2 ^ 60"
  shows "d \<in> scratch \<Longrightarrow> holds (popped s) (pop64 d m)"
    and "d \<noteq> 4 \<Longrightarrow> d \<notin> scratch \<Longrightarrow>
      holds (set_reg d (word_of_int (fetch 8 (c_mem s) (c_sp s))) (popped s)) (pop64 d m)"
proof -
  have "\<not> unused (popped s) p \<Longrightarrow> \<not> unused s p" for p using unused_popped [OF assms(2)] by blast
  then have h: "holds (popped s) (set_rg 4 (rg m 4 + 8) m)"
    using assms(1) by (auto simp: holds_def) (simp_all add: popped_def)
  then show "d \<in> scratch \<Longrightarrow> holds (popped s) (pop64 d m)" by (simp add: pop64_def)
  show "d \<noteq> 4 \<Longrightarrow> d \<notin> scratch \<Longrightarrow>
      holds (set_reg d (word_of_int (fetch 8 (c_mem s) (c_sp s))) (popped s)) (pop64 d m)"
    using h unfolding pop64_def popped_value [OF assms] by (rule holds_set [rotated 2])
qed

subsection \<open>Memory operands\<close>

lemma exec_memory:
  fixes b ix off
  defines "x \<equiv> OMem b ix off"
  shows "exec (rex_insn [] M1 0x8B d (Some x) 0) m = Some (set_rg d (word_of_int (load_le 8 (eff_addr m x) m)) m)"
    and "exec (rex_insn [] M0F 0xB6 d (Some x) 0) m = Some (set_rg d (word_of_int (load_le 1 (eff_addr m x) m)) m)"
    and "exec (rex_insn [] M0F 0xB7 d (Some x) 0) m = Some (set_rg d (word_of_int (load_le 2 (eff_addr m x) m)) m)"
    and "exec (narrow [] h 0x8B d x) m = Some (set_rg d (word_of_int (load_le 4 (eff_addr m x) m)) m)"
    and "exec (rex_insn [] M1 0x89 d (Some x) 0) m = Some (store_le 8 (eff_addr m x) (rg m d) m)"
    and "h \<or> d < 4 \<Longrightarrow> exec (narrow [] h 0x88 d x) m = Some (store_le 1 (eff_addr m x) (rg m d) m)"
    and "exec (narrow [0x66] h 0x89 d x) m = Some (store_le 2 (eff_addr m x) (rg m d) m)"
    and "exec (narrow [] h 0x89 d x) m = Some (store_le 4 (eff_addr m x) (rg m d) m)"
  by (simp_all add: exec_def exec_rm_def exec_0f_def exec_narrow_def rex_insn_def narrow_def read_rm_def write_rm_def
      read_low_def load64_def store64_def store_le_def x_def)

lemma straight_narrow [simp]: "straight (narrow p h op' d (OMem b ix off))"
  by (simp add: straight_def narrow_def)

lemma load_gives:
  assumes "reg_num dst = Inr d" "reg_num base = Inr b" "index_is ix sc i" "fits32 off"
  shows "\<exists>f ins. load_sized sz dst base off ix sc = asm_do f \<and> (\<forall>det. gives det f [ins]) \<and> straight ins \<and>
    (\<forall>m. exec ins m = Some (set_rg d (word_of_int (load_le (width sz) (eff_addr m (OMem (Some b) i off)) m)) m))"
proof -
  note e = mem_encode [OF assms, unfolded mem_table_def, simplified]
  let ?x = "OMem (Some b) i off"
  consider "sz = 8" | "sz = 16" | "sz = 32" | "sz \<notin> {8, 16, 32}" by blast
  then show ?thesis
  proof cases
    case 1
    then show ?thesis using e
      by (intro exI [of _ "mov8_reg_mem dst base off ix sc"] exI [of _ "rex_insn [] M0F 0xB6 d (Some ?x) 0"])
        (simp add: load_sized_def width_def exec_memory)
  next
    case 2
    then show ?thesis using e
      by (intro exI [of _ "mov16_reg_mem dst base off ix sc"] exI [of _ "rex_insn [] M0F 0xB7 d (Some ?x) 0"])
        (simp add: load_sized_def width_def exec_memory)
  next
    case 3
    then show ?thesis using e
      by (intro exI [of _ "mov32_reg_mem dst base off ix sc"] exI [of _ "narrow [] (extended d ?x) 0x8B d ?x"])
        (simp add: load_sized_def width_def exec_memory)
  next
    case 4
    then show ?thesis using e
      by (intro exI [of _ "mov_reg_mem dst base off ix sc"] exI [of _ "rex_insn [] M1 0x8B d (Some ?x) 0"])
        (simp add: load_sized_def width_def exec_memory)
  qed
qed

lemma store_gives:
  assumes "reg_num src = Inr d" "reg_num base = Inr b" "index_is ix sc i" "fits32 off"
  shows "\<exists>f ins. store_sized sz base off src ix sc = asm_do f \<and> (\<forall>det. gives det f [ins]) \<and> straight ins \<and>
    (\<forall>m. exec ins m = Some (store_le (width sz) (eff_addr m (OMem (Some b) i off)) (rg m d) m))"
proof -
  note e = mem_encode [OF assms, unfolded mem_table_def, simplified]
  let ?x = "OMem (Some b) i off"
  consider "sz = 8" | "sz = 16" | "sz = 32" | "sz \<notin> {8, 16, 32}" by blast
  then show ?thesis
  proof cases
    case 1
    have "exec (narrow [] (4 \<le> d \<or> extended d ?x) 0x88 d ?x) m = Some (store_le 1 (eff_addr m ?x) (rg m d) m)" for m
      by (rule exec_memory(6)) auto
    with 1 show ?thesis using e
      by (intro exI [of _ "mov8_mem_reg base off src ix sc"] exI [of _ "narrow [] (4 \<le> d \<or> extended d ?x) 0x88 d ?x"])
        (simp add: store_sized_def width_def)
  next
    case 2
    then show ?thesis using e
      by (intro exI [of _ "mov16_mem_reg base off src ix sc"] exI [of _ "narrow [0x66] True 0x89 d ?x"])
        (simp add: store_sized_def width_def exec_memory)
  next
    case 3
    then show ?thesis using e
      by (intro exI [of _ "mov32_mem_reg base off src ix sc"] exI [of _ "narrow [] True 0x89 d ?x"])
        (simp add: store_sized_def width_def exec_memory)
  next
    case 4
    then show ?thesis using e
      by (intro exI [of _ "mov_mem_reg base off src ix sc"] exI [of _ "rex_insn [] M1 0x89 d (Some ?x) 0"])
        (simp add: store_sized_def width_def exec_memory)
  qed
qed

lemma hoare_one:
  assumes "linked K" and "\<exists>f ins. e = asm_do f \<and> (\<forall>det. gives det f [ins]) \<and> straight ins \<and> (\<forall>m. exec ins m = Some (t m))"
    and "tame e" and "\<And>m. P m \<Longrightarrow> R (t m)"
  shows "hoare K P e R"
proof (rule hoare_triple [OF assms(1) _ assms(3)])
  fix g
  obtain f ins where f: "e = asm_do f" "\<forall>det. gives det f [ins]" "straight ins" "\<forall>m. exec ins m = Some (t m)"
    using assms(2) by blast
  show "triple P e g R"
    unfolding f(1) by (rule triple_insn [OF spec [OF f(2)] f(3)]) (use f(4) assms(4) in auto)
qed

lemma hoare_offset:
  assumes "core_offset (k_env K) e = Some d" and "hoare K P (k d) R" and "\<And>v. tame (k v)"
  shows "hoare K P (with_offset e k) R"
proof (rule hoare_cong [OF assms(2)])
  fix g g' assume s: "sees (k_env K) g" and w: "with_offset e k g = Inr g'"
  have "core_offset (k_env K) e = Some d \<Longrightarrow> resolve_offset e g = Inr d" for d
    using s by (induction e arbitrary: d)
      (auto simp: sees_def gen_field_def split: option.splits if_splits sum.splits)
  then show "k d g = Inr g'" using assms(1) w by (simp add: with_offset_def)
qed (intro tame_rules assms(3))

definition index_val :: "(int \<times> int) option \<Rightarrow> mach \<Rightarrow> 64 word" where
  "index_val i m = (case i of None \<Rightarrow> 0 | Some (r, sc) \<Rightarrow> rg m r * word_of_int sc)"

lemma eff_addr_mem: "eff_addr m (OMem (Some b) i d) = rg m b + index_val i m + word_of_int d"
  by (simp add: eff_addr_def index_val_def)

lemma hoare_index:
  assumes "core_index \<rho> idx sc = Some v"
    and "\<And>ix i. index_is ix sc i \<Longrightarrow> (\<And>m. reads \<rho> m \<Longrightarrow> index_val i m = v) \<Longrightarrow> hoare K P (k ix) R"
    and "\<And>i. tame (k i)"
  shows "hoare K P (with_index idx k) R"
proof (cases idx)
  case None
  then show ?thesis using assms(1) assms(2) [of None None] by (simp add: with_index_def index_val_def)
next
  case (Some e)
  then obtain n q where n: "e = Reg n" "core_reg n = Some q" "v = \<rho> q * word_of_int sc" "sc \<in> {1, 2, 4, 8}"
    using assms(1) by (cases e) (auto split: if_splits)
  obtain p where p: "resolve n = Inr p" "reg_num p = Inr q" "q \<noteq> 4" "q \<notin> scratch"
    using n(2) by (rule core_regE)
  have "hoare K P (k (Some p)) R"
    using n p by (intro assms(2) [of "Some p" "Some (q, sc)"]) (auto simp: index_val_def reads_def)
  then show ?thesis
    unfolding Some n(1) with_index_def by (simp, intro hoare_res [OF p(1)] assms(3))
qed

lemma hoare_base:
  assumes K: "linked K" and p: "core_base (k_env K) \<rho> bas = Some p"
    and k: "\<And>base b. reg_num base = Inr b \<Longrightarrow> hoare K (\<lambda>m. A m \<and> rg m b = p) (k base) R" "\<And>b. tame (k b)"
    and A: "\<And>m. A m \<Longrightarrow> reads \<rho> m" "\<And>m v. A m \<Longrightarrow> A (set_rg 11 v m)"
  shows "hoare K A (base_reg bas k) R"
proof (cases bas)
  case (Reg n)
  then obtain q where q: "core_reg n = Some q" "p = \<rho> q" using p by auto
  obtain base where b: "resolve n = Inr base" "reg_num base = Inr q" "q \<noteq> 4" "q \<notin> scratch"
    using q(1) by (rule core_regE)
  have "hoare K A (k base) R"
    by (rule hoare_weaken [OF k(1) [OF b(2)]]) (use A(1) b q(2) in \<open>auto simp: reads_def\<close>)
  then show ?thesis unfolding Reg base_reg_def by (simp, intro hoare_res [OF b(1)] k(2))
next
  case (Ident n)
  then have "e_addr (k_env K) n = Some p" using p by simp
  then have "hoare K A (asm_do (lea_reg_label ''r11'' (''__data_'' @ n))) (\<lambda>m. A m \<and> rg m 11 = p)"
    using A(2) by (intro hoare_each [OF hoare_post [OF hoare_lea [OF K _ reg_num_rbp(2)]]] tame_lea) auto
  from hoare_Cons [OF this hoare_single [OF k(1) [OF reg_num_rbp(2)]]]
  have "hoare K A (seqE [asm_do (lea_reg_label ''r11'' (''__data_'' @ n)), k ''r11'']) R" .
  moreover have "tame (base_reg (Ident n) k)" by (intro tame_rules k(2))
  ultimately show ?thesis unfolding Ident by (rule hoare_cong) (simp add: base_reg_def sees_def)
qed (use p in simp_all)

subsection \<open>Comparisons and operations\<close>

lemma exec_cmp: "exec (mr [] M1 0x39 d s) m = Some (m\<lparr>fl := sub_flags (rg m d) (rg m s)\<rparr>)"
  by (simp add: exec_def exec_rm_def mr_def rex_insn_def alu_exec_def alu_def read_rm_def Let_def)

lemma hoare_cmp_op:
  assumes "linked K"
  shows "hoare K (\<lambda>m. m = m0) (asm_do (cmp_reg_reg ''r11'' ''r15'')) (\<lambda>m. m = m0\<lparr>fl := sub_flags (rg m0 11) (rg m0 15)\<rparr>)"
proof (rule hoare_triple [OF assms _ tame_stack(4)])
  fix g :: gen
  have "gives (deterministic (g_asm g)) (cmp_reg_reg ''r11'' ''r15'') [mr [] M1 0x39 11 15]"
    using rr_encode [OF _ _ _ _ reg_num_rbp(2) reg_num_r15, of "deterministic (g_asm g)"] by (simp add: rr_table_def)
  then show "triple (\<lambda>m. m = m0) (asm_do (cmp_reg_reg ''r11'' ''r15'')) g (\<lambda>m. m = m0\<lparr>fl := sub_flags (rg m0 11) (rg m0 15)\<rparr>)"
    by (rule triple_insn) (simp_all add: exec_cmp)
qed

lemma hoare_compare:
  assumes K: "linked K" and ab: "core_val (k_env K) \<rho> l = Some a" "core_val (k_env K) \<rho> r = Some b"
    and small: "8 * stack_use l < 2 ^ 64" "8 * stack_use r + 8 < 2 ^ 64" and p0: "reads \<rho> p0"
  shows "hoare K (\<lambda>m. m = p0) (seqE ([eval_expr l ''r15'', asm_do (mov_reg_reg ''r11'' ''r15'')] @
      (asm_do (push_reg ''r11'') # [eval_expr r ''r15''] @ [asm_do (pop_reg ''r11'')]) @ [asm_do (cmp_reg_reg ''r11'' ''r15'')]))
    (\<lambda>m. keeps {11, 12, 15} (max (stack_use l) (Suc (stack_use r))) p0 m \<and> fl m = sub_flags a b)"
proof -
  note rn = reg_num_rbp(2) reg_num_r15
  let ?S = "{11, 12, 15} :: int set" and ?k = "max (stack_use l) (Suc (stack_use r))"
  let ?tl = "(asm_do (push_reg ''r11'') # [eval_expr r ''r15''] @ [asm_do (pop_reg ''r11'')]) @ [asm_do (cmp_reg_reg ''r11'' ''r15'')]"
  have 1: "hoare K (\<lambda>m. m = p0) (eval_expr l ''r15'') (\<lambda>m. rg m 15 = a \<and> keeps {15, 11, 12} (stack_use l) p0 m)"
    using hoare_operand [OF K ab(1) rn(2) _ small(1) p0] by simp
  have 2: "hoare K (\<lambda>m. m = m1) (seqE (asm_do (mov_reg_reg ''r11'' ''r15'') # ?tl))
      (\<lambda>m. keeps ?S ?k p0 m \<and> fl m = sub_flags a b)" if m1: "rg m1 15 = a \<and> keeps {15, 11, 12} (stack_use l) p0 m1" for m1
  proof (rule hoare_Cons [OF hoare_mov [OF K rn] hoare_append [OF hoare_saved [OF K rn(1) _ _ small(2)] hoare_single]])
    let ?m2 = "set_rg 11 a m1"
    have k: "keeps ?S ?k p0 ?m2" using m1 by (intro keeps_set_rg) (auto elim: keeps_weaken)
    have p2: "reads \<rho> ?m2" by (rule reads_keeps [OF k _ p0]) (simp add: scratch_def)
    show "hoare K (\<lambda>m. m = push64 (rg ?m2 11) ?m2) (seqE [eval_expr r ''r15''])
        (\<lambda>m. keeps {15, 11, 12} (stack_use r) (push64 (rg ?m2 11) ?m2) m \<and> rg m 15 = b)"
      using small(2) p2 by (intro hoare_single hoare_post [OF hoare_operand [OF K ab(2) rn(2)]]) simp_all
    fix m m' assume "rg m 15 = b" "\<And>q. q \<noteq> 4 \<Longrightarrow> rg m' q = (if q = 11 then rg ?m2 11 else rg m q)"
      and "keeps (insert 11 {15, 11, 12}) (Suc (stack_use r)) ?m2 m'"
    moreover from this(3) have "keeps ?S ?k ?m2 m'" by (rule keeps_weaken) auto
    then have "keeps ?S ?k p0 m'" by (rule keeps_trans [OF k]) simp
    ultimately show "rg m' 11 = a \<and> rg m' 15 = b \<and> keeps ?S ?k p0 m'" by simp
  next
    show "hoare K (\<lambda>m. rg m 11 = a \<and> rg m 15 = b \<and> keeps ?S ?k p0 m) (asm_do (cmp_reg_reg ''r11'' ''r15''))
        (\<lambda>m. keeps ?S ?k p0 m \<and> fl m = sub_flags a b)"
      by (rule hoare_each [OF hoare_post [OF hoare_cmp_op [OF K]] tame_stack(4)]) auto
  qed (use m1 in simp_all)
  have "hoare K (\<lambda>m. m = p0) (seqE (eval_expr l ''r15'' # asm_do (mov_reg_reg ''r11'' ''r15'') # ?tl))
      (\<lambda>m. keeps ?S ?k p0 m \<and> fl m = sub_flags a b)"
    by (rule hoare_then [OF 1 2]) (assumption, simp only: append.simps, intro tame_rules)
  then show ?thesis by (simp only: append.simps)
qed

lemma hoare_cmp:
  assumes K: "linked K" and ab: "core_val (k_env K) (c_regs s) l = Some a" "core_val (k_env K) (c_regs s) r = Some b"
    and room: "roomy (slots (Cmp l r)) s"
  shows "hoare K (agrees s) (emit_node (Cmp l r)) (agrees (core_next (s\<lparr>c_cmp := Some (a, b)\<rparr>)))"
proof (rule hoare_each)
  let ?k = "max (stack_use l) (Suc (stack_use r))"
  let ?fs = "[eval_expr l ''r15'', asm_do (mov_reg_reg ''r11'' ''r15'')] @
      (asm_do (push_reg ''r11'') # [eval_expr r ''r15''] @ [asm_do (pop_reg ''r11'')]) @ [asm_do (cmp_reg_reg ''r11'' ''r15'')]"
  have room': "roomy (Suc ?k) s" using room by (simp add: roomy_def)
  then have small: "8 * stack_use l < 2 ^ 64" "8 * stack_use r + 8 < 2 ^ 64" "8 * ?k + 8 < 2 ^ 64"
    using roomy_small [of _ s] by (auto simp: roomy_def)
  fix m0 assume "agrees s m0"
  then have h: "holds s m0" by (simp add: agrees_def)
  then have p: "reads (c_regs s) (push64 (rg m0 11) m0)" by (simp add: holds_reads)
  have "hoare K (\<lambda>m. m = m0) (seqE (asm_do (push_reg ''r11'') # ?fs @ [asm_do (pop_reg ''r11'')]))
      (agrees (core_next (s\<lparr>c_cmp := Some (a, b)\<rparr>)))"
  proof (rule hoare_saved [OF K reg_num_rbp(2) _ _ small(3) hoare_compare [OF K ab small(1,2) p]])
    fix m m' assume "fl m = sub_flags a b" "keeps (insert 11 {11, 12, 15}) (Suc ?k) m0 m'" "fl m' = fl m"
    then show "agrees (core_next (s\<lparr>c_cmp := Some (a, b)\<rparr>)) m'"
      using holds_keeps [OF _ _ room' h] by (simp add: agrees_def scratch_def)
  qed simp_all
  then show "hoare K (\<lambda>m. m = m0) (emit_node (Cmp l r)) (agrees (core_next (s\<lparr>c_cmp := Some (a, b)\<rparr>)))"
    by (simp only: emit_node.simps SCRATCH_def append.simps)
qed (simp only: emit_node.simps SCRATCH_def, intro tame_rules)

lemma agrees_holds: "agrees s m \<Longrightarrow> holds s m"
  and holds_agrees: "holds s m \<Longrightarrow> agrees (forget False s) m"
  by (simp_all add: agrees_def forget_def)

lemma roomy_mono: "roomy k s \<Longrightarrow> j \<le> k \<Longrightarrow> roomy j s"
  by (simp add: roomy_def)

lemma no_local: "sees E g \<Longrightarrow> map_of (fn_locals g) n = None"
  by (simp add: sees_def)

lemma tame_local [tame_rules]:
  "tame f \<Longrightarrow> (\<And>x. tame (h x)) \<Longrightarrow> tame (\<lambda>g. case map_of (fn_locals g) n of None \<Rightarrow> f g | Some x \<Rightarrow> h x g)"
  "tame f \<Longrightarrow> tame h' \<Longrightarrow> tame (\<lambda>g. if c then f g else h' g)"
  by (simp_all add: tame_def within_option_app within_if_app)

lemma hoare_local:
  assumes "hoare K P f R" and "\<And>x. tame (h x)"
  shows "hoare K P (\<lambda>g. case map_of (fn_locals g) n of None \<Rightarrow> f g | Some x \<Rightarrow> h x g) R"
  by (rule hoare_cong [OF assms(1) tame_local(1) [OF hoare_tame [OF assms(1)] assms(2)]]) (simp add: no_local)

lemma tame_access [tame_rules]: "tame (asm_do (mov_reg_mem d b off ix sc))" "tame (asm_do (mov_mem_reg b off d ix sc))"
  by (rule tame_parts(1), simp only: codes.sides)+

lemma tame_ops [tame_rules]: "tame (cpu_bin opn dest val)" "tame (cpu_unary opn dest)"
  "tame (mem_load dest bas off sz idx scale)" "tame (mem_store bas off val sz idx scale)"
  unfolding cpu_bin_def [abs_def] cpu_unary_def [abs_def] mem_load_def mem_store_def
  by (intro tame_rules; fail)+

lemma hoare_bin:
  assumes K: "linked K" and r: "core_reg dest = Some r" and b: "core_val (k_env K) (c_regs s) val = Some b"
    and v: "core_bin opn (c_regs s r) b = Some v" and room: "roomy (slots (CpuBin opn dest val)) s"
  shows "hoare K (agrees s) (cpu_bin opn dest val) (agrees (core_assign r v (opn = ''set'' \<and> is_leaf val) s))"
proof -
  obtain p where p: "resolve dest = Inr p" "reg_num p = Inr r" "r \<noteq> 4" "r \<notin> scratch"
    using r by (rule core_regE)
  have room2: "roomy 2 s" "roomy (stack_use val) s" using room by (auto elim: roomy_mono)
  have num: "b = word_of_int n" if "num_value val = Some n" for n
    using that b by (auto simp: num_value_def split: expr.splits)
  let ?f = "\<lambda>p. if opn = ''set'' then eval_expr val p else seqE [eval_expr val SCRATCH, cpu_bin_op opn p SCRATCH (num_value val)]"
  have f: "hoare K (agrees s) (?f p) (agrees (core_assign r v (opn = ''set'' \<and> is_leaf val) s))"
  proof (cases "opn = ''set''")
    case True
    then have bv: "b = v" using v by (simp add: core_bin_def Let_def)
    have "hoare K (agrees s) (eval_expr val p) (agrees (core_assign r v (is_leaf val) s))"
    proof (rule hoare_each [OF _ tame_parts(3)])
      fix m0 assume m0: "agrees s m0"
      then have h: "holds s m0" and rd: "reads (c_regs s) m0" by (simp_all add: agrees_holds holds_reads)
      show "hoare K (\<lambda>m. m = m0) (eval_expr val p) (agrees (core_assign r v (is_leaf val) s))"
      proof (cases "is_leaf val")
        case leaf: True
        show ?thesis
          using m0 p(3,4) bv leaf by (intro hoare_post [OF hoare_leaf [OF K b leaf p(2) rd]])
            (auto simp: agrees_def core_assign_def forget_def)
      next
        case False
        have "holds (s\<lparr>c_regs := (c_regs s)(r := b)\<rparr>) m" if "rg m r = b" "keeps (insert r {11, 12}) (stack_use val) m0 m" for m
          using that p(3) rd by (intro holds_changed [OF h that(2) _ room2(2)]) (auto simp: keeps_def reads_def scratch_def)
        then show ?thesis
          using False bv p(3) roomy_small [OF room2(2)]
          by (intro hoare_post [OF hoare_operand [OF K b p(2) _ _ rd]]) (auto simp: agrees_def core_assign_def forget_def)
      qed
    qed
    then show ?thesis using True by simp
  next
    case False
    have 1: "hoare K (agrees s) (eval_expr val ''r15'') (\<lambda>m. holds s m \<and> rg m 15 = b)"
      by (rule hoare_post [OF hoare_value [OF K b reg_num_r15 _ room2(2)]]) (auto simp: agrees_def scratch_def)
    have 2: "hoare K (\<lambda>m. holds s m \<and> rg m 15 = b) (cpu_bin_op opn p ''r15'' (num_value val)) (holds (set_reg r v s))"
      using triple_bin_op [OF p(2-4) v False room2(1) num] by (intro hoare_triple [OF K] tame_rules)
    have "hoare K (agrees s) (seqE [eval_expr val ''r15'', cpu_bin_op opn p ''r15'' (num_value val)])
        (agrees (core_assign r v False s))"
      by (rule hoare_post [OF hoare_Cons [OF 1 hoare_single [OF 2]]]) (simp add: core_assign_def holds_agrees)
    then show ?thesis using False unfolding SCRATCH_def by simp
  qed
  have "tame (?f p)" for p by (intro tame_rules)
  with f have "hoare K (agrees s) (with_res dest ?f) (agrees (core_assign r v (opn = ''set'' \<and> is_leaf val) s))"
    by (intro hoare_res [OF p(1)])
  then show ?thesis
    using tame_ops(1) by (elim hoare_cong) (simp_all add: cpu_bin_def no_local)
qed

lemma hoare_un:
  assumes K: "linked K" and r: "core_reg dest = Some r" and v: "core_un opn (c_regs s r) = Some v"
  shows "hoare K (agrees s) (cpu_unary opn dest) (agrees (core_assign r v False s))"
proof -
  obtain p where p: "resolve dest = Inr p" "reg_num p = Inr r" "r \<noteq> 4" "r \<notin> scratch"
    using r by (rule core_regE)
  have "triple (agrees s) (cpu_unary_op opn p) g (agrees (core_assign r v False s))" for g
    using triple_un [OF p(2-4) v, of g]
    by (rule triple_weaken) (simp_all add: core_assign_def agrees_holds holds_agrees)
  then have "hoare K (agrees s) (with_res dest (cpu_unary_op opn)) (agrees (core_assign r v False s))"
    by (intro hoare_res [OF p(1)] hoare_triple [OF K] tame_rules)
  then show ?thesis
    using tame_ops(2) by (elim hoare_cong) (simp_all add: cpu_unary_def no_local)
qed

subsection \<open>Loads and stores\<close>

lemma core_addrE:
  assumes "core_addr E \<rho> bas off idx scale = Some p"
  obtains q i d where "core_base E \<rho> bas = Some q" "core_index \<rho> idx (scale_or_1 scale) = Some i"
    "core_offset E off = Some d" "fits32 d" "p = q + i + word_of_int d"
  using assms by (auto simp: core_addr_def fits32_def split: option.splits if_splits)

lemma hoare_mem_load:
  assumes K: "linked K" and r: "core_reg dest = Some r" and p: "core_addr (k_env K) (c_regs s) bas off idx scale = Some p"
    and ok: "readable s (width sz) p"
  shows "hoare K (agrees s) (mem_load dest bas off sz idx scale)
    (agrees (core_assign r (word_of_int (fetch (width sz) (c_mem s) p)) True s))"
proof -
  let ?R = "agrees (core_assign r (word_of_int (fetch (width sz) (c_mem s) p)) True s)"
  obtain dst where dst: "resolve dest = Inr dst" "reg_num dst = Inr r" "r \<noteq> 4" "r \<notin> scratch"
    using r by (rule core_regE)
  obtain q iv d where a: "core_base (k_env K) (c_regs s) bas = Some q" "core_index (c_regs s) idx (scale_or_1 scale) = Some iv"
    "core_offset (k_env K) off = Some d" "fits32 d" "p = q + iv + word_of_int d" using p by (rule core_addrE)
  have load: "hoare K (\<lambda>m. agrees s m \<and> rg m b = q) (with_res dest (\<lambda>dst.
      with_index idx (\<lambda>ix. load_sized sz dst base d ix (scale_or_1 scale)))) ?R" if b: "reg_num base = Inr b" for base b
  proof (rule hoare_res [OF dst(1) hoare_index [OF a(2)]])
    fix ix i assume ix: "index_is ix (scale_or_1 scale) i" "\<And>m. reads (c_regs s) m \<Longrightarrow> index_val i m = iv"
    have "?R (set_rg r (word_of_int (load_le (width sz) (eff_addr m (OMem (Some b) i d)) m)) m)" if m: "agrees s m \<and> rg m b = q" for m
    proof -
      have h: "holds s m" using m by (simp add: agrees_holds)
      then have "eff_addr m (OMem (Some b) i d) = p" using m ix(2) by (simp add: eff_addr_mem a(5) holds_reads)
      then show ?thesis
        using m h holds_fetch [OF h ok] dst(3,4) by (simp add: load_le_fetch agrees_def core_assign_def forget_def)
    qed
    then show "hoare K (\<lambda>m. agrees s m \<and> rg m b = q) (load_sized sz dst base d ix (scale_or_1 scale)) ?R"
      by (intro hoare_one [OF K load_gives [OF dst(2) b ix(1) a(4)] tame_parts(7)])
  qed (intro tame_rules)+
  show ?thesis
    unfolding mem_load_def
  proof (rule hoare_base [OF K a(1)], goal_cases)
    case (1 base b)
    show ?case by (rule hoare_offset [OF a(3)], rule hoare_local, rule load [OF 1]) (intro tame_rules)+
  next
    case (3 m)
    then show ?case by (simp add: agrees_holds holds_reads)
  qed (intro tame_rules, simp add: agrees_def scratch_def)
qed

text \<open>The value is computed with a slot in use; the slot is popped into a scratch register.\<close>

lemma hoare_mem_store:
  assumes K: "linked K" and p: "core_addr (k_env K) (c_regs s) bas off idx scale = Some p"
    and v: "core_val (k_env K) (c_regs s) val = Some v" and room: "roomy (slots (MemStore bas off val sz idx scale)) s"
  shows "hoare K (agrees s) (mem_store bas off val sz idx scale)
    (agrees (core_next (forget (is_leaf val) (s\<lparr>c_mem := put (width sz) p v (c_mem s)\<rparr>))))"
proof (rule hoare_each)
  note r12 = reg_num_rbp(3)
  obtain q iv d where a: "core_base (k_env K) (c_regs s) bas = Some q" "core_index (c_regs s) idx (scale_or_1 scale) = Some iv"
    "core_offset (k_env K) off = Some d" "fits32 d" "p = q + iv + word_of_int d" using p by (rule core_addrE)
  have room': "roomy 1 s" "roomy (Suc (stack_use val)) s" using room by (auto elim: roomy_mono)
  fix m0 assume m0: "agrees s m0"
  define s1 where "s1 = core_push (rg m0 12) s"
  define s2 where "s2 = forget (is_leaf val) s1"
  define s3 where "s3 = s2\<lparr>c_mem := put (width sz) p v (c_mem s2)\<rparr>"
  have s1: "c_regs s1 = c_regs s" "c_cmp s1 = c_cmp s" by (simp_all add: s1_def core_push_def)
  have c3: "c_regs s3 = c_regs s" "c_sp s3 = c_sp s - 8" "c_room s3 = c_room s - 1" "c_cmp s3 = (if is_leaf val then c_cmp s else None)"
    "c_mem s3 = put (width sz) p v (put 8 (c_sp s - 8) (rg m0 12) (c_mem s))"
    by (simp_all add: s3_def s2_def s1_def forget_def core_push_def)
  have 1: "hoare K (\<lambda>m. m = m0) (asm_do (push_reg ''r12'')) (agrees s1)"
    using m0 holds_push [OF _ room'(1)] by (intro hoare_push [OF K r12]) (auto simp: agrees_def s1_def core_push_def push64_def)
  have 2: "hoare K (agrees s1) (eval_expr val ''r12'') (\<lambda>m. agrees s2 m \<and> rg m 12 = v)"
    unfolding s2_def using v room'(2) by (intro hoare_value [OF K _ r12]) (simp_all add: s1 scratch_def, simp add: s1_def)
  have st: "hoare K (\<lambda>m. (agrees s2 m \<and> rg m 12 = v) \<and> rg m b = q)
      (with_index idx (\<lambda>ix. store_sized sz base d ''r12'' ix (scale_or_1 scale))) (agrees s3)"
    if b: "reg_num base = Inr b" for base b
  proof (rule hoare_index [OF a(2)])
    fix ix i assume ix: "index_is ix (scale_or_1 scale) i" "\<And>m. reads (c_regs s) m \<Longrightarrow> index_val i m = iv"
    have "agrees s3 (store_le (width sz) (eff_addr m (OMem (Some b) i d)) (rg m 12) m)"
      if m: "(agrees s2 m \<and> rg m 12 = v) \<and> rg m b = q" for m
    proof -
      have h: "holds s2 m" using m by (simp add: agrees_holds)
      have "reads (c_regs s) m" using holds_reads [OF h] by (simp add: s2_def s1 forget_def)
      then have "eff_addr m (OMem (Some b) i d) = p" using m ix(2) by (simp add: eff_addr_mem a(5))
      then show ?thesis
        using m h put_cong [of "mem m" _ "c_mem s2"] by (simp add: agrees_def holds_def s3_def mem_store_le)
    qed
    then show "hoare K (\<lambda>m. (agrees s2 m \<and> rg m 12 = v) \<and> rg m b = q) (store_sized sz base d ''r12'' ix (scale_or_1 scale)) (agrees s3)"
      by (intro hoare_one [OF K store_gives [OF r12 b ix(1) a(4)] tame_parts(8)])
  qed (intro tame_rules)
  have 3: "hoare K (\<lambda>m. agrees s2 m \<and> rg m 12 = v) (base_reg bas (\<lambda>base. with_offset off (\<lambda>off.
      with_index idx (\<lambda>ix. store_sized sz base off ''r12'' ix (scale_or_1 scale))))) (agrees s3)"
  proof (rule hoare_base [OF K a(1)], goal_cases)
    case (1 base b)
    show ?case by (rule hoare_offset [OF a(3)], rule st [OF 1]) (intro tame_rules)
  next
    case (3 m)
    then have "holds s2 m" by (simp add: agrees_holds)
    from holds_reads [OF this] show ?case by (simp add: s2_def s1 forget_def)
  qed (intro tame_rules, simp add: agrees_def scratch_def)
  have 4: "hoare K (agrees s3) (asm_do (pop_reg ''r12''))
      (agrees (core_next (forget (is_leaf val) (s\<lparr>c_mem := put (width sz) p v (c_mem s)\<rparr>))))"
  proof (rule hoare_pop [OF K r12])
    fix m assume m: "agrees s3 m"
    have "c_room s3 < 2 ^ 60" "Suc (c_room s - 1) = c_room s" using room'(1) by (auto simp: c3 roomy_def)
    then have "holds (popped s3) (pop64 12 m)" "c_room (popped s3) = c_room s"
      using holds_pop(1) [OF agrees_holds [OF m]] by (simp_all add: scratch_def popped_def c3)
    moreover have "put (width sz) p v (c_mem s) x = put (width sz) p v (put 8 (c_sp s - 8) w (c_mem s)) x"
      if "\<not> unused s x" for x w
      using that unused_push [OF room'(1)] by (intro put_cong put_other [symmetric]) blast
    moreover have "unused (popped s3) = unused s" using calculation(2) by (simp add: unused_def [abs_def] popped_def c3)
    ultimately have "holds (s\<lparr>c_mem := put (width sz) p v (c_mem s)\<rparr>) (pop64 12 m)"
      by (elim holds_cong) (simp_all add: popped_def c3)
    then show "agrees (core_next (forget (is_leaf val) (s\<lparr>c_mem := put (width sz) p v (c_mem s)\<rparr>))) (pop64 12 m)"
      using m by (auto simp: agrees_def forget_def c3 pop64_def)
  qed
  show "hoare K (\<lambda>m. m = m0) (mem_store bas off val sz idx scale)
      (agrees (core_next (forget (is_leaf val) (s\<lparr>c_mem := put (width sz) p v (c_mem s)\<rparr>))))"
    unfolding mem_store_def by (rule 1 2 3 hoare_Cons hoare_single [OF 4])+
qed (rule tame_ops)

subsection \<open>Pushes, pops and the arguments of calls\<close>

definition push_value :: "expr \<Rightarrow> cg" where
  "push_value e = seqE [eval_expr e ''r11'', asm_do (push_reg ''r11'')]"

lemma forget_sel [simp]: "c_regs (forget b s) = c_regs s" "c_sp (forget b s) = c_sp s" "c_room (forget b s) = c_room s"
  "c_mem (forget b s) = c_mem s" "c_pc (forget b s) = c_pc s" "c_cmp (forget b s) = (if b then c_cmp s else None)"
  by (simp_all add: forget_def)

lemma core_push_sel [simp]: "c_regs (core_push v s) = c_regs s" "c_cmp (core_push v s) = c_cmp s" "c_pc (core_push v s) = c_pc s"
  by (simp_all add: core_push_def)

lemma popped_sel [simp]: "c_regs (popped s) = c_regs s" "c_cmp (popped s) = c_cmp s" "c_pc (popped s) = c_pc s"
  "c_mem (popped s) = c_mem s" "c_sp (popped s) = c_sp s + 8" "c_room (popped s) = Suc (c_room s)"
  by (simp_all add: popped_def)

lemma push64_fl [simp]: "fl (push64 v m) = fl m"
  and pop64_fl [simp]: "fl (pop64 d m) = fl m"
  by (simp_all add: push64_def pop64_def)

lemma hoare_push_value:
  assumes K: "linked K" and v: "core_val (k_env K) (c_regs s) e = Some v" and room: "roomy 1 s" "roomy (stack_use e) s"
  shows "hoare K (agrees s) (push_value e) (agrees (forget (is_leaf e) (core_push v s)))"
  unfolding push_value_def
proof (rule hoare_Cons [OF hoare_value [OF K v reg_num_rbp(2) _ room(2)] hoare_single [OF hoare_push [OF K reg_num_rbp(2)]]])
  fix m assume m: "agrees (forget (is_leaf e) s) m \<and> rg m 11 = v"
  then have "holds (core_push v s) (push64 v m)" by (intro holds_push [OF _ room(1)]) (simp add: agrees_def)
  then show "agrees (forget (is_leaf e) (core_push v s)) (push64 (rg m 11) m)"
    using m by (auto simp: agrees_def split: if_splits)
qed (simp add: scratch_def)

lemma hoare_pop_reg:
  assumes K: "linked K" and d: "reg_num r = Inr d" "d \<noteq> 4" "d \<notin> scratch" and room: "c_room s < 2 ^ 60"
  shows "hoare K (agrees s) (asm_do (pop_reg r)) (agrees (set_reg d (word_of_int (fetch 8 (c_mem s) (c_sp s))) (popped s)))"
  using holds_pop(2) [OF _ room d(2,3)] by (intro hoare_pop [OF K d(1)]) (simp add: agrees_def)

lemma tame_push_value [tame_rules]: "tame (push_value e)"
  unfolding push_value_def by (intro tame_rules)

lemma hoare_args:
  assumes K: "linked K"
  shows "core_vals (k_env K) (c_regs s) es = Some vs \<Longrightarrow> length rs = length es \<Longrightarrow>
    list_all2 (\<lambda>r d. reg_num r = Inr d \<and> d \<noteq> 4 \<and> d \<notin> scratch) rs ds \<Longrightarrow> roomy (arg_slots es) s \<Longrightarrow>
    hoare K (agrees s) (seqE (map push_value es @ map (\<lambda>r. asm_do (pop_reg r)) (rev rs)))
      (agrees (forget (list_all is_leaf es) (s\<lparr>c_regs := bind_regs ds vs (c_regs s)\<rparr>)))"
proof (induction es arbitrary: s vs rs ds)
  case Nil
  then have "rs = []" "vs = []" "ds = []" by simp_all
  then show ?case using hoare_Nil [of "agrees s" "agrees s" K] by (simp add: forget_def del: seqE.simps)
next
  case (Cons e es)
  obtain v vs' where v: "core_val (k_env K) (c_regs s) e = Some v" "core_vals (k_env K) (c_regs s) es = Some vs'" "vs = v # vs'"
    using Cons.prems(1) by (auto split: option.splits)
  obtain r rs' d ds' where r: "rs = r # rs'" "ds = d # ds'" "reg_num r = Inr d" "d \<noteq> 4" "d \<notin> scratch"
    "list_all2 (\<lambda>r d. reg_num r = Inr d \<and> d \<noteq> 4 \<and> d \<notin> scratch) rs' ds'" "length rs' = length es"
    using Cons.prems(2,3) by (cases rs; cases ds) auto
  have room: "roomy 1 s" "roomy (stack_use e) s" "roomy (Suc (arg_slots es)) s"
    using Cons.prems(4) by (auto elim: roomy_mono)
  let ?s1 = "forget (is_leaf e) (core_push v s)" and ?ls = "list_all is_leaf (e # es)"
  let ?s2 = "forget (list_all is_leaf es) (?s1\<lparr>c_regs := bind_regs ds' vs' (c_regs s)\<rparr>)"
  let ?goal = "forget ?ls (s\<lparr>c_regs := bind_regs ds vs (c_regs s)\<rparr>)"
  have 1: "hoare K (agrees s) (push_value e) (agrees ?s1)" by (rule hoare_push_value [OF K v(1) room(1,2)])
  have "roomy (arg_slots es) ?s1" using core_push_room [OF room(3), of v] by (simp add: roomy_def)
  from Cons.IH [of ?s1 vs' rs' ds', OF _ r(7,6) this] v(2)
  have 2: "hoare K (agrees ?s1) (seqE (map push_value es @ map (\<lambda>r. asm_do (pop_reg r)) (rev rs'))) (agrees ?s2)" by simp
  have rm: "c_room ?s2 < 2 ^ 60" "Suc (c_room s - 1) = c_room s" using room(1) by (auto simp: core_push_def roomy_def)
  let ?s3 = "set_reg d (word_of_int (fetch 8 (c_mem ?s2) (c_sp ?s2))) (popped ?s2)"
  have "agrees ?goal m" if m: "agrees ?s3 m" for m
  proof -
    have u: "unused ?s3 = unused s" using rm(2) by (simp add: unused_def [abs_def] core_push_def)
    have "put 8 (c_sp s - 8) v (c_mem s) x = c_mem s x" if "\<not> unused s x" for x
      using that unused_push [OF room(1)] by (intro put_other) blast
    then have "holds ?goal m"
      using agrees_holds [OF m] u rm(2) by (elim holds_cong) (simp_all add: v(3) r(2) core_push_def)
    then show ?thesis using m by (auto simp: agrees_def split: if_splits)
  qed
  then have 3: "hoare K (agrees ?s2) (asm_do (pop_reg r)) (agrees ?goal)"
    by (rule hoare_post [OF hoare_pop_reg [OF K r(3-5) rm(1)]])
  from hoare_Cons [OF 1 hoare_append [OF 2 hoare_single [OF 3]]]
  show ?case by (simp add: r(1) del: seqE.simps)
qed

lemma call_regs: "list_all2 (\<lambda>r d. reg_num r = Inr d \<and> d \<noteq> 4 \<and> d \<notin> scratch) call_args arg_regs"
  unfolding scratch_def by code_simp

lemma bind_regs_take: "bind_regs (take (length vs) ds) vs \<rho> = bind_regs ds vs \<rho>"
  by (induction ds vs \<rho> rule: bind_regs.induct) (simp_all add: take_Cons')

lemma pop_args_rev: "n \<le> length rs \<Longrightarrow> pop_args rs n = seqE (map (\<lambda>r. asm_do (pop_reg r)) (rev (take n rs)))"
proof -
  assume "n \<le> length rs"
  then have "take n rs = map ((!) rs) [0..<n]" by (intro nth_equalityI) simp_all
  then show ?thesis by (simp add: pop_args_def rev_map comp_def)
qed

lemma core_vals_length: "core_vals E \<rho> es = Some vs \<Longrightarrow> length vs = length es"
  by (induction es arbitrary: vs) (auto split: option.splits)

lemma hoare_pass_args:
  assumes K: "linked K" and vs: "core_vals (k_env K) (c_regs s) (take 6 args) = Some vs" and room: "roomy (slots (Call l args)) s"
  shows "hoare K (agrees s) (seqE [push_args ''r11'' (take 6 args), pop_args call_args (length (take 6 args))])
    (agrees (forget (list_all is_leaf (take 6 args)) (s\<lparr>c_regs := bind_regs arg_regs vs (c_regs s)\<rparr>)))"
proof -
  let ?es = "take 6 args" and ?n = "length (take 6 args)"
  have n: "?n \<le> length call_args" by (simp add: call_args_def)
  have 1: "length (take ?n call_args) = ?n" using n by simp
  have 2: "list_all2 (\<lambda>r d. reg_num r = Inr d \<and> d \<noteq> 4 \<and> d \<notin> scratch) (take ?n call_args) (take ?n arg_regs)"
    using call_regs by (rule list_all2_takeI)
  have 3: "roomy (arg_slots ?es) s" using room by (auto elim: roomy_mono)
  have b: "bind_regs (take ?n arg_regs) vs (c_regs s) = bind_regs arg_regs vs (c_regs s)"
    using bind_regs_take [of vs arg_regs] core_vals_length [OF vs] by simp
  have e: "seqE [push_args ''r11'' ?es, pop_args call_args ?n] =
      seqE (map push_value ?es @ map (\<lambda>r. asm_do (pop_reg r)) (rev (take ?n call_args)))"
    unfolding pop_args_rev [OF n] push_args_def push_value_def [abs_def]
    by (intro ext) (simp only: seqE_append seqE.simps(2) [of "seqE _"] seqE_single)
  show ?thesis unfolding e using hoare_args [OF K vs 1 2 3] unfolding b .
qed

subsection \<open>Statements\<close>

lemma tame_call: "tame (push_args t es)" "tame (pop_args rs n)" "tame (seqE [push_args t es, pop_args rs n])"
proof -
  show 1: "tame (push_args t es)" unfolding push_args_def by (intro tame_rules)
  show 2: "tame (pop_args rs n)" unfolding pop_args_def by (intro tame_rules)
  show "tame (seqE [push_args t es, pop_args rs n])" by (intro tame_rules 1 2)
qed

lemma frame_stmts [closed]: "within same_frame (call_stmt l es)" "within same_frame ret_stmt" "within same_frame fn_epilogue"
proof -
  have 1: "within same_frame (push_args t es)" "within same_frame (pop_args rs n)" for t es rs n
    using tame_call by (simp_all add: tame_def)
  show "within same_frame (call_stmt l es)" unfolding call_stmt_def by (intro closed frame.fold 1)
  show 2: "within same_frame fn_epilogue" unfolding fn_epilogue_def by (intro closed frame.fold)
  show "within same_frame ret_stmt" unfolding ret_stmt_def [abs_def] by (intro closed 2)
qed

lemma frame_node: "core_node n \<Longrightarrow> within same_frame (emit_node n)"
  using tame_ops unfolding tame_def
  by (cases n; simp only: core_node.simps simp_thms emit_node.simps place_def) (intro closed frame.fold; blast)+

lemma tame_node: "core_node n \<Longrightarrow> tame (emit_node n)"
  by (simp add: tame_def frame_node codes.emit_node_emit)

text \<open>The statements that emit no straight code: labels, jumps, calls and the encoding mode.\<close>

fun moves_pc :: "node \<Rightarrow> bool" where
  "moves_pc MetalDeterministic \<longleftrightarrow> True"
| "moves_pc (Label _) \<longleftrightarrow> True"
| "moves_pc (Goto _) \<longleftrightarrow> True"
| "moves_pc (JumpIf _ _) \<longleftrightarrow> True"
| "moves_pc (Call _ _) \<longleftrightarrow> True"
| "moves_pc Ret \<longleftrightarrow> True"
| "moves_pc _ \<longleftrightarrow> False"

lemma pc_next [simp]: "c_pc (core_next s) = Suc (c_pc s)" "c_pc (core_assign r v b s) = Suc (c_pc s)"
  by (simp_all add: core_next_def core_assign_def)

lemma hoare_stack_pop:
  assumes K: "linked K" and r: "core_reg dest = Some r" and pop: "core_pop E s = Some (v, t)"
  shows "hoare K (agrees s) (emit_node (StackPop dest)) (agrees (core_assign r v True t))"
proof -
  obtain p where p: "resolve dest = Inr p" "reg_num p = Inr r" "r \<noteq> 4" "r \<notin> scratch"
    using r by (rule core_regE)
  have t: "c_room s < 2 ^ 60" "v = word_of_int (fetch 8 (c_mem s) (c_sp s))" "t = popped s"
    using pop by (simp_all add: core_pop_Some)
  have "hoare K (agrees s) (asm_do (pop_reg p)) (agrees (core_assign r v True t))"
    by (rule hoare_post [OF hoare_pop_reg [OF K p(2-4) t(1)]]) (simp add: t core_assign_def agrees_def)
  then show ?thesis unfolding emit_node.simps by (intro hoare_res [OF p(1)] tame_rules)
qed

lemma hoare_stack_push:
  assumes "linked K" and "core_val (k_env K) (c_regs s) e = Some v" and "roomy (slots (StackPush e)) s"
  shows "hoare K (agrees s) (emit_node (StackPush e)) (agrees (core_next (forget (is_leaf e) (core_push v s))))"
proof -
  have "roomy 1 s" "roomy (stack_use e) s" using assms(3) by (auto elim: roomy_mono)
  from hoare_push_value [OF assms(1,2) this] show ?thesis by (simp add: push_value_def)
qed

lemma hoare_stmt:
  assumes K: "linked K" and st: "core_stmt (k_env K) P n s = Some t" and room: "roomy (slots n) s"
    and n: "core_node n" "\<not> moves_pc n"
  shows "hoare K (agrees s) (emit_node n) (agrees t) \<and> c_pc t = Suc (c_pc s)"
proof -
  have skip: "hoare K (agrees s) skip (agrees (core_next s))" by (rule hoare_skip) simp
  note stmts = hoare_cmp [OF K] hoare_bin [OF K] hoare_un [OF K] hoare_mem_load [OF K] hoare_mem_store [OF K]
    hoare_stack_push [OF K] hoare_stack_pop [OF K]
  show ?thesis
    using st room n skip
    by (cases "(k_env K, P, n, s)" rule: core_stmt.cases)
      (auto split: option.splits if_splits prod.splits simp: core_pop_Some
        simp del: emit_node.simps(4,14,15) slots.simps intro!: stmts)
qed

end
