(* ===== verification/Core_Simulation.thy ===== *)
theory Core_Simulation
  imports Core_Statements Image
begin

section \<open>Compiled core programs run as they should\<close>

text \<open>
  Labels, jumps, calls, the linker and the end of the program: every step of a core program is matched
  by a run of the processor over the linked code. The interface \<open>simulation\<close> states what one step has
  to give and derives the same for whole runs; it is interpreted on the core language and the machine.
\<close>

subsection \<open>Simulations\<close>

locale simulation =
  fixes astep :: "'a \<Rightarrow> 'a option" and arun :: "nat \<Rightarrow> 'a \<Rightarrow> 'a option"
    and crun :: "nat \<Rightarrow> 'c \<Rightarrow> 'c option" and rel :: "'a \<Rightarrow> 'c \<Rightarrow> bool"
  assumes arun_0: "arun 0 s = Some s"
    and arun_Suc: "arun (Suc n) s = (case astep s of None \<Rightarrow> None | Some t \<Rightarrow> arun n t)"
    and crun_0: "crun 0 m = Some m"
    and crun_add: "crun (n + k) m = (case crun n m of None \<Rightarrow> None | Some m' \<Rightarrow> crun k m')"
    and forward: "rel s m \<Longrightarrow> astep s = Some t \<Longrightarrow> \<exists>n m'. crun n m = Some m' \<and> rel t m'"
begin

lemma runs: "rel s m \<Longrightarrow> arun n s = Some t \<Longrightarrow> \<exists>k m'. crun k m = Some m' \<and> rel t m'"
proof (induction n arbitrary: s m)
  case 0
  then show ?case by (intro exI [of _ 0] exI [of _ m]) (simp add: arun_0 crun_0)
next
  case (Suc n)
  then obtain u where u: "astep s = Some u" "arun n u = Some t"
    by (auto simp: arun_Suc split: option.splits)
  obtain k m' where k: "crun k m = Some m'" "rel u m'" using forward [OF Suc.prems(1) u(1)] by blast
  obtain k' m'' where "crun k' m' = Some m''" "rel t m''" using Suc.IH [OF k(2) u(2)] by blast
  with k(1) have "crun (k + k') m = Some m'' \<and> rel t m''" by (simp add: crun_add)
  then show ?case by blast
qed

end

subsection \<open>Conditions\<close>

lemma sub_overflow:
  "((sint (a - b) < 0) \<noteq> (sint (a - b) \<noteq> sint a - sint b)) = (sint a < sint (b :: 64 word))"
proof -
  define x where "x = sint a - sint b"
  have r: "sint (a - b) = (x + 2 ^ 63) mod 2 ^ 64 - 2 ^ 63"
    by (simp add: x_def sint_word_ariths(2) signed_take_bit_eq_take_bit_shift take_bit_eq_mod)
  have b: "- (2 ^ 64) < x" "x < 2 ^ 64"
    using sint_ge [of a] sint_lt [of a] sint_ge [of b] sint_lt [of b] by (simp_all add: x_def)
  consider "x < - (2 ^ 63)" | "- (2 ^ 63) \<le> x" "x < 2 ^ 63" | "2 ^ 63 \<le> x" by linarith
  then have "((sint (a - b) < 0) \<noteq> (sint (a - b) \<noteq> x)) = (x < 0)"
  proof cases
    case 1
    have "(x + 2 ^ 63) mod 2 ^ 64 = (x + 2 ^ 63 + 2 ^ 64) mod 2 ^ 64" by (simp only: mod_add_self2)
    also have "\<dots> = x + 2 ^ 63 + 2 ^ 64" using 1 b by (intro mod_pos_pos_trivial) simp_all
    finally show ?thesis using 1 b r by simp
  next
    case 2
    then have "(x + 2 ^ 63) mod 2 ^ 64 = x + 2 ^ 63" by (intro mod_pos_pos_trivial) simp_all
    then show ?thesis using r by simp
  next
    case 3
    have "(x + 2 ^ 63) mod 2 ^ 64 = (x + 2 ^ 63 - 2 ^ 64) mod 2 ^ 64" by (simp only: minus_mod_self2)
    also have "\<dots> = x + 2 ^ 63 - 2 ^ 64" using 3 b by (intro mod_pos_pos_trivial) simp_all
    finally show ?thesis using 3 b r by simp
  qed
  then show ?thesis by (simp add: x_def)
qed

lemma cond_codes:
  "cond_holds 4 (sub_flags a b) = Some (a = b)" "cond_holds 5 (sub_flags a b) = Some (a \<noteq> b)"
  "cond_holds 12 (sub_flags a b) = Some (sint a < sint b)" "cond_holds 13 (sub_flags a b) = Some (sint a \<ge> sint b)"
  "cond_holds 14 (sub_flags a b) = Some (sint a \<le> sint b)" "cond_holds 15 (sub_flags a b) = Some (sint a > sint b)"
  "cond_holds 2 (sub_flags a b) = Some (a < b)" "cond_holds 3 (sub_flags a b) = Some (a \<ge> b)"
  "cond_holds 6 (sub_flags a b) = Some (a \<le> b)" "cond_holds 7 (sub_flags a b) = Some (a > b)"
proof -
  note flags = cond_holds_def cond_even_def sub_flags_def zs_flags_def lift2_def
  show "cond_holds 4 (sub_flags a b) = Some (a = b)" "cond_holds 5 (sub_flags a b) = Some (a \<noteq> b)"
    "cond_holds 2 (sub_flags a b) = Some (a < b)" "cond_holds 3 (sub_flags a b) = Some (a \<ge> b)"
    "cond_holds 6 (sub_flags a b) = Some (a \<le> b)" "cond_holds 7 (sub_flags a b) = Some (a > b)"
    by (auto simp: flags)
  have lt: "cond_holds 12 (sub_flags a b) = Some (sint a < sint b)"
    using sub_overflow [of a b] by (simp add: flags del: not_less)
  then show "cond_holds 12 (sub_flags a b) = Some (sint a < sint b)" "cond_holds 13 (sub_flags a b) = Some (sint a \<ge> sint b)"
    by (auto simp: cond_holds_def [of 12] cond_holds_def [of 13])
  have "(a = b \<or> sint a < sint b) = (sint a \<le> sint b)" by (auto simp: order_le_less signed_word_eqI)
  moreover have "cond_holds 14 (sub_flags a b) = map_option ((\<or>) (a = b)) (cond_holds 12 (sub_flags a b))"
    by (simp add: flags)
  ultimately show "cond_holds 14 (sub_flags a b) = Some (sint a \<le> sint b)" "cond_holds 15 (sub_flags a b) = Some (sint a > sint b)"
    using lt by (auto simp: cond_holds_def [of 14] cond_holds_def [of 15])
qed

lemma core_cond_code:
  assumes "core_cond c a b = Some t"
  shows "\<exists>opc. map_of JCC_OPCODE c = Some opc \<and> cond_holds (opc - 0x80) (sub_flags a b) = Some t \<and>
    0x80 \<le> opc \<and> opc \<le> 0x8F"
  using assms unfolding core_cond_def
  by (simp only: list.set insert_iff empty_iff option.distinct split: if_splits)
    (elim disjE; simp only: if_True if_False simp_thms; simp add: JCC_OPCODE_def cond_codes)+

subsection \<open>Jump instructions\<close>

definition jump_insn :: "opmap \<Rightarrow> int \<Rightarrow> int \<Rightarrow> insn" where
  "jump_insn m op' imm =
    \<lparr>i_pfx = [], i_rex = False, i_vex = None, i_w = False, i_map = m, i_op = op', i_reg = 0,
     i_rm = None, i_imm = imm\<rparr>"

lemma decode_jmp:
  "decode (0xE9 # bs) = (case read_le 4 bs of None \<Rightarrow> None | Some (v, r) \<Rightarrow> Some (jump_insn M1 0xE9 v, r))"
  by (simp add: decode_def is_legacy_def is_rex_def field_def decode_escape_def decode_tail_def fmt_of_def
      fmt_one_byte_def imm_len_def jump_insn_def split: option.split)

lemma decode_jcc:
  assumes "0x80 \<le> opc" "opc \<le> 0x8F"
  shows "decode (0x0F # u8 opc # bs) =
    (case read_le 4 bs of None \<Rightarrow> None | Some (v, r) \<Rightarrow> Some (jump_insn M0F opc v, r))"
proof -
  have u: "uint (u8 opc) = opc" using assms by (simp add: uint_u8)
  then have "u8 opc \<noteq> 0x38" "u8 opc \<noteq> 0x3A" using assms by auto
  then show ?thesis using assms u
    by (simp add: decode_def is_legacy_def is_rex_def field_def decode_escape_def decode_tail_def fmt_of_def
        fmt_0f_def imm_len_def jump_insn_def split: option.split)
qed

lemma exec_jump:
  "exec (jump_insn M1 0xE9 v) m = Some (m\<lparr>rip := rip m + sext 4 v\<rparr>)"
  "0x80 \<le> opc \<Longrightarrow> opc \<le> 0x8F \<Longrightarrow> cond_holds (opc - 0x80) (fl m) = Some t \<Longrightarrow>
     exec (jump_insn M0F opc v) m = Some (if t then m\<lparr>rip := rip m + sext 4 v\<rparr> else m)"
  by (simp_all add: exec_def exec_plain_def jump_insn_def Let_def)

lemma exec_call:
  "exec (jump_insn M1 0xE8 v) m = Some (push64 (rip m) m\<lparr>rip := rip m + sext 4 v\<rparr>)"
  by (simp add: exec_def exec_plain_def jump_insn_def Let_def)

lemma decode_call:
  "decode (0xE8 # bs) = (case read_le 4 bs of None \<Rightarrow> None | Some (v, r) \<Rightarrow> Some (jump_insn M1 0xE8 v, r))"
  by (simp add: decode_def is_legacy_def is_rex_def field_def decode_escape_def decode_tail_def fmt_of_def
      fmt_one_byte_def imm_len_def jump_insn_def split: option.split)

lemma encodes_ret: "encodes [0xC3] (jump_insn M1 0xC3 0)"
  by (simp add: encodes_def decode_def is_legacy_def is_rex_def field_def decode_escape_def decode_tail_def fmt_of_def
      fmt_one_byte_def imm_len_def read_le_0 jump_insn_def)

lemma exec_ret: "exec (jump_insn M1 0xC3 v) m = Some (set_rg 4 (rg m 4 + 8) m\<lparr>rip := load64 (rg m 4) m\<rparr>)"
  by (simp add: exec_def exec_plain_def jump_insn_def Let_def)

subsection \<open>Positions\<close>

text \<open>The generator when it comes to statement \<open>k\<close> of the main part, and its place in the code.\<close>

definition gen_at :: "program \<Rightarrow> gen \<Rightarrow> nat \<Rightarrow> gen res" where
  "gen_at prog g0 k = bindE (before_main prog g0) (seqE (map emit (take k (main_part prog))))"

definition code_pos :: "program \<Rightarrow> gen \<Rightarrow> nat \<Rightarrow> nat" where
  "code_pos prog g0 k = (case gen_at prog g0 k of Inl _ \<Rightarrow> 0 | Inr g \<Rightarrow> length (code (g_asm g)))"

lemma emit_program_main:
  "emit_program prog g0 = bindE (before_main prog g0) (seqE [seqE (map emit (main_part prog)),
    (\<lambda>g. if \<not> baremetal g \<and> \<not> ends_exit prog then default_exit g else Inr g),
    seqE (map emit (filter is_fn prog))])"
  unfolding main_part_def by (rule emit_program_parts)

lemma gen_at_Suc:
  assumes "k < length (main_part prog)"
  shows "gen_at prog g0 (Suc k) = bindE (gen_at prog g0 k) (emit (main_part prog ! k))"
  unfolding gen_at_def take_Suc_conv_app_nth [OF assms] map_append seqE_append
  by (cases "before_main prog g0") (simp_all del: seqE.simps)

lemma gen_at_step:
  assumes "gen_at prog g0 n = Inr h" and "k \<le> n"
  shows "\<exists>g. gen_at prog g0 k = Inr g \<and> gen_step g h"
proof -
  let ?P = "main_part prog"
  have "take n ?P = take k ?P @ drop k (take n ?P)" by (metis append_take_drop_id assms(2) min.absorb1 take_take)
  then have "bindE (gen_at prog g0 k) (seqE (map emit (drop k (take n ?P)))) = gen_at prog g0 n"
    unfolding gen_at_def by (cases "before_main prog g0") (metis bindE.simps(1), metis bindE.simps(2) map_append seqE_append)
  then obtain g where g: "gen_at prog g0 k = Inr g" "seqE (map emit (drop k (take n ?P))) g = Inr h"
    unfolding assms(1) by (rule bindE_InrE)
  have "within gen_step (seqE (map emit (drop k (take n ?P))))"
    by (intro codes.lists codes.fold codes.emit_emit)
  then have "gen_step g h" using g(2) by (rule withinD)
  with g(1) show ?thesis by blast
qed

subsection \<open>The passes before the code\<close>

definition front_step :: "gen \<Rightarrow> gen \<Rightarrow> bool" where
  "front_step g g' \<longleftrightarrow> (fn_locals g' = fn_locals g \<and> fn_args g' = fn_args g \<and> in_fn g' = in_fn g \<and>
     baremetal g' = baremetal g) \<and> code (g_asm g') = code (g_asm g) \<and> labels (g_asm g') = labels (g_asm g) \<and>
     relocs (g_asm g') = relocs (g_asm g) \<and>
     (distinct (map fst (data_layout g)) \<longrightarrow> distinct (map fst (data_layout g')))"

interpretation front: pass_property front_step
  by unfold_locales (auto simp: front_step_def distinct_update)

lemma front_before: "\<not> has_node TargetBaremetal prog \<Longrightarrow> within front_step (before_main prog)"
proof -
  have 2: "within front_step set_deterministic"
    by (auto simp: within_def front_step_def set_deterministic_def)
  have 4: "within front_step skip"
    by (simp add: within_def skip_def front.refl)
  assume "\<not> has_node TargetBaremetal prog"
  then show ?thesis
    unfolding before_main_def by (simp only: if_False) (intro front.fold closed 2 4 front.passes)
qed

lemma core_no_kernel: "core_program prog \<Longrightarrow> \<not> has_node TargetBaremetal prog"
  and core_no_exit: "core_program prog \<Longrightarrow> \<not> ends_exit prog"
proof -
  assume c: "core_program prog"
  have n: "is_fn s \<or> core_node (snd s)" if "s \<in> set prog" for s
    using c that by (cases s) (auto simp: core_program_def main_part_def list_all_iff)
  show "\<not> has_node TargetBaremetal prog"
    using n by (fastforce simp: has_node_def list_ex_iff is_fn_def)
  show "\<not> ends_exit prog"
    using n [of "last prog"] by (auto simp: ends_exit_def is_fn_def split: node.splits)
qed

subsection \<open>The environment of a program\<close>

text \<open>The constants are those the passes before the code have collected; the addresses are counted from
  the address \<open>b\<close> the code is loaded at.\<close>

definition before_gen :: "program \<Rightarrow> gen \<Rightarrow> gen" where
  "before_gen prog g0 = (case before_main prog g0 of Inl _ \<Rightarrow> g0 | Inr g \<Rightarrow> g)"

definition core_env :: "program \<Rightarrow> gen \<Rightarrow> gen \<Rightarrow> 64 word \<Rightarrow> scope" where
  "core_env prog g0 g b =
    \<lparr>e_const = gen_const (before_gen prog g0), e_field = gen_field (before_gen prog g0),
     e_addr = (\<lambda>n. map_option (\<lambda>off. b + of_int (data_start g + off)) (map_of (data_layout g) n)),
     e_pos = map (\<lambda>k. b + of_nat (code_pos prog g0 k)) [0..<Suc (length (main_part prog))],
     e_code = (\<lambda>p. unat (p - b) < length (code (g_asm g)))\<rparr>"

text \<open>The notes on the line and the statement.\<close>

definition note_stmt :: "int \<Rightarrow> node \<Rightarrow> cg" where
  "note_stmt ln n = seqE [note_line ln, note_teach ln (node_class n)]"

lemma tame_note: "tame (note_stmt ln n)"
proof -
  have "within same_frame (note_line ln)" "within same_frame (note_teach ln hint)" for hint
    by (auto simp: within_def note_line_def note_teach_def same_frame_def Let_def)
  moreover have "emits_code (note_line ln)" "emits_code (note_teach ln hint)" for hint
    by (auto simp: within_def note_line_def note_teach_def gen_step_def gen_ok_def Let_def)
  ultimately show ?thesis unfolding note_stmt_def by (intro tame_seq) (simp_all add: tame_def)
qed

lemma note_stmt_asm: "note_stmt ln n g = Inr g' \<Longrightarrow> g_asm g' = g_asm g"
  by (auto simp: note_stmt_def note_line_def note_teach_def Let_def split: if_splits)

lemma emit_noted: "core_node n \<Longrightarrow> emit (ln, n) = seqE [note_stmt ln n, emit_node n]"
proof -
  assume "core_node n"
  then have "emit (ln, n) = seqE [note_line ln, note_teach ln (node_class n), emit_node n]" by (cases n) simp_all
  also have "\<dots> = seqE [note_stmt ln n, emit_node n]"
    unfolding note_stmt_def
  proof
    fix g
    show "seqE [note_line ln, note_teach ln (node_class n), emit_node n] g =
        seqE [seqE [note_line ln, note_teach ln (node_class n)], emit_node n] g"
      by (cases "note_line ln g") simp_all
  qed
  finally show ?thesis .
qed

lemma tame_emit: "core_node n \<Longrightarrow> tame (emit (ln, n))"
  unfolding emit_noted by (intro tame_seq tame_note tame_node)

text \<open>The generator at a statement of a core program.\<close>

lemma gen_at_ok:
  assumes "core_program prog" and g0: "g0 = init_gen\<lparr>use_wx := w, debug_dwarf := d\<rparr>" and g: "gen_at prog g0 k = Inr g"
  shows "gen_ok g" and "sees (core_env prog g0 gf b) g" and "\<not> baremetal g"
    and "k = 0 \<Longrightarrow> code (g_asm g) = []"
proof -
  obtain g1 where g1: "before_main prog g0 = Inr g1" and g: "seqE (map emit (take k (main_part prog))) g1 = Inr g"
    using assms(3) unfolding gen_at_def by (rule bindE_InrE)
  have "front_step g0 g1"
    using withinD [OF front_before [OF core_no_kernel [OF assms(1)]] g1] .
  then have 1: "gen_ok g1" "fn_locals g1 = []" "fn_args g1 = []" "\<not> in_fn g1" "\<not> baremetal g1" "code (g_asm g1) = []"
    by (simp_all add: g0 front_step_def init_gen_def gen_ok_def wf_asm_def init_asm_def)
  have "list_all tame (map emit (take k (main_part prog)))"
    using assms(1) tame_emit unfolding core_program_def list_all_iff by (fastforce dest: in_set_takeD)
  then have t: "tame (seqE (map emit (take k (main_part prog))))" by (rule tame_seq)
  note ts = tame_step [OF t g]
  show "gen_ok g" using 1(1) by (rule ts(2))
  have "sees (core_env prog g0 gf b) g1" using 1(2-4) by (simp add: sees_def core_env_def before_gen_def g1)
  then show "sees (core_env prog g0 gf b) g" by (rule ts(3))
  have "same_frame g1 g" using t g by (auto simp: tame_def dest: withinD)
  then show "\<not> baremetal g" using 1(5) by (simp add: same_frame_def)
  show "k = 0 \<Longrightarrow> code (g_asm g) = []" using g 1(6) by auto
qed

subsection \<open>The generated program\<close>

lemma core_generated:
  assumes "generate_code prog g0 = Inr g" and "gen_ok g0"
  obtains h a where "link (Some (link_offsets h)) (g_asm h) = Inr a" "g = h\<lparr>g_asm := a\<rparr>" "gen_ok h"
    "\<And>k. k \<le> length (main_part prog) \<Longrightarrow> \<exists>gk. gen_at prog g0 k = Inr gk \<and> gen_step gk h"
    "\<And>gk. gen_at prog g0 (length (main_part prog)) = Inr gk \<Longrightarrow> \<not> baremetal gk \<Longrightarrow> \<not> ends_exit prog \<Longrightarrow>
      \<exists>ge. default_exit gk = Inr ge \<and> gen_step ge h"
proof -
  let ?P = "main_part prog" and ?fns = "seqE (map emit (filter is_fn prog))"
  let ?exit = "\<lambda>g. if \<not> baremetal g \<and> \<not> ends_exit prog then default_exit g else Inr g"
  obtain h where h: "emit_program prog g0 = Inr h"
    and a: "bindE (link (Some (link_offsets h)) (g_asm h)) (\<lambda>a. Inr (h\<lparr>g_asm := a\<rparr>)) = Inr g"
    using assms(1) unfolding generate_code_def by (auto simp: bindE_Inr_iff)
  obtain g1 where g1: "before_main prog g0 = Inr g1" and r: "seqE [seqE (map emit ?P), ?exit, ?fns] g1 = Inr h"
    using h unfolding emit_program_main by (rule bindE_InrE)
  obtain gP where gP: "seqE (map emit ?P) g1 = Inr gP" and r2: "seqE [?exit, ?fns] gP = Inr h" using r by (rule seqE_ConsE)
  obtain ge where ge: "?exit gP = Inr ge" and r3: "seqE [?fns] ge = Inr h" using r2 by (rule seqE_ConsE)
  have at: "gen_at prog g0 (length ?P) = Inr gP" by (simp add: gen_at_def g1 gP)
  have exit: "emits_code ?exit" by (intro closed codes.default_exit_emit step.skip)
  have fns: "emits_code ?fns" by (rule codes.emits)
  have "gen_step ge h" using withinD [OF fns] r3 by simp
  moreover have "gen_step gP ge" by (rule withinD [OF exit ge])
  ultimately have eh: "gen_step ge h" "gen_step gP h" using step.trans by blast+
  have "prog_step g0 h" by (rule withinD [OF emit_program_step h])
  then have ok: "gen_ok h" using assms(2) by (simp add: prog_step_def)
  obtain a where a': "link (Some (link_offsets h)) (g_asm h) = Inr a" "g = h\<lparr>g_asm := a\<rparr>"
    using a by (auto simp: bindE_Inr_iff)
  show thesis
  proof (rule that [OF a' ok])
    fix k assume "k \<le> length ?P"
    from gen_at_step [OF at this] show "\<exists>gk. gen_at prog g0 k = Inr gk \<and> gen_step gk h"
      using step.trans [OF _ eh(2)] by blast
  next
    fix gk assume "gen_at prog g0 (length ?P) = Inr gk" "\<not> baremetal gk" "\<not> ends_exit prog"
    then show "\<exists>ge. default_exit gk = Inr ge \<and> gen_step ge h" using at ge eh(1) by auto
  qed
qed

lemma find_label: "find_label P l = Some j \<Longrightarrow> j < length P \<and> snd (P ! j) = Label l"
  by (induction P l arbitrary: j rule: find_label.induct) (auto split: if_splits)

lemma find_pos: "find_pos ps v = Some k \<Longrightarrow> k < length ps \<and> ps ! k = v"
  by (induction ps v arbitrary: k rule: find_pos.induct) (auto split: if_splits)

lemma emit_parts:
  assumes "core_node n" and "emit (ln, n) g1 = Inr g2"
  obtains g1' where "note_stmt ln n g1 = Inr g1'" "emit_node n g1' = Inr g2" "g_asm g1' = g_asm g1"
proof -
  obtain g1' where "note_stmt ln n g1 = Inr g1'" "emit_node n g1' = Inr g2"
    using assms(2) unfolding emit_noted [OF assms(1)] by (auto simp: bindE_Inr_iff)
  then show thesis using that note_stmt_asm by blast
qed

lemma label_position:
  assumes "find_label (main_part prog) l = Some j" and "gen_ok h"
    and at: "\<And>k. k \<le> length (main_part prog) \<Longrightarrow> \<exists>gk. gen_at prog g0 k = Inr gk \<and> gen_step gk h"
  shows "map_of (labels (g_asm h)) (''__lbl_'' @ l) = Some (code_pos prog g0 j)"
proof -
  note j = find_label [OF assms(1)]
  obtain ln where ln: "main_part prog ! j = (ln, Label l)" using j by (cases "main_part prog ! j") auto
  obtain g1 g2 where g: "gen_at prog g0 j = Inr g1" "gen_at prog g0 (Suc j) = Inr g2" "gen_step g2 h"
    using at [of j] at [of "Suc j"] j by auto
  have e: "emit (ln, Label l) g1 = Inr g2" using gen_at_Suc [of j prog g0] j g(1,2) ln by simp
  obtain g1' where "emit_node (Label l) g1' = Inr g2" "g_asm g1' = g_asm g1" by (rule emit_parts [OF _ e]) simp
  then have "(''__lbl_'' @ l, length (code (g_asm g1))) \<in> set (labels (g_asm g2))"
    by (auto simp: place_def asm_do_def bindE_Inr_iff label_at_def split: if_splits)
  moreover have "set (labels (g_asm g2)) \<subseteq> set (labels (g_asm h))" using g(3) by (auto simp: gen_step_def appends_def)
  moreover have "distinct (map fst (labels (g_asm h)))" using assms(2) by (simp add: gen_ok_def wf_asm_def)
  ultimately show ?thesis using g(1) by (auto simp: code_pos_def)
qed

lemma core_linked:
  assumes prog: "core_program prog" and g0: "g0 = init_gen\<lparr>use_wx := w, debug_dwarf := d\<rparr>"
    and gen: "generate_code prog g0 = Inr g" and len: "length (code (g_asm g)) < 2 ^ 64"
  obtains h where "linked \<lparr>k_gen = h, k_code = code (g_asm g), k_base = b, k_env = core_env prog g0 g b\<rparr>"
    "gen_ok h" "\<And>k. k \<le> length (main_part prog) \<Longrightarrow> \<exists>gk. gen_at prog g0 k = Inr gk \<and> gen_step gk h"
    "\<And>gk. gen_at prog g0 (length (main_part prog)) = Inr gk \<Longrightarrow> \<exists>ge. default_exit gk = Inr ge \<and> gen_step ge h"
proof -
  have "gen_ok g0" using gen_ok_init by (simp add: g0)
  from core_generated [OF gen this] obtain h a where a: "link (Some (link_offsets h)) (g_asm h) = Inr a" "g = h\<lparr>g_asm := a\<rparr>"
    and h: "gen_ok h" and at: "\<And>k. k \<le> length (main_part prog) \<Longrightarrow> \<exists>gk. gen_at prog g0 k = Inr gk \<and> gen_step gk h"
    and ex: "\<And>gk. gen_at prog g0 (length (main_part prog)) = Inr gk \<Longrightarrow> \<not> baremetal gk \<Longrightarrow> \<not> ends_exit prog \<Longrightarrow>
      \<exists>ge. default_exit gk = Inr ge \<and> gen_step ge h" by metis
  have "data_start g = data_start h" "data_layout g = data_layout h"
    using link_frame(1) [OF a(1) gen_ok_asm [OF h]] by (simp_all add: a(2) data_start_def)
  then have "linked \<lparr>k_gen = h, k_code = code (g_asm g), k_base = b, k_env = core_env prog g0 g b\<rparr>"
    using a h len by (auto simp: linked_def core_env_def)
  moreover have "\<exists>ge. default_exit gk = Inr ge \<and> gen_step ge h" if "gen_at prog g0 (length (main_part prog)) = Inr gk" for gk
    using ex [OF that gen_at_ok(3) [OF prog g0 that] core_no_exit [OF prog]] .
  ultimately show thesis using h at by (intro that) auto
qed

subsection \<open>The free stack and the code\<close>

definition keeps_code :: "scope \<Rightarrow> core \<Rightarrow> core \<Rightarrow> bool" where
  "keeps_code E s t \<longleftrightarrow> safe E t \<and> (\<forall>p. e_code E p \<longrightarrow> c_mem t p = c_mem s p)"

lemma safe_slot: "safe E s \<Longrightarrow> roomy 1 s \<Longrightarrow> i < 8 \<Longrightarrow> \<not> e_code E (c_sp s - 8 + of_nat i)"
  using unused_push [of s "c_sp s - 8 + of_nat i"] by (auto simp: safe_def)

lemma keeps_code_push:
  assumes "safe E s" and "1 \<le> c_room s"
  shows "keeps_code E s (core_push v s)"
proof -
  have room: "roomy 1 s" using assms by (simp add: roomy_def safe_def)
  have "put 8 (c_sp s - 8) v (c_mem s) p = c_mem s p" if "e_code E p" for p
    using safe_slot [OF assms(1) room] that by (intro put_other) blast
  moreover have "unused (core_push v s) p \<Longrightarrow> unused s p" for p using unused_push [OF room] by blast
  ultimately show ?thesis using assms by (auto simp: keeps_code_def safe_def) (simp_all add: core_push_def)
qed

lemma keeps_code_pop:
  assumes "safe E s" and "core_pop E s = Some (v, t)"
  shows "keeps_code E s t"
proof -
  have t: "c_room s < 2 ^ 60" "no_code E 8 (c_sp s)" "t = popped s" using assms(2) by (simp_all add: core_pop_Some)
  then have "unused t p \<Longrightarrow> \<not> e_code E p" for p
    using unused_popped [OF t(1)] assms(1) by (auto simp: safe_def no_code_def list_all_iff)
  then show ?thesis using t(1) by (auto simp: keeps_code_def safe_def t(3))
qed

lemma keeps_code_same [simp]: "keeps_code E s (core_next t) = keeps_code E s t" "keeps_code E s (t\<lparr>c_pc := n\<rparr>) = keeps_code E s t"
  "keeps_code E s (t\<lparr>c_cmp := c\<rparr>) = keeps_code E s t" "keeps_code E s (core_assign r v b t) = keeps_code E s t"
  "keeps_code E s (forget b t) = keeps_code E s t"
  by (simp_all add: keeps_code_def safe_def core_next_def core_assign_def forget_def)

lemma keeps_code_cong: "keeps_code E s t \<Longrightarrow> c_mem s = c_mem s' \<Longrightarrow> keeps_code E s' t"
  by (simp add: keeps_code_def)

lemma keeps_code_refl: "safe E s \<Longrightarrow> keeps_code E s s"
  by (simp add: keeps_code_def)

lemma keeps_code_put:
  assumes "safe E s" and "no_code E n p"
  shows "keeps_code E s (s\<lparr>c_mem := put n p v (c_mem s)\<rparr>)"
proof -
  have "put n p v (c_mem s) q = c_mem s q" if "e_code E q" for q
    using assms(2) that by (intro put_other) (auto simp: no_code_def list_all_iff)
  then show ?thesis using assms(1) by (simp add: keeps_code_def safe_def)
qed

lemma core_jump_Some: "core_jump P l s = Some t \<longleftrightarrow> (\<exists>k. find_label P l = Some k \<and> t = s\<lparr>c_pc := k\<rparr>)"
  by (auto simp: core_jump_def)

lemma core_stmt_keeps_code:
  assumes "core_stmt E P n s = Some t" and "safe E s" and "slots n \<le> c_room s"
  shows "keeps_code E s t"
proof -
  have call: "keeps_code E s (core_push v (forget b (s\<lparr>c_regs := \<rho>\<rparr>)))" if "1 \<le> c_room s" for v b \<rho>
  proof -
    have "safe E (forget b (s\<lparr>c_regs := \<rho>\<rparr>))" using assms(2) by (simp add: safe_def forget_def)
    from keeps_code_push [OF this, of v] that
    have "keeps_code E (forget b (s\<lparr>c_regs := \<rho>\<rparr>)) (core_push v (forget b (s\<lparr>c_regs := \<rho>\<rparr>)))" by simp
    then show ?thesis by (rule keeps_code_cong) simp
  qed
  have push: "Suc 0 \<le> c_room s \<Longrightarrow> keeps_code E s (core_push v s)" for v
    using keeps_code_push [OF assms(2)] by simp
  show ?thesis
    using assms call push
    by (cases "(E, P, n, s)" rule: core_stmt.cases)
      (auto split: option.splits if_splits prod.splits simp: core_jump_Some
        intro: keeps_code_refl keeps_code_pop keeps_code_put)
qed

subsection \<open>One step\<close>

definition represents :: "program \<Rightarrow> gen \<Rightarrow> gen \<Rightarrow> 64 word \<Rightarrow> core \<Rightarrow> mach \<Rightarrow> bool" where
  "represents prog g0 g b s m \<longleftrightarrow> c_pc s \<le> length (main_part prog) \<and> agrees s m \<and>
     safe (core_env prog g0 g b) s \<and> rip m = b + of_nat (code_pos prog g0 (c_pc s))"

lemma agrees_rip [simp]: "agrees s (m\<lparr>rip := p\<rparr>) = agrees s m"
  by (simp add: agrees_def holds_def)

lemma agrees_at [simp]: "agrees s (at K g m) = agrees s m"
  by (simp add: at_def)

lemma at_self: "rip m = k_base K + of_nat (length (code (g_asm g))) \<Longrightarrow> at K g m = m"
  by (simp add: at_def)

lemma jump_parts:
  assumes "asm_do (jmp l) g1 = Inr g2"
  obtains r where "code (g_asm g2) = code (g_asm g1) @ [0xE9] @ [0, 0, 0, 0]" "relocs (g_asm g2) = relocs (g_asm g1) @ [r]"
    "r_offset r = length (code (g_asm g1)) + length [0xE9 :: byte]" "r_target r = l"
  using assms by (auto simp: asm_do_def bindE_Inr_iff jmp_def emits_def emit_rel32_fixup_def Let_def)

lemma call_parts:
  assumes "asm_do (call l) g1 = Inr g2"
  obtains r where "code (g_asm g2) = code (g_asm g1) @ [0xE8] @ [0, 0, 0, 0]" "relocs (g_asm g2) = relocs (g_asm g1) @ [r]"
    "r_offset r = length (code (g_asm g1)) + length [0xE8 :: byte]" "r_target r = l"
  using assms by (auto simp: asm_do_def bindE_Inr_iff call_def emits_def emit_rel32_fixup_def Let_def)

lemma jcc_parts:
  assumes "asm_do (jcc c l) g1 = Inr g2" and "map_of JCC_OPCODE c = Some opc"
  obtains r where "code (g_asm g2) = code (g_asm g1) @ [0x0F, u8 opc] @ [0, 0, 0, 0]"
    "relocs (g_asm g2) = relocs (g_asm g1) @ [r]"
    "r_offset r = length (code (g_asm g1)) + length [0x0F, u8 opc]" "r_target r = l"
  using assms by (auto simp: asm_do_def bindE_Inr_iff jcc_def with_cond_def emits_def emit_rel32_fixup_def Let_def)

text \<open>An instruction without a label.\<close>

lemma linked_plain:
  assumes K: "linked K" and g: "gen_ok g" "gen_step g' (k_gen K)"
    and c: "code (g_asm g') = code (g_asm g) @ bs" "relocs (g_asm g') = relocs (g_asm g)" and bs: "encodes bs i"
  shows "steps (k_base K) (k_code K) 1 (at K g m) = exec i (at K g' m)"
proof -
  let ?n = "length (code (g_asm g))" and ?c = "k_code K"
  obtain a where a: "link (Some (link_offsets (k_gen K))) (g_asm (k_gen K)) = Inr a" "?c = code a"
    and h: "wf_asm (g_asm (k_gen K))" "length ?c < 2 ^ 64" using K by (auto simp: linked_def gen_ok_def)
  have ok: "wf_asm (g_asm g)" "appends (g_asm g') (g_asm (k_gen K))" using g by (simp_all add: gen_ok_def gen_step_def)
  have lb: "slice ?n (length bs) ?c = bs" "?n + length bs \<le> length ?c"
    using linked_bytes [OF a(1) h(1) ok, of bs "[]" "[]"] c by (simp_all add: a(2))
  have "drop ?n ?c = bs @ drop (?n + length bs) ?c"
    using lb by (metis add.commute append_take_drop_id drop_drop slice_def)
  then have "decode (drop ?n ?c) = Some (i, drop (?n + length bs) ?c)" using bs by (simp add: encodes_def)
  moreover have "unat (rip (at K g m) - k_base K) = ?n" using lb(2) h(2) by (simp add: at_def unat_of_nat)
  moreover have "length ?c - length (drop (?n + length bs) ?c) = ?n + length bs" using lb(2) by simp
  ultimately have "step (k_base K) ?c (at K g m) = exec i (at K g' m)"
    by (simp add: step_def at_def c(1) del: of_nat_add length_drop)
  then show ?thesis by (simp split: option.split)
qed

lemma holds_popped: "holds s m \<Longrightarrow> c_room s < 2 ^ 60 \<Longrightarrow> holds (popped s) (set_rg 4 (rg m 4 + 8) m)"
proof -
  assume "holds s m" "c_room s < 2 ^ 60"
  then have "holds (popped s) (pop64 11 m)" by (intro holds_pop(1)) (simp_all add: scratch_def)
  then show ?thesis by (simp add: pop64_def scratch_def)
qed

text \<open>The jumps, from the place \<open>g1\<close> of a statement to the place \<open>g2\<close> behind it.\<close>

lemma linked_label:
  assumes K: "linked K" and "gen_step g2 (k_gen K)" and "relocs (g_asm g2) = rs @ [r]" and "r_target r = ''__lbl_'' @ l"
    and j: "find_label (main_part prog) l = Some j"
    and at: "\<And>k. k \<le> length (main_part prog) \<Longrightarrow> \<exists>gk. gen_at prog g0 k = Inr gk \<and> gen_step gk (k_gen K)"
  shows "rel32_target (k_code K) r = int (code_pos prog g0 j)"
proof -
  have h: "gen_ok (k_gen K)" using K by (simp add: linked_def)
  show ?thesis
    using linked_target [OF assms(1-3)] label_position [OF j h at]
    unfolding link_offsets_lookup [OF h] assms(4) if_not_P [OF not_data_label(1)] by simp
qed

lemma linked_goto:
  assumes K: "linked K" and g: "gen_ok g1" "gen_step g2 (k_gen K)" "asm_do (jmp (''__lbl_'' @ l)) g1 = Inr g2"
    and j: "find_label (main_part prog) l = Some j"
    and at: "\<And>k. k \<le> length (main_part prog) \<Longrightarrow> \<exists>gk. gen_at prog g0 k = Inr gk \<and> gen_step gk (k_gen K)"
  shows "steps (k_base K) (k_code K) 1 (at K g1 m) = Some (at_rip (k_base K + of_nat (code_pos prog g0 j)) m)"
proof -
  obtain r where r: "code (g_asm g2) = code (g_asm g1) @ [0xE9] @ [0, 0, 0, 0]" "relocs (g_asm g2) = relocs (g_asm g1) @ [r]"
    "r_offset r = length (code (g_asm g1)) + length [0xE9 :: byte]" "r_target r = ''__lbl_'' @ l"
    using g(3) by (rule jump_parts)
  have dec: "decode ([0xE9] @ bs) = (case read_le 4 bs of None \<Rightarrow> None | Some (v, r) \<Rightarrow> Some (jump_insn M1 0xE9 v, r))" for bs
    by (simp add: decode_jmp)
  obtain v where v: "\<And>m. steps (k_base K) (k_code K) 1 (at K g1 m) = exec (jump_insn M1 0xE9 v) (at K g2 m)"
    "k_base K + of_nat (length (code (g_asm g2))) + sext 4 v = k_base K + of_int (rel32_target (k_code K) r)"
    by (rule linked_step [OF K g(1,2) r(1-3) dec]) (rule that)
  have "rip (at K g2 m) + sext 4 v = k_base K + of_nat (code_pos prog g0 j)"
    using v(2) linked_label [OF K g(2) r(2,4) j at] by (simp add: at_def)
  then show ?thesis unfolding v(1) exec_jump(1) by (simp add: at_def)
qed

lemma linked_jcc:
  assumes K: "linked K" and g: "gen_ok g1" "gen_step g2 (k_gen K)" "asm_do (jcc c (''__lbl_'' @ l)) g1 = Inr g2"
    and j: "t \<Longrightarrow> find_label (main_part prog) l = Some j"
    and at: "\<And>k. k \<le> length (main_part prog) \<Longrightarrow> \<exists>gk. gen_at prog g0 k = Inr gk \<and> gen_step gk (k_gen K)"
    and fl: "fl m = sub_flags x y" "core_cond c x y = Some t"
  shows "steps (k_base K) (k_code K) 1 (at K g1 m) =
    Some (if t then at_rip (k_base K + of_nat (code_pos prog g0 j)) m else at K g2 m)"
proof -
  obtain opc where opc: "map_of JCC_OPCODE c = Some opc" "cond_holds (opc - 0x80) (sub_flags x y) = Some t" "0x80 \<le> opc" "opc \<le> 0x8F"
    using core_cond_code [OF fl(2)] by blast
  obtain r where r: "code (g_asm g2) = code (g_asm g1) @ [0x0F, u8 opc] @ [0, 0, 0, 0]" "relocs (g_asm g2) = relocs (g_asm g1) @ [r]"
    "r_offset r = length (code (g_asm g1)) + length [0x0F, u8 opc]" "r_target r = ''__lbl_'' @ l"
    using g(3) opc(1) by (rule jcc_parts)
  have dec: "decode ([0x0F, u8 opc] @ bs) = (case read_le 4 bs of None \<Rightarrow> None | Some (v, r) \<Rightarrow> Some (jump_insn M0F opc v, r))" for bs
    using decode_jcc [OF opc(3,4)] by simp
  obtain v where v: "\<And>m. steps (k_base K) (k_code K) 1 (at K g1 m) = exec (jump_insn M0F opc v) (at K g2 m)"
    "k_base K + of_nat (length (code (g_asm g2))) + sext 4 v = k_base K + of_int (rel32_target (k_code K) r)"
    by (rule linked_step [OF K g(1,2) r(1-3) dec]) (rule that)
  have "cond_holds (opc - 0x80) (fl (at K g2 m)) = Some t" using opc(2) fl(1) by (simp add: at_def)
  note e = exec_jump(2) [OF opc(3,4) this]
  show ?thesis
  proof (cases t)
    case True
    have "rip (at K g2 m) + sext 4 v = k_base K + of_nat (code_pos prog g0 j)"
      using v(2) linked_label [OF K g(2) r(2,4) j [OF True] at] by (simp add: at_def)
    then show ?thesis using True unfolding v(1) e by (simp add: at_def)
  next
    case False
    then show ?thesis unfolding v(1) e by simp
  qed
qed

lemma linked_call:
  assumes K: "linked K" and g: "gen_ok g1" "gen_step g2 (k_gen K)" "asm_do (call (''__lbl_'' @ l)) g1 = Inr g2"
    and j: "find_label (main_part prog) l = Some j"
    and at: "\<And>k. k \<le> length (main_part prog) \<Longrightarrow> \<exists>gk. gen_at prog g0 k = Inr gk \<and> gen_step gk (k_gen K)"
  shows "steps (k_base K) (k_code K) 1 (at K g1 m) =
    Some (at_rip (k_base K + of_nat (code_pos prog g0 j)) (push64 (k_base K + of_nat (length (code (g_asm g2)))) m))"
proof -
  obtain r where r: "code (g_asm g2) = code (g_asm g1) @ [0xE8] @ [0, 0, 0, 0]" "relocs (g_asm g2) = relocs (g_asm g1) @ [r]"
    "r_offset r = length (code (g_asm g1)) + length [0xE8 :: byte]" "r_target r = ''__lbl_'' @ l"
    using g(3) by (rule call_parts)
  have dec: "decode ([0xE8] @ bs) = (case read_le 4 bs of None \<Rightarrow> None | Some (v, r) \<Rightarrow> Some (jump_insn M1 0xE8 v, r))" for bs
    by (simp add: decode_call)
  obtain v where v: "\<And>m. steps (k_base K) (k_code K) 1 (at K g1 m) = exec (jump_insn M1 0xE8 v) (at K g2 m)"
    "k_base K + of_nat (length (code (g_asm g2))) + sext 4 v = k_base K + of_int (rel32_target (k_code K) r)"
    by (rule linked_step [OF K g(1,2) r(1-3) dec]) (rule that)
  have "rip (at K g2 m) + sext 4 v = k_base K + of_nat (code_pos prog g0 j)"
    using v(2) linked_label [OF K g(2) r(2,4) j at] by (simp add: at_def)
  then show ?thesis unfolding v(1) exec_call by (simp add: at_def push64_def)
qed

lemma linked_ret:
  assumes K: "linked K" and g: "gen_ok g1" "sees E g1" "gen_step g2 (k_gen K)" "ret_stmt g1 = Inr g2"
  shows "steps (k_base K) (k_code K) 1 (at K g1 m) = Some (at_rip (load64 (rg m 4) m) (set_rg 4 (rg m 4 + 8) m))"
proof -
  have c: "code (g_asm g2) = code (g_asm g1) @ [0xC3]" "relocs (g_asm g2) = relocs (g_asm g1)"
    using g(2,4) by (auto simp: ret_stmt_def sees_def asm_do_def bindE_Inr_iff ret_def emits_def)
  show ?thesis
    unfolding linked_plain [OF K g(1,3) c encodes_ret] exec_ret by (simp add: at_def)
qed

text \<open>From the place of a statement the processor comes to the place of the next one, in state \<open>t\<close>.\<close>

definition arrives :: "ctx \<Rightarrow> program \<Rightarrow> gen \<Rightarrow> gen \<Rightarrow> mach \<Rightarrow> core \<Rightarrow> bool" where
  "arrives K prog g0 g1 m t \<longleftrightarrow> (\<exists>j m'. steps (k_base K) (k_code K) j (at K g1 m) = Some m' \<and> agrees t m' \<and>
     rip m' = k_base K + of_nat (code_pos prog g0 (c_pc t)) \<and> c_pc t \<le> length (main_part prog))"

lemma arrivesI:
  "steps (k_base K) (k_code K) j (at K g1 m) = Some m' \<Longrightarrow> agrees t m' \<Longrightarrow>
     rip m' = k_base K + of_nat (code_pos prog g0 (c_pc t)) \<Longrightarrow> c_pc t \<le> length (main_part prog) \<Longrightarrow> arrives K prog g0 g1 m t"
  unfolding arrives_def by blast

lemma arrives_mark:
  assumes n: "n = Label l \<or> n = MetalDeterministic" and g: "emit_node n g1 = Inr g2"
    and st: "core_stmt E (main_part prog) n s = Some t"
    and m: "agrees s m" "c_pc s < length (main_part prog)" "code_pos prog g0 (Suc (c_pc s)) = length (code (g_asm g2))"
  shows "arrives K prog g0 g1 m t"
proof -
  have "code (g_asm g2) = code (g_asm g1)"
    using n g by (auto simp: place_def set_deterministic_def asm_do_def bindE_Inr_iff label_at_def split: if_splits)
  moreover have "t = core_next s" using n st by auto
  ultimately show ?thesis by (intro arrivesI [of _ 0 _ _ "at K g1 m"]) (use m in \<open>simp_all add: at_def\<close>)
qed

lemma arrives_straight:
  assumes "hoare K (agrees s) (emit_node n) (agrees t)" and "c_pc t = Suc (c_pc s)"
    and g: "gen_ok g1" "sees (k_env K) g1" "gen_step g2 (k_gen K)" "emit_node n g1 = Inr g2"
    and m: "agrees s m" "c_pc s < length (main_part prog)" "code_pos prog g0 (Suc (c_pc s)) = length (code (g_asm g2))"
  shows "arrives K prog g0 g1 m t"
proof -
  obtain j m' where m': "steps (k_base K) (k_code K) j (at K g1 m) = Some (at K g2 m')" "agrees t m'"
    using hoareD [OF assms(1) g(4,1,2,3) m(1)] by blast
  show ?thesis by (rule arrivesI [OF m'(1)]) (use m assms(2) m'(2) in \<open>simp_all add: at_def\<close>)
qed

lemma arrives_goto:
  assumes K: "linked K" and g: "gen_ok g1" "gen_step g2 (k_gen K)" "emit_node (Goto l) g1 = Inr g2"
    and at: "\<And>k. k \<le> length (main_part prog) \<Longrightarrow> \<exists>gk. gen_at prog g0 k = Inr gk \<and> gen_step gk (k_gen K)"
    and st: "core_stmt E (main_part prog) (Goto l) s = Some t" and m: "agrees s m"
  shows "arrives K prog g0 g1 m t"
proof -
  obtain j where j: "find_label (main_part prog) l = Some j" "t = s\<lparr>c_pc := j\<rparr>" using st by (auto simp: core_jump_Some)
  have e: "asm_do (jmp (''__lbl_'' @ l)) g1 = Inr g2" using g(3) by simp
  show ?thesis
    by (rule arrivesI [OF linked_goto [OF K g(1,2) e j(1) at]]) (use find_label [OF j(1)] j(2) m in simp_all)
qed

lemma arrives_jump:
  assumes K: "linked K" and g: "gen_ok g1" "gen_step g2 (k_gen K)" "emit_node (JumpIf c l) g1 = Inr g2"
    and at: "\<And>k. k \<le> length (main_part prog) \<Longrightarrow> \<exists>gk. gen_at prog g0 k = Inr gk \<and> gen_step gk (k_gen K)"
    and st: "core_stmt E (main_part prog) (JumpIf c l) s = Some t"
    and m: "agrees s m" "c_pc s < length (main_part prog)" "code_pos prog g0 (Suc (c_pc s)) = length (code (g_asm g2))"
  shows "arrives K prog g0 g1 m t"
proof -
  obtain x y tk where xy: "c_cmp s = Some (x, y)" "core_cond c x y = Some tk"
    and t: "(if tk then core_jump (main_part prog) l s else Some (core_next s)) = Some t"
    using st by (auto split: option.splits)
  obtain j where j: "tk \<Longrightarrow> find_label (main_part prog) l = Some j" "t = s\<lparr>c_pc := (if tk then j else Suc (c_pc s))\<rparr>"
    using t by (auto simp: core_jump_Some core_next_def split: if_splits)
  have fl: "fl m = sub_flags x y" using m(1) xy(1) by (simp add: agrees_def)
  have e: "asm_do (jcc c (''__lbl_'' @ l)) g1 = Inr g2" using g(3) by simp
  show ?thesis
    by (rule arrivesI [OF linked_jcc [OF K g(1,2) e j(1) at fl xy(2)]])
      (use find_label [of "main_part prog" l j] j m in \<open>auto simp: at_def\<close>)
qed

lemma arrives_call:
  assumes K: "linked K" and g: "gen_ok g1" "sees (k_env K) g1" "gen_step g2 (k_gen K)" "emit_node (Call l es) g1 = Inr g2"
    and at: "\<And>k. k \<le> length (main_part prog) \<Longrightarrow> \<exists>gk. gen_at prog g0 k = Inr gk \<and> gen_step gk (k_gen K)"
    and st: "core_stmt (k_env K) (main_part prog) (Call l es) s = Some t"
    and m: "agrees s m" "roomy (slots (Call l es)) s"
    and ret: "e_pos (k_env K) ! Suc (c_pc s) = k_base K + of_nat (length (code (g_asm g2)))" (is "?ret = _")
  shows "arrives K prog g0 g1 m t"
proof -
  obtain vs j where vs: "core_vals (k_env K) (c_regs s) (take 6 es) = Some vs" "find_label (main_part prog) l = Some j"
    and t: "t = core_push ?ret (forget (list_all is_leaf (take 6 es))
      (s\<lparr>c_regs := bind_regs arg_regs vs (c_regs s)\<rparr>))\<lparr>c_pc := j\<rparr>" (is "_ = core_push _ ?s1\<lparr>c_pc := j\<rparr>")
    using st by (auto simp: core_jump_Some split: option.splits)
  let ?args = "seqE [push_args ''r11'' (take 6 es), pop_args call_args (length (take 6 es))]"
  obtain ga where ga: "?args g1 = Inr ga" "asm_do (call (''__lbl_'' @ l)) ga = Inr g2"
    using g(4) by (auto simp: call_stmt_def bindE_Inr_iff)
  note ts = tame_step [OF tame_call(3) ga(1)]
  have "gen_step ga g2" using ga(2) codes.asm [of "call (''__lbl_'' @ l)"] by (auto simp: codes.sides dest: withinD)
  then have gk: "gen_step ga (k_gen K)" using g(3) by (rule step.trans)
  obtain j1 m1 where m1: "steps (k_base K) (k_code K) j1 (at K g1 m) = Some (at K ga m1)" "agrees ?s1 m1"
    using hoareD [OF hoare_pass_args [OF K vs(1) m(2)] ga(1) g(1,2) gk m(1)] by blast
  have "roomy 1 ?s1" using m(2) by (auto simp: roomy_def)
  then have ag: "agrees (core_push ?ret ?s1) (push64 ?ret m1)"
    using m1(2) holds_push [of ?s1 m1] by (simp add: agrees_def)
  have run: "steps (k_base K) (k_code K) (j1 + 1) (at K g1 m) = Some (at_rip (k_base K + of_nat (code_pos prog g0 j)) (push64 ?ret m1))"
    using linked_call [OF K ts(2) [OF g(1)] g(3) ga(2) vs(2) at, of m1]
    by (simp only: steps_add m1(1) option.case ret)
  show ?thesis by (rule arrivesI [OF run]) (use find_label [OF vs(2)] t ag in simp_all)
qed

lemma arrives_ret:
  assumes K: "linked K" and g: "gen_ok g1" "sees (k_env K) g1" "gen_step g2 (k_gen K)" "emit_node Ret g1 = Inr g2"
    and st: "core_stmt (k_env K) P Ret s = Some t" and m: "agrees s m"
    and ret: "e_pos (k_env K) = map (\<lambda>k. k_base K + of_nat (code_pos prog g0 k)) [0..<Suc (length (main_part prog))]"
  shows "arrives K prog g0 g1 m t"
proof -
  obtain v u j where pop: "core_pop (k_env K) s = Some (v, u)" and j: "find_pos (e_pos (k_env K)) v = Some j" "t = u\<lparr>c_pc := j\<rparr>"
    using st by (auto split: option.splits)
  have u: "c_room s < 2 ^ 60" "v = word_of_int (fetch 8 (c_mem s) (c_sp s))" "u = popped s"
    using pop by (simp_all add: core_pop_Some)
  have v: "j \<le> length (main_part prog)" "v = k_base K + of_nat (code_pos prog g0 j)"
    using find_pos [OF j(1)] by (auto simp: ret nth_append simp del: upt_Suc)
  have "load64 (rg m 4) m = v" using popped_value [OF agrees_holds [OF m] u(1)] u(2) by simp
  then have run: "steps (k_base K) (k_code K) 1 (at K g1 m) = Some (at_rip v (set_rg 4 (rg m 4 + 8) m))"
    using linked_ret [OF K g(1-3), of m] g(4) by (simp del: steps.simps)
  have "agrees t (set_rg 4 (rg m 4 + 8) m)"
    using holds_popped [OF agrees_holds [OF m] u(1)] m by (simp add: agrees_def j(2) u(3))
  then show ?thesis by (intro arrivesI [OF run]) (simp_all add: j(2) v)
qed

lemma core_step_simulated:
  assumes prog: "core_program prog" and g0: "g0 = init_gen\<lparr>use_wx := w, debug_dwarf := d\<rparr>"
    and gen: "generate_code prog g0 = Inr g" and len: "length (code (g_asm g)) < 2 ^ 64"
    and rep: "represents prog g0 g b s m" and st: "core_step (core_env prog g0 g b) (main_part prog) s = Some t"
  shows "\<exists>j m'. steps b (code (g_asm g)) j m = Some m' \<and> represents prog g0 g b t m'"
proof -
  let ?P = "main_part prog" and ?k = "c_pc s" and ?E = "core_env prog g0 g b"
  obtain h where h: "linked \<lparr>k_gen = h, k_code = code (g_asm g), k_base = b, k_env = ?E\<rparr>"
    "\<And>k. k \<le> length ?P \<Longrightarrow> \<exists>gk. gen_at prog g0 k = Inr gk \<and> gen_step gk h"
    using core_linked [OF prog g0 gen len, of b thesis] by blast
  define K where "K = \<lparr>k_gen = h, k_code = code (g_asm g), k_base = b, k_env = ?E\<rparr>"
  have K: "linked K" "k_code K = code (g_asm g)" "k_base K = b" "k_env K = ?E" "k_gen K = h" using h(1) by (simp_all add: K_def)
  note at = h(2) [folded K(5)]
  obtain ln n where k: "?k < length ?P" and n: "?P ! ?k = (ln, n)" and cs: "core_stmt (k_env K) ?P n s = Some t"
    and room: "slots n \<le> c_room s" using st by (cases "?P ! ?k") (auto simp: core_step_def K(4) split: if_splits)
  have node: "core_node n" using prog nth_mem [OF k] n by (auto simp: core_program_def list_all_iff)
  have m: "agrees s m" "safe ?E s" "rip m = b + of_nat (code_pos prog g0 ?k)" using rep by (simp_all add: represents_def)
  have roomy: "roomy (slots n) s" using m(2) room by (simp add: roomy_def safe_def)
  have safe: "safe ?E t" using core_stmt_keeps_code [OF cs _ room] m(2) by (simp add: keeps_code_def K(4))
  obtain g1 g2 where g1: "gen_at prog g0 ?k = Inr g1" and g2: "gen_at prog g0 (Suc ?k) = Inr g2" "gen_step g2 (k_gen K)"
    using at [of ?k] at [of "Suc ?k"] k by auto
  have "emit (ln, n) g1 = Inr g2" using gen_at_Suc [OF k, of g0] g1 g2(1) n by simp
  then obtain g1' where g1': "note_stmt ln n g1 = Inr g1'" "emit_node n g1' = Inr g2" "g_asm g1' = g_asm g1"
    by (rule emit_parts [OF node])
  have ok: "gen_ok g1'" "sees (k_env K) g1'"
    using tame_step [OF tame_note g1'(1)] gen_at_ok(1,2) [OF prog g0 g1] unfolding K(4) by blast+
  have pos: "code_pos prog g0 ?k = length (code (g_asm g1'))" "code_pos prog g0 (Suc ?k) = length (code (g_asm g2))"
    using g1 g2(1) by (simp_all add: code_pos_def g1'(3))
  have ps: "e_pos (k_env K) = map (\<lambda>k. k_base K + of_nat (code_pos prog g0 k)) [0..<Suc (length ?P)]"
    by (simp add: K(3,4) core_env_def)
  have ret: "e_pos (k_env K) ! Suc ?k = k_base K + of_nat (length (code (g_asm g2)))"
    unfolding ps using k by (simp add: pos(2) [symmetric] nth_append del: upt_Suc)
  have "arrives K prog g0 g1' m t"
  proof (cases "moves_pc n")
    case False
    show ?thesis
      using hoare_stmt [OF K(1) cs roomy node False] by (intro arrives_straight [OF _ _ ok g2(2) g1'(2) m(1) k pos(2)]) simp_all
  next
    case True
    then consider (mark) l where "n = Label l \<or> n = MetalDeterministic" | (goto) l where "n = Goto l"
      | (jump) c l where "n = JumpIf c l" | (call) l es where "n = Call l es" | (ret) "n = Ret"
      by (cases n) auto
    then show ?thesis
    proof cases
      case mark
      then show ?thesis by (rule arrives_mark [OF _ g1'(2) cs m(1) k pos(2)])
    next
      case goto
      show ?thesis by (rule arrives_goto [OF K(1) ok(1) g2(2) g1'(2) [unfolded goto] at cs [unfolded goto] m(1)])
    next
      case jump
      show ?thesis
        by (rule arrives_jump [OF K(1) ok(1) g2(2) g1'(2) [unfolded jump] at cs [unfolded jump] m(1) k pos(2)])
    next
      case call
      show ?thesis
        by (rule arrives_call [OF K(1) ok g2(2) g1'(2) [unfolded call] at cs [unfolded call] m(1) roomy [unfolded call] ret])
    next
      case ret
      show ?thesis by (rule arrives_ret [OF K(1) ok g2(2) g1'(2) [unfolded ret] cs [unfolded ret] m(1) ps])
    qed
  qed
  moreover have "at K g1' m = m" using m(3) by (intro at_self) (simp add: K(3) pos(1))
  ultimately show ?thesis using safe unfolding arrives_def represents_def K(2,3) by metis
qed

subsection \<open>Runs\<close>

definition compiled :: "program \<Rightarrow> gen \<Rightarrow> gen \<Rightarrow> bool" where
  "compiled prog g0 g \<longleftrightarrow> core_program prog \<and> (\<exists>w d. g0 = init_gen\<lparr>use_wx := w, debug_dwarf := d\<rparr>) \<and>
     generate_code prog g0 = Inr g \<and> length (code (g_asm g)) < 2 ^ 64"

interpretation core_sim: simulation "core_step (core_env prog g0 g b) (main_part prog)"
    "core_run (core_env prog g0 g b) (main_part prog)" "steps b (code (g_asm g))"
    "\<lambda>s m. compiled prog g0 g \<and> represents prog g0 g b s m" for prog g0 g b
proof
  fix s t m
  assume a: "compiled prog g0 g \<and> represents prog g0 g b s m"
    "core_step (core_env prog g0 g b) (main_part prog) s = Some t"
  then obtain w d where "core_program prog" "g0 = init_gen\<lparr>use_wx := w, debug_dwarf := d\<rparr>"
    "generate_code prog g0 = Inr g" "length (code (g_asm g)) < 2 ^ 64" unfolding compiled_def by blast
  from core_step_simulated [OF this conjunct2 [OF a(1)] a(2)] a(1)
  show "\<exists>n m'. steps b (code (g_asm g)) n m = Some m' \<and> compiled prog g0 g \<and> represents prog g0 g b t m'" by blast
qed (simp_all add: steps_add)

lemma keeps_code_trans: "keeps_code E s t \<Longrightarrow> keeps_code E t u \<Longrightarrow> keeps_code E s u"
  by (simp add: keeps_code_def)

lemma core_run_keeps_code: "core_run E P n s = Some t \<Longrightarrow> safe E s \<Longrightarrow> keeps_code E s t"
proof (induction n arbitrary: s)
  case 0
  then show ?case by (simp add: keeps_code_refl)
next
  case (Suc n)
  then obtain u where u: "core_step E P s = Some u" "core_run E P n u = Some t" by (auto split: option.splits)
  have "keeps_code E s u"
    using u(1) core_stmt_keeps_code [OF _ Suc.prems(2)] by (auto simp: core_step_def split: if_splits)
  then show ?case using Suc.IH [OF u(2)] keeps_code_trans by (auto simp: keeps_code_def)
qed

text \<open>Behind the last statement the program asks the system to exit with status 0.\<close>

definition at_exit :: "64 word \<Rightarrow> bytes \<Rightarrow> mach \<Rightarrow> bool" where
  "at_exit b c m \<longleftrightarrow> rg m 0 = 60 \<and> rg m 7 = 0 \<and> slice (unat (rip m - b)) 2 c = [0x0F, 0x05]"

lemma exec_xor_self: "\<exists>f. exec (mr [] M1 0x31 d d) m = Some ((set_rg d 0 m)\<lparr>fl := f\<rparr>)"
  using exec_logic(3) [of d d m] by simp

lemma exit_triple:
  "triple (\<lambda>m. True) (seqE [asm_do (mov_reg_imm64 ''rax'' 60), asm_do (xor_reg_reg ''rdi'' ''rdi'')]) g
    (\<lambda>m. rg m 0 = 60 \<and> rg m 7 = 0)"
proof -
  have rdi: "reg_num ''rdi'' = Inr 7" by code_simp
  let ?det = "deterministic (g_asm g)"
  have g1: "gives ?det (mov_reg_imm64 ''rax'' 60) [mov_imm_insn ?det 0 60]"
    by (rule mov_imm_encode) (simp_all add: reg_num_samples)
  have "exec (mov_imm_insn ?det 0 60) m = Some (set_rg 0 60 m)" for m
    using exec_mov_imm [of ?det 0 60 m] by (auto split: option.splits)
  then have 1: "triple (\<lambda>m. True) (asm_do (mov_reg_imm64 ''rax'' 60)) g (\<lambda>m. rg m 0 = 60)"
    by (intro triple_insn [OF g1]) simp_all
  have "gives ?det (xor_reg_reg ''rdi'' ''rdi'') [mr [] M1 0x31 7 7]"
    using rr_encode [OF _ _ _ _ rdi rdi, of ?det] by (simp add: rr_table_def)
  then have 2: "triple (\<lambda>m. rg m 0 = 60) (asm_do (xor_reg_reg ''rdi'' ''rdi'')) g (\<lambda>m. rg m 0 = 60 \<and> rg m 7 = 0)"
    by (rule triple_insn) (use exec_xor_self [of 7] in fastforce)+
  show ?thesis by (rule triple_Cons [OF 1 triple_single [OF 2]])
qed

lemma exit_reached:
  assumes "compiled prog g0 g" and "represents prog g0 g b s m" and "c_pc s = length (main_part prog)"
  shows "\<exists>j m'. steps b (code (g_asm g)) j m = Some m' \<and> at_exit b (code (g_asm g)) m'"
proof -
  let ?E = "core_env prog g0 g b" and ?two = "seqE [asm_do (mov_reg_imm64 ''rax'' 60), asm_do (xor_reg_reg ''rdi'' ''rdi'')]"
  obtain w d where prog: "core_program prog" and g0: "g0 = init_gen\<lparr>use_wx := w, debug_dwarf := d\<rparr>"
    and gen: "generate_code prog g0 = Inr g" and len: "length (code (g_asm g)) < 2 ^ 64"
    using assms(1) unfolding compiled_def by blast
  obtain h where K: "linked \<lparr>k_gen = h, k_code = code (g_asm g), k_base = b, k_env = ?E\<rparr>" (is "linked ?K") and h: "gen_ok h"
    and at: "\<And>k. k \<le> length (main_part prog) \<Longrightarrow> \<exists>gk. gen_at prog g0 k = Inr gk \<and> gen_step gk h"
    and ex: "\<And>gk. gen_at prog g0 (length (main_part prog)) = Inr gk \<Longrightarrow> \<exists>ge. default_exit gk = Inr ge \<and> gen_step ge h"
    using core_linked [OF prog g0 gen len, of b thesis] by blast
  obtain gk where gk: "gen_at prog g0 (length (main_part prog)) = Inr gk" using at by blast
  have ok: "gen_ok gk" "sees ?E gk" using gen_at_ok(1,2) [OF prog g0 gk] by blast+
  obtain ge where ge: "default_exit gk = Inr ge" "gen_step ge h" using ex [OF gk] by blast
  obtain gx where gx: "?two gk = Inr gx" "asm_do syscall gx = Inr ge"
    using ge(1) unfolding default_exit_def by (auto simp: bindE_Inr_iff)
  have tame: "tame ?two" by (intro tame_rules) (simp_all only: codes.sides)
  have x: "gen_ok gx" "gen_step gx ge"
    using tame_step(2) [OF tame gx(1) ok(1)] gx(2) codes.asm [of syscall] by (auto simp: codes.sides dest: withinD)
  have xh: "gen_step gx h" by (rule step.trans [OF x(2) ge(2)])
  have "hoare ?K (\<lambda>m. True) ?two (\<lambda>m. rg m 0 = 60 \<and> rg m 7 = 0)"
    by (rule hoare_triple [OF K exit_triple tame])
  from hoareD [OF this gx(1) ok(1), of m] ok(2) xh obtain j m' where
    m': "steps b (code (g_asm g)) j (at ?K gk m) = Some (at ?K gx m')" "rg m' 0 = 60" "rg m' 7 = 0" by auto
  have "rip m = b + of_nat (length (code (g_asm gk)))"
    using assms(2,3) gk by (simp add: represents_def code_pos_def)
  then have self: "at ?K gk m = m" by (intro at_self) simp
  obtain a where a: "link (Some (link_offsets h)) (g_asm h) = Inr a" "code (g_asm g) = code a"
    using K by (auto simp: linked_def)
  have c: "code (g_asm ge) = code (g_asm gx) @ [0x0F, 0x05] @ []" "relocs (g_asm ge) = relocs (g_asm gx) @ []"
    using gx(2) by (auto simp: asm_do_def syscall_def emits_def)
  have lb: "slice (length (code (g_asm gx))) 2 (code (g_asm g)) = [0x0F, 0x05]" "length (code (g_asm gx)) < 2 ^ 64"
    using linked_bytes [OF a(1) _ _ _ c] h x(1) ge(2) len by (simp_all add: a(2) gen_ok_def gen_step_def numeral_2_eq_2)
  have "at_exit b (code (g_asm g)) (at ?K gx m')"
    using m'(2,3) lb by (simp add: at_exit_def at_def unat_of_nat)
  with m'(1) self show ?thesis by auto
qed

lemma code_pos_0: "compiled prog g0 g \<Longrightarrow> code_pos prog g0 0 = 0"
  unfolding compiled_def code_pos_def by (auto split: sum.splits dest: gen_at_ok(4))

text \<open>A program starts with the registers and the memory of the processor and \<open>room\<close> free slots below its
  stack pointer.\<close>

definition core_init :: "nat \<Rightarrow> mach \<Rightarrow> core" where
  "core_init room m = \<lparr>c_pc = 0, c_regs = rg m, c_cmp = None, c_mem = mem m, c_sp = rg m 4, c_room = room\<rparr>"

text \<open>A stack below the code is safe.\<close>

lemma safe_below:
  assumes "8 * room \<le> unat (rg m 4)" and "unat (rg m 4) \<le> unat b" and "unat b + length (code (g_asm g)) \<le> 2 ^ 64"
    and "room \<le> 2 ^ 60"
  shows "safe (core_env prog g0 g b) (core_init room m)"
proof -
  have "\<not> unused (core_init room m) p" if "unat (p - b) < length (code (g_asm g))" for p
  proof
    assume u: "unused (core_init room m) p"
    define j k where "j = unat (p - b)" and "k = unat (rg m 4 - p)"
    have k: "1 \<le> k" "k \<le> unat (rg m 4)" using u assms(1) by (simp_all add: unused_def core_init_def k_def)
    have "unat p < 2 ^ LENGTH(64)" by (rule unsigned_less)
    then have "unat p = unat (rg m 4) - k" using k(2) by (auto simp: k_def unat_sub_if' split: if_splits)
    moreover have "unat p = unat b + j" using that assms(3) by (auto simp: j_def unat_sub_if' split: if_splits)
    ultimately show False using k assms(2) by linarith
  qed
  with assms(4) show ?thesis by (simp add: safe_def core_env_def core_init_def)
qed

lemma code_unchanged:
  assumes "core_run E P n (core_init room m) = Some s" and "safe E (core_init room m)" and "agrees s m'" and "e_code E p"
  shows "mem m' p = mem m p"
  using core_run_keeps_code [OF assms(1,2)] assms(3,4)
  by (auto simp: keeps_code_def safe_def core_init_def agrees_def holds_def)

theorem core_runs:
  assumes "compiled prog g0 g" and "rip m = b" and "safe (core_env prog g0 g b) (core_init room m)"
    and run: "core_run (core_env prog g0 g b) (main_part prog) n (core_init room m) = Some s"
  shows "\<exists>k m'. steps b (code (g_asm g)) k m = Some m' \<and> represents prog g0 g b s m' \<and>
    (\<forall>p. unat (p - b) < length (code (g_asm g)) \<longrightarrow> mem m' p = mem m p) \<and>
    (c_pc s = length (main_part prog) \<longrightarrow> (\<exists>j m''. steps b (code (g_asm g)) j m' = Some m'' \<and> at_exit b (code (g_asm g)) m''))"
proof -
  have "represents prog g0 g b (core_init room m) m"
    using assms(2,3) code_pos_0 [OF assms(1)] by (simp add: represents_def agrees_def holds_def core_init_def)
  with assms(1) obtain k m' where m': "steps b (code (g_asm g)) k m = Some m'" "represents prog g0 g b s m'"
    using core_sim.runs [OF _ run] by blast
  have "mem m' p = mem m p" if "unat (p - b) < length (code (g_asm g))" for p
    using code_unchanged [OF run assms(3), of m' p] m'(2) that by (simp add: represents_def core_env_def)
  with m' show ?thesis using exit_reached [OF assms(1)] by blast
qed

end
