(* ===== verification/Lexer.thy ===== *)
theory Lexer
  imports Text
begin

section \<open>The lexer (ACLM/lexer.py)\<close>

text \<open>
  \<open>Lexer.tokenize\<close> as a recursive function on the characters left, with the line counter. The
  column of a token only shows up in error messages and is left out. A character outside ASCII is
  copied inside a comment or a string; anywhere else the answer is \<open>OutsideAscii\<close>, since Python's
  character database decides there whether it is a letter.
\<close>

subsection \<open>Tokens\<close>

datatype tkind = T_EOF | T_NEWLINE | T_IDENT | T_NUMBER | T_STRING | T_LABEL | T_OP | T_LBRACK
  | T_RBRACK | T_COMMA | T_COLON | T_DOT | T_PLUS | T_MINUS | T_EQ | T_STAR | T_LPAREN | T_RPAREN
  | T_TILDE

record tok =
  tkind :: tkind
  tvalue :: string
  tline :: int

definition Tok :: "tkind \<Rightarrow> string \<Rightarrow> int \<Rightarrow> tok" where
  "Tok k v l = \<lparr>tkind = k, tvalue = v, tline = l\<rparr>"

lemma Tok_sel [simp]: "tkind (Tok k v l) = k" "tvalue (Tok k v l) = v" "tline (Tok k v l) = l"
  by (simp_all add: Tok_def)

subsection \<open>Token bodies\<close>

text \<open>\<open>_label_body\<close> and \<open>_ident_body\<close> (its stop at a colon is subsumed): the body and the rest.\<close>

definition label_body :: "string \<Rightarrow> string \<times> string" where
  "label_body cs = (takeWhile is_word cs, dropWhile is_word cs)"

definition number_body :: "string \<Rightarrow> string \<times> string" where
  "number_body cs =
    (if starts_with ''0x'' cs \<or> starts_with ''0X'' cs
     then (take 2 cs @ takeWhile is_alnum (drop 2 cs), dropWhile is_alnum (drop 2 cs))
     else ((let s = takeWhile is_digit cs in if s = [] then ''0'' else s), dropWhile is_digit cs))"

definition escape_char :: "char \<Rightarrow> char" where
  "escape_char c = (if c = CHR ''n'' then char_of (10 :: nat) else if c = CHR ''t'' then char_of (9 :: nat) else c)"

definition next_line :: "char \<Rightarrow> int \<Rightarrow> int" where
  "next_line c line = (if ord c = 10 then line + 1 else line)"

text \<open>\<open>_string\<close> behind the opening quote: value, rest, line; \<open>None\<close>: unterminated.\<close>

fun string_body :: "string \<Rightarrow> int \<Rightarrow> (string \<times> string \<times> int) option" where
  "string_body [] line = None"
| "string_body (c # cs) line =
    (if c = CHR 0x22 then Some ([], cs, line)
     else if c = CHR 0x5C \<and> cs \<noteq> []
     then (case cs of e # es \<Rightarrow>
       map_option (\<lambda>(v, r, l). (escape_char e # v, r, l)) (string_body es (next_line e line)))
     else map_option (\<lambda>(v, r, l). (c # v, r, l)) (string_body cs (next_line c line)))"

subsection \<open>\<open>tokenize\<close>\<close>

definition punctuation :: "(char \<times> tkind) list" where
  "punctuation = [(CHR ''['', T_LBRACK), (CHR '']'', T_RBRACK), (CHR '','', T_COMMA),
     (CHR '':'', T_COLON), (CHR ''.'', T_DOT), (CHR ''+'', T_PLUS), (CHR ''='', T_EQ),
     (CHR ''*'', T_STAR), (CHR ''('', T_LPAREN), (CHR '')'', T_RPAREN)]"

text \<open>One token behind its first character: the token and the rest.\<close>

definition one_token :: "char \<Rightarrow> string \<Rightarrow> int \<Rightarrow> (tok \<times> string \<times> int) res" where
  "one_token c cs line =
    (if c = CHR 0x22 then (case string_body cs line of
         None \<Rightarrow> Inl (SyntaxErr ''unterminated string'')
       | Some (v, r, l) \<Rightarrow> Inr (Tok T_STRING v line, r, l))
     else case map_of punctuation c of Some k \<Rightarrow> Inr (Tok k [c] line, cs, line)
     | None \<Rightarrow>
     if c = CHR ''~'' then
       (if is_hd is_word cs
        then (let (v, r) = label_body cs in Inr (Tok T_LABEL v line, r, line))
        else Inr (Tok T_TILDE ''~'' line, cs, line))
     else if c = CHR ''-'' then
       (if is_hd is_digit cs
        then (let (v, r) = number_body cs in
          bindE (py_int 0 v) (\<lambda>n. Inr (Tok T_NUMBER (show_int (- n)) line, r, line)))
        else Inr (Tok T_MINUS ''-'' line, cs, line))
     else if is_digit c then (let (v, r) = number_body (c # cs) in Inr (Tok T_NUMBER v line, r, line))
     else if c = CHR ''@'' then
       (if is_hd is_alpha cs
        then (let (v, r) = label_body cs in Inr (Tok T_IDENT (CHR ''@'' # v) line, r, line))
        else Inl (SyntaxErr ''stray @''))
     else if is_name_start c then (let (v, r) = label_body (c # cs) in Inr (Tok T_IDENT v line, r, line))
     else if 128 \<le> ord c then Inl OutsideAscii
     else Inl (SyntaxErr ''unexpected character''))"

lemma string_body_length: "string_body cs line = Some (v, r, l) \<Longrightarrow> length r < length cs"
proof (induction cs line arbitrary: v r l rule: string_body.induct)
  case (2 c cs line)
  then show ?case
    by (cases cs) (fastforce split: if_splits)+
qed simp

lemma number_body_length: "is_digit c \<Longrightarrow> length (snd (number_body (c # cs))) \<le> length cs"
  using dropWhile_length [of is_alnum "drop 1 cs"] dropWhile_length [of is_digit cs]
  by (auto simp: number_body_def)

lemma one_token_length:
  assumes "one_token c cs line = Inr (t, r, l)"
  shows "length r \<le> length cs"
proof -
  have n: "length (snd (number_body cs)) \<le> length cs" if "is_hd is_digit cs"
    using that number_body_length [of "hd cs" "tl cs"] by (cases cs) (auto simp: is_hd_def)
  show ?thesis
    using assms n number_body_length [of c cs] dropWhile_length [of is_word cs]
    by (auto simp: one_token_def label_body_def Let_def bindE_Inr_iff is_name_start_def is_word_def
        is_alnum_def split: if_splits option.splits prod.splits dest: string_body_length)
qed

function tokenize_from :: "string \<Rightarrow> int \<Rightarrow> tok list res" where
  "tokenize_from [] line = Inr [Tok T_EOF [] line]"
| "tokenize_from (c # cs) line =
    (if c = CHR '' '' \<or> ord c = 9 \<or> ord c = 13 then tokenize_from cs line
     else if ord c = 10
     then bindE (tokenize_from cs (line + 1)) (\<lambda>ts. Inr (Tok T_NEWLINE [CHR 0x5C, CHR ''n''] line # ts))
     else if c = CHR ''#'' then tokenize_from (dropWhile (\<lambda>d. ord d \<noteq> 10) cs) line
     else (case one_token c cs line of
         Inl e \<Rightarrow> Inl e
       | Inr (t, r, l) \<Rightarrow> bindE (tokenize_from r l) (\<lambda>ts. Inr (t # ts))))"
  by pat_completeness auto

termination
  by (relation "measure (\<lambda>(cs, _). length cs)")
    (auto simp: less_Suc_eq_le dropWhile_length dest: one_token_length)

definition tokenize :: "string \<Rightarrow> tok list res" where
  "tokenize src = tokenize_from src 1"

end
