(* ===== verification/Parse_Expr.thy ===== *)
theory Parse_Expr
  imports Lexer Ast Regs "HOL-Library.Sublist"
begin

section \<open>The parser: token stream and expressions (ACLM/parser.py)\<close>

text \<open>
  The parser's state is the list of tokens from the current one on; the lexer ends it with an end
  token, which \<open>_adv\<close> never passes. A parsing step in continuation style gets what to do with its
  result: \<open>expect T_IDENT (\<lambda>name. ...)\<close>. The expression grammar is five mutually recursive
  functions, one per method and one per loop; their termination rests on every one of them
  consuming tokens.
\<close>

subsection \<open>The token stream\<close>

type_synonym 'a pars = "tok list \<Rightarrow> ('a \<times> tok list) res"

definition peek :: "tok list \<Rightarrow> tok" where
  "peek ts = (case ts of [] \<Rightarrow> Tok T_EOF [] 0 | t # _ \<Rightarrow> t)"

definition adv :: "tok list \<Rightarrow> tok list" where
  "adv ts = (case ts of [] \<Rightarrow> [] | t # r \<Rightarrow> if tkind t = T_EOF then ts else r)"

definition at :: "tkind \<Rightarrow> tok list \<Rightarrow> bool" where
  "at k ts \<longleftrightarrow> tkind (peek ts) = k"

definition at_end :: "tok list \<Rightarrow> bool" where
  "at_end ts \<longleftrightarrow> at T_NEWLINE ts \<or> at T_EOF ts"

definition expect :: "tkind \<Rightarrow> (string \<Rightarrow> 'a pars) \<Rightarrow> 'a pars" where
  "expect k c ts =
    (if at k ts then c (tvalue (peek ts)) (adv ts) else Inl (SyntaxErr ''unexpected token''))"

lemma adv_length: "length (adv ts) \<le> length ts"
  by (simp add: adv_def split: list.split)

lemma adv_less: "at k ts \<Longrightarrow> k \<noteq> T_EOF \<Longrightarrow> length (adv ts) < length ts"
  by (cases ts) (auto simp: adv_def at_def peek_def)

subsection \<open>Expressions\<close>

function expr_add :: "expr pars" and add_loop :: "expr \<Rightarrow> expr pars"
  and expr_mul :: "expr pars" and mul_loop :: "expr \<Rightarrow> expr pars"
  and primary :: "expr pars" where
  "expr_add ts = bindE (expr_mul ts) (\<lambda>(node, r). add_loop node r)"
| "add_loop node ts =
    (if at T_PLUS ts \<or> at T_MINUS ts
     then bindE (expr_mul (adv ts)) (\<lambda>(right, r).
       add_loop (BinExpr (if at T_PLUS ts then ''+'' else ''-'') node right) r)
     else Inr (node, ts))"
| "expr_mul ts = bindE (primary ts) (\<lambda>(node, r). mul_loop node r)"
| "mul_loop node ts =
    (if at T_STAR ts
     then bindE (primary (adv ts)) (\<lambda>(right, r). mul_loop (BinExpr ''*'' node right) r)
     else Inr (node, ts))"
| "primary ts =
    (let t = peek ts in
     if at T_LPAREN ts
     then bindE (expr_add (adv ts)) (\<lambda>(node, r). expect T_RPAREN (\<lambda>_ r'. Inr (node, r')) r)
     else if at T_NUMBER ts then bindE (py_int 0 (tvalue t)) (\<lambda>n. Inr (Number n, adv ts))
     else if at T_STRING ts then Inr (Str (tvalue t), adv ts)
     else if at T_IDENT ts then
       (if is_reg_name (tvalue t) then Inr (Reg (tvalue t), adv ts)
        else if at T_DOT (adv ts)
        then expect T_IDENT (\<lambda>field r. Inr (StructFieldRef (tvalue t) field, r)) (adv (adv ts))
        else Inr (Ident (tvalue t), adv ts))
     else Inl (SyntaxErr ''expected operand''))"
  by pat_completeness auto

text \<open>Every successful run consumes tokens; stated on the domain, before termination is known.\<close>

lemma expr_consumes_dom:
  "expr_add_add_loop_expr_mul_mul_loop_primary_dom (Inl (Inl ts)) \<Longrightarrow>
     expr_add ts = Inr (e, r) \<Longrightarrow> length r < length ts"
  "expr_add_add_loop_expr_mul_mul_loop_primary_dom (Inl (Inr (n, ts))) \<Longrightarrow>
     add_loop n ts = Inr (e, r) \<Longrightarrow> length r \<le> length ts"
  "expr_add_add_loop_expr_mul_mul_loop_primary_dom (Inr (Inl ts)) \<Longrightarrow>
     expr_mul ts = Inr (e, r) \<Longrightarrow> length r < length ts"
  "expr_add_add_loop_expr_mul_mul_loop_primary_dom (Inr (Inr (Inl (n, ts)))) \<Longrightarrow>
     mul_loop n ts = Inr (e, r) \<Longrightarrow> length r \<le> length ts"
  "expr_add_add_loop_expr_mul_mul_loop_primary_dom (Inr (Inr (Inr ts))) \<Longrightarrow>
     primary ts = Inr (e, r) \<Longrightarrow> length r < length ts"
proof (induction ts and n ts and ts and n ts and ts arbitrary: e r and e r and e r and e r and e r
    rule: expr_add_add_loop_expr_mul_mul_loop_primary.pinduct)
  case (1 ts)
  then show ?case by (fastforce simp: expr_add.psimps bindE_Inr_iff)
next
  case (2 node ts)
  then show ?case using adv_less [of T_PLUS ts] adv_less [of T_MINUS ts]
    by (fastforce simp: add_loop.psimps bindE_Inr_iff split: if_splits)
next
  case (3 ts)
  then show ?case by (fastforce simp: expr_mul.psimps bindE_Inr_iff)
next
  case (4 node ts)
  then show ?case using adv_less [of T_STAR ts]
    by (fastforce simp: mul_loop.psimps bindE_Inr_iff split: if_splits)
next
  case (5 ts)
  then show ?case
    using adv_less [of T_LPAREN ts] adv_less [of T_NUMBER ts] adv_less [of T_STRING ts]
      adv_less [of T_IDENT ts] adv_length [of "adv ts"] adv_length [of "adv (adv ts)"]
    by (fastforce simp: primary.psimps Let_def expect_def bindE_Inr_iff split: if_splits
        intro: le_less_trans [OF adv_length])
qed

termination expr_add
  by (relation "measure (\<lambda>x. case x of Inl (Inl ts) \<Rightarrow> 4 * length ts + 3 | Inl (Inr (n, ts)) \<Rightarrow> 4 * length ts + 2
      | Inr (Inl ts) \<Rightarrow> 4 * length ts + 2 | Inr (Inr (Inl (n, ts))) \<Rightarrow> 4 * length ts
      | Inr (Inr (Inr ts)) \<Rightarrow> 4 * length ts + 1)")
    (auto dest!: expr_consumes_dom adv_less simp: Let_def)

text \<open>What a run leaves is a suffix of what it got, a strict one for the three proper methods.\<close>

lemma adv_suffix: "suffix (adv ts) ts"
  by (auto simp: adv_def suffix_ConsI split: list.split)

lemma suffix_adv: "suffix r (adv ts) \<Longrightarrow> suffix r ts"
  by (rule suffix_order.trans [OF _ adv_suffix])

declare expr_add.simps [simp del] add_loop.simps [simp del] expr_mul.simps [simp del]
  mul_loop.simps [simp del] primary.simps [simp del]

lemma expr_suffix:
  "expr_add ts = Inr (e, r) \<Longrightarrow> suffix r ts \<and> length r < length ts"
  "add_loop n ts = Inr (e, r) \<Longrightarrow> suffix r ts"
  "expr_mul ts = Inr (e, r) \<Longrightarrow> suffix r ts \<and> length r < length ts"
  "mul_loop n ts = Inr (e, r) \<Longrightarrow> suffix r ts"
  "primary ts = Inr (e, r) \<Longrightarrow> suffix r ts \<and> length r < length ts"
proof (induction ts and n ts and ts and n ts and ts arbitrary: e r and e r and e r and e r and e r
    rule: expr_add_add_loop_expr_mul_mul_loop_primary.induct)
  case (1 ts)
  then obtain n r' where "expr_mul ts = Inr (n, r')" "add_loop n r' = Inr (e, r)"
    by (auto simp: expr_add.simps [of ts] bindE_Inr_iff)
  then have "suffix r' ts" "length r' < length ts" "suffix r r'" using 1(1,2) by auto
  then show ?case using suffix_order.trans suffix_length_le by fastforce
next
  case (2 node ts)
  show ?case
  proof (cases "at T_PLUS ts \<or> at T_MINUS ts")
    case True
    then obtain n r' where *: "expr_mul (adv ts) = Inr (n, r')"
      "add_loop (BinExpr (if at T_PLUS ts then ''+'' else ''-'') node n) r' = Inr (e, r)"
      using 2(3) by (auto simp: add_loop.simps [of node ts] bindE_Inr_iff)
    then have "suffix r' (adv ts)" "suffix r r'" using 2(1,2) True by blast+
    then show ?thesis using suffix_order.trans suffix_adv by blast
  qed (use 2(3) in \<open>simp add: add_loop.simps [of node ts]\<close>)
next
  case (3 ts)
  then obtain n r' where "primary ts = Inr (n, r')" "mul_loop n r' = Inr (e, r)"
    by (auto simp: expr_mul.simps [of ts] bindE_Inr_iff)
  then have "suffix r' ts" "length r' < length ts" "suffix r r'" using 3(1,2) by auto
  then show ?case using suffix_order.trans suffix_length_le by fastforce
next
  case (4 node ts)
  show ?case
  proof (cases "at T_STAR ts")
    case True
    then obtain n r' where *: "primary (adv ts) = Inr (n, r')" "mul_loop (BinExpr ''*'' node n) r' = Inr (e, r)"
      using 4(3) by (auto simp: mul_loop.simps [of node ts] bindE_Inr_iff)
    then have "suffix r' (adv ts)" "suffix r r'" using 4(1,2) True by blast+
    then show ?thesis using suffix_order.trans suffix_adv by blast
  qed (use 4(3) in \<open>simp add: mul_loop.simps [of node ts]\<close>)
next
  case (5 ts)
  note a = adv_less [of T_LPAREN ts] adv_less [of T_NUMBER ts] adv_less [of T_STRING ts] adv_less [of T_IDENT ts]
  have l: "suffix r (adv ts) \<Longrightarrow> length (adv ts) < length ts \<Longrightarrow> suffix r ts \<and> length r < length ts" for r
    using suffix_adv suffix_length_le by fastforce
  show ?case
  proof (cases "at T_LPAREN ts")
    case True
    then obtain r' where "expr_add (adv ts) = Inr (e, r')" "r = adv r'"
      using 5(2) by (auto simp: primary.simps [of ts] Let_def expect_def bindE_Inr_iff split: if_splits)
    then have "suffix r (adv ts)" using 5(1) True adv_suffix suffix_order.trans by blast
    then show ?thesis using l a(1) True by simp
  next
    case False
    then have "suffix r (adv ts) \<and> length (adv ts) < length ts"
      using 5(2) a adv_suffix [of "adv ts"] suffix_adv [OF adv_suffix, of "adv ts"]
      by (auto simp: primary.simps [of ts] Let_def expect_def bindE_Inr_iff split: if_splits)
    then show ?thesis using l by blast
  qed
qed

lemma expr_add_consumes: "expr_add ts = Inr (e, r) \<Longrightarrow> length r < length ts"
  and primary_consumes: "primary ts = Inr (e, r) \<Longrightarrow> length r < length ts"
  by (auto dest: expr_suffix)

subsection \<open>Parsing steps that stay on the token list\<close>

text \<open>\<open>stays p\<close>: whatever \<open>p\<close> leaves is a suffix of the tokens it got. Every step of the parser
  does; the rules are collected in \<open>staying\<close>.\<close>

named_theorems staying "a parsing step leaves a suffix of its tokens"

definition stays :: "'a pars \<Rightarrow> bool" where
  "stays p \<longleftrightarrow> (\<forall>ts x r. p ts = Inr (x, r) \<longrightarrow> suffix r ts)"

lemma staysI: "(\<And>ts x r. p ts = Inr (x, r) \<Longrightarrow> suffix r ts) \<Longrightarrow> stays p"
  and staysD: "stays p \<Longrightarrow> p ts = Inr (x, r) \<Longrightarrow> suffix r ts"
  by (auto simp: stays_def)

lemma stays_length: "stays p \<Longrightarrow> p ts = Inr (x, r) \<Longrightarrow> length r \<le> length ts"
  by (auto dest: staysD suffix_length_le)

lemma stays_expr [staying]: "stays expr_add" "stays primary"
  by (auto intro!: staysI dest: expr_suffix)

lemma stays_Inr [staying]: "stays (\<lambda>ts. Inr (x, ts))"
  and stays_Inl [staying]: "stays (\<lambda>ts. Inl e)"
  by (auto simp: stays_def)

lemma stays_adv [staying]: "stays p \<Longrightarrow> stays (\<lambda>ts. p (adv ts))"
  by (auto simp: stays_def intro: suffix_adv)

lemma stays_expect [staying]: "(\<And>v. stays (c v)) \<Longrightarrow> stays (expect k c)"
  by (auto simp: stays_def expect_def intro: suffix_adv split: if_splits)

lemma stays_if [staying]: "stays p \<Longrightarrow> stays q \<Longrightarrow> stays (if b then p else q)"
  by simp

lemma stays_if_app [staying]: "stays p \<Longrightarrow> stays q \<Longrightarrow> stays (\<lambda>ts. if b ts then p ts else q ts)"
  by (simp add: stays_def)

lemma stays_option [staying]:
  "stays p \<Longrightarrow> (\<And>x. stays (q x)) \<Longrightarrow> stays (case t of None \<Rightarrow> p | Some x \<Rightarrow> q x)"
  by (cases t) auto

lemma stays_prod [staying]: "(\<And>x y. stays (p x y)) \<Longrightarrow> stays (case t of (x, y) \<Rightarrow> p x y)"
  by (cases t) auto

lemma stays_read [staying]: "(\<And>x. stays (q x)) \<Longrightarrow> stays (\<lambda>ts. bindE t (\<lambda>x. q x ts))"
  by (auto simp: stays_def bindE_Inr_iff)

lemma expect_consumes:
  assumes "expect k c ts = Inr (x, r)" and "k \<noteq> T_EOF" and "\<And>v. stays (c v)"
  shows "length r < length ts"
  using assms(1,2) adv_less [of k ts] stays_length [OF assms(3), of _ "adv ts" x r]
  by (fastforce simp: expect_def split: if_splits)

end
