(* ===== verification/Parser.thy ===== *)
theory Parser
  imports Parse_Expr
begin

section \<open>The parser: statements (ACLM/parser.py)\<close>

text \<open>
  One function per parsing method, in continuation style: \<open>punct\<close> is a bare
  \<open>_expect\<close>, \<open>ident_lower\<close>
  \<open>_expect(T.IDENT).value.lower()\<close>, \<open>number\<close>
  \<open>int(_expect(T.NUMBER).value, 0)\<close>, \<open>maybe\<close> an optional
  \<open>_match\<close>, \<open>opt_...\<close> an optional argument with its default.
  \<open>_statement\<close> is split by keyword, and long methods into consecutive parts. A
  statement is paired with the line of its first token.
\<close>

subsection \<open>Steps\<close>

definition give :: "'a \<Rightarrow> 'a pars" where
  "give x ts = Inr (x, ts)"

definition fail :: "string \<Rightarrow> 'a pars" where
  "fail msg ts = Inl (SyntaxErr msg)"

definition punct :: "tkind \<Rightarrow> 'a pars \<Rightarrow> 'a pars" where
  "punct k c = expect k (\<lambda>_. c)"

definition ident_lower :: "(string \<Rightarrow> 'a pars) \<Rightarrow> 'a pars" where
  "ident_lower c = expect T_IDENT (\<lambda>v. c (py_lower v))"

definition number :: "(int \<Rightarrow> 'a pars) \<Rightarrow> 'a pars" where
  "number c = expect T_NUMBER (\<lambda>v ts. bindE (py_int 0 v) (\<lambda>n. c n ts))"

definition maybe :: "tkind \<Rightarrow> 'a pars \<Rightarrow> 'a pars" where
  "maybe k c ts = (if at k ts then c (adv ts) else c ts)"

text \<open>A nested parsing function, its result to the continuation.\<close>

definition sub :: "'b pars \<Rightarrow> ('b \<Rightarrow> 'a pars) \<Rightarrow> 'a pars" where
  "sub p c ts = bindE (p ts) (\<lambda>(x, r). c x r)"

definition operand :: "(expr \<Rightarrow> 'a pars) \<Rightarrow> 'a pars" where
  "operand c = sub expr_add c"

definition opt_number :: "tkind \<Rightarrow> int \<Rightarrow> (int \<Rightarrow> 'a pars) \<Rightarrow>
    'a pars" where
  "opt_number k d c ts = (if at k ts then number c (adv ts) else c d ts)"

definition opt_ident :: "string \<Rightarrow> (string \<Rightarrow> 'a pars) \<Rightarrow> 'a pars" where
  "opt_ident d c ts = (if at T_IDENT ts then c (tvalue (peek ts)) (adv ts) else c d ts)"

definition opt_ident_lower :: "string \<Rightarrow> (string \<Rightarrow> 'a pars) \<Rightarrow> 'a pars"
    where
  "opt_ident_lower d c ts =
    (if at T_IDENT ts then c (py_lower (tvalue (peek ts))) (adv ts) else c d ts)"

definition opt_value :: "int \<Rightarrow> (int \<Rightarrow> int) \<Rightarrow> (int \<Rightarrow> 'a
    pars) \<Rightarrow> 'a pars" where
  "opt_value d f c ts = (if at T_NUMBER ts then number (\<lambda>n. c (f n)) ts else c d ts)"

definition opt_operand :: "(expr option \<Rightarrow> 'a pars) \<Rightarrow> 'a pars" where
  "opt_operand c ts = (if at_end ts then c None ts else operand (\<lambda>e. c (Some e)) ts)"

definition opt_comma_operand :: "(expr option \<Rightarrow> 'a pars) \<Rightarrow> 'a pars" where
  "opt_comma_operand c ts =
    (if at_end ts then c None ts else maybe T_COMMA (operand (\<lambda>e. c (Some e))) ts)"

text \<open>Two optional operands, the second only after the first, each behind a comma.\<close>

definition comma_operands :: "(expr option \<Rightarrow> expr option \<Rightarrow> 'a pars) \<Rightarrow>
    'a pars" where
  "comma_operands c ts =
    (if at T_COMMA ts
     then operand (\<lambda>e us. if at T_COMMA us then operand (\<lambda>e'. c (Some e) (Some e')) (adv us)
       else c (Some e) None us) (adv ts)
     else c None None ts)"

definition at_word :: "string \<Rightarrow> tok list \<Rightarrow> bool" where
  "at_word w ts \<longleftrightarrow> at T_IDENT ts \<and> py_lower (tvalue (peek ts)) = w"

definition skip_nl :: "tok list \<Rightarrow> tok list" where
  "skip_nl ts = dropWhile (\<lambda>t. tkind t = T_NEWLINE) ts"

lemmas step_defs = punct_def ident_lower_def number_def maybe_def sub_def operand_def opt_number_def
  opt_ident_def opt_ident_lower_def opt_value_def opt_operand_def opt_comma_operand_def
  comma_operands_def

lemma skip_nl_suffix: "suffix (skip_nl ts) ts"
  by (simp add: skip_nl_def suffix_dropWhile)

lemma skip_nl_length: "length (skip_nl ts) \<le> length ts"
  by (rule suffix_length_le [OF skip_nl_suffix])

lemma stays_skip_nl [staying]: "stays p \<Longrightarrow> stays (\<lambda>ts. p (skip_nl ts))"
  by (auto simp: stays_def intro: suffix_order.trans [OF _ skip_nl_suffix])

lemma stays_give [staying]: "stays (give x)"
  and stays_fail [staying]: "stays (fail m)"
  by (simp_all add: stays_def give_def fail_def)

lemma stays_punct [staying]: "stays c \<Longrightarrow> stays (punct k c)"
  by (simp add: punct_def stays_expect)

lemma stays_ident_lower [staying]: "(\<And>v. stays (c v)) \<Longrightarrow> stays (ident_lower c)"
  by (simp add: ident_lower_def stays_expect)

lemma stays_number [staying]: "(\<And>n. stays (c n)) \<Longrightarrow> stays (number c)"
  unfolding number_def by (intro stays_expect stays_read)

lemma stays_maybe [staying]: "stays c \<Longrightarrow> stays (maybe k c)"
  unfolding maybe_def by (intro stays_if_app stays_adv)

lemma stays_sub [staying]: "stays p \<Longrightarrow> (\<And>x. stays (c x)) \<Longrightarrow> stays (sub p
    c)"
  unfolding stays_def sub_def by (fastforce simp: bindE_Inr_iff intro: suffix_order.trans)

lemma stays_operand [staying]: "(\<And>e. stays (c e)) \<Longrightarrow> stays (operand c)"
  unfolding operand_def by (intro staying)

lemma stays_opt_ident [staying]: "(\<And>v. stays (c v)) \<Longrightarrow> stays (opt_ident d c)"
  and stays_opt_ident_lower [staying]: "(\<And>v. stays (c v)) \<Longrightarrow> stays (opt_ident_lower d c)"
  by (auto simp: stays_def opt_ident_def opt_ident_lower_def intro: suffix_adv split: if_splits)

lemma stays_opt_number [staying]: "(\<And>n. stays (c n)) \<Longrightarrow> stays (opt_number k d c)"
  unfolding opt_number_def [abs_def] by (intro staying)

lemma stays_opt_value [staying]: "(\<And>n. stays (c n)) \<Longrightarrow> stays (opt_value d f c)"
  unfolding opt_value_def [abs_def] by (intro staying)

lemma stays_opt_operand [staying]: "(\<And>e. stays (c e)) \<Longrightarrow> stays (opt_operand c)"
  and stays_opt_comma_operand [staying]: "(\<And>e. stays (c e)) \<Longrightarrow> stays (opt_comma_operand
      c)"
  unfolding opt_operand_def [abs_def] opt_comma_operand_def [abs_def] by (intro staying; assumption)+

lemma stays_comma_operands [staying]: "(\<And>e e'. stays (c e e')) \<Longrightarrow> stays (comma_operands
    c)"
  unfolding comma_operands_def by (intro staying)

text \<open>\<open>while not at the end of the line: skip a comma or take an operand\<close>.\<close>

function operands :: "expr list pars" where
  "operands ts =
    (if at_end ts then Inr ([], ts)
     else if at T_COMMA ts then operands (adv ts)
     else bindE (expr_add ts) (\<lambda>(e, r). bindE (operands r) (\<lambda>(es, r'). Inr (e # es, r'))))"
  by pat_completeness auto

termination
  by (relation "measure length") (auto dest: expr_add_consumes adv_less)

declare operands.simps [simp del]

lemma stays_operands [staying]: "stays operands"
proof (rule staysI)
  show "suffix r ts" if "operands ts = Inr (es, r)" for ts es r
    using that
  proof (induction ts arbitrary: es r rule: operands.induct)
    case (1 ts)
    note IH = 1
    consider "at_end ts" | "\<not> at_end ts" "at T_COMMA ts" | "\<not> at_end ts" "\<not> at T_COMMA ts"
        by blast
    then show ?case
    proof cases
      case 3
      then obtain e r' es' where "expr_add ts = Inr (e, r')" "operands r' = Inr (es', r)"
        using IH(3) by (auto simp: operands.simps [of ts] bindE_Inr_iff)
      then have "suffix r r'" "suffix r' ts" using IH(2) [OF 3] expr_suffix(1) by blast+
      then show ?thesis by (rule suffix_order.trans)
    next
      case 1
      then show ?thesis using IH(3) by (simp add: operands.simps [of ts])
    next
      case 2
      then show ?thesis using IH(1,3) suffix_adv by (simp add: operands.simps [of ts])
    qed
  qed
qed

text \<open>Bytes up to the first other token; \<open>num\<close> reads a number token.\<close>

fun byte_values :: "(string \<Rightarrow> int res) \<Rightarrow> bytes pars" where
  "byte_values num [] = Inr ([], [])"
| "byte_values num (t # r) =
    (if tkind t = T_COMMA then byte_values num r
     else if tkind t = T_NUMBER \<or> tkind t = T_IDENT
     then bindE ((if tkind t = T_NUMBER then num else py_int 16) (tvalue t)) (\<lambda>v.
       bindE (byte_values num r) (\<lambda>(vs, r'). Inr (word_of_int v # vs, r')))
     else Inr ([], t # r))"

lemma stays_byte_values [staying]: "stays (byte_values num)"
proof (rule staysI)
  show "suffix r ts" if "byte_values num ts = Inr (bs, r)" for ts bs r
    using that
    by (induction ts arbitrary: bs r)
      (auto simp: bindE_Inr_iff suffix_ConsI split: if_splits)
qed

subsection \<open>Addresses\<close>

text \<open>\<open>index * scale\<close> as the expression grammar reads it.\<close>

fun scaled_index :: "expr \<Rightarrow> (expr \<times> int) option" where
  "scaled_index (BinExpr opn (Reg n) (Number k)) = (if opn = ''*'' then Some (Reg n, k) else None)"
| "scaled_index _ = None"

definition check_scale :: "int \<Rightarrow> int res" where
  "check_scale k = (if k \<in> set [1, 2, 4, 8] then Inr k else Inl (SyntaxErr ''scale must be 1,2,4,8''))"

fun is_reg_node :: "expr \<Rightarrow> bool" where
  "is_reg_node (Reg n) \<longleftrightarrow> True"
| "is_reg_node _ \<longleftrightarrow> False"

fun is_str_node :: "expr \<Rightarrow> bool" where
  "is_str_node (Str s) \<longleftrightarrow> True"
| "is_str_node _ \<longleftrightarrow> False"

text \<open>One term behind the base of \<open>cpu:lea\<close> changes index, scale and offset; then the
    loop over the
  terms.\<close>

definition lea_term :: "expr option \<times> int \<times> int \<Rightarrow> (expr option \<times> int
    \<times> int) pars" where
  "lea_term st = (case st of (ix, sc, off) \<Rightarrow> (\<lambda>ts.
     if at T_NUMBER ts then number (\<lambda>n. give (ix, sc, off + n)) ts
     else sub primary (\<lambda>opnd.
       case scaled_index opnd of
         Some (ix', k) \<Rightarrow> (\<lambda>ts. bindE (check_scale k) (\<lambda>k. give (Some ix', k,
             off) ts))
       | None \<Rightarrow>
           if is_reg_node opnd
           then (\<lambda>ts. if at T_STAR ts
             then number (\<lambda>k ts. bindE (check_scale k) (\<lambda>k. give (Some opnd, k, off) ts))
                 (adv ts)
             else give (Some opnd, sc, off) ts)
           else fail ''bad lea address form'') ts))"

lemma stays_lea_term [staying]: "stays (lea_term st)"
  unfolding lea_term_def by (intro staying)

function lea_terms :: "expr option \<times> int \<times> int \<Rightarrow> (expr option \<times> int
    \<times> int) pars" where
  "lea_terms st ts =
    (if at T_PLUS ts then bindE (lea_term st (adv ts)) (\<lambda>(st', r). lea_terms st' r)
     else Inr (st, ts))"
  by pat_completeness auto

termination
  by (relation "measure (\<lambda>(_, ts). length ts)")
    (auto dest!: stays_length [OF stays_lea_term] adv_less)

text \<open>The terms behind the base of a memory operand. An offset that is a Python \<open>int\<close> so
    far is a
  \<open>Number\<close>; a node \<open>Number\<close> never is the offset itself, its value is added.\<close>

definition add_offset :: "expr \<Rightarrow> expr \<Rightarrow> expr" where
  "add_offset off opnd =
    (case off of
       Number v \<Rightarrow> (case opnd of Number n \<Rightarrow> Number (v + n)
         | _ \<Rightarrow> if v = 0 then opnd else BinExpr ''+'' off opnd)
     | _ \<Rightarrow> BinExpr ''+'' off opnd)"

definition add_int :: "expr \<Rightarrow> int \<Rightarrow> expr res" where
  "add_int off n = (case off of Number v \<Rightarrow> Inr (Number (v + n)) | _ \<Rightarrow> Inl TypeErr)"

definition mem_term :: "expr \<times> expr option \<times> int \<Rightarrow> (expr \<times> expr option
    \<times> int) pars" where
  "mem_term st = (case st of (off, ix, sc) \<Rightarrow> (\<lambda>ts.
     if at T_NUMBER ts then number (\<lambda>n ts. bindE (add_int off n) (\<lambda>off'. give (off', ix,
         sc) ts)) ts
     else operand (\<lambda>opnd.
       case scaled_index opnd of
         Some (ix', k) \<Rightarrow> (\<lambda>ts. bindE (check_scale k) (\<lambda>k. give (off, Some ix',
             k) ts))
       | None \<Rightarrow>
           if is_reg_node opnd
           then (\<lambda>ts. if at T_STAR ts
             then number (\<lambda>k ts. bindE (check_scale k) (\<lambda>k. give (off, Some opnd, k) ts))
                 (adv ts)
             else give (off, Some opnd, sc) ts)
           else if is_str_node opnd then give (off, Some opnd, sc)
           else give (add_offset off opnd, ix, sc)) ts))"

lemma stays_mem_term [staying]: "stays (mem_term st)"
  unfolding mem_term_def by (intro staying)

function mem_terms :: "expr \<times> expr option \<times> int \<Rightarrow> (expr \<times> expr option
    \<times> int) pars" where
  "mem_terms st ts =
    (if at T_PLUS ts then bindE (mem_term st (adv ts)) (\<lambda>(st', r). mem_terms st' r)
     else Inr (st, ts))"
  by pat_completeness auto

termination
  by (relation "measure (\<lambda>(_, ts). length ts)")
    (auto dest!: stays_length [OF stays_mem_term] adv_less)

declare lea_terms.simps [simp del] mem_terms.simps [simp del]

lemma stays_lea_terms [staying]: "stays (lea_terms st)"
proof (rule staysI)
  show "suffix r ts" if "lea_terms st ts = Inr (x, r)" for ts x r
    using that
  proof (induction st ts arbitrary: x r rule: lea_terms.induct)
    case (1 st ts)
    show ?case
    proof (cases "at T_PLUS ts")
      case True
      then obtain st' r' where *: "lea_term st (adv ts) = Inr (st', r')" "lea_terms st' r' = Inr (x, r)"
        using 1(2) by (auto simp: lea_terms.simps [of st ts] bindE_Inr_iff)
      then have "suffix r' (adv ts)" "suffix r r'"
        using 1(1) [OF True] staysD [OF stays_lea_term] by blast+
      then show ?thesis by (blast intro: suffix_adv suffix_order.trans)
    qed (use 1(2) in \<open>simp add: lea_terms.simps [of st ts]\<close>)
  qed
qed

lemma stays_mem_terms [staying]: "stays (mem_terms st)"
proof (rule staysI)
  show "suffix r ts" if "mem_terms st ts = Inr (x, r)" for ts x r
    using that
  proof (induction st ts arbitrary: x r rule: mem_terms.induct)
    case (1 st ts)
    show ?case
    proof (cases "at T_PLUS ts")
      case True
      then obtain st' r' where *: "mem_term st (adv ts) = Inr (st', r')" "mem_terms st' r' = Inr (x, r)"
        using 1(2) by (auto simp: mem_terms.simps [of st ts] bindE_Inr_iff)
      then have "suffix r' (adv ts)" "suffix r r'"
        using 1(1) [OF True] staysD [OF stays_mem_term] by blast+
      then show ?thesis by (blast intro: suffix_adv suffix_order.trans)
    qed (use 1(2) in \<open>simp add: mem_terms.simps [of st ts]\<close>)
  qed
qed

definition mem_addr :: "(expr \<Rightarrow> expr \<Rightarrow> expr option \<Rightarrow> int \<Rightarrow>
    'a pars) \<Rightarrow> 'a pars" where
  "mem_addr c = punct T_LBRACK (sub primary (\<lambda>bas. sub (mem_terms (Number 0, None, 1))
     (\<lambda>(off, ix, sc). punct T_RBRACK (c bas off ix sc))))"

lemma stays_mem_addr [staying]: "(\<And>b off ix sc. stays (c b off ix sc)) \<Longrightarrow> stays
    (mem_addr c)"
  unfolding mem_addr_def by (intro staying)

text \<open>The address form of the vector operations: an operand, then perhaps \<open>+
    number\<close>.\<close>

definition bracketed :: "(expr \<Rightarrow> int \<Rightarrow> 'a pars) \<Rightarrow> 'a pars" where
  "bracketed c = punct T_LBRACK (operand (\<lambda>bas. opt_number T_PLUS 0 (\<lambda>off. punct T_RBRACK
      (c bas off))))"

lemma stays_bracketed [staying]: "(\<And>b off. stays (c b off)) \<Longrightarrow> stays (bracketed c)"
  unfolding bracketed_def by (intro staying)

subsection \<open>Data, memory, calls of the kernel, stack\<close>

definition p_data :: "string \<Rightarrow> node pars" where
  "p_data what =
   (if what = ''align'' then number (\<lambda>n. if n < 1 \<or> n AND (n - 1) \<noteq> 0 then fail
       ''not a power of 2''
      else give (DataAlign n))
    else expect T_IDENT (\<lambda>nm. punct T_EQ
     (if what = ''alloc'' then (\<lambda>ts. if at T_NUMBER ts then number (\<lambda>n. give (DataAlloc nm
         (SizeNum n))) ts
        else expect T_IDENT (\<lambda>s. give (DataAlloc nm (SizeOf s))) ts)
      else if what = ''const'' then (\<lambda>ts. if at T_STRING ts then expect T_STRING (\<lambda>s. give
          (DataConst nm (Str s))) ts
        else number (\<lambda>n. give (DataConst nm (Number n))) ts)
      else if what = ''bytes'' then sub (byte_values (py_int 0)) (\<lambda>vs. if vs = [] then fail
          ''no bytes''
        else give (DataBytes nm vs))
      else fail ''unknown operation'')))"

lemma stays_p_data [staying]: "stays (p_data x)"
  unfolding p_data_def by (intro staying)

definition ram_size :: "string \<Rightarrow> string \<Rightarrow> int option" where
  "ram_size dir what =
    (if what = dir @ ''8'' then Some 8 else if what = dir @ ''16'' then Some 16
     else if what = dir @ ''32'' then Some 32
     else if what \<in> set [dir, dir @ ''64''] then Some 64 else None)"

definition p_ram :: "string \<Rightarrow> node pars" where
  "p_ram what =
   (if starts_with ''read'' what
    then (case ram_size ''read'' what of None \<Rightarrow> fail ''unknown operation''
      | Some sz \<Rightarrow> expect T_IDENT (\<lambda>dest. punct T_EQ (mem_addr (\<lambda>bas off ix sc.
          give (MemLoad dest bas off sz ix sc)))))
    else if starts_with ''write'' what
    then (case ram_size ''write'' what of None \<Rightarrow> fail ''unknown operation''
      | Some sz \<Rightarrow> mem_addr (\<lambda>bas off ix sc. punct T_EQ (operand (\<lambda>v.
          give (MemStore bas off v sz ix sc)))))
    else fail ''unknown operation'')"

lemma stays_p_ram [staying]: "stays (p_ram x)"
  unfolding p_ram_def by (intro staying)

definition p_syscall :: "node pars" where
  "p_syscall ts =
   (if at T_NUMBER ts then number (\<lambda>n. sub operands (\<lambda>ars. give (SysCall (SysNum n) ars))) ts
    else expect T_IDENT (\<lambda>n. sub operands (\<lambda>ars. give (SysCall (SysName n) ars))) ts)"

lemma stays_p_syscall [staying]: "stays (p_syscall)"
  unfolding p_syscall_def [abs_def] by (intro staying)

definition p_lea :: "node pars" where
  "p_lea = expect T_IDENT (\<lambda>dest. punct T_EQ (punct T_LBRACK (\<lambda>ts.
     if at_word ''rip'' ts
     then punct T_PLUS (expect T_IDENT (\<lambda>lab. punct T_RBRACK (give (CpuStmt (CpuLeaRip dest
         lab))))) (adv ts)
     else if at_word ''abs'' ts
     then number (\<lambda>adr. punct T_RBRACK (give (CpuStmt (CpuLeaAbs dest adr)))) (adv ts)
     else sub primary (\<lambda>bas. sub (lea_terms (None, 1, 0)) (\<lambda>(ix, sc, off). punct T_RBRACK
       (give (CpuStmt (CpuLea dest bas ix sc off))))) ts)))"

lemma stays_p_lea [staying]: "stays (p_lea)"
  unfolding p_lea_def [abs_def] by (intro staying)

definition ext_width :: "(int \<Rightarrow> 'a pars) \<Rightarrow> 'a pars" where
  "ext_width c ts =
    (if at T_NUMBER ts then number (\<lambda>n. if n \<in> set [8, 16] then c n else fail
        ''size must be 8 or 16'') ts
     else c 8 ts)"

lemma stays_ext_width [staying]: "(\<And>n. stays (c n)) \<Longrightarrow> stays (ext_width c)"
  unfolding ext_width_def [abs_def] by (intro staying)

text \<open>Up to four destinations, each but the first behind an optional comma.\<close>

definition chip_dests :: "(string \<Rightarrow> string \<Rightarrow> string \<Rightarrow> string
    \<Rightarrow> 'a pars) \<Rightarrow> 'a pars" where
  "chip_dests c ts =
    (if at T_IDENT ts
     then expect T_IDENT (\<lambda>da. maybe T_COMMA (\<lambda>ts. if at T_IDENT ts
       then expect T_IDENT (\<lambda>db. maybe T_COMMA (\<lambda>ts. if at T_IDENT ts
         then expect T_IDENT (\<lambda>dc. maybe T_COMMA (\<lambda>ts. if at T_IDENT ts
           then expect T_IDENT (\<lambda>dd. c da db dc dd) ts
           else c da db dc ''reg4'' ts)) ts
         else c da db ''reg3'' ''reg4'' ts)) ts
       else c da ''reg2'' ''reg3'' ''reg4'' ts)) ts
     else c ''reg1'' ''reg2'' ''reg3'' ''reg4'' ts)"

lemma stays_chip_dests [staying]: "(\<And>da db dc dd. stays (c da db dc dd)) \<Longrightarrow> stays
    (chip_dests c)"
  unfolding chip_dests_def [abs_def] by (intro staying)

definition handler_name :: "(string \<Rightarrow> 'a pars) \<Rightarrow> 'a pars" where
  "handler_name c ts =
    (if at T_LABEL ts then expect T_LABEL c ts
     else expect T_IDENT (\<lambda>h. c (dropWhile (\<lambda>d. d = CHR ''~'') h)) ts)"

lemma stays_handler_name [staying]: "(\<And>h. stays (c h)) \<Longrightarrow> stays (handler_name c)"
  unfolding handler_name_def [abs_def] by (intro staying)

fun bit_length :: "nat \<Rightarrow> nat" where
  "bit_length n = (if n = 0 then 0 else Suc (bit_length (n div 2)))"

declare bit_length.simps [simp del]

definition ring_size :: "int \<Rightarrow> int" where
  "ring_size n = (let n = (if n < 2 then 2 else n) in
     if n AND (n - 1) \<noteq> 0 then 2 ^ bit_length (nat n) else n)"

definition UNARY :: "string list" where
  "UNARY = [''not'', ''neg'', ''inc'', ''dec'']"

definition BINARY :: "string list" where
  "BINARY = [''set'', ''add'', ''sub'', ''mul'', ''div'', ''mod'', ''and'', ''or'', ''xor'', ''shl'', ''shr'',
     ''sar'', ''sal'', ''rol'', ''ror'', ''rcl'', ''rcr'']"

subsection \<open>Instructions\<close>

definition p_cpu_3 :: "string \<Rightarrow> node pars" where
  "p_cpu_3 op' =
   (if op' = ''bzhi'' then expect T_IDENT (\<lambda>dest. punct T_EQ (expect T_IDENT (\<lambda>src. maybe
       T_COMMA (expect T_IDENT (\<lambda>ctl. give (AluStmt (CpuBzhi dest src ctl)))))))
   else if op' = ''cmpxchg16b'' then bracketed (\<lambda>bas off. give (CpuStmt (CpuCmpxchg16b bas off)))
   else if op' = ''cmovmem'' then expect T_IDENT (\<lambda>dest. punct T_EQ (bracketed (\<lambda>bas off.
       maybe T_COMMA
      (ident_lower (\<lambda>cnd. give (CpuStmt (CpuCmovMem dest bas off cnd)))))))
   else if op' = ''xchg'' then expect T_IDENT (\<lambda>ra. maybe T_COMMA (expect T_IDENT (\<lambda>rb.
       give (CpuStmt (CpuXchg ra rb)))))
   else if op' = ''xadd'' then expect T_IDENT (\<lambda>dest. punct T_EQ (expect T_IDENT (\<lambda>src.
       give (CpuStmt (CpuXadd dest src)))))
   else if op' \<in> set [''bsf'', ''bsr''] then expect T_IDENT (\<lambda>dest. punct T_EQ (operand
       (\<lambda>src. give (CpuStmt (CpuBitScan op' dest src)))))
   else if op' = ''bt'' then expect T_IDENT (\<lambda>bas. maybe T_COMMA (operand (\<lambda>off. give
       (CpuStmt (CpuBt bas off)))))
   else if op' \<in> set UNARY then expect T_IDENT (\<lambda>dest. give (CpuUnary op' dest))
   else if op' = ''cmov'' then expect T_IDENT (\<lambda>dest. punct T_EQ (operand (\<lambda>src. maybe
       T_COMMA (ident_lower (\<lambda>cnd. give (CpuStmt (CpuCmov dest src cnd)))))))
   else if op' = ''lea'' then p_lea
   else if op' = ''test'' then operand (\<lambda>lft. maybe T_COMMA (operand (\<lambda>rgt. give (CpuStmt
       (CpuTest lft rgt)))))
   else if op' \<in> set [''movzx'', ''movsx''] then expect T_IDENT (\<lambda>dest. punct T_EQ (ext_width
       (\<lambda>sz. operand (\<lambda>src.
      give (CpuStmt (CpuMovExt op' dest src sz))))))
   else if op' \<notin> set BINARY then fail ''unknown operation''
   else expect T_IDENT (\<lambda>dest. punct T_EQ (operand (\<lambda>val. give (CpuBin op' dest val)))))"

lemma stays_p_cpu_3 [staying]: "stays (p_cpu_3 x)"
  unfolding p_cpu_3_def by (intro staying)

definition p_cpu_2 :: "string \<Rightarrow> node pars" where
  "p_cpu_2 op' =
   (if op' = ''sarx'' then expect T_IDENT (\<lambda>dest. punct T_EQ (expect T_IDENT (\<lambda>src. maybe
       T_COMMA (expect T_IDENT (\<lambda>cnt. give (AluStmt (CpuSarx dest src cnt)))))))
   else if op' = ''rorx'' then expect T_IDENT (\<lambda>dest. punct T_EQ (expect T_IDENT (\<lambda>src.
       maybe T_COMMA (number (\<lambda>imm. give (AluStmt (CpuRorx dest src imm)))))))
   else if op' = ''bextr'' then expect T_IDENT (\<lambda>dest. punct T_EQ (expect T_IDENT (\<lambda>src.
       maybe T_COMMA (expect T_IDENT (\<lambda>ctl. give (AluStmt (CpuBextr dest src ctl)))))))
   else if op' = ''blsi'' then expect T_IDENT (\<lambda>dest. punct T_EQ (expect T_IDENT (\<lambda>src.
       give (AluStmt (CpuBlsi dest src)))))
   else if op' = ''blsr'' then expect T_IDENT (\<lambda>dest. punct T_EQ (expect T_IDENT (\<lambda>src.
       give (AluStmt (CpuBlsr dest src)))))
   else if op' = ''blsmsk'' then expect T_IDENT (\<lambda>dest. punct T_EQ (expect T_IDENT (\<lambda>src.
       give (AluStmt (CpuBlsmsk dest src)))))
   else if op' = ''adcx'' then expect T_IDENT (\<lambda>dest. punct T_EQ (expect T_IDENT (\<lambda>src.
       give (AluStmt (CpuAdcx dest src)))))
   else if op' = ''adox'' then expect T_IDENT (\<lambda>dest. punct T_EQ (expect T_IDENT (\<lambda>src.
       give (AluStmt (CpuAdox dest src)))))
   else if op' = ''crc32'' then expect T_IDENT (\<lambda>dest. punct T_EQ (expect T_IDENT (\<lambda>src.
       give (AluStmt (CpuCrc32 dest src)))))
   else if op' = ''rdrand'' then expect T_IDENT (\<lambda>dest. give (AluStmt (CpuRdrand dest)))
   else if op' = ''rdseed'' then expect T_IDENT (\<lambda>dest. give (AluStmt (CpuRdseed dest)))
   else if op' = ''adc'' then expect T_IDENT (\<lambda>dest. punct T_EQ (expect T_IDENT (\<lambda>src. give
       (AluStmt (CpuAdc dest src)))))
   else if op' = ''sbb'' then expect T_IDENT (\<lambda>dest. punct T_EQ (expect T_IDENT (\<lambda>src. give
       (AluStmt (CpuSbb dest src)))))
   else if op' = ''bswap'' then expect T_IDENT (\<lambda>dest. give (AluStmt (CpuBswap dest)))
   else if op' \<in> set [''clc'', ''stc'', ''cmc'', ''cld'', ''std'', ''pause'', ''cqo'', ''cdq'',
       ''leave'', ''cdqe'', ''pushfq'', ''popfq'', ''rdtscp'', ''lfence'', ''sfence'', ''mfence'',
       ''endbr64''] then give (CpuStmt (CpuFlagOp op'))
   else if op' \<in> set [''mulu'', ''divu''] then expect T_IDENT (\<lambda>src. give (CpuStmt (CpuMulDiv1
       (if op' = ''mulu'' then ''mul'' else ''div'') src)))
   else if op' = ''testimm'' then expect T_IDENT (\<lambda>dest. maybe T_COMMA (number (\<lambda>imm. give
       (CpuStmt (CpuTestImm dest imm)))))
   else if op' \<in> set [''bts'', ''btr'', ''btc''] then expect T_IDENT (\<lambda>bas. maybe T_COMMA
       (expect T_IDENT (\<lambda>off. give (CpuStmt (CpuBitOp op' bas off)))))
   else if op' = ''popcnt'' then expect T_IDENT (\<lambda>dest. punct T_EQ (expect T_IDENT (\<lambda>src.
       give (AluStmt (CpuPopcnt dest src)))))
   else if op' = ''lzcnt'' then expect T_IDENT (\<lambda>dest. punct T_EQ (expect T_IDENT (\<lambda>src.
       give (AluStmt (CpuLzcnt dest src)))))
   else if op' = ''tzcnt'' then expect T_IDENT (\<lambda>dest. punct T_EQ (expect T_IDENT (\<lambda>src.
       give (AluStmt (CpuTzcnt dest src)))))
   else if op' = ''shld'' then expect T_IDENT (\<lambda>dest. maybe T_COMMA (expect T_IDENT (\<lambda>src.
       give (AluStmt (CpuShld dest src)))))
   else if op' = ''shrd'' then expect T_IDENT (\<lambda>dest. maybe T_COMMA (expect T_IDENT (\<lambda>src.
       give (AluStmt (CpuShrd dest src)))))
   else if op' = ''imulimm'' then expect T_IDENT (\<lambda>dest. punct T_EQ (number (\<lambda>imm. give
       (AluStmt (CpuImulImm dest imm)))))
   else if op' = ''andn'' then expect T_IDENT (\<lambda>dest. punct T_EQ (expect T_IDENT (\<lambda>s1.
       maybe T_COMMA (expect T_IDENT (\<lambda>s2. give (AluStmt (CpuAndn dest s1 s2)))))))
   else p_cpu_3 op')"

lemma stays_p_cpu_2 [staying]: "stays (p_cpu_2 x)"
  unfolding p_cpu_2_def by (intro staying)

definition p_cpu :: "string \<Rightarrow> node pars" where
  "p_cpu op' =
   (if op' = ''movsxd'' then expect T_IDENT (\<lambda>dest. punct T_EQ (expect T_IDENT (\<lambda>src. give
       (CpuStmt (CpuMovsxd dest src)))))
   else if op' = ''imul3'' then expect T_IDENT (\<lambda>dest. punct T_EQ (expect T_IDENT (\<lambda>src.
       maybe T_COMMA (number (\<lambda>imm. give (AluStmt (CpuImul3 dest src imm)))))))
   else if op' \<in> set [''ldmxcsr'', ''stmxcsr''] then expect T_IDENT (\<lambda>bas. give (CpuStmt
       (CpuMxcsr (if starts_with ''ld'' op' then ''ld'' else ''st'') bas)))
   else if op' \<in> set [''fxsave'', ''fxrstor''] then expect T_IDENT (\<lambda>bas. give (CpuStmt (CpuFx
       (if contains ''save'' op' then ''save'' else ''restore'') bas)))
   else if op' = ''xgetbv'' then give (CpuStmt CpuXgetbv)
   else if op' \<in> set [''rdfsbase'', ''rdgsbase'', ''wrfsbase'', ''wrgsbase''] then expect T_IDENT
       (\<lambda>rg'. give (CpuStmt (CpuFsGs op' rg')))
   else if op' \<in> set [''sldt'', ''str'', ''smsw'', ''swapgs'', ''rdmsr'', ''wrmsr'', ''rdpmc'',
       ''clts'', ''wbinvd'', ''sysret'', ''sysenter'', ''sysexit''] then opt_ident ''reg1'' (\<lambda>rg'.
       give (CpuStmt (CpuPrivOp op' rg')))
   else if op' = ''movzx'' then expect T_IDENT (\<lambda>dest. punct T_EQ (expect T_IDENT (\<lambda>src.
       opt_number T_COMMA 8 (\<lambda>width. give (CpuStmt (CpuMovzx dest src width))))))
   else if op' = ''movsx'' then expect T_IDENT (\<lambda>dest. punct T_EQ (expect T_IDENT (\<lambda>src.
       opt_number T_COMMA 8 (\<lambda>width. give (CpuStmt (CpuMovsx dest src width))))))
   else if op' \<in> set [''btimm'', ''btsimm'', ''btrimm'', ''btcimm''] then expect T_IDENT (\<lambda>bas.
       maybe T_COMMA (number (\<lambda>imm. give (CpuStmt (CpuBitImm (replace_all ''imm'' '''' op') bas
       imm)))))
   else if op' = ''shldimm'' then expect T_IDENT (\<lambda>dest. maybe T_COMMA (expect T_IDENT
       (\<lambda>src. maybe T_COMMA (number (\<lambda>imm. give (AluStmt (CpuShldImm dest src imm)))))))
   else if op' = ''shrdimm'' then expect T_IDENT (\<lambda>dest. maybe T_COMMA (expect T_IDENT
       (\<lambda>src. maybe T_COMMA (number (\<lambda>imm. give (AluStmt (CpuShrdImm dest src imm)))))))
   else if op' = ''nopl'' then give (CpuStmt CpuNopLong)
   else if op' = ''enter'' then number (\<lambda>sz. opt_number T_COMMA 0 (\<lambda>nesting. give (CpuStmt
       (CpuEnter sz nesting))))
   else if op' = ''pext'' then expect T_IDENT (\<lambda>dest. punct T_EQ (expect T_IDENT (\<lambda>src.
       maybe T_COMMA (expect T_IDENT (\<lambda>msk. give (AluStmt (CpuPext dest src msk)))))))
   else if op' = ''pdep'' then expect T_IDENT (\<lambda>dest. punct T_EQ (expect T_IDENT (\<lambda>src.
       maybe T_COMMA (expect T_IDENT (\<lambda>msk. give (AluStmt (CpuPdep dest src msk)))))))
   else if op' = ''mulx'' then expect T_IDENT (\<lambda>hi'. maybe T_COMMA (expect T_IDENT (\<lambda>lo'.
       punct T_EQ (expect T_IDENT (\<lambda>src. give (AluStmt (CpuMulx hi' lo' src)))))))
   else if op' = ''cmpxchg'' then expect T_IDENT (\<lambda>dest. maybe T_COMMA (expect T_IDENT
       (\<lambda>src. give (AluStmt (CpuCmpxchg dest src)))))
   else if op' = ''prefetch'' then ident_lower (\<lambda>knd. expect T_IDENT (\<lambda>bas. give (CpuStmt
       (CpuPrefetch knd bas))))
   else if op' = ''clflush'' then expect T_IDENT (\<lambda>bas. give (CpuStmt (CpuClflush bas)))
   else if op' \<in> set [''cbw'', ''cwde'', ''cwd''] then give (CpuStmt (CpuFlagOp op'))
   else if op' = ''shlx'' then expect T_IDENT (\<lambda>dest. punct T_EQ (expect T_IDENT (\<lambda>src.
       maybe T_COMMA (expect T_IDENT (\<lambda>cnt. give (AluStmt (CpuShlx dest src cnt)))))))
   else if op' = ''shrx'' then expect T_IDENT (\<lambda>dest. punct T_EQ (expect T_IDENT (\<lambda>src.
       maybe T_COMMA (expect T_IDENT (\<lambda>cnt. give (AluStmt (CpuShrx dest src cnt)))))))
   else p_cpu_2 op')"

lemma stays_p_cpu [staying]: "stays (p_cpu x)"
  unfolding p_cpu_def by (intro staying)

subsection \<open>Blocks, strings, stack, mappings, atomics, time\<close>

definition p_stack :: "string \<Rightarrow> node pars" where
  "p_stack what =
   (if what = ''push'' then operand (\<lambda>val. give (StackPush val))
   else if what = ''pop'' then expect T_IDENT (\<lambda>dest. give (StackPop dest))
   else fail ''unknown operation'')"

lemma stays_p_stack [staying]: "stays (p_stack x)"
  unfolding p_stack_def by (intro staying)

definition p_blast :: "string \<Rightarrow> node pars" where
  "p_blast op' =
   (if op' = ''fill'' then expect T_IDENT (\<lambda>dest. punct T_EQ (operand (\<lambda>byte_val. punct
       T_COMMA (operand (\<lambda>len. give (RunStmt (BlastFill dest byte_val len)))))))
   else if op' \<in> set [''rep_fill'', ''repfill''] then expect T_IDENT (\<lambda>dest. punct T_EQ
       (operand (\<lambda>byte_val. punct T_COMMA (operand (\<lambda>len. give (RunStmt (BlastRepFill dest
       byte_val len)))))))
   else if op' \<in> set [''rep_copy'', ''repcopy''] then expect T_IDENT (\<lambda>dest. punct T_EQ
       (operand (\<lambda>src. punct T_COMMA (operand (\<lambda>len. give (RunStmt (BlastRepCopy dest src
       len)))))))
   else if op' = ''copy'' then expect T_IDENT (\<lambda>dest. punct T_EQ (operand (\<lambda>src. punct
       T_COMMA (operand (\<lambda>len. give (RunStmt (BlastCopy dest src len)))))))
   else fail ''unknown operation'')"

lemma stays_p_blast [staying]: "stays (p_blast x)"
  unfolding p_blast_def by (intro staying)

definition p_wire :: "string \<Rightarrow> node pars" where
  "p_wire op' =
   (if op' = ''len'' then expect T_IDENT (\<lambda>dest. punct T_EQ (operand (\<lambda>src. give (RunStmt
       (WireLen dest src)))))
   else if op' = ''cmp'' then expect T_IDENT (\<lambda>dest. punct T_EQ (operand (\<lambda>lft. punct
       T_COMMA (operand (\<lambda>rgt. give (RunStmt (WireCmp dest lft rgt)))))))
   else if op' = ''copy'' then operand (\<lambda>dest. punct T_EQ (operand (\<lambda>src. give (RunStmt
       (WireCopy dest src)))))
   else if op' = ''emit'' then operand (\<lambda>src. opt_comma_operand (\<lambda>len. give (RunStmt
       (WireEmit src len))))
   else fail ''unknown operation'')"

lemma stays_p_wire [staying]: "stays (p_wire x)"
  unfolding p_wire_def by (intro staying)

definition p_cell :: "string \<Rightarrow> node pars" where
  "p_cell op' =
   (if op' = ''map'' then expect T_IDENT (\<lambda>dest. punct T_EQ (operand (\<lambda>sz. comma_operands
       (\<lambda>prot flgs.
      give (RunStmt (CellMap dest sz prot flgs))))))
   else if op' = ''mapfile'' then expect T_IDENT (\<lambda>dest. punct T_EQ (operand (\<lambda>sz. maybe
       T_COMMA (operand (\<lambda>fd.
      comma_operands (\<lambda>off prot. give (RunStmt (CellMapFile dest sz fd off prot))))))))
   else if op' = ''free'' then operand (\<lambda>ptr. maybe T_COMMA (operand (\<lambda>sz. give (RunStmt
       (CellFree ptr sz)))))
   else if op' = ''protect'' then operand (\<lambda>ptr. maybe T_COMMA (operand (\<lambda>sz. maybe T_COMMA
       (operand (\<lambda>prot. give (RunStmt (CellProtect ptr sz prot)))))))
   else fail ''unknown operation'')"

lemma stays_p_cell [staying]: "stays (p_cell x)"
  unfolding p_cell_def by (intro staying)

definition p_gate :: "string \<Rightarrow> node pars" where
  "p_gate op' =
   (if op' = ''cas'' then expect T_IDENT (\<lambda>adr. punct T_EQ (expect T_IDENT (\<lambda>xp. maybe
       T_COMMA (expect T_IDENT (\<lambda>des. give (RunStmt (GateCas adr xp des)))))))
   else if op' = ''spin'' then expect T_IDENT (\<lambda>adr. give (RunStmt (GateSpin adr)))
   else if op' = ''fence'' then opt_ident_lower ''mfence'' (\<lambda>knd. give (ChipStmt (GateFence knd)))
   else fail ''unknown operation'')"

lemma stays_p_gate [staying]: "stays (p_gate x)"
  unfolding p_gate_def by (intro staying)

definition p_pulse :: "string \<Rightarrow> node pars" where
  "p_pulse op' =
   (if op' = ''sleep'' then operand (\<lambda>nsec. give (RunStmt (PulseSleep nsec)))
   else if op' = ''now'' then expect T_IDENT (\<lambda>dest. give (RunStmt (PulseNow dest)))
   else fail ''unknown operation'')"

lemma stays_p_pulse [staying]: "stays (p_pulse x)"
  unfolding p_pulse_def by (intro staying)

subsection \<open>Processor, kernel, ports, vectors, threads, network\<close>

definition p_chip :: "string \<Rightarrow> node pars" where
  "p_chip op' =
   (if op' = ''ticks'' then expect T_IDENT (\<lambda>dest. give (ChipStmt (ChipTicks dest)))
   else if op' = ''id'' then operand (\<lambda>lf. chip_dests (\<lambda>da db dc dd. give (ChipStmt (ChipId
       lf da db dc dd))))
   else if op' = ''cli'' then give (ChipStmt ChipCli)
   else if op' = ''sti'' then give (ChipStmt ChipSti)
   else if op' = ''halt'' \<or> op' = ''hlt'' then give (ChipStmt ChipHalt)
   else if op' = ''serial_init'' then give (ChipStmt ChipSerialInit)
   else if op' = ''serial_putc'' then operand (\<lambda>val. give (ChipStmt (ChipSerialPutc val)))
   else if op' = ''lidt'' then expect T_IDENT (\<lambda>bas. give (ChipStmt (ChipLidt bas)))
   else if op' = ''lgdt'' then expect T_IDENT (\<lambda>bas. give (ChipStmt (ChipLgdt bas)))
   else if op' = ''kbd_poll'' then expect T_IDENT (\<lambda>dest. give (ChipStmt (ChipKbdPoll dest)))
   else if op' = ''int'' then number (\<lambda>n. give (ChipStmt (ChipInt (n AND 0xFF))))
   else if op' = ''pit_init'' then opt_value 11932 (\<lambda>n. let dv = n AND 0xFFFF in if dv = 0 then 1
       else dv)
      (\<lambda>dv. give (ChipStmt (ChipPitInit dv)))
   else if op' = ''pic_remap'' then give (ChipStmt ChipPicRemap)
   else fail ''unknown operation'')"

lemma stays_p_chip [staying]: "stays (p_chip x)"
  unfolding p_chip_def by (intro staying)

definition p_kernel :: "string \<Rightarrow> node pars" where
  "p_kernel op' =
   (if op' = ''heap_init'' then number (\<lambda>sz. give (KernelStmt (KernelHeapInit sz)))
   else if op' = ''heap_alloc'' then expect T_IDENT (\<lambda>dest. punct T_EQ (operand (\<lambda>sz. give
       (KernelStmt (KernelHeapAlloc dest sz)))))
   else if op' = ''ctx_save'' then expect T_IDENT (\<lambda>dest. give (KernelStmt (KernelCtxSave dest)))
   else if op' = ''ctx_load'' then expect T_IDENT (\<lambda>src. give (KernelStmt (KernelCtxLoad src)))
   else if op' = ''idt_install'' then give (KernelStmt KernelIdtInstall)
   else if op' = ''coop_switch'' then expect T_IDENT (\<lambda>ra. punct T_COMMA (expect T_IDENT
       (\<lambda>rb. give (KernelStmt (KernelCoopSwitch ra rb)))))
   else if op' = ''printk_str'' then operand (\<lambda>src. give (KernelStmt (KernelPrintkStr src)))
   else if op' = ''panic'' then give (KernelStmt KernelPanic)
   else if op' = ''tick_install'' then give (KernelStmt KernelTickInstall)
   else if op' = ''tick_read'' then expect T_IDENT (\<lambda>dest. give (KernelStmt (KernelTickRead dest)))
   else if op' = ''ramfs_init'' then give (KernelStmt KernelRamfsInit)
   else if op' = ''ramfs_put'' then operand (\<lambda>nm. punct T_COMMA (operand (\<lambda>dat. punct
       T_COMMA (operand (\<lambda>len. give (KernelStmt (KernelRamfsPut nm dat len)))))))
   else if op' = ''ramfs_get'' then expect T_IDENT (\<lambda>dest. punct T_EQ (operand (\<lambda>nm. give
       (KernelStmt (KernelRamfsGet dest nm)))))
   else if op' = ''net_init'' then give (KernelStmt KernelNetInit)
   else if op' = ''net_poll'' then expect T_IDENT (\<lambda>dest. give (KernelStmt (KernelNetPoll dest)))
   else if op' = ''cs_ring'' then expect T_IDENT (\<lambda>dest. give (KernelStmt (KernelCsRing dest)))
   else if op' = ''enter_user'' then operand (\<lambda>ent. punct T_COMMA (operand (\<lambda>stk. give
       (KernelStmt (KernelEnterUser ent stk)))))
   else if op' = ''pf_install'' then give (KernelStmt KernelPfInstall)
   else if op' = ''net_allow_port'' then number (\<lambda>n. give (KernelStmt (KernelNetAllowPort (n AND
       63))))
   else if op' = ''net_check_port'' then expect T_IDENT (\<lambda>dest. punct T_EQ (operand (\<lambda>prt.
       give (KernelStmt (KernelNetCheckPort dest prt)))))
   else if op' = ''preempt_arm'' then expect T_IDENT (\<lambda>ctx. give (KernelStmt (KernelPreemptArm ctx)))
   else if op' = ''syscall_init'' then give (KernelStmt KernelSyscallInit)
   else if op' = ''sysret'' then give (KernelStmt KernelSysret)
   else if op' = ''nic_bar'' then operand (\<lambda>adr. give (KernelStmt (KernelNicBar adr)))
   else if op' = ''nic_reg_read'' then expect T_IDENT (\<lambda>dest. punct T_EQ (operand (\<lambda>off.
       give (KernelStmt (KernelNicRegRead dest off)))))
   else if op' = ''nic_reg_write'' then operand (\<lambda>off. punct T_EQ (operand (\<lambda>val. give
       (KernelStmt (KernelNicRegWrite off val)))))
   else if op' = ''irq_full_save_on'' then give (KernelStmt KernelIrqFullSave)
   else if op' = ''syscall_table_init'' then give (KernelStmt KernelSyscallTableInit)
   else if op' = ''syscall_register'' then number (\<lambda>n. punct T_COMMA (handler_name (\<lambda>h.
      give (KernelStmt (KernelSyscallRegister (n AND 63) h)))))
   else if op' = ''nmi_install'' then give (KernelStmt KernelNmiInstall)
   else if op' = ''dma_ring_init'' then opt_value 16 (\<lambda>n. n) (\<lambda>n. give (KernelStmt
       (KernelDmaRingInit (ring_size n))))
   else if op' = ''dma_ring_push'' then operand (\<lambda>adr. punct T_COMMA (operand (\<lambda>lng. give
       (KernelStmt (KernelDmaRingPush adr lng)))))
   else if op' = ''dma_ring_pop'' then expect T_IDENT (\<lambda>da. punct T_COMMA (expect T_IDENT
       (\<lambda>dl. give (KernelStmt (KernelDmaRingPop da dl)))))
   else fail ''unknown operation'')"

lemma stays_p_kernel [staying]: "stays (p_kernel x)"
  unfolding p_kernel_def by (intro staying)

definition p_port :: "string \<Rightarrow> node pars" where
  "p_port op' =
   (if op' = ''out'' then operand (\<lambda>prt. punct T_EQ (operand (\<lambda>val. give (ChipStmt (PortOut
       prt val)))))
   else if op' = ''in'' then expect T_IDENT (\<lambda>dest. punct T_EQ (operand (\<lambda>prt. give
       (ChipStmt (PortIn dest prt)))))
   else fail ''unknown operation'')"

lemma stays_p_port [staying]: "stays (p_port x)"
  unfolding p_port_def by (intro staying)

definition p_vec :: "string \<Rightarrow> node pars" where
  "p_vec op' =
   (if op' = ''load'' then expect T_IDENT (\<lambda>xmm. punct T_EQ (bracketed (\<lambda>bas off. give
       (CpuStmt (VecLoad xmm bas off)))))
   else if op' = ''store'' then bracketed (\<lambda>bas off. punct T_EQ (expect T_IDENT (\<lambda>xmm. give
       (CpuStmt (VecStore bas off xmm)))))
   else if op' \<in> set [''addps'', ''subps'', ''mulps'', ''divps''] then expect T_IDENT (\<lambda>dst.
       punct T_EQ (expect T_IDENT (\<lambda>src. give (CpuStmt (VecBin op' dst src)))))
   else if op' \<in> set [''vaddps'', ''vsubps'', ''vmulps'', ''vdivps''] then expect T_IDENT
       (\<lambda>dst. punct T_EQ (expect T_IDENT (\<lambda>src. give (CpuStmt (VecVBin op' dst src 0)))))
   else if op' = ''vshufps'' then expect T_IDENT (\<lambda>dst. punct T_EQ (expect T_IDENT (\<lambda>src.
       maybe T_COMMA (number (\<lambda>imm. give (CpuStmt (VecVBin ''vshufps'' dst src imm)))))))
   else if op' = ''vbroadcastss'' then expect T_IDENT (\<lambda>dst. punct T_EQ (expect T_IDENT
       (\<lambda>src. give (CpuStmt (VecVBin ''vbroadcastss'' dst src 0)))))
   else if op' = ''vload'' then expect T_IDENT (\<lambda>ymm. punct T_EQ (bracketed (\<lambda>bas off. give
       (CpuStmt (VecVLoad ymm bas off)))))
   else if op' = ''vstore'' then bracketed (\<lambda>bas off. punct T_EQ (expect T_IDENT (\<lambda>ymm.
       give (CpuStmt (VecVStore bas off ymm)))))
   else fail ''unknown operation'')"

lemma stays_p_vec [staying]: "stays (p_vec x)"
  unfolding p_vec_def by (intro staying)

definition p_thread :: "string \<Rightarrow> node pars" where
  "p_thread op' =
   (if op' = ''spawn'' then expect T_IDENT (\<lambda>dest. punct T_EQ (expect T_LABEL (\<lambda>lab. give
       (NetStmt (ThreadSpawn dest lab)))))
   else if op' = ''join_all'' \<or> op' = ''joinall'' then give (NetStmt ThreadJoinAll)
   else if op' = ''join'' then opt_operand (\<lambda>tid. give (NetStmt (ThreadJoin tid)))
   else if op' = ''exit'' then opt_operand (\<lambda>ec. give (NetStmt (ThreadExit ec)))
   else fail ''unknown operation'')"

lemma stays_p_thread [staying]: "stays (p_thread x)"
  unfolding p_thread_def by (intro staying)

definition p_net :: "string \<Rightarrow> node pars" where
  "p_net op' =
   (if op' = ''poll'' then operand (\<lambda>fds. maybe T_COMMA (operand (\<lambda>nfds. maybe T_COMMA
       (operand (\<lambda>timeout. give (NetStmt (NetPoll fds nfds timeout)))))))
   else if op' = ''epoll_create'' then expect T_IDENT (\<lambda>dest. punct T_EQ (opt_operand
       (\<lambda>flgs. give (NetStmt (NetEpollCreate dest flgs)))))
   else if op' = ''epoll_ctl'' then operand (\<lambda>epfd. maybe T_COMMA (operand (\<lambda>opv. maybe
       T_COMMA (operand (\<lambda>fd. maybe T_COMMA (operand (\<lambda>ev. give (NetStmt (NetEpollCtl epfd
       opv fd ev)))))))))
   else if op' = ''epoll_wait'' then expect T_IDENT (\<lambda>dest. punct T_EQ (operand (\<lambda>epfd.
       maybe T_COMMA (operand (\<lambda>events. maybe T_COMMA (operand (\<lambda>maxevents. maybe T_COMMA
       (operand (\<lambda>timeout. give (NetStmt (NetEpollWait dest epfd events maxevents timeout)))))))))))
   else if op' = ''socket'' then expect T_IDENT (\<lambda>dest. punct T_EQ (operand (\<lambda>domain. maybe
       T_COMMA (operand (\<lambda>typ. maybe T_COMMA (operand (\<lambda>proto. give (NetStmt (NetSocket
       dest domain typ proto)))))))))
   else if op' = ''connect'' then operand (\<lambda>sock. maybe T_COMMA (operand (\<lambda>adr. maybe
       T_COMMA (operand (\<lambda>alen. give (NetStmt (NetConnect sock adr alen)))))))
   else if op' = ''send'' then operand (\<lambda>sock. maybe T_COMMA (operand (\<lambda>buf. maybe T_COMMA
       (operand (\<lambda>lng. give (NetStmt (NetSend sock buf lng)))))))
   else if op' = ''recv'' then operand (\<lambda>sock. maybe T_COMMA (operand (\<lambda>buf. maybe T_COMMA
       (operand (\<lambda>lng. give (NetStmt (NetRecv sock buf lng)))))))
   else if op' = ''close'' then operand (\<lambda>sock. give (NetStmt (NetClose sock)))
   else fail ''unknown operation'')"

lemma stays_p_net [staying]: "stays (p_net x)"
  unfolding p_net_def by (intro staying)

subsection \<open>Statements by keyword\<close>

definition p_sys :: "string \<Rightarrow> node pars" where
  "p_sys what = (if what \<noteq> ''call'' then fail ''unknown operation'' else p_syscall)"

lemma stays_p_sys [staying]: "stays (p_sys x)"
  unfolding p_sys_def by (intro staying)

definition p_trap :: "string \<Rightarrow> node pars" where
  "p_trap op' = (if op' \<noteq> ''neg'' then fail ''unknown operation''
     else expect T_LABEL (\<lambda>lab. give (RunStmt (TrapNeg lab))))"

lemma stays_p_trap [staying]: "stays (p_trap x)"
  unfolding p_trap_def by (intro staying)

definition p_target :: "string \<Rightarrow> node pars" where
  "p_target op' = (if op' = ''baremetal'' then give TargetBaremetal else fail ''unknown operation'')"

lemma stays_p_target [staying]: "stays (p_target x)"
  unfolding p_target_def by (intro staying)

text \<open>\<open>str(getattr(hnum, 'value', hnum))\<close>: the value of a number or a string; of another
    node the
  text Python prints for it, here cut short behind its first characters, which no label has.\<close>

definition handler_text :: "expr \<Rightarrow> string" where
  "handler_text e = (case e of Number n \<Rightarrow> show_int n | Str s \<Rightarrow> s | Reg _
      \<Rightarrow> ''Reg(''
     | Ident _ \<Rightarrow> ''Ident('' | StructFieldRef _ _ \<Rightarrow> ''StructFieldRef('' | BinExpr _
         _ _ \<Rightarrow> ''BinExpr('')"

definition p_sig :: "string \<Rightarrow> node pars" where
  "p_sig op' =
   (if op' = ''action'' then operand (\<lambda>signo. maybe T_COMMA (\<lambda>ts.
      if at T_LABEL ts then expect T_LABEL (\<lambda>h. give (RunStmt (SigAction signo h))) ts
      else operand (\<lambda>hnum. give (RunStmt (SigAction signo (handler_text hnum)))) ts))
    else if op' = ''return'' then give (RunStmt SigReturn) else fail ''unknown operation'')"

lemma stays_p_sig [staying]: "stays (p_sig x)"
  unfolding p_sig_def by (intro staying)

definition p_section :: "string \<Rightarrow> node pars" where
  "p_section nm ts =
   (if at_word ''at'' ts then punct T_COLON (number (\<lambda>adr. give (SectionAt nm adr))) (adv ts)
    else give (SectionAt nm 0) ts)"

lemma stays_p_section [staying]: "stays (p_section x)"
  unfolding p_section_def by (intro staying)

text \<open>The comparison of \<open>assert:bytes\<close>, and an equals sign that overrides it.\<close>

definition assert_op :: "(string \<Rightarrow> 'a pars) \<Rightarrow> 'a pars" where
  "assert_op c ts =
   (let (op', us) =
      (if at T_IDENT ts \<and> tvalue (peek ts) \<in> set [''le'', ''eq'', ''lte'']
       then (if tvalue (peek ts) = ''lte'' then ''le'' else tvalue (peek ts), adv ts)
       else if at T_EQ ts then (''eq'', adv ts) else (''le'', ts))
    in if at T_EQ us then c ''eq'' (adv us) else c op' us)"

lemma stays_assert_op [staying]: "(\<And>v. stays (c v)) \<Longrightarrow> stays (assert_op c)"
  unfolding stays_def assert_op_def Let_def by (auto split: if_splits) (meson suffix_adv)+

definition p_assert :: "string \<Rightarrow> node pars" where
  "p_assert what =
   (if what = ''bytes'' then expect T_IDENT (\<lambda>nm. assert_op (\<lambda>op'. number (\<lambda>lim.
      give (AssertBytes nm lim op'))))
    else if what = ''size'' then ident_lower (\<lambda>which. maybe T_EQ (number (\<lambda>lim. give
        (AssertSize which lim))))
    else fail ''unknown operation'')"

lemma stays_p_assert [staying]: "stays (p_assert x)"
  unfolding p_assert_def by (intro staying)

definition p_metal :: "string \<Rightarrow> node pars" where
  "p_metal op' = (if op' = ''regs'' then give MetalRegs
     else if op' = ''deterministic'' then give MetalDeterministic else fail ''unknown operation'')"

lemma stays_p_metal [staying]: "stays (p_metal x)"
  unfolding p_metal_def by (intro staying)

text \<open>Raw bytes: numbers and identifiers are hexadecimal unless a number has a base prefix.\<close>

definition hex_number :: "string \<Rightarrow> int res" where
  "hex_number v = (if base_prefix v \<noteq> None then py_int 0 v else py_int 16 v)"

fun hex_words :: "string list \<Rightarrow> bytes res" where
  "hex_words [] = Inr []"
| "hex_words (w # ws) = bindE (py_int 16 w) (\<lambda>v. bindE (hex_words ws) (\<lambda>bs. Inr
    (word_of_int v # bs)))"

definition hex_string :: "string \<Rightarrow> bytes res" where
  "hex_string s = hex_words (py_split (replace_all '','' '' '' s))"

fun raw_block :: "bytes pars" where
  "raw_block [] = Inl (SyntaxErr ''unclosed raw:begin'')"
| "raw_block (t # r) =
    (if tkind t = T_EOF then Inl (SyntaxErr ''unclosed raw:begin'')
     else if tkind t = T_IDENT \<and> py_lower (tvalue t) = ''raw''
     then punct T_COLON (ident_lower (\<lambda>w. if w \<noteq> ''end'' then fail ''expected raw:end'' else
         give [])) r
     else if tkind t = T_NEWLINE \<or> tkind t = T_COMMA then raw_block r
     else bindE (if tkind t = T_STRING then hex_string (tvalue t)
         else if tkind t = T_NUMBER then bindE (hex_number (tvalue t)) (\<lambda>v. Inr [word_of_int v])
         else if tkind t = T_IDENT then bindE (py_int 16 (tvalue t)) (\<lambda>v. Inr [word_of_int v])
         else Inl (SyntaxErr ''bad token in raw:begin''))
       (\<lambda>bs. bindE (raw_block r) (\<lambda>(cs, r'). Inr (bs @ cs, r'))))"

lemma stays_raw_block [staying]: "stays raw_block"
proof (rule staysI)
  have e: "stays (punct T_COLON (ident_lower (\<lambda>w. if w \<noteq> ''end'' then fail
      ''expected raw:end'' else give [])))"
    by (intro staying)
  show "suffix r ts" if "raw_block ts = Inr (bs, r)" for ts bs r
    using that
    by (induction ts arbitrary: bs r)
      (auto simp: bindE_Inr_iff suffix_ConsI split: if_splits dest!: staysD [OF e])
qed

definition p_raw :: "node pars" where
  "p_raw ts =
   (if at_word ''begin'' ts then sub raw_block (\<lambda>bs. give (RawBytes bs)) (skip_nl (adv ts))
    else if at T_STRING ts
    then expect T_STRING (\<lambda>s ts. bindE (hex_string s) (\<lambda>bs. give (RawBytes bs) ts)) ts
    else sub (byte_values hex_number) (\<lambda>bs. give (RawBytes bs)) ts)"

lemma stays_p_raw [staying]: "stays (p_raw)"
  unfolding p_raw_def [abs_def] by (intro staying)

definition p_flag :: "string \<Rightarrow> node pars" where
  "p_flag op' =
   (if op' = ''setcc'' then expect T_IDENT (\<lambda>dest. punct T_EQ (ident_lower (\<lambda>cnd.
      give (ChipStmt (FlagSetcc dest cnd)))))
    else if op' = ''clear'' then give (ChipStmt FlagsClear)
    else if op' = ''set'' then ident_lower (\<lambda>what. if what \<noteq> ''df'' then fail ''only DF''
      else give (ChipStmt FlagsSetDF))
    else fail ''unknown operation'')"

lemma stays_p_flag [staying]: "stays (p_flag x)"
  unfolding p_flag_def by (intro staying)

definition p_mem :: "string \<Rightarrow> node pars" where
  "p_mem op' = (if op' = ''set'' then p_blast ''fill'' else if op' = ''copy'' then p_blast ''copy''
     else fail ''unknown operation'')"

lemma stays_p_mem [staying]: "stays (p_mem x)"
  unfolding p_mem_def by (intro staying)

definition p_str :: "string \<Rightarrow> node pars" where
  "p_str op' = p_wire (if op' = ''print'' then ''emit'' else op')"

lemma stays_p_str [staying]: "stays (p_str x)"
  unfolding p_str_def by (intro staying)

definition p_err :: "string \<Rightarrow> node pars" where
  "p_err op' =
   (if op' = ''check'' then expect T_LABEL (\<lambda>lab. give (RunStmt (TrapNeg lab)))
    else if op' = ''status'' then expect T_IDENT (\<lambda>dest. give (RunStmt (ErrStatus dest)))
    else fail ''unknown operation'')"

lemma stays_p_err [staying]: "stays (p_err x)"
  unfolding p_err_def by (intro staying)

definition p_local :: "node pars" where
  "p_local = expect T_IDENT (\<lambda>nm. punct T_EQ (number (\<lambda>sz. give (LocalDecl nm sz))))"

lemma stays_p_local [staying]: "stays (p_local)"
  unfolding p_local_def [abs_def] by (intro staying)

subsection \<open>Structures\<close>

definition FIELD_SIZES :: "(string \<times> int) list" where
  "FIELD_SIZES = [(''i8'', 1), (''u8'', 1), (''i16'', 2), (''u16'', 2), (''i32'', 4), (''u32'', 4),
     (''i64'', 8), (''u64'', 8), (''ptr'', 8)]"

definition struct_field :: "(string \<times> int) pars" where
  "struct_field = expect T_IDENT (\<lambda>fname. punct T_COLON (\<lambda>ts.
     if at T_IDENT ts then ident_lower (\<lambda>sname. case map_of FIELD_SIZES sname of
         None \<Rightarrow> fail ''unknown field type'' | Some n \<Rightarrow> give (fname, n)) ts
     else if at T_NUMBER ts then number (\<lambda>n. give (fname, n)) ts
     else fail ''expected field size or type'' ts))"

text \<open>Behind \<open>end\<close>: the colon and the word.\<close>

definition end_of :: "string \<Rightarrow> unit pars" where
  "end_of what = punct T_COLON (ident_lower (\<lambda>w. if w \<noteq> what then fail ''wrong end'' else
      give ()))"

lemma stays_end_of [staying]: "stays (end_of what)"
  unfolding end_of_def by (intro staying)

lemma struct_field_consumes: "struct_field ts = Inr (f, r) \<Longrightarrow> length r < length ts"
  unfolding struct_field_def by (erule expect_consumes) (simp, intro staying)

function struct_body :: "(string \<times> int) list pars" where
  "struct_body ts =
    (if at_word ''end'' ts then sub (end_of ''struct'') (\<lambda>_. give []) (adv ts)
     else if at T_EOF ts then Inl (SyntaxErr ''unclosed struct'')
     else bindE (struct_field ts) (\<lambda>(f, r). bindE (struct_body (skip_nl r)) (\<lambda>(fs, r').
       Inr (f # fs, r'))))"
  by pat_completeness auto

termination
  by (relation "measure length") (auto dest!: struct_field_consumes intro: le_less_trans [OF skip_nl_length])

declare struct_body.simps [simp del]

lemma stays_struct_body [staying]: "stays struct_body"
proof (rule staysI)
  have e: "stays (\<lambda>ts. sub (end_of ''struct'') (\<lambda>_. give []) (adv ts))" by (intro staying)
  have f: "stays struct_field" unfolding struct_field_def by (intro staying)
  show "suffix r ts" if "struct_body ts = Inr (fs, r)" for ts fs r
    using that
  proof (induction ts arbitrary: fs r rule: struct_body.induct)
    case (1 ts)
    show ?case
    proof (cases "at_word ''end'' ts \<or> at T_EOF ts")
      case True
      then show ?thesis using 1(2) staysD [OF e] by (auto simp: struct_body.simps [of ts] split: if_splits)
    next
      case False
      then obtain x r' fs' where *: "struct_field ts = Inr (x, r')" "struct_body (skip_nl r') = Inr (fs', r)"
        using 1(2) by (auto simp: struct_body.simps [of ts] bindE_Inr_iff)
      then have "suffix r (skip_nl r')" "suffix r' ts" using 1(1) False staysD [OF f] by blast+
      then show ?thesis by (blast intro: skip_nl_suffix suffix_order.trans)
    qed
  qed
qed

definition p_struct :: "node pars" where
  "p_struct = expect T_IDENT (\<lambda>nm ts. sub struct_body (\<lambda>fs. give (StructDef nm fs))
      (skip_nl ts))"

lemma stays_p_struct [staying]: "stays (p_struct)"
  unfolding p_struct_def [abs_def] by (intro staying)

subsection \<open>\<open>_statement\<close>\<close>

text \<open>Keywords followed by a colon and an operation.\<close>

definition NAMESPACES :: "(string \<times> (string \<Rightarrow> node pars)) list" where
  "NAMESPACES =
    [(''cpu'', p_cpu), (''data'', p_data), (''ram'', p_ram), (''sys'', p_sys), (''stack'', p_stack),
     (''blast'', p_blast), (''wire'', p_wire), (''trap'', p_trap), (''cell'', p_cell), (''gate'', p_gate),
     (''pulse'', p_pulse), (''target'', p_target), (''net'', p_net), (''sig'', p_sig),
     (''thread'', p_thread), (''section'', p_section), (''assert'', p_assert), (''metal'', p_metal),
     (''flag'', p_flag), (''flags'', p_flag), (''chip'', p_chip), (''port'', p_port), (''vec'', p_vec),
     (''mem'', p_mem), (''str'', p_str), (''err'', p_err), (''kernel'', p_kernel)]"

text \<open>Behind a keyword without operation.\<close>

definition p_plain :: "string \<Rightarrow> node pars" where
  "p_plain kw =
   (if kw = ''cmp'' then operand (\<lambda>lft. punct T_COMMA (operand (\<lambda>rgt. give (Cmp lft rgt))))
    else if kw = ''jump_if'' then ident_lower (\<lambda>cnd. expect T_LABEL (\<lambda>lab. give (JumpIf cnd
        lab)))
    else if kw = ''goto'' then expect T_LABEL (\<lambda>lab. give (Goto lab))
    else if kw = ''call'' then expect T_LABEL (\<lambda>lab. sub operands (\<lambda>ars. give (Call lab ars)))
    else if kw = ''ret'' then opt_operand (\<lambda>v. case v of None \<Rightarrow> give Ret | Some _
        \<Rightarrow> give (RetVal v))
    else if kw = ''lock'' then punct T_COLON (give (CpuStmt (PrefixedOp ''lock'')))
    else if kw = ''rep'' then punct T_COLON (give (CpuStmt (PrefixedOp ''rep'')))
    else if kw = ''raw'' then punct T_COLON p_raw
    else if kw = ''include'' then punct T_COLON (expect T_STRING (\<lambda>s. give (Include s)))
    else if kw = ''struct'' then punct T_COLON p_struct
    else if kw = ''local'' then punct T_COLON p_local
    else fail ''unknown statement'')"

lemma stays_p_plain [staying]: "stays (p_plain x)"
  unfolding p_plain_def by (intro staying)

definition simple_statement :: "node pars" where
  "simple_statement ts =
   (if at T_LABEL ts then Inr (Label (tvalue (peek ts)), adv ts)
    else if \<not> at T_IDENT ts then Inl (SyntaxErr ''expected statement'')
    else (let kw = py_lower (tvalue (peek ts)) in
      case map_of NAMESPACES kw of
        Some f \<Rightarrow> punct T_COLON (ident_lower f) (adv ts)
      | None \<Rightarrow> p_plain kw (adv ts)))"

text \<open>Head of a function: its name, then identifiers as long as they come.\<close>

definition fn_head :: "(string \<times> string list) pars" where
  "fn_head = punct T_COLON (expect T_IDENT (\<lambda>nm ts.
     let is_id = (\<lambda>t. tkind t = T_IDENT) in
     Inr ((nm, map tvalue (takeWhile is_id ts)), dropWhile is_id ts)))"

text \<open>A declaration of a local goes into \<open>locals_\<close>, any other statement into the
    body.\<close>

fun add_stmt :: "stmt \<Rightarrow> stmt list \<times> (string \<times> int) list \<Rightarrow> stmt list
    \<times> (string \<times> int) list" where
  "add_stmt (ln, LocalDecl nm sz) (ss, ls) = (ss, (nm, sz) # ls)"
| "add_stmt s (ss, ls) = (s # ss, ls)"

lemma stays_namespace:
  assumes "map_of NAMESPACES kw = Some f"
  shows "stays (f x)"
proof -
  have "list_all (\<lambda>(k, f). \<forall>x. stays (f x)) NAMESPACES"
    unfolding NAMESPACES_def by (simp add: staying)
  with map_of_SomeD [OF assms] show ?thesis by (auto simp: list_all_iff)
qed

lemma simple_statement_suffix:
  assumes "simple_statement ts = Inr (n, r)"
  shows "suffix r (adv ts) \<and> length r < length ts"
proof -
  consider "at T_LABEL ts" "r = adv ts" | f where "at T_IDENT ts" "punct T_COLON (ident_lower f) (adv ts) =
      Inr (n, r)"
      "map_of NAMESPACES (py_lower (tvalue (peek ts))) = Some f"
    | "at T_IDENT ts" "p_plain (py_lower (tvalue (peek ts))) (adv ts) = Inr (n, r)"
    using assms by (auto simp: simple_statement_def Let_def split: if_splits option.splits)
  then show ?thesis
  proof cases
    case 2
    then have "stays (punct T_COLON (ident_lower f))" by (intro staying stays_namespace)
    then have "suffix r (adv ts)" using 2(2) by (rule staysD)
    then show ?thesis using adv_less [OF 2(1)] suffix_length_le [of r "adv ts"] by simp
  next
    case 3
    then have "suffix r (adv ts)" using staysD [OF stays_p_plain 3(2)] by simp
    then show ?thesis using adv_less [OF 3(1)] suffix_length_le [of r "adv ts"] by simp
  qed (use adv_less [of T_LABEL ts] in auto)
qed

lemma stays_fn_head: "stays fn_head"
  unfolding fn_head_def Let_def
  by (intro staying) (auto simp: stays_def suffix_dropWhile)

function statement :: "stmt pars" and fn_body :: "(stmt list \<times> (string \<times> int) list) pars" where
  "statement ts =
   (if at_word ''fn'' ts
    then bindE (fn_head (adv ts)) (\<lambda>(h, r). bindE (fn_body (skip_nl r)) (\<lambda>(b, r').
      Inr ((tline (peek ts), FnDef (fst h) (snd h) (fst b) (snd b)), r')))
    else bindE (simple_statement ts) (\<lambda>(n, r). Inr ((tline (peek ts), n), r)))"
| "fn_body ts =
   (if at_word ''end'' ts then sub (end_of ''fn'') (\<lambda>_. give ([], [])) (adv ts)
    else if at T_EOF ts then Inl (SyntaxErr ''unclosed fn'')
    else bindE (statement ts) (\<lambda>(s, r). bindE (fn_body (skip_nl r)) (\<lambda>(b, r'). Inr
        (add_stmt s b, r'))))"
  by pat_completeness auto

lemma at_word_less: "at_word w ts \<Longrightarrow> length (adv ts) < length ts"
  by (auto simp: at_word_def intro: adv_less)

lemma end_of_suffix:
  "sub (end_of w) (\<lambda>_. give x) (adv ts) = Inr (y, r) \<Longrightarrow> suffix r ts"
proof -
  have "stays (\<lambda>ts. sub (end_of w) (\<lambda>_. give x) (adv ts))" by (intro staying)
  then show "sub (end_of w) (\<lambda>_. give x) (adv ts) = Inr (y, r) \<Longrightarrow> suffix r ts" by
      (rule staysD)
qed

lemma fn_head_skip: "fn_head (adv ts) = Inr (x, r) \<Longrightarrow> suffix (skip_nl r) (adv ts)"
  using staysD [OF stays_fn_head] skip_nl_suffix suffix_order.trans by blast

lemma statement_consumes_dom:
  "statement_fn_body_dom (Inl ts) \<Longrightarrow> statement ts = Inr (s, r) \<Longrightarrow> length r <
      length ts"
  "statement_fn_body_dom (Inr ts) \<Longrightarrow> fn_body ts = Inr (b, r) \<Longrightarrow> length r
      \<le> length ts"
proof (induction ts and ts arbitrary: s r and b r rule: statement_fn_body.pinduct)
  case (1 ts)
  show ?case
  proof (cases "at_word ''fn'' ts")
    case True
    then obtain h r1 b where *: "fn_head (adv ts) = Inr (h, r1)" "fn_body (skip_nl r1) = Inr (b, r)"
      using 1(1,3) by (auto simp: statement.psimps bindE_Inr_iff)
    then have "length r \<le> length (skip_nl r1)" using 1(2) True by (cases h) auto
    moreover have "length (skip_nl r1) \<le> length (adv ts)"
      using fn_head_skip [OF *(1)] by (rule suffix_length_le)
    ultimately show ?thesis using at_word_less [OF True] by simp
  next
    case False
    then show ?thesis using 1(1,3) by (auto simp: statement.psimps bindE_Inr_iff dest:
        simple_statement_suffix)
  qed
next
  case (2 ts)
  show ?case
  proof (cases "at_word ''end'' ts \<or> at T_EOF ts")
    case True
    then show ?thesis
      using 2(1,4) by (auto simp: fn_body.psimps dest!: end_of_suffix suffix_length_le split: if_splits)
  next
    case False
    then obtain s r1 b' where *: "statement ts = Inr (s, r1)" "fn_body (skip_nl r1) = Inr (b', r)"
      using 2(1,4) by (auto simp: fn_body.psimps bindE_Inr_iff)
    then have "length r1 < length ts" "length r \<le> length (skip_nl r1)" using 2(2,3) False by auto
    then show ?thesis using skip_nl_length [of r1] by simp
  qed
qed

termination statement
  by (relation "measure (\<lambda>x. case x of Inl ts \<Rightarrow> 2 * length ts | Inr ts \<Rightarrow> 2
      * length ts + 1)")
    (auto dest!: statement_consumes_dom(1) [THEN le_less_trans [OF skip_nl_length]]
      fn_head_skip [THEN suffix_length_le] at_word_less)

declare statement.simps [simp del] fn_body.simps [simp del]

lemma statement_suffix:
  "statement ts = Inr (s, r) \<Longrightarrow> suffix r (adv ts) \<and> length r < length ts"
  "fn_body ts = Inr (b, r) \<Longrightarrow> suffix r ts"
proof (induction ts and ts arbitrary: s r and b r rule: statement_fn_body.induct)
  case (1 ts)
  show ?case
  proof (cases "at_word ''fn'' ts")
    case True
    then obtain h r1 b where *: "fn_head (adv ts) = Inr (h, r1)" "fn_body (skip_nl r1) = Inr (b, r)"
      using 1(2) by (auto simp: statement.simps [of ts] bindE_Inr_iff)
    then have "suffix r (skip_nl r1)" using 1(1) True by auto
    then have "suffix r (adv ts)" using fn_head_skip [OF *(1)] by (rule suffix_order.trans)
    then show ?thesis using at_word_less [OF True] suffix_length_le [of r "adv ts"] by simp
  next
    case False
    then show ?thesis using 1(2) by (auto simp: statement.simps [of ts] bindE_Inr_iff dest:
        simple_statement_suffix)
  qed
next
  case (2 ts)
  show ?case
  proof (cases "at_word ''end'' ts \<or> at T_EOF ts")
    case True
    then show ?thesis using 2(3) by (auto simp: fn_body.simps [of ts] dest!: end_of_suffix split: if_splits)
  next
    case False
    then obtain s r1 b' where *: "statement ts = Inr (s, r1)" "fn_body (skip_nl r1) = Inr (b', r)"
      using 2(3) by (auto simp: fn_body.simps [of ts] bindE_Inr_iff)
    then have "suffix r1 (adv ts)" "suffix r (skip_nl r1)" using 2(1,2) False by auto
    then show ?thesis by (meson suffix_adv skip_nl_suffix suffix_order.trans)
  qed
qed

subsection \<open>\<open>parse\<close>\<close>

definition skip_line :: "tok list \<Rightarrow> tok list" where
  "skip_line ts = dropWhile (\<lambda>t. tkind t \<noteq> T_NEWLINE \<and> tkind t \<noteq> T_EOF) ts"

lemma skip_line_less: "at_word w ts \<Longrightarrow> length (skip_line ts) < length ts"
  by (cases ts) (auto simp: at_word_def at_def peek_def skip_line_def dropWhile_length less_Suc_eq_le)

text \<open>A line that starts with \<open>mode\<close> or \<open>@mode\<close> is skipped.\<close>

function parse :: "tok list \<Rightarrow> program res" where
  "parse ts =
   (let us = skip_nl ts in
    if at T_EOF us then Inr []
    else if at_word ''mode'' us \<or> at_word ''@mode'' us then parse (skip_line us)
    else bindE (statement us) (\<lambda>(s, r). bindE (parse r) (\<lambda>ss. Inr (s # ss))))"
  by pat_completeness auto

termination
  by (relation "measure length")
    (auto dest!: statement_suffix(1) skip_line_less intro: less_le_trans [OF _ skip_nl_length])

declare parse.simps [simp del]

end
