(* ===== verification/Concrete_Syntax.thy ===== *)
theory Concrete_Syntax
  imports Parser
begin

section \<open>Writing programs down and reading them back\<close>

text \<open>
  The abstract side of the parser: the tokens of an expression, of a statement and of a program
  (\<open>expr_toks\<close>, \<open>node_toks\<close>, \<open>program_toks\<close>), and the
  theorem that the parser reads them back. \<open>Layout\<close> goes on to the texts of a token
  list and the lexer.
\<close>

subsection \<open>Steps on a known token\<close>

lemma peek_Cons [simp]: "peek (t # ts) = t"
  and adv_Cons [simp]: "tkind t \<noteq> T_EOF \<Longrightarrow> adv (t # ts) = ts"
  and at_Cons [simp]: "at k (t # ts) \<longleftrightarrow> tkind t = k"
  by (simp_all add: peek_def adv_def at_def)

lemma at_end_Cons [simp]: "at_end (t # ts) \<longleftrightarrow> tkind t = T_NEWLINE \<or> tkind t = T_EOF"
  by (simp add: at_end_def)

lemma expect_Tok [simp]: "k \<noteq> T_EOF \<Longrightarrow> expect k c (Tok k v l # ts) = c v ts"
  by (simp add: expect_def)

lemma punct_Tok [simp]: "k \<noteq> T_EOF \<Longrightarrow> punct k c (Tok k v l # ts) = c ts"
  by (simp add: punct_def)

lemma ident_lower_Tok [simp]: "ident_lower c (Tok T_IDENT v l # ts) = c (py_lower v) ts"
  by (simp add: ident_lower_def)

lemma number_Tok [simp]: "number c (Tok T_NUMBER (show_int n) l # ts) = c n ts"
  by (simp add: number_def)

lemma give_app [simp]: "give x ts = Inr (x, ts)"
  by (simp add: give_def)

subsection \<open>Expressions\<close>

text \<open>An expression with the parentheses its place needs: \<open>p\<close> is 0 for a sum, 1 for a product, 2 for
  a primary.\<close>

definition op_kind :: "string \<Rightarrow> tkind" where
  "op_kind opn = (if opn = ''+'' then T_PLUS else if opn = ''-'' then T_MINUS else T_STAR)"

definition enclosed :: "int \<Rightarrow> bool \<Rightarrow> tok list \<Rightarrow> tok list" where
  "enclosed ln b ts = (if b then Tok T_LPAREN ''('' ln # ts @ [Tok T_RPAREN '')'' ln] else ts)"

fun expr_toks :: "int \<Rightarrow> nat \<Rightarrow> expr \<Rightarrow> tok list" where
  "expr_toks ln p (Number n) = [Tok T_NUMBER (show_int n) ln]"
| "expr_toks ln p (Str s) = [Tok T_STRING s ln]"
| "expr_toks ln p (Reg r) = [Tok T_IDENT r ln]"
| "expr_toks ln p (Ident n) = [Tok T_IDENT n ln]"
| "expr_toks ln p (StructFieldRef s f) = [Tok T_IDENT s ln, Tok T_DOT ''.'' ln, Tok T_IDENT f ln]"
| "expr_toks ln p (BinExpr opn a b) =
    (if opn = ''*''
     then enclosed ln (p = 2) (expr_toks ln 1 a @ Tok T_STAR opn ln # expr_toks ln 2 b)
     else enclosed ln (p > 0) (expr_toks ln 0 a @ Tok (op_kind opn) opn ln # expr_toks ln 1 b))"

text \<open>Expressions the grammar has: a name is a register where the register table says so.\<close>

fun expr_wf :: "expr \<Rightarrow> bool" where
  "expr_wf (Reg r) \<longleftrightarrow> is_reg_name r"
| "expr_wf (Ident n) \<longleftrightarrow> \<not> is_reg_name n"
| "expr_wf (StructFieldRef s f) \<longleftrightarrow> \<not> is_reg_name s"
| "expr_wf (BinExpr opn a b) \<longleftrightarrow> opn \<in> set [''+'', ''-'', ''*''] \<and> expr_wf a \<and> expr_wf b"
| "expr_wf _ \<longleftrightarrow> True"

lemma mul_of_primary:
  "primary ts = Inr (e, r) \<Longrightarrow> expr_mul ts = mul_loop e r"
  by (simp add: expr_mul.simps [of ts])

lemma add_of_mul:
  "expr_mul ts = Inr (e, r) \<Longrightarrow> expr_add ts = add_loop e r"
  by (simp add: expr_add.simps [of ts])

lemma mul_loop_stop: "\<not> at T_STAR r \<Longrightarrow> mul_loop e r = Inr (e, r)"
  by (simp add: mul_loop.simps [of e r])

lemma add_loop_stop: "\<not> at T_PLUS r \<Longrightarrow> \<not> at T_MINUS r \<Longrightarrow> add_loop e r = Inr (e, r)"
  by (simp add: add_loop.simps [of e r])

text \<open>The three methods at the three levels.\<close>

definition reads :: "expr \<Rightarrow> int \<Rightarrow> bool" where
  "reads e ln \<longleftrightarrow> (\<forall>r. \<not> at T_DOT r \<longrightarrow>
     primary (expr_toks ln 2 e @ r) = Inr (e, r) \<and>
     expr_mul (expr_toks ln 1 e @ r) = mul_loop e r \<and>
     (\<not> at T_STAR r \<longrightarrow> expr_add (expr_toks ln 0 e @ r) = add_loop e r))"

lemma reads_leaf:
  assumes "\<And>p. expr_toks ln p e = expr_toks ln 0 e"
    and "\<And>r. \<not> at T_DOT r \<Longrightarrow> primary (expr_toks ln 0 e @ r) = Inr (e, r)"
  shows "reads e ln"
  unfolding reads_def assms(1) [of 2] assms(1) [of 1]
  using assms(2) mul_of_primary add_of_mul mul_loop_stop by metis

lemma primary_paren:
  assumes "expr_add (ts @ Tok T_RPAREN '')'' ln # r) = Inr (e, Tok T_RPAREN '')'' ln # r)"
  shows "primary (enclosed ln True ts @ r) = Inr (e, r)"
  using assms by (simp add: primary.simps enclosed_def)

lemma expr_reads: "expr_wf e \<Longrightarrow> reads e ln"
proof (induction e)
  case (BinExpr opn a b)
  then have a: "reads a ln" and b: "reads b ln" and o': "opn \<in> set [''+'', ''-'', ''*'']" by simp_all
  let ?sum = "expr_toks ln 0 a @ Tok (op_kind opn) opn ln # expr_toks ln 1 b"
  let ?prod = "expr_toks ln 1 a @ Tok T_STAR opn ln # expr_toks ln 2 b"
  show ?case
  proof (cases "opn = ''*''")
    case True
    have m: "expr_mul (?prod @ r) = mul_loop (BinExpr opn a b) r" if "\<not> at T_DOT r" for r
      using a b that True by (simp add: reads_def mul_loop.simps [of a])
    have "expr_add (?prod @ r) = add_loop (BinExpr opn a b) r" if "\<not> at T_DOT r" "\<not> at T_STAR r" for r
      using m [OF that(1)] mul_loop_stop [OF that(2)] by (intro add_of_mul) simp
    then have "primary (enclosed ln True ?prod @ r) = Inr (BinExpr opn a b, r)" for r
      by (intro primary_paren) (simp add: add_loop_stop)
    then show ?thesis using m True by (auto simp: reads_def enclosed_def mul_loop_stop intro!: add_of_mul)
  next
    case False
    then have k: "op_kind opn = T_PLUS \<and> opn = ''+'' \<or> op_kind opn = T_MINUS \<and> opn = ''-''"
      using o' by (auto simp: op_kind_def)
    have s: "expr_add (?sum @ r) = add_loop (BinExpr opn a b) r" if "\<not> at T_DOT r" "\<not> at T_STAR r" for r
      using a b that k mul_loop_stop [OF that(2)] by (auto simp: reads_def add_loop.simps [of a])
    then have p: "primary (enclosed ln True ?sum @ r) = Inr (BinExpr opn a b, r)" for r
      by (intro primary_paren) (simp add: add_loop_stop)
    then have "expr_mul (enclosed ln True ?sum @ r) = mul_loop (BinExpr opn a b) r" for r
      by (rule mul_of_primary)
    then show ?thesis using s p False by (simp add: reads_def enclosed_def)
  qed
qed (intro reads_leaf; simp add: primary.simps)+

definition ends :: "tok list \<Rightarrow> bool" where
  "ends r \<longleftrightarrow> tkind (peek r) \<notin> set [T_PLUS, T_MINUS, T_STAR, T_DOT]"

lemma expr_add_reads: "expr_wf e \<Longrightarrow> ends r \<Longrightarrow> expr_add (expr_toks ln 0 e @ r) = Inr (e, r)"
  using expr_reads [of e ln] by (auto simp: reads_def ends_def at_def add_loop_stop)

lemma operand_reads [simp]: "expr_wf e \<Longrightarrow> ends r \<Longrightarrow> operand c (expr_toks ln 0 e @ r) = c e r"
  by (simp add: operand_def sub_def expr_add_reads)

lemma primary_reads: "expr_wf e \<Longrightarrow> \<not> at T_DOT r \<Longrightarrow> primary (expr_toks ln 2 e @ r) = Inr (e, r)"
  using expr_reads [of e ln] by (simp add: reads_def)

lemma ends_Cons [simp]: "ends (t # r) \<longleftrightarrow> tkind t \<notin> set [T_PLUS, T_MINUS, T_STAR, T_DOT]"
  by (simp add: ends_def)

lemma expr_toks_start: "\<exists>t ts. expr_toks ln p e = t # ts \<and> tkind t \<in> set [T_NUMBER, T_STRING, T_IDENT, T_LPAREN]"
proof (induction e arbitrary: p)
  case (BinExpr opn a b)
  obtain t ts where "expr_toks ln (if opn = ''*'' then 1 else 0) a = t # ts"
    "tkind t \<in> set [T_NUMBER, T_STRING, T_IDENT, T_LPAREN]" using BinExpr.IH(1) by blast
  then show ?case by (cases "opn = ''*''") (auto simp: enclosed_def)
qed auto

text \<open>Operands with commas between them, to the end of the line.\<close>

fun args_toks :: "int \<Rightarrow> expr list \<Rightarrow> tok list" where
  "args_toks ln [] = []"
| "args_toks ln [e] = expr_toks ln 0 e"
| "args_toks ln (e # f # es) = expr_toks ln 0 e @ Tok T_COMMA '','' ln # args_toks ln (f # es)"

lemma operands_reads [simp]:
  "list_all expr_wf es \<Longrightarrow> at_end r \<Longrightarrow> operands (args_toks ln es @ r) = Inr (es, r)"
proof (induction ln es rule: args_toks.induct)
  case (1 ln)
  then show ?case by (simp add: operands.simps [of r])
next
  case (2 ln e)
  obtain t ts where t: "expr_toks ln 0 e = t # ts" "tkind t \<in> set [T_NUMBER, T_STRING, T_IDENT, T_LPAREN]"
    using expr_toks_start by blast
  have "ends r" using 2 by (auto simp: ends_def at_end_def at_def)
  then have "expr_add (t # ts @ r) = Inr (e, r)" using 2(1) expr_add_reads [of e r ln] t(1) by simp
  then show ?case
    using t 2 by (auto simp: operands.simps [of "t # ts @ r"] operands.simps [of r])
next
  case (3 ln e f es)
  let ?r = "Tok T_COMMA '','' ln # args_toks ln (f # es) @ r"
  obtain t ts where t: "expr_toks ln 0 e = t # ts" "tkind t \<in> set [T_NUMBER, T_STRING, T_IDENT, T_LPAREN]"
    using expr_toks_start by blast
  have "expr_add (t # ts @ ?r) = Inr (e, ?r)" using 3(2) expr_add_reads [of e ?r ln] t(1) by simp
  then show ?case
    using t 3 by (auto simp: operands.simps [of "t # ts @ ?r"] operands.simps [of ?r])
qed

subsection \<open>Statements\<close>

text \<open>The statements the printer covers: labels, jumps, arithmetic, data, memory, calls, the stack.\<close>

definition keyword :: "int \<Rightarrow> string \<Rightarrow> string \<Rightarrow> tok list" where
  "keyword ln kw op' = [Tok T_IDENT kw ln, Tok T_COLON '':'' ln, Tok T_IDENT op' ln]"

definition eq_tok :: "int \<Rightarrow> tok" where
  "eq_tok ln = Tok T_EQ ''='' ln"

fun bytes_toks :: "int \<Rightarrow> bytes \<Rightarrow> tok list" where
  "bytes_toks ln [] = []"
| "bytes_toks ln [b] = [Tok T_NUMBER (show_int (uint b)) ln]"
| "bytes_toks ln (b # c # bs) =
    Tok T_NUMBER (show_int (uint b)) ln # Tok T_COMMA '','' ln # bytes_toks ln (c # bs)"

definition offset_toks :: "int \<Rightarrow> int \<Rightarrow> tok list" where
  "offset_toks ln v = (if v = 0 then [] else [Tok T_PLUS ''+'' ln, Tok T_NUMBER (show_int v) ln])"

fun index_toks :: "int \<Rightarrow> expr option \<Rightarrow> int \<Rightarrow> tok list" where
  "index_toks ln (Some (Reg i)) sc =
    [Tok T_PLUS ''+'' ln, Tok T_IDENT i ln, Tok T_STAR ''*'' ln, Tok T_NUMBER (show_int sc) ln]"
| "index_toks ln _ sc = []"

text \<open>\<open>[base + offset + index * scale]\<close>: the offset before the index.\<close>

definition addr_toks :: "int \<Rightarrow> expr \<Rightarrow> int \<Rightarrow> expr option \<Rightarrow> int \<Rightarrow> tok list" where
  "addr_toks ln b v ix sc = Tok T_LBRACK ''['' ln # expr_toks ln 2 b @ offset_toks ln v @
     index_toks ln ix sc @ [Tok T_RBRACK '']'' ln]"

fun index_wf :: "expr option \<Rightarrow> int \<Rightarrow> bool" where
  "index_wf None sc \<longleftrightarrow> sc = 1"
| "index_wf (Some (Reg i)) sc \<longleftrightarrow> is_reg_name i \<and> sc \<in> set [1, 2, 4, 8]"
| "index_wf _ sc \<longleftrightarrow> False"

fun node_toks :: "int \<Rightarrow> node \<Rightarrow> tok list" where
  "node_toks ln (Label l) = [Tok T_LABEL l ln]"
| "node_toks ln (CpuBin op' d e) = keyword ln ''cpu'' op' @ Tok T_IDENT d ln # eq_tok ln # expr_toks ln 0 e"
| "node_toks ln (CpuUnary op' d) = keyword ln ''cpu'' op' @ [Tok T_IDENT d ln]"
| "node_toks ln (Cmp a b) = Tok T_IDENT ''cmp'' ln # expr_toks ln 0 a @ Tok T_COMMA '','' ln # expr_toks ln 0 b"
| "node_toks ln (JumpIf c l) = [Tok T_IDENT ''jump_if'' ln, Tok T_IDENT c ln, Tok T_LABEL l ln]"
| "node_toks ln (Goto l) = [Tok T_IDENT ''goto'' ln, Tok T_LABEL l ln]"
| "node_toks ln (Call l es) = Tok T_IDENT ''call'' ln # Tok T_LABEL l ln # args_toks ln es"
| "node_toks ln Ret = [Tok T_IDENT ''ret'' ln]"
| "node_toks ln (RetVal (Some e)) = Tok T_IDENT ''ret'' ln # expr_toks ln 0 e"
| "node_toks ln (SysCall (SysName n) es) = keyword ln ''sys'' ''call'' @ Tok T_IDENT n ln # args_toks ln es"
| "node_toks ln (SysCall (SysNum n) es) =
    keyword ln ''sys'' ''call'' @ Tok T_NUMBER (show_int n) ln # args_toks ln es"
| "node_toks ln (StackPush e) = keyword ln ''stack'' ''push'' @ expr_toks ln 0 e"
| "node_toks ln (StackPop d) = keyword ln ''stack'' ''pop'' @ [Tok T_IDENT d ln]"
| "node_toks ln (DataConst n (Str s)) =
    keyword ln ''data'' ''const'' @ [Tok T_IDENT n ln, eq_tok ln, Tok T_STRING s ln]"
| "node_toks ln (DataConst n (Number v)) =
    keyword ln ''data'' ''const'' @ [Tok T_IDENT n ln, eq_tok ln, Tok T_NUMBER (show_int v) ln]"
| "node_toks ln (DataAlloc n (SizeNum v)) =
    keyword ln ''data'' ''alloc'' @ [Tok T_IDENT n ln, eq_tok ln, Tok T_NUMBER (show_int v) ln]"
| "node_toks ln (DataAlloc n (SizeOf s)) =
    keyword ln ''data'' ''alloc'' @ [Tok T_IDENT n ln, eq_tok ln, Tok T_IDENT s ln]"
| "node_toks ln (DataBytes n bs) =
    keyword ln ''data'' ''bytes'' @ Tok T_IDENT n ln # eq_tok ln # bytes_toks ln bs"
| "node_toks ln (DataAlign v) = keyword ln ''data'' ''align'' @ [Tok T_NUMBER (show_int v) ln]"
| "node_toks ln (LocalDecl n v) =
    keyword ln ''local'' n @ [eq_tok ln, Tok T_NUMBER (show_int v) ln]"
| "node_toks ln (MemLoad d b (Number v) sz ix sc) =
    keyword ln ''ram'' (''read'' @ show_int sz) @ Tok T_IDENT d ln # eq_tok ln # addr_toks ln b v ix sc"
| "node_toks ln (MemStore b (Number v) e sz ix sc) =
    keyword ln ''ram'' (''write'' @ show_int sz) @ addr_toks ln b v ix sc @ eq_tok ln # expr_toks ln 0 e"
| "node_toks ln _ = []"

fun node_wf :: "node \<Rightarrow> bool" where
  "node_wf (CpuBin op' d e) \<longleftrightarrow> op' \<in> set BINARY \<and> expr_wf e"
| "node_wf (CpuUnary op' d) \<longleftrightarrow> op' \<in> set UNARY"
| "node_wf (Cmp a b) \<longleftrightarrow> expr_wf a \<and> expr_wf b"
| "node_wf (JumpIf c l) \<longleftrightarrow> py_lower c = c"
| "node_wf (Call l es) \<longleftrightarrow> list_all expr_wf es"
| "node_wf (RetVal (Some e)) \<longleftrightarrow> expr_wf e"
| "node_wf (SysCall n es) \<longleftrightarrow> list_all expr_wf es"
| "node_wf (StackPush e) \<longleftrightarrow> expr_wf e"
| "node_wf (DataConst n (Str s)) \<longleftrightarrow> True"
| "node_wf (DataConst n (Number v)) \<longleftrightarrow> True"
| "node_wf (DataBytes n bs) \<longleftrightarrow> bs \<noteq> []"
| "node_wf (DataAlign v) \<longleftrightarrow> 1 \<le> v \<and> v AND (v - 1) = 0"
| "node_wf (MemLoad d b (Number v) sz ix sc) \<longleftrightarrow> expr_wf b \<and> sz \<in> set [8, 16, 32, 64] \<and> index_wf ix sc"
| "node_wf (MemStore b (Number v) e sz ix sc) \<longleftrightarrow>
    expr_wf b \<and> expr_wf e \<and> sz \<in> set [8, 16, 32, 64] \<and> index_wf ix sc"
| "node_wf n \<longleftrightarrow> (case n of Label l \<Rightarrow> True | Goto l \<Rightarrow> True | Ret \<Rightarrow> True | StackPop d \<Rightarrow> True
    | DataAlloc m s \<Rightarrow> True | LocalDecl m v \<Rightarrow> True | _ \<Rightarrow> False)"

lemma at_end_ends [simp]: "at_end r \<Longrightarrow> ends r"
  by (auto simp: ends_def at_end_def at_def)

lemma at_end_not_at: "at_end r \<Longrightarrow> k \<notin> set [T_NEWLINE, T_EOF] \<Longrightarrow> \<not> at k r"
  by (auto simp: at_end_def at_def)

lemma namespaces:
  "map_of NAMESPACES ''cpu'' = Some p_cpu" "map_of NAMESPACES ''data'' = Some p_data"
  "map_of NAMESPACES ''ram'' = Some p_ram" "map_of NAMESPACES ''sys'' = Some p_sys"
  "map_of NAMESPACES ''stack'' = Some p_stack"
  "list_all (\<lambda>kw. map_of NAMESPACES kw = None) [''cmp'', ''jump_if'', ''goto'', ''call'', ''ret'', ''local'']"
  by (simp_all add: NAMESPACES_def)

lemma keywords_lower:
  "list_all (\<lambda>kw. py_lower kw = kw) ([''cpu'', ''data'', ''ram'', ''sys'', ''stack'', ''cmp'', ''jump_if'', ''goto'',
     ''call'', ''ret'', ''local'', ''const'', ''alloc'', ''bytes'', ''align'', ''push'', ''pop'', ''read8'', ''read16'',
     ''read32'', ''read64'', ''write8'', ''write16'', ''write32'', ''write64'', ''fn'', ''end''] @ BINARY @ UNARY)"
  by code_simp

lemma namespace_reads:
  "map_of NAMESPACES kw = Some f \<Longrightarrow> py_lower kw = kw \<Longrightarrow> py_lower op' = op' \<Longrightarrow>
   simple_statement (keyword ln kw op' @ ts) = f op' ts"
  by (simp add: simple_statement_def keyword_def Let_def)

lemma plain_reads:
  "map_of NAMESPACES kw = None \<Longrightarrow> py_lower kw = kw \<Longrightarrow>
   simple_statement (Tok T_IDENT kw ln # ts) = p_plain kw ts"
  by (simp add: simple_statement_def Let_def)

text \<open>The operations of \<open>cpu:\<close> before the unary and binary ones.\<close>

definition cpu_words :: "string list" where
  "cpu_words =
    [''movsxd'', ''imul3'', ''ldmxcsr'', ''stmxcsr'', ''fxsave'', ''fxrstor'', ''xgetbv'',
     ''rdfsbase'', ''rdgsbase'', ''wrfsbase'', ''wrgsbase'', ''sldt'', ''str'', ''smsw'',
     ''swapgs'', ''rdmsr'', ''wrmsr'', ''rdpmc'', ''clts'', ''wbinvd'', ''sysret'',
     ''sysenter'', ''sysexit'', ''movzx'', ''movsx'', ''btimm'', ''btsimm'', ''btrimm'',
     ''btcimm'', ''shldimm'', ''shrdimm'', ''nopl'', ''enter'', ''pext'', ''pdep'', ''mulx'',
     ''cmpxchg'', ''prefetch'', ''clflush'', ''cbw'', ''cwde'', ''cwd'', ''shlx'', ''shrx'',
     ''sarx'', ''rorx'', ''bextr'', ''blsi'', ''blsr'', ''blsmsk'', ''adcx'', ''adox'',
     ''crc32'', ''rdrand'', ''rdseed'', ''adc'', ''sbb'', ''bswap'', ''clc'', ''stc'', ''cmc'',
     ''cld'', ''std'', ''pause'', ''cqo'', ''cdq'', ''leave'', ''cdqe'', ''pushfq'', ''popfq'',
     ''rdtscp'', ''lfence'', ''sfence'', ''mfence'', ''endbr64'', ''mulu'', ''divu'', ''mulu'',
     ''testimm'', ''bts'', ''btr'', ''btc'', ''popcnt'', ''lzcnt'', ''tzcnt'', ''shld'',
     ''shrd'', ''imulimm'', ''andn'', ''bzhi'', ''cmpxchg16b'', ''cmovmem'', ''xchg'',
     ''xadd'', ''bsf'', ''bsr'', ''bt'', ''cmov'', ''lea'', ''test'', ''movzx'', ''movsx'']"

lemma cpu_words:
  assumes "op' \<notin> set cpu_words"
  shows "p_cpu op' =
    (if op' \<in> set UNARY then expect T_IDENT (\<lambda>dest. give (CpuUnary op' dest))
     else if op' \<notin> set BINARY then fail ''unknown operation''
     else expect T_IDENT (\<lambda>dest. punct T_EQ (operand (\<lambda>val. give (CpuBin op' dest val)))))"
proof -
  have n: "list_all (\<lambda>w. op' \<noteq> w) cpu_words" using assms by (auto simp: list_all_iff)
  note n = n [unfolded cpu_words_def list.pred_inject]
  have "p_cpu op' = p_cpu_2 op'" unfolding p_cpu_def by (simp only: n list.set insert_iff empty_iff if_False de_Morgan_disj simp_thms)
  moreover have "p_cpu_2 op' = p_cpu_3 op'" unfolding p_cpu_2_def by (simp only: n list.set insert_iff empty_iff if_False simp_thms)
  ultimately show ?thesis unfolding p_cpu_3_def by (simp only: n list.set insert_iff empty_iff if_False simp_thms)
qed

lemma ops_no_words:
  "list_all (\<lambda>op'. op' \<notin> set cpu_words \<and> op' \<notin> set UNARY) BINARY" "list_all (\<lambda>op'. op' \<notin> set cpu_words) UNARY"
  by code_simp+

lemma binary_op:
  "op' \<in> set BINARY \<Longrightarrow> p_cpu op' = expect T_IDENT (\<lambda>dest. punct T_EQ (operand (\<lambda>val. give (CpuBin op' dest val))))"
  using ops_no_words(1) by (simp add: cpu_words list_all_iff)

lemma unary_op: "op' \<in> set UNARY \<Longrightarrow> p_cpu op' = expect T_IDENT (\<lambda>dest. give (CpuUnary op' dest))"
  using ops_no_words(2) by (simp add: cpu_words list_all_iff)

lemma offset_reads:
  "mem_terms (Number 0, None, 1) (offset_toks ln v @ r) = mem_terms (Number v, None, 1) r"
  by (simp add: offset_toks_def mem_terms.simps [of "(Number 0, None, 1)"] mem_term_def add_int_def)

lemma index_reads:
  assumes "index_wf ix sc" and "\<not> at T_PLUS r" and "ends r"
  shows "mem_terms (Number v, None, 1) (index_toks ln ix sc @ r) = Inr ((Number v, ix, sc), r)"
proof (cases ix)
  case None
  then show ?thesis using assms by (simp add: mem_terms.simps)
next
  case (Some e)
  then obtain i where e: "e = Reg i" "is_reg_name i" "sc \<in> set [1, 2, 4, 8]"
    using assms(1) by (cases e) simp_all
  let ?e = "BinExpr ''*'' (Reg i) (Number sc)"
  have "expr_add (expr_toks ln 0 ?e @ r) = Inr (?e, r)"
    using e assms(3) by (intro expr_add_reads) simp_all
  then have m: "mem_term (Number v, None, 1)
      (Tok T_IDENT i ln # Tok T_STAR ''*'' ln # Tok T_NUMBER (show_int sc) ln # r) = Inr ((Number v, Some (Reg i), sc), r)"
    using e by (simp add: mem_term_def operand_def sub_def enclosed_def check_scale_def)
  then show ?thesis
    using Some e assms(2) by (simp add: mem_terms.simps [of "(Number v, None, 1)"] mem_terms.simps [of _ r])
qed

lemma addr_reads [simp]:
  assumes "expr_wf b" and "index_wf ix sc"
  shows "mem_addr c (addr_toks ln b v ix sc @ r) = c b (Number v) ix sc r"
proof -
  let ?t = "Tok T_RBRACK '']'' ln # r" and ?i = "index_toks ln ix sc"
  have i: "?i = [] \<or> (\<exists>us. ?i = Tok T_PLUS ''+'' ln # us)"
    by (cases "(ln, ix, sc)" rule: index_toks.cases) auto
  have "\<not> at T_DOT (offset_toks ln v @ ?i @ ?t)"
    using i by (auto simp: offset_toks_def)
  then have "primary (expr_toks ln 2 b @ offset_toks ln v @ ?i @ ?t) = Inr (b, offset_toks ln v @ ?i @ ?t)"
    by (rule primary_reads [OF assms(1)])
  moreover have "mem_terms (Number v, None, 1) (?i @ ?t) = Inr ((Number v, ix, sc), ?t)"
    by (rule index_reads [OF assms(2)]) simp_all
  ultimately show ?thesis by (simp add: mem_addr_def addr_toks_def sub_def offset_reads)
qed

lemma bytes_reads:
  "bs \<noteq> [] \<Longrightarrow> at_end r \<Longrightarrow> byte_values (py_int 0) (bytes_toks ln bs @ r) = Inr (bs, r)"
proof (induction ln bs rule: bytes_toks.induct)
  case (2 ln b)
  then have "byte_values (py_int 0) r = Inr ([], r)"
    by (cases r) (auto simp: at_end_def at_def)
  then show ?case by simp
qed simp_all

lemma sizes_shown:
  "show_int 8 = ''8''" "show_int 16 = ''16''" "show_int 32 = ''32''" "show_int 64 = ''64''"
  by code_simp+

lemma ram_words:
  assumes "sz \<in> set [8, 16, 32, 64]"
  shows "p_ram (''read'' @ show_int sz) =
      expect T_IDENT (\<lambda>dest. punct T_EQ (mem_addr (\<lambda>bas off ix sc. give (MemLoad dest bas off sz ix sc))))"
    "p_ram (''write'' @ show_int sz) =
      mem_addr (\<lambda>bas off ix sc. punct T_EQ (operand (\<lambda>v. give (MemStore bas off v sz ix sc))))"
    "py_lower (''read'' @ show_int sz) = ''read'' @ show_int sz"
    "py_lower (''write'' @ show_int sz) = ''write'' @ show_int sz"
  using assms keywords_lower by (auto simp: sizes_shown p_ram_def ram_size_def starts_with_def)

lemma node_reads:
  assumes "node_wf n" and "at_end r"
  shows "simple_statement (node_toks ln n @ r) = Inr (n, r)"
proof -
  note lower = keywords_lower [unfolded list_all_append list.pred_inject, THEN conjunct1]
  have ops: "list_all (\<lambda>o'. py_lower o' = o') BINARY" "list_all (\<lambda>o'. py_lower o' = o') UNARY"
    using keywords_lower by simp_all
  note nr = namespace_reads [OF namespaces(1)] namespace_reads [OF namespaces(2)]
    namespace_reads [OF namespaces(3)] namespace_reads [OF namespaces(4)] namespace_reads [OF namespaces(5)]
  show ?thesis
  proof (cases "(ln, n)" rule: node_toks.cases)
    case (1 ln l)
    then show ?thesis by (simp add: simple_statement_def)
  next
    case (2 ln op' d e)
    then have "py_lower op' = op'" using assms ops by (simp add: list_all_iff)
    then show ?thesis using 2 assms lower by (simp add: nr binary_op eq_tok_def)
  next
    case (3 ln op' d)
    then have "py_lower op' = op'" using assms ops by (simp add: list_all_iff)
    then show ?thesis using 3 assms lower by (simp add: nr unary_op)
  next
    case (4 ln a b)
    then show ?thesis using assms lower namespaces(6) by (simp add: plain_reads p_plain_def)
  next
    case (5 ln c l)
    then show ?thesis using assms lower namespaces(6) by (simp add: plain_reads p_plain_def)
  next
    case (6 ln l)
    then show ?thesis using assms lower namespaces(6) by (simp add: plain_reads p_plain_def)
  next
    case (7 ln l es)
    then show ?thesis using assms lower namespaces(6) by (simp add: plain_reads p_plain_def sub_def)
  next
    case (8 ln)
    then show ?thesis using assms lower namespaces(6) by (simp add: plain_reads p_plain_def opt_operand_def)
  next
    case (9 ln e)
    obtain t ts where t: "expr_toks ln 0 e = t # ts" "tkind t \<in> set [T_NUMBER, T_STRING, T_IDENT, T_LPAREN]"
      using expr_toks_start by blast
    have "\<not> at_end (expr_toks ln 0 e @ r)" using t by auto
    then show ?thesis using 9 assms lower namespaces(6) by (simp add: plain_reads p_plain_def opt_operand_def)
  next
    case (10 ln m es)
    then show ?thesis using assms lower by (simp add: nr p_sys_def p_syscall_def sub_def)
  next
    case (11 ln m es)
    then show ?thesis using assms lower by (simp add: nr p_sys_def p_syscall_def sub_def)
  next
    case (18 ln m bs)
    then show ?thesis using assms lower by (simp add: nr p_data_def sub_def eq_tok_def bytes_reads)
  next
    case (20 ln m v)
    then show ?thesis using assms lower namespaces(6)
      by (simp add: keyword_def plain_reads p_plain_def p_local_def eq_tok_def)
  next
    case (21 ln d b v sz ix sc)
    then have "sz \<in> set [8, 16, 32, 64]" using assms by simp
    then show ?thesis using 21 assms lower by (simp del: append.simps add: nr ram_words) (simp add: eq_tok_def)
  next
    case (22 ln b v e sz ix sc)
    then have "sz \<in> set [8, 16, 32, 64]" using assms by simp
    then show ?thesis using 22 assms lower by (simp del: append.simps add: nr ram_words) (simp add: eq_tok_def)
  qed (use assms lower in \<open>simp_all add: nr p_data_def p_stack_def eq_tok_def\<close>)
qed

subsection \<open>Programs\<close>

text \<open>One statement per line; a function takes a line for its head, one per statement, one for the end.\<close>

datatype item = One node | Fn string "string list" "node list"

definition nl_tok :: "int \<Rightarrow> tok" where
  "nl_tok ln = Tok T_NEWLINE [CHR 0x5C, CHR ''n''] ln"

fun block_toks :: "int \<Rightarrow> node list \<Rightarrow> tok list" where
  "block_toks ln [] = []"
| "block_toks ln (n # ns) = node_toks ln n @ nl_tok ln # block_toks (ln + 1) ns"

fun numbered :: "int \<Rightarrow> node list \<Rightarrow> stmt list" where
  "numbered ln [] = []"
| "numbered ln (n # ns) = (ln, n) # numbered (ln + 1) ns"

fun item_lines :: "item \<Rightarrow> int" where
  "item_lines (One n) = 1"
| "item_lines (Fn f xs ns) = int (length ns) + 2"

fun item_toks :: "int \<Rightarrow> item \<Rightarrow> tok list" where
  "item_toks ln (One n) = node_toks ln n @ [nl_tok ln]"
| "item_toks ln (Fn f xs ns) =
    keyword ln ''fn'' f @ map (\<lambda>x. Tok T_IDENT x ln) xs @ nl_tok ln # block_toks (ln + 1) ns @
    keyword (ln + int (length ns) + 1) ''end'' ''fn'' @ [nl_tok (ln + int (length ns) + 1)]"

fun item_stmt :: "int \<Rightarrow> item \<Rightarrow> stmt" where
  "item_stmt ln (One n) = (ln, n)"
| "item_stmt ln (Fn f xs ns) = (case foldr add_stmt (numbered (ln + 1) ns) ([], []) of
     (body, ls) \<Rightarrow> (ln, FnDef f xs body ls))"

fun item_wf :: "item \<Rightarrow> bool" where
  "item_wf (One n) \<longleftrightarrow> node_wf n"
| "item_wf (Fn f xs ns) \<longleftrightarrow> list_all node_wf ns"

fun program_toks :: "int \<Rightarrow> item list \<Rightarrow> tok list" where
  "program_toks ln [] = [Tok T_EOF [] ln]"
| "program_toks ln (i # is) = item_toks ln i @ program_toks (ln + item_lines i) is"

fun program_stmts :: "int \<Rightarrow> item list \<Rightarrow> program" where
  "program_stmts ln [] = []"
| "program_stmts ln (i # is) = item_stmt ln i # program_stmts (ln + item_lines i) is"

lemma nl_tok_kind [simp]: "tkind (nl_tok ln) = T_NEWLINE"
  by (simp add: nl_tok_def)

lemma at_word_Cons [simp]: "at_word w (t # ts) \<longleftrightarrow> tkind t = T_IDENT \<and> py_lower (tvalue t) = w"
  by (simp add: at_word_def)

lemma skip_nl_Cons [simp]: "skip_nl (t # ts) = (if tkind t = T_NEWLINE then skip_nl ts else t # ts)"
  by (simp add: skip_nl_def)

text \<open>The first token of a statement is a label or a keyword that opens no function and ends none.\<close>

lemma node_start:
  assumes "node_wf n"
  shows "\<exists>t ts. node_toks ln n = t # ts \<and> tkind t \<in> set [T_LABEL, T_IDENT] \<and> tline t = ln \<and>
    (tkind t = T_IDENT \<longrightarrow> py_lower (tvalue t) \<notin> set [''fn'', ''end'', ''mode'', ''@mode''])"
proof -
  note lower = keywords_lower [unfolded list_all_append list.pred_inject, THEN conjunct1]
  show ?thesis
    using assms lower by (cases "(ln, n)" rule: node_toks.cases) (simp_all add: keyword_def)
qed

lemma statement_reads:
  assumes "node_wf n" and "at_end r"
  shows "statement (node_toks ln n @ r) = Inr ((ln, n), r)"
proof -
  obtain t ts where "node_toks ln n = t # ts" "tline t = ln" "\<not> at_word ''fn'' (t # ts @ r)"
    using node_start [OF assms(1), of ln] by auto
  then show ?thesis
    using node_reads [OF assms, of ln] by (auto simp: statement.simps [of "t # ts @ r"])
qed

lemma end_reads: "sub (end_of ''fn'') (\<lambda>_. give x) (Tok T_COLON '':'' ln # Tok T_IDENT ''fn'' ln # r) = Inr (x, r)"
proof -
  have "py_lower ''fn'' = ''fn''" using keywords_lower by simp
  then show ?thesis by (simp add: sub_def end_of_def)
qed

lemma fn_body_reads:
  assumes "list_all node_wf ns"
  shows "fn_body (skip_nl (block_toks ln ns @ keyword ln' ''end'' ''fn'' @ r)) =
    Inr (foldr add_stmt (numbered ln ns) ([], []), r)"
  using assms
proof (induction ln ns rule: numbered.induct)
  case (1 ln)
  have "py_lower ''end'' = ''end''" using keywords_lower by simp
  then show ?case
    using end_reads [of "([], [])" ln' r] by (simp add: keyword_def fn_body.simps [of "_ # _"])
next
  case (2 ln n ns)
  let ?r = "nl_tok ln # block_toks (ln + 1) ns @ keyword ln' ''end'' ''fn'' @ r"
  obtain t ts where t: "node_toks ln n = t # ts" "tkind t \<noteq> T_NEWLINE" "tkind t \<noteq> T_EOF"
      "\<not> at_word ''end'' (t # ts @ ?r)"
    using 2(2) node_start [of n ln] by auto
  have "statement (t # ts @ ?r) = Inr ((ln, n), ?r)"
    using 2(2) statement_reads [of n ?r ln] t(1) by simp
  then show ?case
    using 2 t by (auto simp: fn_body.simps [of "t # ts @ ?r"])
qed

lemma item_reads:
  assumes "item_wf i"
  shows "\<exists>t ts. item_toks ln i = t # ts \<and> tkind t \<in> set [T_LABEL, T_IDENT] \<and>
    \<not> at_word ''mode'' (t # ts @ r) \<and> \<not> at_word ''@mode'' (t # ts @ r) \<and>
    (\<exists>ln'. statement (item_toks ln i @ r) = Inr (item_stmt ln i, nl_tok ln' # r))"
proof (cases i)
  case (One n)
  then obtain t ts where t: "node_toks ln n = t # ts" "tkind t \<in> set [T_LABEL, T_IDENT]"
    "\<not> at_word ''mode'' (t # ts @ r)" "\<not> at_word ''@mode'' (t # ts @ r)"
    using assms node_start [of n ln] by auto
  moreover have "statement (item_toks ln i @ r) = Inr (item_stmt ln i, nl_tok ln # r)"
    using One assms statement_reads [of n "nl_tok ln # r" ln] by simp
  ultimately show ?thesis using One by auto
next
  case (Fn f xs ns)
  have l: "py_lower ''fn'' = ''fn''" using keywords_lower by simp
  let ?e = "ln + int (length ns) + 1"
  let ?r = "nl_tok ln # block_toks (ln + 1) ns @ keyword ?e ''end'' ''fn'' @ nl_tok ?e # r"
  have "fn_head (Tok T_COLON '':'' ln # Tok T_IDENT f ln # map (\<lambda>x. Tok T_IDENT x ln) xs @ ?r) = Inr ((f, xs), ?r)"
    by (simp add: fn_head_def Let_def takeWhile_append dropWhile_append comp_def)
  moreover have "fn_body (skip_nl ?r) = Inr (foldr add_stmt (numbered (ln + 1) ns) ([], []), nl_tok ?e # r)"
    using Fn assms fn_body_reads [of ns "ln + 1" ?e "nl_tok ?e # r"] by simp
  ultimately have "statement (item_toks ln i @ r) = Inr (item_stmt ln i, nl_tok ?e # r)"
    using Fn l by (simp add: keyword_def statement.simps [of "_ # _"] split: prod.splits)
  then show ?thesis using Fn l by (auto simp: keyword_def)
qed

lemma program_reads:
  "list_all item_wf is \<Longrightarrow> parse (program_toks ln is) = Inr (program_stmts ln is)"
proof (induction "is" arbitrary: ln)
  case Nil
  then show ?case by (simp add: parse.simps [of "_ # _"])
next
  case (Cons i "is")
  let ?r = "program_toks (ln + item_lines i) is"
  obtain t ts ln' where t: "item_toks ln i = t # ts" "tkind t \<in> set [T_LABEL, T_IDENT]"
      "\<not> at_word ''mode'' (t # ts @ ?r)" "\<not> at_word ''@mode'' (t # ts @ ?r)"
      "statement (item_toks ln i @ ?r) = Inr (item_stmt ln i, nl_tok ln' # ?r)"
    using item_reads [of i ln ?r] Cons.prems by auto
  have "parse (nl_tok ln' # ?r) = parse ?r" by (simp add: parse.simps [of "nl_tok ln' # ?r"] parse.simps [of ?r])
  then show ?case
    using t Cons by (auto simp: parse.simps [of "t # ts @ ?r"])
qed

end
