(* ===== verification/Includes.thy ===== *)
theory Includes
  imports Text
begin

section \<open>Included files (ACLM/compiler.py)\<close>

text \<open>
  \<open>resolve_includes\<close>: a line \<open>include: "name"\<close> is replaced by the text of the file found. The file
  system is a finite list of paths as spelled in \<open>open\<close>, with their texts as \<open>open(..., "r")\<close> reads
  them; the current directory and the directory of the package are parameters. Path functions are
  those of \<open>posixpath\<close>. The set \<open>seen\<close> is one object that the nested calls share, so it is threaded
  through.
\<close>

subsection \<open>Paths\<close>

definition slash :: char where
  "slash = CHR ''/''"

definition path_join :: "string \<Rightarrow> string \<Rightarrow> string" where
  "path_join a b = (if starts_with [slash] b then b
     else if a = [] \<or> last a = slash then a @ b else a @ slash # b)"

text \<open>The text behind the last slash, and the head without trailing slashes (unless all are).\<close>

definition basename :: "string \<Rightarrow> string" where
  "basename p = rev (takeWhile (\<lambda>c. c \<noteq> slash) (rev p))"

definition dirname :: "string \<Rightarrow> string" where
  "dirname p = (let h = rev (dropWhile (\<lambda>c. c \<noteq> slash) (rev p)) in
     if list_all (\<lambda>c. c = slash) h then h else rev (dropWhile (\<lambda>c. c = slash) (rev h)))"

text \<open>\<open>normpath\<close>: the components that stay, the last one first.\<close>

fun norm_comps :: "bool \<Rightarrow> string list \<Rightarrow> string list \<Rightarrow> string list" where
  "norm_comps rooted st [] = st"
| "norm_comps rooted st (c # cs) =
    (if c = [] \<or> c = ''.'' then norm_comps rooted st cs
     else if c \<noteq> ''..'' \<or> (\<not> rooted \<and> st = []) \<or> (st \<noteq> [] \<and> hd st = ''..'')
     then norm_comps rooted (c # st) cs
     else norm_comps rooted (tl st) cs)"

definition normpath :: "string \<Rightarrow> string" where
  "normpath p =
    (let lead = (if starts_with ''//'' p \<and> \<not> starts_with ''///'' p then ''//''
           else if starts_with ''/'' p then ''/'' else []);
         r = lead @ joined [slash] (rev (norm_comps (lead \<noteq> []) [] (words_by (\<lambda>c. c = slash) [] p)))
     in if r = [] then ''.'' else r)"

subsection \<open>Includes\<close>

record env =
  files :: "(string \<times> string) list"
  cwd :: string
  package_dir :: string

definition abspath :: "env \<Rightarrow> string \<Rightarrow> string" where
  "abspath E p = normpath (path_join (cwd E) p)"

text \<open>\<open>^\s*include:\s*"([^"]+)"\s*(#.*)?$\<close>: the name between the quotes.\<close>

definition include_name :: "string \<Rightarrow> string option" where
  "include_name line =
    (case after ''include:'' (lstrip line) of None \<Rightarrow> None
     | Some r \<Rightarrow> (case lstrip r of [] \<Rightarrow> None
       | q # t \<Rightarrow>
          (let name = takeWhile (\<lambda>c. c \<noteq> CHR 0x22) t; u = dropWhile (\<lambda>c. c \<noteq> CHR 0x22) t in
           if q = CHR 0x22 \<and> name \<noteq> [] \<and> u \<noteq> [] \<and>
              (let v = lstrip (tl u) in v = [] \<or> hd v = CHR ''#'')
           then Some name else None)))"

definition source_name :: string where
  "source_name = ''<src>''"

definition candidates :: "env \<Rightarrow> string \<Rightarrow> string \<Rightarrow> string list" where
  "candidates E path inc =
    (if starts_with [slash] inc then [inc]
     else (let base = (if path \<noteq> source_name then dirname path else cwd E);
               std = path_join (path_join (package_dir E) ''..'') ''std'' in
       [path_join base inc, path_join std inc, path_join std (basename inc)]))"

definition file_path :: "env \<Rightarrow> string \<Rightarrow> string" where
  "file_path E filename = (if filename \<noteq> source_name then abspath E filename else filename)"

definition newline :: char where
  "newline = char_of (10 :: nat)"

text \<open>The text of an included file between its two comment lines.\<close>

definition included :: "string \<Rightarrow> string \<Rightarrow> string" where
  "included found t =
    ''# ---- include '' @ found @ '' ----'' @ [newline] @ t @
    (if t \<noteq> [] \<and> last t = newline then [] else [newline]) @
    ''# ---- end include '' @ found @ '' ----'' @ [newline]"

function resolve_file :: "env \<Rightarrow> string \<Rightarrow> string \<Rightarrow> string list \<Rightarrow> (string \<times> string list) res"
  and resolve_lines :: "env \<Rightarrow> string \<Rightarrow> string list \<Rightarrow> string list \<Rightarrow> (string \<times> string list) res" where
  "resolve_file E filename src seen =
    (let path = file_path E filename in
     if path \<in> set seen then Inl (SystemStop ''circular include'')
     else resolve_lines E path (splitlines src) (path # seen))"
| "resolve_lines E path [] seen = Inr ([], seen)"
| "resolve_lines E path (l # ls) seen =
    (case include_name l of
       None \<Rightarrow> bindE (resolve_lines E path ls seen) (\<lambda>(t, s). Inr (l @ t, s))
     | Some inc \<Rightarrow>
         (case find (\<lambda>c. map_of (files E) c \<noteq> None) (candidates E path inc) of
            None \<Rightarrow> Inl (SystemStop ''include not found'')
          | Some found \<Rightarrow>
              bindE (resolve_file E found (the (map_of (files E) found)) seen) (\<lambda>(t, s).
                bindE (resolve_lines E path ls s) (\<lambda>(t', s'). Inr (included found t @ t', s')))))"
  by pat_completeness auto

text \<open>\<open>seen\<close> only grows; a file is entered at most once, and only files of the file system are entered
  from an include.\<close>

lemma resolve_seen_dom:
  "resolve_file_resolve_lines_dom (Inl (E, f, src, seen)) \<Longrightarrow>
     resolve_file E f src seen = Inr (t, s) \<Longrightarrow> set seen \<subseteq> set s"
  "resolve_file_resolve_lines_dom (Inr (E, p, ls, seen)) \<Longrightarrow>
     resolve_lines E p ls seen = Inr (t, s) \<Longrightarrow> set seen \<subseteq> set s"
proof (induction E f src seen and E p ls seen arbitrary: t s and t s rule: resolve_file_resolve_lines.pinduct)
  case (1 E f src seen)
  then show ?case by (auto simp: resolve_file.psimps Let_def split: if_splits)
next
  case (2 E p seen)
  then show ?case by (simp add: resolve_lines.psimps)
next
  case (3 E p l ls seen)
  show ?case
  proof (cases "include_name l")
    case None
    then show ?thesis using 3 by (auto simp: resolve_lines.psimps bindE_Inr_iff)
  next
    case (Some inc)
    then obtain found t1 s1 t2 where
      f: "find (\<lambda>c. map_of (files E) c \<noteq> None) (candidates E p inc) = Some found" and
      r: "resolve_file E found (the (map_of (files E) found)) seen = Inr (t1, s1)"
        "resolve_lines E p ls s1 = Inr (t2, s)"
      using 3(1,5) by (auto simp: resolve_lines.psimps bindE_Inr_iff split: option.splits)
    have "set seen \<subseteq> set s1" using 3(3) [OF Some f r(1)] .
    moreover have "set s1 \<subseteq> set s" using 3(4) [OF Some f r(1) refl r(2)] .
    ultimately show ?thesis by blast
  qed
qed

definition unseen :: "env \<Rightarrow> string list \<Rightarrow> string set" where
  "unseen E seen = file_path E ` set (map fst (files E)) - set seen"

lemma finite_unseen: "finite (unseen E seen)"
  by (simp add: unseen_def)

lemma unseen_mono: "set seen \<subseteq> set s \<Longrightarrow> card (unseen E s) \<le> card (unseen E seen)"
  by (rule card_mono [OF finite_unseen]) (auto simp: unseen_def)

lemma unseen_less:
  "path \<in> file_path E ` set (map fst (files E)) \<Longrightarrow> path \<notin> set seen \<Longrightarrow>
   card (unseen E (path # seen)) < card (unseen E seen)"
  by (rule psubset_card_mono [OF finite_unseen]) (auto simp: unseen_def)

definition known :: "env \<Rightarrow> string \<Rightarrow> bool" where
  "known E f \<longleftrightarrow> file_path E f \<in> file_path E ` set (map fst (files E))"

lemma find_known: "find (\<lambda>c. map_of (files E) c \<noteq> None) cs = Some f \<Longrightarrow> known E f"
  by (force simp: find_Some_iff known_def map_of_eq_None_iff)

termination resolve_file
proof (relation "inv_image (less_than <*lex*> less_than) (\<lambda>x. case x of
    Inl (E, f, src, seen) \<Rightarrow>
      (card (unseen E seen), if known E f then 0 else Suc (Suc (length (splitlines src))))
  | Inr (E, p, ls, seen) \<Rightarrow> (card (unseen E seen), Suc (length ls)))", goal_cases)
  case (2 E f src seen path)
  have "card (unseen E (path # seen)) \<le> card (unseen E seen)" by (rule unseen_mono) auto
  moreover have "card (unseen E (path # seen)) < card (unseen E seen)" if "known E f"
    using that 2 by (intro unseen_less) (simp_all add: known_def)
  ultimately show ?case by auto
next
  case (4 E p l ls seen inc found)
  then show ?case using find_known [OF 4(2)] by simp
next
  case (5 E p l ls seen inc found x t s)
  then have "set seen \<subseteq> set s" using resolve_seen_dom(1) by blast
  then show ?case using unseen_mono [of seen s E] by auto
qed auto

declare resolve_file.simps [simp del] resolve_lines.simps [simp del]

definition resolve_includes :: "env \<Rightarrow> string \<Rightarrow> string \<Rightarrow> string res" where
  "resolve_includes E src filename =
    bindE (resolve_file E filename src []) (\<lambda>(t, s). Inr t)"

end
