(* ===== verification/Layout.thy ===== *)
theory Layout
  imports Concrete_Syntax Includes
begin

section \<open>Layouts of a token list\<close>

text \<open>
  A layout gives every token a gap behind it: blanks, or at the end of a line a comment. The lexer
  reads every layout back, as long as no gap lets two tokens grow together.
\<close>

subsection \<open>The text of a token\<close>

definition quote_char :: char where
  "quote_char = CHR 0x22"

definition escape :: "char \<Rightarrow> string" where
  "escape c = (if c = CHR 0x22 \<or> c = CHR 0x5C then [CHR 0x5C, c]
     else if ord c = 10 then [CHR 0x5C, CHR ''n''] else [c])"

definition tok_text :: "tok \<Rightarrow> string" where
  "tok_text t =
    (case tkind t of
       T_STRING \<Rightarrow> CHR 0x22 # concat (map escape (tvalue t)) @ [CHR 0x22]
     | T_LABEL \<Rightarrow> CHR ''~'' # tvalue t
     | T_NEWLINE \<Rightarrow> [newline]
     | T_EOF \<Rightarrow> []
     | _ \<Rightarrow> tvalue t)"

text \<open>Tokens the lexer makes.\<close>

definition tok_ok :: "tok \<Rightarrow> bool" where
  "tok_ok t \<longleftrightarrow>
    (case tkind t of
       T_EOF \<Rightarrow> False
     | T_NEWLINE \<Rightarrow> tvalue t = [CHR 0x5C, CHR ''n'']
     | T_IDENT \<Rightarrow> is_hd is_name_start (tvalue t) \<and> list_all is_word (tvalue t)
     | T_NUMBER \<Rightarrow> (case signed_int 0 (tvalue t) of None \<Rightarrow> False | Some n \<Rightarrow> show_int n = tvalue t)
     | T_STRING \<Rightarrow> True
     | T_LABEL \<Rightarrow> tvalue t \<noteq> [] \<and> list_all is_word (tvalue t)
     | T_OP \<Rightarrow> False
     | T_MINUS \<Rightarrow> tvalue t = ''-''
     | T_TILDE \<Rightarrow> tvalue t = ''~''
     | k \<Rightarrow> tvalue t \<noteq> [] \<and> tl (tvalue t) = [] \<and> map_of punctuation (hd (tvalue t)) = Some k)"

text \<open>The text behind a token does not prolong it.\<close>

definition fits :: "tok \<Rightarrow> string \<Rightarrow> bool" where
  "fits t s \<longleftrightarrow>
    (case tkind t of T_IDENT \<Rightarrow> \<not> is_hd is_word s | T_LABEL \<Rightarrow> \<not> is_hd is_word s
     | T_NUMBER \<Rightarrow> \<not> is_hd is_alnum s | T_MINUS \<Rightarrow> \<not> is_hd is_digit s
     | T_TILDE \<Rightarrow> \<not> is_hd is_word s | _ \<Rightarrow> True)"

definition is_blank :: "char \<Rightarrow> bool" where
  "is_blank c \<longleftrightarrow> c = CHR '' '' \<or> ord c = 9 \<or> ord c = 13"

definition gap_ok :: "string \<Rightarrow> string \<Rightarrow> bool" where
  "gap_ok g s \<longleftrightarrow>
    (let u = dropWhile is_blank g in
     u = [] \<or> hd u = CHR ''#'' \<and> list_all (\<lambda>d. ord d \<noteq> 10) u \<and> (s = [] \<or> ord (hd s) = 10))"

subsection \<open>Reading one token\<close>

lemma takeWhile_stop: "list_all p xs \<Longrightarrow> \<not> is_hd p ys \<Longrightarrow> takeWhile p (xs @ ys) = xs \<and> dropWhile p (xs @ ys) = ys"
  by (induction xs) (auto simp: is_hd_def split: list.splits)

lemma read_one:
  assumes "one_token c cs line = Inr (t, r, l)" and "\<not> is_blank c" "ord c \<noteq> 10" "c \<noteq> CHR ''#''"
  shows "tokenize_from (c # cs) line = bindE (tokenize_from r l) (\<lambda>ts. Inr (t # ts))"
  using assms by (simp add: is_blank_def)

lemma name_start_plain:
  assumes "is_name_start c"
  shows "\<not> is_blank c \<and> ord c \<noteq> 10 \<and> c \<notin> set [CHR ''#'', CHR 0x22, CHR ''~'', CHR ''-'', CHR ''@''] \<and>
    map_of punctuation c = None \<and> \<not> is_digit c"
proof -
  have "c \<notin> fst ` set punctuation" using assms by (auto simp: punctuation_def char_classes)
  then have "map_of punctuation c = None" by (simp add: map_of_eq_None_iff)
  then show ?thesis using assms by (auto simp: char_classes is_blank_def)
qed

lemma digit_plain:
  assumes "is_digit c"
  shows "\<not> is_blank c \<and> ord c \<noteq> 10 \<and> c \<notin> set [CHR ''#'', CHR 0x22, CHR ''~'', CHR ''-'', CHR ''@''] \<and>
    map_of punctuation c = None"
proof -
  have "c \<notin> fst ` set punctuation" using assms by (auto simp: punctuation_def char_classes)
  then have "map_of punctuation c = None" by (simp add: map_of_eq_None_iff)
  then show ?thesis using assms by (auto simp: char_classes is_blank_def)
qed

lemma read_ident:
  assumes "is_hd is_name_start v" "list_all is_word v" "\<not> is_hd is_word s"
  shows "tokenize_from (v @ s) line = bindE (tokenize_from s line) (\<lambda>ts. Inr (Tok T_IDENT v line # ts))"
proof -
  obtain c cs where v: "v = c # cs" "is_name_start c" using assms(1) by (cases v) (auto simp: is_hd_def)
  note c = name_start_plain [OF v(2)]
  have "label_body (v @ s) = (v, s)" using takeWhile_stop [OF assms(2,3)] by (simp add: label_body_def)
  then have "one_token c (cs @ s) line = Inr (Tok T_IDENT v line, s, line)"
    using c v by (simp add: one_token_def)
  then show ?thesis using c v read_one by simp
qed

lemma read_label:
  assumes "v \<noteq> []" "list_all is_word v" "\<not> is_hd is_word s"
  shows "tokenize_from (CHR ''~'' # v @ s) line = bindE (tokenize_from s line) (\<lambda>ts. Inr (Tok T_LABEL v line # ts))"
proof (rule read_one)
  have "map_of punctuation CHR ''~'' = None" by code_simp
  then show "one_token CHR ''~'' (v @ s) line = Inr (Tok T_LABEL v line, s, line)"
    using assms takeWhile_stop [OF assms(2,3)]
    by (cases v) (auto simp: one_token_def label_body_def is_hd_def)
qed code_simp+

lemma starts_two: "starts_with [a, b] (c # d) \<Longrightarrow> is_hd ((=) b) d"
  by (cases d) (simp_all add: starts_with_def is_hd_def split: if_splits)

lemma number_body_show:
  assumes "\<not> is_hd is_alnum s"
  shows "number_body (show_nat n @ s) = (show_nat n, s)"
proof -
  have d: "list_all is_digit (show_nat n)" "show_nat n \<noteq> []" using show_nat_digits by simp_all
  have "\<not> is_hd is_digit s" using assms by (auto simp: is_hd_def is_alnum_def split: list.splits)
  note t = takeWhile_stop [OF d(1) this]
  have "\<not> starts_with ''0x'' (show_nat n @ s)" "\<not> starts_with ''0X'' (show_nat n @ s)"
  proof -
    obtain c cs where v: "show_nat n = c # cs" using d(2) by (cases "show_nat n") auto
    have x: "\<not> is_digit CHR ''x'' \<and> \<not> is_digit CHR ''X'' \<and> is_alnum CHR ''x'' \<and> is_alnum CHR ''X''" by code_simp
    have "\<not> is_hd ((=) e) (cs @ s)" if "\<not> is_digit e" "is_alnum e" for e
      using d(1) v that assms by (cases cs; cases s) (auto simp: is_hd_def)
    then show "\<not> starts_with ''0x'' (show_nat n @ s)" "\<not> starts_with ''0X'' (show_nat n @ s)"
      using x starts_two unfolding v append_Cons by blast+
  qed
  then show ?thesis using t d(2) by (simp add: number_body_def Let_def)
qed

lemma read_number:
  assumes "\<not> is_hd is_alnum s"
  shows "tokenize_from (show_int n @ s) line =
    bindE (tokenize_from s line) (\<lambda>ts. Inr (Tok T_NUMBER (show_int n) line # ts))"
proof -
  obtain c cs where v: "show_nat (nat \<bar>n\<bar>) = c # cs" "is_digit c"
    using show_nat_digits [of "nat \<bar>n\<bar>"] by (cases "show_nat (nat \<bar>n\<bar>)") auto
  note b = number_body_show [OF assms, of "nat \<bar>n\<bar>", unfolded v(1)]
  note c = digit_plain [OF v(2)]
  show ?thesis
  proof (cases "n < 0")
    case True
    have m: "map_of punctuation CHR ''-'' = None" by code_simp
    have "py_int 0 (show_int (- n)) = Inr (- n)" by (rule py_int_show)
    then have "py_int 0 (c # cs) = Inr (- n)" using True v(1) by (simp add: show_int_def)
    then have "one_token CHR ''-'' (c # cs @ s) line = Inr (Tok T_NUMBER (show_int n) line, s, line)"
      using b v(2) m by (simp add: one_token_def is_hd_def)
    then have "tokenize_from (CHR ''-'' # c # cs @ s) line =
        bindE (tokenize_from s line) (\<lambda>ts. Inr (Tok T_NUMBER (show_int n) line # ts))"
      by (rule read_one) code_simp+
    moreover have "show_int n = CHR ''-'' # c # cs" using True v(1) by (simp add: show_int_def)
    ultimately show ?thesis by simp
  next
    case False
    then have "show_int n = c # cs" using v(1) by (simp add: show_int_def)
    moreover have "one_token c (cs @ s) line = Inr (Tok T_NUMBER (c # cs) line, s, line)"
      using b c v(2) by (simp add: one_token_def)
    ultimately show ?thesis using c read_one by simp
  qed
qed

lemma string_reads: "string_body (concat (map escape v) @ CHR 0x22 # s) line = Some (v, s, line)"
proof (induction v)
  case (Cons c v)
  have "c = newline" if "ord c = 10" using that by (metis char_of_char ord_def newline_def of_char_of of_nat_numeral)
  moreover have "next_line CHR 0x22 line = line" "next_line CHR 0x5C line = line" "next_line CHR ''n'' line = line"
    by (simp_all add: next_line_def ord_def)
  ultimately show ?case
    using Cons by (auto simp: escape_def escape_char_def next_line_def newline_def)
qed simp

lemma read_string:
  "tokenize_from (CHR 0x22 # concat (map escape v) @ CHR 0x22 # s) line =
    bindE (tokenize_from s line) (\<lambda>ts. Inr (Tok T_STRING v line # ts))"
proof (rule read_one)
  show "one_token CHR 0x22 (concat (map escape v) @ CHR 0x22 # s) line = Inr (Tok T_STRING v line, s, line)"
    by (simp add: one_token_def string_reads)
qed code_simp+

lemma read_punct:
  assumes "map_of punctuation c = Some k"
  shows "tokenize_from (c # s) line = bindE (tokenize_from s line) (\<lambda>ts. Inr (Tok k [c] line # ts))"
proof -
  have "list_all (\<lambda>(c, k). c \<noteq> CHR 0x22 \<and> \<not> is_blank c \<and> ord c \<noteq> 10 \<and> c \<noteq> CHR ''#'') punctuation" by code_simp
  then have "c \<noteq> CHR 0x22 \<and> \<not> is_blank c \<and> ord c \<noteq> 10 \<and> c \<noteq> CHR ''#''"
    using map_of_SomeD [OF assms] by (auto simp: list_all_iff)
  then show ?thesis using assms by (intro read_one) (simp_all add: one_token_def)
qed

lemma read_dash:
  "\<not> is_hd is_digit s \<Longrightarrow> tokenize_from (CHR ''-'' # s) line = bindE (tokenize_from s line) (\<lambda>ts. Inr (Tok T_MINUS ''-'' line # ts))"
  and read_tilde:
  "\<not> is_hd is_word s \<Longrightarrow> tokenize_from (CHR ''~'' # s) line = bindE (tokenize_from s line) (\<lambda>ts. Inr (Tok T_TILDE ''~'' line # ts))"
proof -
  have m: "map_of punctuation CHR ''-'' = None" "map_of punctuation CHR ''~'' = None" by code_simp+
  show "\<not> is_hd is_digit s \<Longrightarrow> tokenize_from (CHR ''-'' # s) line = bindE (tokenize_from s line) (\<lambda>ts. Inr (Tok T_MINUS ''-'' line # ts))"
    using m by (intro read_one) (simp_all add: one_token_def is_blank_def ord_def)
  show "\<not> is_hd is_word s \<Longrightarrow> tokenize_from (CHR ''~'' # s) line = bindE (tokenize_from s line) (\<lambda>ts. Inr (Tok T_TILDE ''~'' line # ts))"
    using m by (intro read_one) (simp_all add: one_token_def is_blank_def ord_def)
qed

lemma read_newline:
  "tokenize_from (newline # s) line =
    bindE (tokenize_from s (line + 1)) (\<lambda>ts. Inr (Tok T_NEWLINE [CHR 0x5C, CHR ''n''] line # ts))"
proof -
  have "newline \<noteq> CHR '' ''" "ord newline = 10" by code_simp+
  then show ?thesis by simp
qed

lemma tok_text_newline: "tkind t = T_NEWLINE \<Longrightarrow> tok_text t = [newline]"
  by (simp add: tok_text_def)

lemma Tok_eta: "t = Tok (tkind t) (tvalue t) (tline t)"
  by (cases t) (simp add: Tok_def)

lemma Tok_kind: "tkind t = k \<Longrightarrow> Tok k (tvalue t) (tline t) = t"
  using Tok_eta [of t] by simp

definition line_after :: "tok \<Rightarrow> int \<Rightarrow> int" where
  "line_after t line = (if tkind t = T_NEWLINE then line + 1 else line)"

lemma read_punct_tok:
  assumes "tvalue t \<noteq> [] \<and> tl (tvalue t) = [] \<and> map_of punctuation (hd (tvalue t)) = Some (tkind t)"
    and "tkind t \<noteq> T_NEWLINE"
  shows "tokenize_from (tvalue t @ s) (tline t) = bindE (tokenize_from s (line_after t (tline t))) (\<lambda>ts. Inr (t # ts))"
proof -
  have "tvalue t = [hd (tvalue t)]" using assms by (cases "tvalue t") auto
  then show ?thesis
    using read_punct [of "hd (tvalue t)" "tkind t" s "tline t"] assms Tok_eta [of t]
    by (metis append_Cons append_Nil line_after_def)
qed

lemma read_tok:
  assumes "tok_ok t" and "fits t s"
  shows "tokenize_from (tok_text t @ s) (tline t) =
    bindE (tokenize_from s (line_after t (tline t))) (\<lambda>ts. Inr (t # ts))"
proof (cases "tkind t")
  case T_NEWLINE
  then have "Tok T_NEWLINE [CHR 0x5C, CHR ''n''] (tline t) = t" using assms Tok_kind [of t] by (simp add: tok_ok_def)
  then show ?thesis
    using read_newline [of s "tline t"] T_NEWLINE by (simp add: tok_text_newline line_after_def)
next
  case T_IDENT
  then show ?thesis
    using assms read_ident [of "tvalue t" s "tline t"] Tok_kind [of t] by (simp add: tok_ok_def fits_def tok_text_def line_after_def)
next
  case T_NUMBER
  then obtain n where n: "show_int n = tvalue t" using assms by (auto simp: tok_ok_def split: option.splits)
  then show ?thesis
    using T_NUMBER assms read_number [of s n "tline t"] Tok_kind [of t] by (simp add: fits_def tok_text_def line_after_def)
next
  case T_STRING
  then show ?thesis
    using assms read_string [of "tvalue t" s "tline t"] Tok_kind [of t] by (simp add: tok_text_def line_after_def)
next
  case T_LABEL
  then show ?thesis
    using assms read_label [of "tvalue t" s "tline t"] Tok_kind [of t] by (simp add: tok_ok_def fits_def tok_text_def line_after_def)
next
  case T_MINUS
  then have "Tok T_MINUS ''-'' (tline t) = t" using assms Tok_kind [of t] by (simp add: tok_ok_def)
  then obtain ln where t: "t = Tok T_MINUS ''-'' ln" by metis
  show ?thesis
    unfolding t using assms(2) read_dash [of s ln]
    by (simp add: t fits_def tok_text_def line_after_def del: tokenize_from.simps)
next
  case T_TILDE
  then have "Tok T_TILDE ''~'' (tline t) = t" using assms Tok_kind [of t] by (simp add: tok_ok_def)
  then obtain ln where t: "t = Tok T_TILDE ''~'' ln" by metis
  show ?thesis
    unfolding t using assms(2) read_tilde [of s ln]
    by (simp add: t fits_def tok_text_def line_after_def del: tokenize_from.simps)
qed (use assms read_punct_tok [of t s] in \<open>simp_all add: tok_ok_def tok_text_def\<close>)

lemma read_gap:
  assumes "gap_ok g s"
  shows "tokenize_from (g @ s) line = tokenize_from s line"
proof -
  let ?u = "dropWhile is_blank g"
  have b: "tokenize_from (bs @ r) line = tokenize_from r line" if "list_all is_blank bs" for bs r
    using that by (induction bs) (auto simp: is_blank_def)
  have "list_all is_blank (takeWhile is_blank g)" by (auto simp: list_all_iff dest: set_takeWhileD)
  from b [OF this, of "?u @ s"] have "tokenize_from (g @ s) line = tokenize_from (?u @ s) line"
    by (metis append_assoc takeWhile_dropWhile_id)
  moreover have "tokenize_from (?u @ s) line = tokenize_from s line"
  proof (cases ?u)
    case (Cons c cs)
    then have c: "c = CHR ''#''" "list_all (\<lambda>d. ord d \<noteq> 10) cs" "\<not> is_hd (\<lambda>d. ord d \<noteq> 10) s"
      using assms by (cases s; simp add: gap_ok_def Let_def is_hd_def)+
    have "dropWhile (\<lambda>d. ord d \<noteq> 10) (cs @ s) = s" using takeWhile_stop [OF c(2,3)] by simp
    moreover have "ord CHR ''#'' = 35" by (simp add: ord_def)
    ultimately show ?thesis using Cons c(1) by simp
  next
    case Nil
    then show ?thesis by (simp only: append_Nil)
  qed
  ultimately show ?thesis by (rule trans)
qed

subsection \<open>Reading a layout\<close>

type_synonym token_layout = "(tok \<times> string) list"

definition laid_out :: "token_layout \<Rightarrow> string" where
  "laid_out l = concat (map (\<lambda>(t, g). tok_text t @ g) l)"

fun layout_ok :: "int \<Rightarrow> token_layout \<Rightarrow> bool" where
  "layout_ok line [] \<longleftrightarrow> True"
| "layout_ok line ((t, g) # l) \<longleftrightarrow>
    tok_ok t \<and> tline t = line \<and> gap_ok g (laid_out l) \<and> fits t (g @ laid_out l) \<and>
    layout_ok (line_after t line) l"

definition last_line :: "int \<Rightarrow> tok list \<Rightarrow> int" where
  "last_line line ts = fold line_after ts line"

lemma laid_out_simps [simp]: "laid_out [] = []" "laid_out ((t, g) # l) = tok_text t @ g @ laid_out l"
  by (simp_all add: laid_out_def)

lemma layout_reads:
  "layout_ok line l \<Longrightarrow> tokenize_from (laid_out l) line = Inr (map fst l @ [Tok T_EOF [] (last_line line (map fst l))])"
proof (induction line l rule: layout_ok.induct)
  case (2 line t g l)
  then show ?case
    using read_tok [of t "g @ laid_out l"] read_gap [of g "laid_out l"] by (simp add: last_line_def)
qed (simp add: last_line_def)

lemma layout_tokenize:
  assumes "layout_ok 1 l" and "gap_ok g (laid_out l)"
  shows "tokenize (g @ laid_out l) = Inr (map fst l @ [Tok T_EOF [] (last_line 1 (map fst l))])"
  using assms read_gap layout_reads by (simp add: tokenize_def)

end
