(* ===== verification/Strict.thy ===== *)
theory Strict
  imports Regs
begin

section \<open>The strict lint (ACLM/strict.py)\<close>

text \<open>
  \<open>analyze_source\<close> line by line: the virtual and physical register names seen so far and the
  findings, each a severity and a message; then the findings about the whole file. Messages are
  UTF-8 bytes. \<open>\w\<close> is \<open>is_word\<close>, the class of ASCII.
\<close>

subsection \<open>Tables\<close>

definition PHYS_TO_VIRT :: "(string \<times> string) list" where
  "PHYS_TO_VIRT =
    [(''rax'', ''reg1''), (''rbx'', ''reg2''), (''rcx'', ''reg3''), (''rdx'', ''reg4''),
     (''rsi'', ''reg5''), (''rdi'', ''reg6''),
     (''r8'', ''reg7''), (''r9'', ''reg8''), (''r10'', ''reg9''), (''r11'', ''reg10''),
     (''r12'', ''reg11''), (''r13'', ''reg12''), (''r14'', ''reg13'')]"

definition IMPLICIT :: "(string \<times> string \<times> string) list" where
  "IMPLICIT =
    [(''cpu:shld'', ''rcx'', ''shift count in CL/RCX''), (''cpu:shrd'', ''rcx'', ''shift count in CL/RCX''),
     (''cpu:mulu'', ''rax/rdx'', ''unsigned mul uses RDX:RAX''),
     (''cpu:divu'', ''rax/rdx'', ''unsigned div uses RDX:RAX''),
     (''cpu:imul'', ''rax/rdx'', ''some imul forms use RDX:RAX''),
     (''cpu:cmpxchg'', ''rax'', ''compare operand is RAX''),
     (''cpu:mulx'', ''rdx'', ''mulx uses RDX source''),
     (''cpu:cqo'', ''rax/rdx'', ''sign-extends RAX into RDX''),
     (''cpu:cdq'', ''eax/edx'', ''sign-extends EAX into EDX''),
     (''cpu:cwd'', ''ax/dx'', ''sign-extends AX into DX'')]"

subsection \<open>Words and lines\<close>

text \<open>\<open>(?<!\w)word(?!\w)\<close>; \<open>prev\<close>: the character before is a word character.\<close>

fun word_from :: "string \<Rightarrow> bool \<Rightarrow> string \<Rightarrow> bool" where
  "word_from w prev [] \<longleftrightarrow> \<not> prev \<and> w = []"
| "word_from w prev (c # cs) \<longleftrightarrow>
     (\<not> prev \<and> (case after w (c # cs) of None \<Rightarrow> False | Some r \<Rightarrow> \<not> is_hd is_word r)) \<or>
     word_from w (is_word c) cs"

definition has_word :: "string \<Rightarrow> string \<Rightarrow> bool" where
  "has_word text w = word_from w False text"

definition any_word :: "string \<Rightarrow> string list \<Rightarrow> bool" where
  "any_word text ws = list_ex (has_word text) ws"

text \<open>\<open>line.split("#")[0].lower().strip()\<close>.\<close>

definition lowered :: "string \<Rightarrow> string" where
  "lowered line = py_strip (py_lower (takeWhile (\<lambda>c. c \<noteq> CHR ''#'') line))"

type_synonym lint = "string \<times> string"

definition EM_DASH :: string where
  "EM_DASH = [CHR 0xE2, CHR 0x80, CHR 0x94]"

definition ELLIPSIS :: string where
  "ELLIPSIS = [CHR 0xE2, CHR 0x80, CHR 0xA6]"

definition at_line :: "nat \<Rightarrow> string \<Rightarrow> string" where
  "at_line i msg = ''line '' @ show_nat i @ '': '' @ msg"

text \<open>A line with the shift count register as an operand of a double shift.\<close>

definition shift_error :: "string \<Rightarrow> bool" where
  "shift_error low \<longleftrightarrow>
     (contains ''cpu:shld'' low \<or> contains ''cpu:shrd'' low) \<and> any_word low [''reg3'', ''rcx'', ''ecx'']"

definition line_lints :: "nat \<Rightarrow> string \<Rightarrow> lint list" where
  "line_lints i low =
    (if shift_error low
     then [(''error'', at_line i (''shld/shrd '' @ EM_DASH @ '' reg3/rcx is the shift-count register; '' @
       ''do not use it as a data operand (use reg2/reg11/'' @ ELLIPSIS @ '')''))] else []) @
    (if contains ''cpu:cmpxchg'' low \<and> any_word low [''reg1'', ''rax'', ''eax'']
     then [(''warning'', at_line i (''cmpxchg '' @ EM_DASH @ '' RAX/reg1 is the implicit compare target''))]
     else []) @
    (if (contains ''cpu:mulu'' low \<or> contains ''cpu:divu'' low) \<and>
        any_word low [''reg1'', ''reg4'', ''rax'', ''rdx'']
     then [(''warning'', at_line i (''mulu/divu '' @ EM_DASH @
       '' destroys RDX:RAX (reg4:reg1); save first if needed''))] else []) @
    (if contains ''cpu:mulx'' low \<and> any_word low [''reg4'', ''rdx'']
     then [(''warning'', at_line i (''mulx '' @ EM_DASH @
       '' RDX is implicit source; avoid clobber patterns''))] else []) @
    (if contains ''thread:join_all'' low
     then [(''note'', at_line i (''thread:join_all waits on spawn/done counters '' @ EM_DASH @
       '' not waitid(tid)''))] else [])"

text \<open>The loop over the lines: the findings, and the lowered lines that are not empty.\<close>

fun lint_lines :: "nat \<Rightarrow> string list \<Rightarrow> lint list \<times> string list" where
  "lint_lines i [] = ([], [])"
| "lint_lines i (l # ls) =
    (let low = lowered l; (out, lows) = lint_lines (i + 1) ls in
     if low = [] then (out, lows) else (line_lints i low @ out, low # lows))"

definition uses_word :: "string list \<Rightarrow> string \<Rightarrow> bool" where
  "uses_word lows w = list_ex (\<lambda>low. has_word low w) lows"

definition alias_lint :: "string \<Rightarrow> string \<Rightarrow> lint" where
  "alias_lint phys virt = (''warning'', ''file uses both '' @ [CHR 0x27] @ virt @ [CHR 0x27] @ '' and '' @
     [CHR 0x27] @ phys @ [CHR 0x27] @ '' (identical physical register)'')"

definition alias_lints :: "string list \<Rightarrow> lint list" where
  "alias_lints lows = map (\<lambda>(phys, virt). alias_lint phys virt)
    (filter (\<lambda>(phys, virt). uses_word lows phys \<and> virt \<in> set (map fst VIRTUAL) \<and> uses_word lows virt)
      PHYS_TO_VIRT)"

text \<open>\<open>re.search(r"sys:\s*(call|raw)", src, re.I)\<close>.\<close>

fun mentions_sys :: "string \<Rightarrow> bool" where
  "mentions_sys [] \<longleftrightarrow> False"
| "mentions_sys (c # cs) \<longleftrightarrow>
     (case after ''sys:'' (c # cs) of None \<Rightarrow> False
      | Some r \<Rightarrow> starts_with ''call'' (lstrip r) \<or> starts_with ''raw'' (lstrip r)) \<or>
     mentions_sys cs"

definition syscall_note :: lint where
  "syscall_note = (''note'', ''syscalls use Linux x86-64 ABI: rax=nr, args rdi rsi rdx r10 r8 r9 '' @
     ''(reg1/reg6/reg5/reg4/reg9/reg7/reg8 '' @ EM_DASH @ '' see docs/CONTRACT.md)'')"

text \<open>The first of equal findings stays.\<close>

fun uniq :: "'a list \<Rightarrow> 'a list \<Rightarrow> 'a list" where
  "uniq seen [] = []"
| "uniq seen (x # xs) = (if x \<in> set seen then uniq seen xs else x # uniq (x # seen) xs)"

definition analyze_source :: "string \<Rightarrow> lint list" where
  "analyze_source src =
    (let (out, lows) = lint_lines 1 (lines_of src) in
     uniq [] (out @ alias_lints lows @ (if mentions_sys (py_lower src) then [syscall_note] else [])))"

subsection \<open>Reports\<close>

definition severity_rank :: "string \<Rightarrow> nat" where
  "severity_rank s = (if s = ''error'' then 0 else if s = ''warning'' then 1 else if s = ''note'' then 2 else 9)"

definition severity_tag :: "string \<Rightarrow> string" where
  "severity_tag s = (if s = ''error'' then ''ERROR'' else if s = ''warning'' then ''WARN''
     else if s = ''note'' then ''NOTE'' else s)"

definition format_warnings :: "lint list \<Rightarrow> string" where
  "format_warnings ws =
    joined [char_of (10 :: nat)] (map (\<lambda>(sev, msg). ''[ACLM strict '' @ severity_tag sev @ ''] '' @ msg)
      (sort_key (severity_rank \<circ> fst) ws))"

definition has_errors :: "lint list \<Rightarrow> bool" where
  "has_errors ws = list_ex (\<lambda>(s, _). s = ''error'') ws"

subsection \<open>When the lint refuses a file\<close>

lemma set_uniq: "set (uniq seen xs) = set xs - set seen"
  by (induction xs arbitrary: seen) auto

lemma distinct_uniq: "distinct (uniq seen xs)"
  by (induction xs arbitrary: seen) (auto simp: set_uniq)

lemma has_errors_iff: "has_errors ws \<longleftrightarrow> (\<exists>msg. (''error'', msg) \<in> set ws)"
  by (auto simp: has_errors_def list_ex_iff)

lemma line_error_iff: "(\<exists>msg. (''error'', msg) \<in> set (line_lints i low)) \<longleftrightarrow> shift_error low"
  by (auto simp: line_lints_def)

lemma lint_lines_error:
  "(\<exists>msg. (''error'', msg) \<in> set (fst (lint_lines i ls))) \<longleftrightarrow>
     (\<exists>l \<in> set ls. shift_error (lowered l))"
proof (induction ls arbitrary: i)
  case (Cons l ls)
  have "\<not> shift_error []" by code_simp
  then show ?case
    using Cons [of "i + 1"] line_error_iff [of i "lowered l"]
    by (auto simp: Let_def split: prod.splits)
qed simp

lemma analyze_source_errors:
  "has_errors (analyze_source src) \<longleftrightarrow> (\<exists>l \<in> set (lines_of src). shift_error (lowered l))"
proof -
  have "(''error'', msg) \<notin> set (alias_lints lows)" "(''error'', msg) \<noteq> syscall_note" for msg lows
    by (auto simp: alias_lints_def alias_lint_def syscall_note_def)
  then have "has_errors (analyze_source src) \<longleftrightarrow> (\<exists>msg. (''error'', msg) \<in> set (fst (lint_lines 1 (lines_of src))))"
    by (cases "lint_lines 1 (lines_of src)") (auto simp: has_errors_iff analyze_source_def set_uniq)
  then show ?thesis by (simp add: lint_lines_error)
qed

end
