(* ===== verification/Expand.thy ===== *)
theory Expand
  imports Text
begin

section \<open>Macros and local labels (ACLM/compiler.py)\<close>

text \<open>
  \<open>expand_macros\<close> and \<open>expand_local_labels\<close> on source text. A line keeps its line end. The regular
  expressions are written out as scanners: \<open>\s\<close> is \<open>py_is_space\<close>, \<open>\w\<close> is \<open>is_word\<close>. The dictionary of
  macros is an association list; \<open>call_counter\<close> is threaded through the passes.
\<close>

subsection \<open>Scanners\<close>

text \<open>\<open>\s*([A-Za-z_]\w*)\<close>: the name and the rest.\<close>

definition scan_name :: "string \<Rightarrow> (string \<times> string) option" where
  "scan_name s = (let t = lstrip s in
     if is_hd is_name_start t then Some (takeWhile is_word t, dropWhile is_word t) else None)"

text \<open>\<open>^\s*macro:\s*([A-Za-z_]\w*)\s*(.*)$\<close> with the arguments split.\<close>

definition macro_header :: "string \<Rightarrow> (string \<times> string list) option" where
  "macro_header line =
    (case after ''macro:'' (lstrip line) of None \<Rightarrow> None
     | Some r \<Rightarrow> map_option (\<lambda>(name, t). (name, py_split t)) (scan_name r))"

text \<open>\<open>^\s*end:macro\s*$\<close>.\<close>

definition is_macro_end :: "string \<Rightarrow> bool" where
  "is_macro_end line =
    (case after ''end:macro'' (lstrip line) of None \<Rightarrow> False | Some r \<Rightarrow> list_all py_is_space r)"

text \<open>The line without its final newline.\<close>

definition chomp :: "string \<Rightarrow> string" where
  "chomp s = (if s \<noteq> [] \<and> ord (last s) = 10 then butlast s else s)"

text \<open>\<open>\s+(.+?)\s*$\<close> behind the name: the shortest text up to trailing blanks. When only blanks
  follow, two of them (before a newline) still match, and the group is the last one.\<close>

definition call_args :: "string \<Rightarrow> string option" where
  "call_args r =
    (let w = takeWhile py_is_space r; t = dropWhile py_is_space r in
     if t \<noteq> [] then (if w \<noteq> [] then Some (rstrip t) else None)
     else (let c = chomp w in if 2 \<le> length c then Some [last c] else None))"

text \<open>A line that may call a macro: the name and, in the first form, the argument text.\<close>

definition invocation :: "string \<Rightarrow> (string \<times> string option) option" where
  "invocation line =
    (case scan_name line of None \<Rightarrow> None
     | Some (name, r) \<Rightarrow> (case call_args r of
         Some a \<Rightarrow> Some (name, Some a)
       | None \<Rightarrow> if list_all py_is_space r then Some (name, None) else None))"

text \<open>\<open>~@([A-Za-z_]\w*)\<close> at the front.\<close>

definition local_ref :: "string \<Rightarrow> (string \<times> string) option" where
  "local_ref s =
    (case after ''~@'' s of None \<Rightarrow> None
     | Some r \<Rightarrow> if is_hd is_name_start r then Some (takeWhile is_word r, dropWhile is_word r) else None)"

lemma local_ref_length: "local_ref s = Some (name, r) \<Longrightarrow> length r < length s"
  by (auto simp: local_ref_def after_Some_iff dropWhile_length less_Suc_eq_le le_SucI
      split: option.splits if_splits)

text \<open>\<open>re.sub\<close> with that pattern.\<close>

function sub_local :: "(string \<Rightarrow> string) \<Rightarrow> string \<Rightarrow> string" where
  "sub_local f [] = []"
| "sub_local f (c # cs) =
    (case local_ref (c # cs) of
       Some (name, r) \<Rightarrow> f name @ sub_local f r
     | None \<Rightarrow> c # sub_local f cs)"
  by pat_completeness auto

termination
  by (relation "measure (\<lambda>(_, s). length s)") (auto dest: local_ref_length)

subsection \<open>Definitions of macros\<close>

type_synonym macros = "(string \<times> string list \<times> string list) list"

fun macro_body :: "string list \<Rightarrow> (string list \<times> string list) option" where
  "macro_body [] = None"
| "macro_body (l # ls) =
    (if is_macro_end l then Some ([], ls)
     else map_option (\<lambda>(body, rest). (l # body, rest)) (macro_body ls))"

lemma macro_body_length: "macro_body ls = Some (body, rest) \<Longrightarrow> length rest < length ls"
  by (induction ls arbitrary: body rest) (fastforce split: if_splits)+

function parse_defs :: "macros \<Rightarrow> string list \<Rightarrow> (macros \<times> string list) res" where
  "parse_defs ms [] = Inr (ms, [])"
| "parse_defs ms (l # ls) =
    (case macro_header l of
       None \<Rightarrow> bindE (parse_defs ms ls) (\<lambda>(ms', out). Inr (ms', l # out))
     | Some (name, ars) \<Rightarrow>
         (case macro_body ls of
            None \<Rightarrow> Inl (SystemStop ''missing end:macro'')
          | Some (body, rest) \<Rightarrow> parse_defs (AList.update name (ars, body) ms) rest))"
  by pat_completeness auto

termination
  by (relation "measure (\<lambda>(_, ls). length ls)") (auto dest: macro_body_length)

subsection \<open>Expansion\<close>

definition mark :: "nat \<Rightarrow> string \<Rightarrow> string" where
  "mark k name = ''~@'' @ name @ ''__m'' @ show_nat k"

text \<open>\<open>dict(zip(argnames, vals))\<close>.\<close>

definition py_dict :: "(string \<times> string) list \<Rightarrow> (string \<times> string) list" where
  "py_dict kvs = foldl (\<lambda>d (k, v). AList.update k v d) [] kvs"

definition subst_args :: "(string \<times> string) list \<Rightarrow> string \<Rightarrow> string" where
  "subst_args d l = foldl (\<lambda>l (k, v). replace_all (CHR ''$'' # k) v l) l d"

definition arg_values :: "string \<Rightarrow> string list" where
  "arg_values a = words_by (\<lambda>c. c = CHR '','' \<or> py_is_space c) [] a"

text \<open>The lines a line expands to as call number \<open>k\<close>; \<open>None\<close>: not a call of a macro.\<close>

definition expand_line :: "macros \<Rightarrow> nat \<Rightarrow> string \<Rightarrow> string list option res" where
  "expand_line ms k line =
    (case invocation line of
       None \<Rightarrow> Inr None
     | Some (name, a) \<Rightarrow>
         (case map_of ms name of
            None \<Rightarrow> Inr None
          | Some (argnames, body) \<Rightarrow>
              (case a of
                 None \<Rightarrow> Inr (Some (map (sub_local (mark k)) body))
               | Some a \<Rightarrow>
                   (let vals = arg_values a in
                    if length vals < length argnames then Inl (SystemStop ''macro arguments'')
                    else Inr (Some (map (\<lambda>bl. sub_local (mark k)
                      (subst_args (py_dict (zip argnames vals)) bl)) body))))))"

text \<open>One pass over the lines: the counter, whether anything was expanded, the new lines.\<close>

fun one_pass :: "macros \<Rightarrow> nat \<Rightarrow> string list \<Rightarrow> (nat \<times> bool \<times> string list) res" where
  "one_pass ms k [] = Inr (k, False, [])"
| "one_pass ms k (l # ls) =
    bindE (expand_line ms (k + 1) l) (\<lambda>x. case x of
      None \<Rightarrow> bindE (one_pass ms k ls) (\<lambda>(k', any, out). Inr (k', any, l # out))
    | Some new \<Rightarrow> bindE (one_pass ms (k + 1) ls) (\<lambda>(k', _, out). Inr (k', True, new @ out)))"

fun expand_passes :: "nat \<Rightarrow> macros \<Rightarrow> nat \<Rightarrow> string list \<Rightarrow> string list res" where
  "expand_passes 0 ms k lines = Inl (SystemStop ''macro expansion did not terminate'')"
| "expand_passes (Suc n) ms k lines =
    bindE (one_pass ms k lines) (\<lambda>(k', any, out). if any then expand_passes n ms k' out else Inr out)"

definition MAX_PASSES :: nat where
  "MAX_PASSES = 64"

definition expand_macros :: "string \<Rightarrow> string res" where
  "expand_macros src =
    bindE (parse_defs [] (splitlines src)) (\<lambda>(ms, lines).
      bindE (expand_passes MAX_PASSES ms 0 lines) (\<lambda>out. Inr (concat out)))"

subsection \<open>Local labels\<close>

definition loc_label :: "nat \<Rightarrow> string \<Rightarrow> string" where
  "loc_label k name = ''__loc'' @ show_nat k @ CHR ''_'' # name"

function local_labels :: "(string \<times> string) list \<Rightarrow> string \<Rightarrow> string" where
  "local_labels mp [] = []"
| "local_labels mp (c # cs) =
    (case local_ref (c # cs) of
       None \<Rightarrow> c # local_labels mp cs
     | Some (name, r) \<Rightarrow>
         (case map_of mp name of
            Some t \<Rightarrow> CHR ''~'' # t @ local_labels mp r
          | None \<Rightarrow> (let t = loc_label (length mp + 1) name in
              CHR ''~'' # t @ local_labels (mp @ [(name, t)]) r)))"
  by pat_completeness auto

termination
  by (relation "measure (\<lambda>(_, s). length s)") (auto dest: local_ref_length)

definition expand_local_labels :: "string \<Rightarrow> string" where
  "expand_local_labels src = local_labels [] src"

subsection \<open>What the passes leave\<close>

definition is_call :: "macros \<Rightarrow> string \<Rightarrow> bool" where
  "is_call ms line \<longleftrightarrow>
    (case invocation line of None \<Rightarrow> False | Some (name, _) \<Rightarrow> map_of ms name \<noteq> None)"

lemma expand_line_None: "expand_line ms k line = Inr None \<longleftrightarrow> \<not> is_call ms line"
  by (auto simp: expand_line_def is_call_def Let_def split: option.splits)

lemma one_pass_idle:
  "one_pass ms k ls = Inr (k', False, out) \<Longrightarrow> out = ls \<and> list_all (\<lambda>l. \<not> is_call ms l) ls"
  by (induction ls arbitrary: k k' out)
    (auto simp: bindE_Inr_iff expand_line_None split: option.splits)

lemma one_pass_no_call:
  "list_all (\<lambda>l. \<not> is_call ms l) ls \<Longrightarrow> one_pass ms k ls = Inr (k, False, ls)"
  by (induction ls arbitrary: k) (simp_all add: expand_line_None [THEN iffD2])

lemma expand_passes_done:
  "expand_passes n ms k lines = Inr out \<Longrightarrow> list_all (\<lambda>l. \<not> is_call ms l) out"
proof (induction n arbitrary: k lines)
  case (Suc n)
  then obtain k' any new where "one_pass ms k lines = Inr (k', any, new)"
      "(if any then expand_passes n ms k' new else Inr new) = Inr out"
    by (auto simp: bindE_Inr_iff)
  then show ?case using Suc.IH [of k' new] one_pass_idle [of ms k lines k' new] by (cases any) auto
qed simp

lemma parse_defs_plain:
  "list_all (\<lambda>l. macro_header l = None) ls \<Longrightarrow> parse_defs ms ls = Inr (ms, ls)"
  by (induction ls) auto

lemma expand_macros_plain:
  assumes "list_all (\<lambda>l. macro_header l = None) (splitlines src)"
  shows "expand_macros src = Inr src"
proof -
  have "list_all (\<lambda>l. \<not> is_call [] l) (splitlines src)"
    by (simp add: list_all_iff is_call_def split: option.split)
  then show ?thesis
    using assms by (simp add: expand_macros_def parse_defs_plain MAX_PASSES_def eval_nat_numeral one_pass_no_call)
qed

subsection \<open>Labels of different calls and names differ\<close>

lemma digits_prefix_unique:
  assumes "list_all is_digit xs" "list_all is_digit ys" "xs @ c # us = ys @ d # vs"
    and "\<not> is_digit c" "\<not> is_digit d"
  shows "xs = ys \<and> us = vs"
  using assms
proof (induction xs arbitrary: ys)
  case Nil
  then show ?case by (cases ys) auto
next
  case (Cons x xs)
  then show ?case by (cases ys) auto
qed

lemma no_digit_chars: "\<not> is_digit CHR ''_''" "\<not> is_digit CHR ''m''"
  by code_simp+

lemma loc_label_inject: "loc_label k n = loc_label l m \<longleftrightarrow> k = l \<and> n = m"
proof
  assume "loc_label k n = loc_label l m"
  then have "show_nat k @ CHR ''_'' # n = show_nat l @ CHR ''_'' # m" by (simp add: loc_label_def)
  then show "k = l \<and> n = m"
    using digits_prefix_unique [OF _ _ _ no_digit_chars(1) no_digit_chars(1)] show_nat_digits
      show_nat_inject by metis
qed simp

lemma mark_inject: "mark k n = mark l m \<longleftrightarrow> k = l \<and> n = m"
proof
  assume "mark k n = mark l m"
  then have e: "n @ ''__m'' @ show_nat k = m @ ''__m'' @ show_nat l" by (simp add: mark_def)
  have r: "rev (a @ ''__m'' @ b) = rev b @ CHR ''m'' # ''__'' @ rev a" for a b by simp
  have "rev (show_nat k) @ CHR ''m'' # ''__'' @ rev n = rev (show_nat l) @ CHR ''m'' # ''__'' @ rev m"
    unfolding r [symmetric] by (rule arg_cong [OF e])
  moreover have "list_all is_digit (rev (show_nat j))" for j
    using show_nat_digits [of j] by (simp add: list_all_iff)
  ultimately have "rev (show_nat k) = rev (show_nat l)"
    using digits_prefix_unique [OF _ _ _ no_digit_chars(2) no_digit_chars(2)] by metis
  then have "k = l" by (simp add: show_nat_inject)
  with e show "k = l \<and> n = m" by simp
qed simp

subsection \<open>Local labels are renamed consistently\<close>

definition renaming :: "(string \<times> string) list \<Rightarrow> bool" where
  "renaming mp \<longleftrightarrow> (\<forall>(n, t) \<in> set mp. \<exists>k. t = loc_label k n)"

lemma local_labels_renaming:
  "renaming mp \<Longrightarrow> \<exists>mp'. renaming mp' \<and> map_of mp \<subseteq>\<^sub>m map_of mp' \<and>
     (\<forall>mp''. map_of mp' \<subseteq>\<^sub>m mp'' \<longrightarrow>
       local_labels mp s = sub_local (\<lambda>n. CHR ''~'' # the (mp'' n)) s)"
proof (induction mp s rule: local_labels.induct)
  case (1 mp)
  then show ?case by (intro exI [of _ mp]) simp
next
  case (2 mp c cs)
  show ?case
  proof (cases "local_ref (c # cs)")
    case None
    with 2(1) [OF None 2(4)] show ?thesis by auto
  next
    case (Some nr)
    obtain n r where nr: "nr = (n, r)" by fastforce
    show ?thesis
    proof (cases "map_of mp n")
      case (Some t)
      obtain mp' where mp': "renaming mp'" "map_of mp \<subseteq>\<^sub>m map_of mp'"
        "\<And>mp''. map_of mp' \<subseteq>\<^sub>m mp'' \<Longrightarrow> local_labels mp r = sub_local (\<lambda>n. CHR ''~'' # the (mp'' n)) r"
        using 2(3) [OF \<open>local_ref (c # cs) = Some nr\<close> nr [symmetric] Some 2(4)] by blast
      have "the (mp'' n) = t" if "map_of mp' \<subseteq>\<^sub>m mp''" for mp''
        using mp'(2) that Some by (metis domI map_le_def option.sel)
      then show ?thesis
        using mp' \<open>local_ref (c # cs) = Some nr\<close> nr Some by (intro exI [of _ mp']) auto
    next
      case None
      let ?t = "loc_label (length mp + 1) n"
      have "renaming (mp @ [(n, ?t)])" using 2(4) by (auto simp: renaming_def)
      from 2(2) [OF \<open>local_ref (c # cs) = Some nr\<close> nr [symmetric] None refl this]
      obtain mp' where mp': "renaming mp'" "map_of (mp @ [(n, ?t)]) \<subseteq>\<^sub>m map_of mp'"
        "\<And>mp''. map_of mp' \<subseteq>\<^sub>m mp'' \<Longrightarrow>
          local_labels (mp @ [(n, ?t)]) r = sub_local (\<lambda>n. CHR ''~'' # the (mp'' n)) r"
        by blast
      have n: "map_of (mp @ [(n, ?t)]) n = Some ?t" using None by (simp add: map_add_def)
      have "map_of mp \<subseteq>\<^sub>m map_of (mp @ [(n, ?t)])" by (auto simp: map_le_def)
      then have "map_of mp \<subseteq>\<^sub>m map_of mp'" using mp'(2) by (rule map_le_trans)
      have "local_labels mp (c # cs) = sub_local (\<lambda>n. CHR ''~'' # the (mp'' n)) (c # cs)"
        if le: "map_of mp' \<subseteq>\<^sub>m mp''" for mp''
      proof -
        have "mp'' n = Some ?t" using map_le_trans [OF mp'(2) le] n by (metis domI map_le_def)
        then show ?thesis using mp'(3) [OF le] \<open>local_ref (c # cs) = Some nr\<close> None by (simp add: nr Let_def)
      qed
      with mp'(1) \<open>map_of mp \<subseteq>\<^sub>m map_of mp'\<close> show ?thesis by blast
    qed
  qed
qed

lemma expand_local_labels_sub:
  "\<exists>pos. expand_local_labels src = sub_local (\<lambda>n. CHR ''~'' # loc_label (pos n) n) src"
proof -
  have "renaming []" by (simp add: renaming_def)
  from local_labels_renaming [OF this, of src]
  obtain mp where mp: "renaming mp" and l: "\<And>mp''. map_of mp \<subseteq>\<^sub>m mp'' \<Longrightarrow>
      expand_local_labels src = sub_local (\<lambda>n. CHR ''~'' # the (mp'' n)) src"
    unfolding expand_local_labels_def by blast
  have "\<exists>k. \<forall>t. map_of mp n = Some t \<longrightarrow> t = loc_label k n" for n
    using mp by (cases "map_of mp n") (auto simp: renaming_def dest!: map_of_SomeD)
  then obtain pos where pos: "\<And>n t. map_of mp n = Some t \<Longrightarrow> t = loc_label (pos n) n" by metis
  have "map_of mp \<subseteq>\<^sub>m (\<lambda>n. Some (loc_label (pos n) n))"
    using pos by (auto simp: map_le_def)
  from l [OF this] show ?thesis by auto
qed

end
