(* ===== verification/Listing.thy ===== *)
theory Listing
  imports Codegen
begin

section \<open>The listing (ACLM/codegen.py, \<open>_build_listing\<close> and \<open>_teach_mnemonic\<close>)\<close>

text \<open>
  The lines of the \<open>.lst\<close> file: remarks, in teaching mode the code of every statement with a
  comment, and the dump of the code. Strings are UTF-8 bytes, so the arrow and the dash of the
  comments are three characters each. Frame diagrams, which no code fills, are left out.
\<close>

subsection \<open>Hexadecimal text\<close>

text \<open>\<open>f"{b:02x}"\<close>, \<open>f"{i:08x}"\<close>, and a line of the dump.\<close>

definition hex_byte :: "byte \<Rightarrow> string" where
  "hex_byte b = zero_padded 2 (hex_nat (unat b))"

definition hex_bytes :: "bytes \<Rightarrow> string" where
  "hex_bytes bs = joined '' '' (map hex_byte bs)"

definition dump_line :: "nat \<Rightarrow> bytes \<Rightarrow> string" where
  "dump_line i bs = zero_padded 8 (hex_nat i) @ '': '' @ hex_bytes bs"

function dump_from :: "nat \<Rightarrow> bytes \<Rightarrow> string list" where
  "dump_from i [] = []"
| "dump_from i (b # bs) = dump_line i (take 16 (b # bs)) # dump_from (i + 16) (drop 16 (b # bs))"
  by pat_completeness auto

termination
  by (relation "measure (length \<circ> snd)") auto

subsection \<open>Comments on the code of a statement\<close>

definition long_dash :: string where
  "long_dash = [CHR 0xE2, CHR 0x80, CHR 0x94]"

definition right_arrow :: string where
  "right_arrow = [CHR 0xE2, CHR 0x86, CHR 0x92]"

definition mnemonic_table :: "(string \<times> string) list" where
  "mnemonic_table = [
    (''CpuBin'', ''alu/mov (cpu:set/add/sub/...)''), (''CpuUnary'', ''unary (inc/dec/not/neg)''),
    (''CpuTest'', ''test r64, r64  (flags only)''), (''CpuCmov'', ''cmovcc r64, r64''),
    (''CpuLea'', ''lea r64, [mem]''), (''Cmp'', ''cmp r64, r64''), (''JumpIf'', ''jcc rel32''),
    (''Goto'', ''jmp rel32''), (''Label'', ''(label '' @ long_dash @ '' no bytes)''),
    (''SysCall'', ''mov eax,imm ; syscall''), (''Call'', ''call rel32''), (''Ret'', ''ret''),
    (''RetVal'', ''mov rax, val ; ret''), (''MemLoad'', ''mov r64, [mem]''),
    (''MemStore'', ''mov [mem], r64''), (''StackPush'', ''push r64''), (''StackPop'', ''pop r64''),
    (''RawBytes'', ''raw bytes (exact opcodes)''), (''CellMap'', ''syscall mmap''),
    (''CellFree'', ''syscall munmap''), (''FlagSetcc'', ''setcc + zext  |  flags:READ''),
    (''FlagsClear'', ''cld | DF:=0''), (''FlagsSetDF'', ''std | DF:=1''), (''CpuMovExt'', ''movzx/movsx''),
    (''DataBytes'', ''data bytes in .data''),
    (''MetalRegs'', ''(regs map '' @ long_dash @ '' listing only)''),
    (''MetalDeterministic'', ''(deterministic mode)''), (''CpuLeaRip'', ''lea r64, [rip+label]''),
    (''CpuLeaAbs'', ''movabs r64, imm64 (abs)''), (''AssertBytes'', ''(compile-time size assert)''),
    (''AssertSize'', ''(compile-time size assert)'')]"

text \<open>What the first bytes of the code look like; empty when nothing is recognised.\<close>

definition rex_guess :: "bytes \<Rightarrow> string" where
  "rex_guess chunk =
    (let b1 = chunk ! 1 in
     if b1 = 0x89 then ''REX mov r/r'' else if b1 = 0x8B then ''REX mov r/m''
     else if b1 = 0x01 then ''REX add'' else if b1 = 0x29 then ''REX sub''
     else if b1 = 0x85 then ''REX test'' else if b1 = 0x39 then ''REX cmp''
     else if b1 = 0x8D then ''REX lea''
     else if b1 = 0x0F \<and> length chunk > 2 then ''0F '' @ hex_byte (chunk ! 2) @ '' (cmov/jcc/...)''
     else [])"

definition opcode_guess :: "bytes \<Rightarrow> string" where
  "opcode_guess chunk =
    (let b0 = hd chunk in
     if b0 \<in> set [0x48, 0x49, 0x4C, 0x4D] \<and> length chunk > 1 then rex_guess chunk
     else if b0 = 0xB8 then ''mov eax, imm32''
     else if 0xB8 \<le> b0 \<and> b0 < 0xC0 then ''mov r32, imm32''
     else if b0 = 0xE8 then ''call rel32'' else if b0 = 0xE9 then ''jmp rel32''
     else if b0 = 0x0F \<and> length chunk > 1 \<and> chunk ! 1 \<in> set [0x84, 0x85, 0x8C, 0x8D, 0x8E, 0x8F]
       then ''jcc rel32''
     else if b0 = 0xC3 then ''ret'' else if b0 = 0x55 then ''push rbp''
     else if b0 = 0xC9 then ''leave'' else [])"

definition teach_mnemonic :: "string \<Rightarrow> bytes \<Rightarrow> string" where
  "teach_mnemonic hint chunk =
    (let base = (case map_of mnemonic_table hint of Some m \<Rightarrow> m | None \<Rightarrow> hint) in
     if chunk = [] then base
     else (let extra = opcode_guess chunk in if extra \<noteq> [] then base @ ''  |  '' @ extra else base))"

subsection \<open>The lines\<close>

definition struct_line :: "string \<times> struct_info \<Rightarrow> string" where
  "struct_line = (\<lambda>(sn, si). ''; struct '' @ sn @ '' size='' @ show_int (si_size si) @ '': '' @
     joined '', '' (map (\<lambda>(f, off). f @ ''@+'' @ show_int off) (si_fields si)))"

definition listing_head :: "gen \<Rightarrow> string list" where
  "listing_head g =
    [''; ACLM listing'' @ (if teach_mode (g_listing g) then '' [TEACH]'' else []),
     ''; virtual'' @ right_arrow @ ''physical: reg1=rax reg2=rbx reg3=rcx reg4=rdx reg5=rsi reg6=rdi'',
     '';   reg7=r8 reg8=r9 reg9=r10 reg10=r11 reg11=r12 reg12=r13 reg13=r14 SCRATCH=r15'',
     ''; flags: ADD/SUB/CMP/TEST write SZAPC; MOV/LEA/MOVZX intact; SETcc reads flags''] @
    (if g_deterministic g then [''; mode: deterministic encodings''] else []) @
    map (\<lambda>h. ''; '' @ h) (section_hints (g_listing g)) @
    map struct_line (structs g)"

text \<open>The statements with the start and the end of their code, and their lines.\<close>

fun teach_spans :: "nat \<Rightarrow> (int \<times> string \<times> nat) list \<Rightarrow> (int \<times> string \<times> nat \<times> nat) list" where
  "teach_spans n [] = []"
| "teach_spans n [(ln, hint, start)] = [(ln, hint, start, n)]"
| "teach_spans n ((ln, hint, start) # (ln', hint', start') # ts) =
    (ln, hint, start, start') # teach_spans n ((ln', hint', start') # ts)"

definition span_lines :: "bytes \<Rightarrow> int \<times> string \<times> nat \<times> nat \<Rightarrow> string list" where
  "span_lines code_b = (\<lambda>(ln, hint, start, stop).
     if stop \<le> start then []
     else (let chunk = slice start (stop - start) code_b; mnem = teach_mnemonic hint chunk in
       [''; L'' @ show_int ln @ ''  '' @ hint, dump_line start chunk] @
       (if mnem \<noteq> [] then [''         ; '' @ right_arrow @ '' '' @ mnem] else [])))"

definition teach_lines :: "gen \<Rightarrow> bytes \<Rightarrow> string list" where
  "teach_lines g code_b =
    (let l = g_listing g in
     if teach_mode l \<and> teach_map l \<noteq> []
     then concat (map (span_lines code_b) (teach_spans (length code_b) (teach_map l))) @
       ['';'', ''; --- full hex dump ---'']
     else [])"

definition build_listing :: "gen \<Rightarrow> bytes \<Rightarrow> string list" where
  "build_listing g code_b = listing_head g @ teach_lines g code_b @ dump_from 0 code_b"

text \<open>The generator as \<open>compile_source\<close> sets it up.\<close>

definition settings :: "bool \<Rightarrow> bool \<Rightarrow> bool \<Rightarrow> bool \<Rightarrow> gen" where
  "settings lst debug wx teach =
    init_gen\<lparr>use_wx := wx, debug_dwarf := debug,
      g_listing := no_listing\<lparr>emit_listing := lst \<or> teach, teach_mode := teach\<rparr>\<rparr>"

lemma settings_off: "settings False d w False = init_gen\<lparr>use_wx := w, debug_dwarf := d\<rparr>"
  by (simp add: settings_def init_gen_def no_listing_def)

text \<open>\<open>generate\<close> with the lines it leaves in \<open>_listing_lines\<close>.\<close>

definition generate_listed :: "program \<Rightarrow> gen \<Rightarrow> (bytes \<times> string list) res" where
  "generate_listed stmts g0 =
    bindE (generate_code stmts g0) (\<lambda>g. bindE (write_image g) (\<lambda>blob.
      let l = g_listing g in
      Inr (blob, if emit_listing l \<or> teach_mode l then build_listing g (code (g_asm g)) else [])))"

end
