(* ===== verification/Driver.thy ===== *)
theory Driver
  imports Includes Strict Parser Expand Listing
begin

section \<open>The compiler driver (ACLM/compiler.py)\<close>

text \<open>
  From source text to the file: \<open>compile_source\<close>, then \<open>compile_file\<close>, \<open>check_file\<close>, \<open>run_file\<close> and
  \<open>main\<close> with the command line. What a run writes is part of its outcome: the path and the bytes of
  the built file, and the text of the lint it prints. The files written next to it, the listing and
  the symbol map of a \<open>-g\<close> build, are \<open>side_files\<close>. Other messages are not modelled.
\<close>

subsection \<open>\<open>compile_source\<close>\<close>

definition source_tokens :: "env \<Rightarrow> string \<Rightarrow> string \<Rightarrow> tok list res" where
  "source_tokens E src filename =
    bindE (resolve_includes E src filename) (\<lambda>s.
      bindE (expand_macros s) (\<lambda>s'. tokenize (expand_local_labels s')))"

definition source_program :: "env \<Rightarrow> string \<Rightarrow> string \<Rightarrow> program res" where
  "source_program E src filename = bindE (source_tokens E src filename) parse"

definition compile_source :: "env \<Rightarrow> string \<Rightarrow> string \<Rightarrow> bool \<Rightarrow> bool \<Rightarrow> bool \<Rightarrow> bool \<Rightarrow> bytes res" where
  "compile_source E src filename lst debug wx teach =
    bindE (source_program E src filename) (\<lambda>program. generate program (settings lst debug wx teach))"

text \<open>The listing \<open>compile_source\<close> writes when it returns: path and text.\<close>

definition listing_file :: "env \<Rightarrow> string \<Rightarrow> string \<Rightarrow> bool \<Rightarrow> bool \<Rightarrow> bool \<Rightarrow> bool \<Rightarrow> (string \<times> string) list" where
  "listing_file E src filename lst debug wx teach =
    (case bindE (source_program E src filename) (\<lambda>program. generate_listed program (settings lst debug wx teach)) of
       Inl _ \<Rightarrow> []
     | Inr (blob, lines) \<Rightarrow>
         if (lst \<or> teach) \<and> lines \<noteq> []
         then [((if filename \<noteq> ''<src>'' then filename else ''out'') @ ''.lst'', joined [newline] lines @ [newline])]
         else [])"

subsection \<open>\<open>compile_file\<close> and \<open>check_file\<close>\<close>

text \<open>What a run ends with: a written file, a return value, \<open>sys.exit\<close> or \<open>SystemExit\<close> with a number,
  or an exception that passes through.\<close>

datatype outcome =
    Built string bytes
  | Returned int
  | Exited int
  | NoFile string
  | BadIndex
  | Raised error

text \<open>Printed lint reports and the outcome.\<close>

type_synonym run = "string list \<times> outcome"

definition is_mode_line :: "string \<Rightarrow> bool" where
  "is_mode_line l = (let s = py_lower (py_strip l) in starts_with ''@mode:'' s \<or> starts_with ''mode:'' s)"

definition without_modes :: "string \<Rightarrow> string" where
  "without_modes src = joined [newline] (filter (\<lambda>l. \<not> is_mode_line l) (lines_of src))"

definition reported :: "lint list \<Rightarrow> string list" where
  "reported ws = (let text = format_warnings ws in if text = [] then [] else [text])"

text \<open>The exceptions both commands turn into exit status 1.\<close>

definition handled :: "error \<Rightarrow> bool" where
  "handled e \<longleftrightarrow> py_class e \<in> set [SyntaxError, CodegenError, ValueError]"

text \<open>\<open>os.path.splitext(p)[0]\<close> of a name without slashes: leading dots belong to the name.\<close>

definition stem :: "string \<Rightarrow> string" where
  "stem p = (let h = rev (dropWhile (\<lambda>c. c \<noteq> CHR ''.'') (rev p)) in
     if h = [] \<or> list_all (\<lambda>c. c = CHR ''.'') h then p else butlast h)"

definition out_name :: "string option \<Rightarrow> string \<Rightarrow> string" where
  "out_name out_path path =
    (case out_path of Some o' \<Rightarrow> if o' \<noteq> [] then o' else ''./'' @ stem (basename path)
     | None \<Rightarrow> ''./'' @ stem (basename path))"

record options =
  opt_debug :: bool
  opt_wx :: bool
  opt_strict :: bool
  opt_warn :: bool
  opt_listing :: bool
  opt_teach :: bool

definition build_source :: "env \<Rightarrow> string \<Rightarrow> string \<Rightarrow> string option \<Rightarrow> options \<Rightarrow> outcome" where
  "build_source E src path out_path opt =
    (case compile_source E src path (opt_listing opt) (opt_debug opt) (opt_wx opt) (opt_teach opt) of
       Inl e \<Rightarrow> if handled e then Exited 1 else Raised e
     | Inr blob \<Rightarrow> Built (out_name out_path path) blob)"

definition compile_file :: "env \<Rightarrow> string \<Rightarrow> string option \<Rightarrow> options \<Rightarrow> run" where
  "compile_file E path out_path opt =
    (case map_of (files E) path of None \<Rightarrow> ([], NoFile path)
     | Some text \<Rightarrow>
         (let src = without_modes text in
          if opt_strict opt \<or> opt_warn opt then
            (case (if contains ''include:'' src then resolve_includes E src path else Inr src) of
               Inl e \<Rightarrow> ([], Raised e)
             | Inr expanded \<Rightarrow>
                 (let ws = analyze_source expanded in
                  if opt_strict opt \<and> has_errors ws then (reported ws, Exited 2)
                  else (reported ws, build_source E src path out_path opt)))
          else ([], build_source E src path out_path opt)))"

definition check_file :: "env \<Rightarrow> string \<Rightarrow> bool \<Rightarrow> bool \<Rightarrow> run" where
  "check_file E path strict warn =
    (case map_of (files E) path of None \<Rightarrow> ([], NoFile path)
     | Some src \<Rightarrow>
         (case compile_source E src path False False False False of
            Inl e \<Rightarrow> ([], if handled e then Returned 1 else Raised e)
          | Inr _ \<Rightarrow>
              if strict \<or> warn then
                (case resolve_includes E src path of Inl e \<Rightarrow> ([], Raised e)
                 | Inr expanded \<Rightarrow>
                     (let ws = analyze_source expanded in
                      (reported ws, if strict \<and> has_errors ws then Returned 2 else Returned 0)))
              else ([], Returned 0)))"

text \<open>The symbol map of a \<open>-g\<close> build: the text of the file from the name of the symbol table on. The
  bytes are read as Latin-1 and written as UTF-8.\<close>

definition latin1_as_utf8 :: "byte \<Rightarrow> string" where
  "latin1_as_utf8 b =
    (let n = unat b in
     if n < 128 then [char_of n] else [char_of (192 + n div 64), char_of (128 + n mod 64)])"

fun from_first :: "bytes \<Rightarrow> bytes \<Rightarrow> bytes option" where
  "from_first p [] = None"
| "from_first p (b # bs) = (if take (length p) (b # bs) = p then Some (b # bs) else from_first p bs)"

definition map_text :: "bytes \<Rightarrow> string option" where
  "map_text blob =
    (case from_first (encode_str ''.symtab'') blob of None \<Rightarrow> None
     | Some bs \<Rightarrow> Some (concat (map latin1_as_utf8 (take 4000 bs))))"

text \<open>The files a build writes besides its output.\<close>

definition side_files :: "env \<Rightarrow> string \<Rightarrow> string option \<Rightarrow> options \<Rightarrow> (string \<times> string) list" where
  "side_files E path out_path opt =
    (case (map_of (files E) path, snd (compile_file E path out_path opt)) of
       (Some text, Built o' blob) \<Rightarrow>
         listing_file E (without_modes text) path (opt_listing opt) (opt_debug opt) (opt_wx opt) (opt_teach opt) @
         (if opt_debug opt then (case map_text blob of None \<Rightarrow> [] | Some m \<Rightarrow> [(o' @ ''.map'', m)]) else [])
     | _ \<Rightarrow> [])"

subsection \<open>\<open>run_file\<close> and \<open>main\<close>\<close>

text \<open>Running the built file is the operating system's: \<open>os_run\<close> gives its exit status. \<open>tmp\<close> is the
  name \<open>mkstemp\<close> chose.\<close>

definition no_options :: options where
  "no_options = \<lparr>opt_debug = False, opt_wx = False, opt_strict = False, opt_warn = False,
    opt_listing = False, opt_teach = False\<rparr>"

definition run_file :: "(bytes \<Rightarrow> int) \<Rightarrow> string \<Rightarrow> env \<Rightarrow> string \<Rightarrow> run" where
  "run_file os_run tmp E path =
    (case compile_file E path (Some tmp) no_options of
       (rep, Built _ blob) \<Rightarrow> (rep, Returned (os_run blob))
     | r \<Rightarrow> r)"

text \<open>The element behind the first \<open>-o\<close>: \<open>None\<close> without one, \<open>Some None\<close> when it is the last.\<close>

definition out_arg :: "string list \<Rightarrow> string option option" where
  "out_arg argv = (case dropWhile (\<lambda>a. a \<noteq> ''-o'') argv of [] \<Rightarrow> None
     | _ # r \<Rightarrow> Some (case r of [] \<Rightarrow> None | v # _ \<Rightarrow> Some v))"

definition is_flag :: "string \<Rightarrow> bool" where
  "is_flag a = starts_with ''-'' a"

definition main_build :: "env \<Rightarrow> string list \<Rightarrow> run" where
  "main_build E argv =
    (case out_arg argv of
       Some None \<Rightarrow> ([], BadIndex)
     | outv \<Rightarrow>
         (case find (\<lambda>a. \<not> is_flag a \<and> outv \<noteq> Some (Some a)) (tl argv) of
            None \<Rightarrow> ([], Returned 1)
          | Some path \<Rightarrow>
              if path = [] then ([], Returned 1)
              else compile_file E path (case outv of None \<Rightarrow> None | Some v \<Rightarrow> v)
                \<lparr>opt_debug = ''--debug'' \<in> set argv \<or> ''-g'' \<in> set argv, opt_wx = ''--wx'' \<in> set argv,
                 opt_strict = ''--strict'' \<in> set argv, opt_warn = ''--warn'' \<in> set argv,
                 opt_listing = ''--listing'' \<in> set argv \<or> ''-l'' \<in> set argv,
                 opt_teach = ''--teach'' \<in> set argv\<rparr>))"

definition main :: "(bytes \<Rightarrow> int) \<Rightarrow> string \<Rightarrow> env \<Rightarrow> string list \<Rightarrow> run" where
  "main os_run tmp E argv =
    (case argv of [] \<Rightarrow> ([], Returned 0)
     | cmd # rest \<Rightarrow>
         if cmd \<in> set [''-h'', ''--help'', ''--version'', ''-V'', ''version''] then ([], Returned 0)
         else if cmd = ''check'' then
           (case filter (\<lambda>a. \<not> is_flag a) rest of [] \<Rightarrow> ([], Returned 1)
            | f # _ \<Rightarrow> check_file E f (''--strict'' \<in> set argv) (''--warn'' \<in> set argv))
         else if cmd = ''run'' then
           (case rest of [] \<Rightarrow> ([], Returned 1) | f # _ \<Rightarrow> run_file os_run tmp E f)
         else if cmd \<noteq> ''build'' \<or> rest = [] then ([], Returned 1)
         else main_build E argv)"

text \<open>The exit status of the process: of \<open>sys.exit(main() or 0)\<close>, of \<open>SystemExit\<close>, or 1 behind a
  traceback.\<close>

fun exit_status :: "outcome \<Rightarrow> int" where
  "exit_status (Built _ _) = 0"
| "exit_status (Returned n) = n"
| "exit_status (Exited n) = n"
| "exit_status _ = 1"

end
