(* ===== verification/Listing_Facts.thy ===== *)
theory Listing_Facts
  imports Listing Codegen_Invariant
begin

section \<open>The listing and the program\<close>

text \<open>
  Two things the listing promises. The modes that write it do not change what is compiled
  (\<open>unseen\<close>: an emitter neither reads nor needs the listing), and its lines, read back, are the code
  of the program: the dump, and in teaching mode also the statements one after the other
  (\<open>traced\<close>: the places of the statements in the code are in order).
\<close>

subsection \<open>The listing is write-only\<close>

lemma bindE_case: "bindE r f = (case r of Inl e \<Rightarrow> Inl e | Inr x \<Rightarrow> f x)"
  by (cases r) simp_all

text \<open>Equal results up to the listing.\<close>

definition same_plain :: "gen res \<Rightarrow> gen res \<Rightarrow> bool" where
  "same_plain r s \<longleftrightarrow> map_sum id plain r = map_sum id plain s"

definition unseen :: "cg \<Rightarrow> bool" where
  "unseen f \<longleftrightarrow> (\<forall>g. same_plain (f (plain g)) (f g))"

lemma plain_plain [simp]: "plain (plain g) = plain g"
  by (simp add: plain_def)

lemma unseenD:
  assumes "unseen f" and "plain g = plain h"
  shows "same_plain (f g) (f h)"
proof -
  have "same_plain (f (plain g)) (f g)" "same_plain (f (plain h)) (f h)"
    using assms(1) by (simp_all add: unseen_def)
  then show ?thesis using assms(2) by (simp add: same_plain_def)
qed

lemma same_plain_bind:
  assumes "same_plain r s" and "unseen f"
  shows "same_plain (bindE r f) (bindE s f)"
  using assms(1)
proof (cases r)
  case (Inr g)
  then obtain h where "s = Inr h" "plain g = plain h"
    using assms(1) by (cases s) (simp_all add: same_plain_def)
  then show ?thesis using unseenD [OF assms(2)] Inr by simp
qed (cases s; simp add: same_plain_def)

lemma unseen_seqE: "list_all unseen fs \<Longrightarrow> unseen (seqE fs)"
proof (induction fs)
  case Nil
  then show ?case by (simp add: unseen_def same_plain_def)
next
  case (Cons f fs)
  then have "same_plain (bindE (f (plain g)) (seqE fs)) (bindE (f g) (seqE fs))" for g
    by (intro same_plain_bind) (simp_all add: unseen_def)
  then show ?case by (simp add: unseen_def)
qed

text \<open>An update of other fields commutes with forgetting the listing.\<close>

lemma unseen_update: "(\<And>g. plain (u (plain g)) = plain (u g)) \<Longrightarrow> unseen (\<lambda>g. Inr (u g))"
  by (simp add: unseen_def same_plain_def)

lemma unseen_new_label:
  assumes "\<And>i. unseen (k (fresh_name p i))"
  shows "unseen (new_label p k)"
proof -
  have "same_plain (k (fresh_name p i) ((plain g)\<lparr>label_i := i\<rparr>)) (k (fresh_name p i) (g\<lparr>label_i := i\<rparr>))" for i g
    by (rule unseenD [OF assms]) (simp add: plain_def)
  then show ?thesis by (simp add: unseen_def new_label_def Let_def) (simp add: plain_def)
qed

lemma unseen_once:
  assumes "unseen f"
  shows "unseen (once n f)"
proof -
  have "unseen (\<lambda>g. Inr (g\<lparr>emitted := n # emitted g\<rparr>))"
    by (rule unseen_update) (simp add: plain_def)
  then have "same_plain (bindE (f (plain g)) (\<lambda>g. Inr (g\<lparr>emitted := n # emitted g\<rparr>)))
      (bindE (f g) (\<lambda>g. Inr (g\<lparr>emitted := n # emitted g\<rparr>)))" for g
    using assms by (intro same_plain_bind) (simp_all add: unseen_def)
  moreover have "emitted (plain g) = emitted g" for g by (simp add: plain_def)
  ultimately show ?thesis by (simp add: unseen_def once_def same_plain_def)
qed

lemma unseen_asm: "unseen (asm_do m)"
  by (auto simp: unseen_def same_plain_def asm_do_def plain_def bindE_case split: sum.split)

lemma unseen_reserve: "unseen (reserve n bs)" "unseen (reserve_slots n sz s v)"
  by (simp_all add: unseen_def same_plain_def reserve_def reserve_slots_def plain_def)

lemma unseen_fields:
  "unseen (set_locals ls)" "unseen (enter_fn args)" "unseen leave_fn" "unseen (note_line ln)"
  "unseen (note_assert_bytes nm limit opn)" "unseen (note_assert_size what limit)"
  "unseen set_baremetal" "unseen set_deterministic" "unseen (note_section nm addr)"
  "unseen (note_teach ln hint)"
  by (simp_all add: unseen_def same_plain_def set_locals_def enter_fn_def leave_fn_def note_line_def
      note_assert_bytes_def note_assert_size_def set_baremetal_def set_deterministic_def
      note_section_def note_teach_def Let_def plain_def)

interpretation blind: statement_property unseen
proof
  show "unseen (cg_fail e)" for e by (simp add: unseen_def same_plain_def cg_fail_def)
  show "unseen (\<lambda>g. r (plain g) g)" if "\<And>h. unseen (r h)" for r
    using that by (simp add: unseen_def)
qed (simp_all add: unseen_asm place_def unseen_new_label unseen_seqE unseen_reserve unseen_once unseen_fields)

subsection \<open>The passes of a program\<close>

lemma plain_fields [simp]:
  "structs (plain g) = structs g" "g_asm (plain g) = g_asm g" "data_layout (plain g) = data_layout g"
  "data_bytes (plain g) = data_bytes g" "baremetal (plain g) = baremetal g"
  "use_wx (plain g) = use_wx g" "debug_dwarf (plain g) = debug_dwarf g"
  "assert_bytes (plain g) = assert_bytes g" "assert_sizes (plain g) = assert_sizes g"
  "string_lens (plain g) = string_lens g" "data_consts (plain g) = data_consts g"
  by (simp_all add: plain_def)

text \<open>The data pass carries an offset along.\<close>

lemma collect_one_plain:
  "map_sum id (map_prod id plain) (collect_one s (off, plain g)) = map_sum id (map_prod id plain) (collect_one s (off, g))"
  by (cases "(s, (off, g))" rule: collect_one.cases)
    (auto simp: Let_def alloc_bytes_def bindE_case plain_def add_data_def split: alloc_size.split option.split sum.split)

lemma collect_all_plain:
  assumes "plain g = plain h"
  shows "map_sum id (map_prod id plain) (seqE (map (\<lambda>(ln, s). collect_one s) stmts) (off, g)) =
    map_sum id (map_prod id plain) (seqE (map (\<lambda>(ln, s). collect_one s) stmts) (off, h))"
  using assms
proof (induction stmts arbitrary: off g h)
  case (Cons st stmts)
  obtain ln s where st: "st = (ln, s)" by (cases st)
  have e: "map_sum id (map_prod id plain) (collect_one s (off, g)) = map_sum id (map_prod id plain) (collect_one s (off, h))"
    using collect_one_plain [of s off g] collect_one_plain [of s off h] Cons.prems by simp
  show ?case
  proof (cases "collect_one s (off, g)")
    case (Inl x)
    then have "collect_one s (off, h) = Inl x" using e by (cases "collect_one s (off, h)") auto
    then show ?thesis using Inl by (simp add: st)
  next
    case (Inr p)
    then obtain q where q: "collect_one s (off, h) = Inr q" using e by (cases "collect_one s (off, h)") auto
    with e Inr have "fst p = fst q" "plain (snd p) = plain (snd q)" by (cases p; cases q; simp)+
    with Cons.IH [of "snd p" "snd q" "fst p"] Inr q show ?thesis by (cases p; cases q) (simp add: st)
  qed
qed simp

lemma unseen_collect: "unseen (collect_data stmts)"
  unfolding unseen_def same_plain_def
proof
  fix g
  let ?r = "\<lambda>g. seqE (map (\<lambda>(ln, s). collect_one s) stmts) (0, g)"
  have "map_sum id (map_prod id plain) (?r (plain g)) = map_sum id (map_prod id plain) (?r g)"
    by (rule collect_all_plain) simp
  then show "map_sum id plain (collect_data stmts (plain g)) = map_sum id plain (collect_data stmts g)"
    by (cases "?r (plain g)"; cases "?r g") (auto simp: collect_data_def)
qed

lemma unseen_program: "unseen (emit_program stmts)"
proof -
  have 1: "unseen (\<lambda>g. Inr (g\<lparr>structs := collect_structs stmts (structs g)\<rparr>))"
    "unseen (append_runtime n k)" for n k
    unfolding append_runtime_def [abs_def] by (rule unseen_update; simp add: plain_def add_data_def)+
  have "reads_plain (\<lambda>g. \<not> baremetal g \<and> \<not> ends_exit stmts)" by (simp add: reads_plain_def)
  then show ?thesis
    unfolding emit_program_def
    by (intro blind.rules blind.emits blind.default_exit_emit 1 unseen_collect)
qed

lemma link_offsets_plain [simp]: "link_offsets (plain g) = link_offsets g"
  by (simp add: link_offsets_def)

lemma unseen_generate: "unseen (generate_code stmts)"
proof -
  have "unseen (\<lambda>g. bindE (link (Some (link_offsets g)) (g_asm g)) (\<lambda>a. Inr (g\<lparr>g_asm := a\<rparr>)))"
    by (auto simp: unseen_def same_plain_def plain_def bindE_case link_offsets_def split: sum.split)
  then show ?thesis
    unfolding generate_code_def [abs_def] by (intro unseen_seqE blind.lists unseen_program)
qed

lemma write_image_plain: "write_image (plain g) = write_image g"
  unfolding write_image_def run_asserts_def assert_size_of_def plain_fields ..

lemma plain_settings: "plain (settings l d w t) = plain (settings False d w False)"
  by (simp add: plain_def settings_def)

lemma generate_plain:
  assumes "plain g = plain h"
  shows "generate stmts g = generate stmts h"
proof -
  have "same_plain (generate_code stmts g) (generate_code stmts h)"
    by (rule unseenD [OF unseen_generate assms])
  then show ?thesis
    unfolding generate_def same_plain_def
    by (cases "generate_code stmts g"; cases "generate_code stmts h") (auto dest: arg_cong [where f = write_image] simp: write_image_plain)
qed

subsection \<open>Reading the lines back\<close>

definition hex_val :: "char \<Rightarrow> nat" where
  "hex_val c = (if is_digit c then ord c - 48 else ord c - 87)"

text \<open>Pairs of digits with a blank between them.\<close>

fun hex_pairs :: "string \<Rightarrow> bytes" where
  "hex_pairs (a # b # c # cs) = of_nat (16 * hex_val a + hex_val b) # hex_pairs cs"
| "hex_pairs [a, b] = [of_nat (16 * hex_val a + hex_val b)]"
| "hex_pairs _ = []"

text \<open>The bytes of the lines that are not comments; a line has them behind the colon.\<close>

definition is_dump :: "string \<Rightarrow> bool" where
  "is_dump l = is_hd (\<lambda>c. c \<noteq> CHR '';'' \<and> c \<noteq> CHR '' '') l"

definition dumped :: "string list \<Rightarrow> bytes" where
  "dumped ls = concat (map (\<lambda>l. hex_pairs (drop 2 (dropWhile (\<lambda>c. c \<noteq> CHR '':'') l))) (filter is_dump ls))"

lemma dumped_append [simp]: "dumped (ls @ ms) = dumped ls @ dumped ms"
  by (simp add: dumped_def)

lemma dumped_concat: "dumped (concat (map f xs)) = concat (map (\<lambda>x. dumped (f x)) xs)"
  by (induction xs) (simp_all add: dumped_def)

lemma dumped_comments: "list_all (\<lambda>l. \<not> is_dump l) ls \<Longrightarrow> dumped ls = []"
  by (simp add: dumped_def list_all_iff)

subsubsection \<open>Digits\<close>

lemma ord_nibble: "d < 16 \<Longrightarrow> ord (nibble d) = (if d < 10 then 48 + d else 87 + d)"
  by (simp add: nibble_def ord_def of_char_of)

lemma hex_val_digit [simp]: "d < 16 \<Longrightarrow> hex_val (nibble d) = d"
  using ord_nibble [of d] by (auto simp: hex_val_def is_digit_def)

lemma nibble_neq:
  assumes "d < 16"
  shows "nibble d \<noteq> CHR '':''" "nibble d \<noteq> CHR '';''" "nibble d \<noteq> CHR '' ''"
proof -
  have "ord (CHR '':'') = 58" "ord (CHR '';'') = 59" "ord (CHR '' '') = 32" by (simp_all add: ord_def)
  with ord_nibble [OF assms] show "nibble d \<noteq> CHR '':''" "nibble d \<noteq> CHR '';''" "nibble d \<noteq> CHR '' ''"
    by (auto split: if_splits)
qed

lemma nibble_0: "CHR ''0'' = nibble 0"
  by code_simp

lemma hex_nat_digits: "set (hex_nat n) \<subseteq> nibble ` {..<16} \<and> hex_nat n \<noteq> []"
proof (induction n rule: hex_nat.induct)
  case (1 n)
  then show ?case by (cases "n < 16") (auto simp: hex_nat.simps [of n])
qed

lemma byte_range: "unat (b :: byte) < 256"
proof -
  have "unat b < 2 ^ LENGTH(8)" by (rule unsigned_less)
  then show ?thesis by simp
qed

lemma hex_byte_digits: "hex_byte b = [nibble (unat b div 16), nibble (unat b mod 16)]"
proof -
  have "unat b < 256" by (rule byte_range)
  then show ?thesis
    by (auto simp: hex_byte_def zero_padded_def nibble_0 hex_nat.simps [of "unat b"] hex_nat.simps [of "unat b div 16"])
qed

lemma hex_pairs_bytes: "hex_pairs (hex_bytes bs) = bs"
proof -
  have b: "of_nat (16 * (unat b div 16) + unat b mod 16) = b" for b :: byte by simp
  have d: "unat b div 16 < 16" "unat b mod 16 < 16" for b :: byte
    using byte_range [of b] by simp_all
  show ?thesis
  proof (induction bs rule: induct_list012)
    case (2 x)
    show ?case using b [of x] d [of x] by (simp add: hex_bytes_def hex_byte_digits)
  next
    case (3 x y bs)
    then show ?case using b [of x] d [of x] by (simp add: hex_bytes_def hex_byte_digits)
  qed (simp add: hex_bytes_def)
qed

subsubsection \<open>Lines\<close>

lemma dumped_line: "dumped [dump_line i bs] = bs"
proof -
  let ?h = "zero_padded 8 (hex_nat i)"
  have "set ?h \<subseteq> insert (nibble 0) (set (hex_nat i))" and ne: "?h \<noteq> []"
    using hex_nat_digits [of i] by (auto simp: zero_padded_def nibble_0)
  then have "set ?h \<subseteq> nibble ` {..<16}" using hex_nat_digits [of i] by fastforce
  then have ex: "\<exists>d<16. c = nibble d" if "c \<in> set ?h" for c using that by auto
  have h: "c \<noteq> CHR '':'' \<and> c \<noteq> CHR '';'' \<and> c \<noteq> CHR '' ''" if "c \<in> set ?h" for c
  proof -
    from that have "\<exists>d<16. c = nibble d" by (rule ex)
    then obtain d where "d < 16" "c = nibble d" by blast
    then show ?thesis using nibble_neq [of d] by simp
  qed
  then have "dropWhile (\<lambda>c. c \<noteq> CHR '':'') (dump_line i bs) = dropWhile (\<lambda>c. c \<noteq> CHR '':'') ('': '' @ hex_bytes bs)"
    unfolding dump_line_def by (intro dropWhile_append2) blast
  then have "dropWhile (\<lambda>c. c \<noteq> CHR '':'') (dump_line i bs) = '': '' @ hex_bytes bs" by simp
  moreover have "is_dump (dump_line i bs)"
    using h ne by (cases ?h) (auto simp: dump_line_def is_dump_def is_hd_def)
  ultimately show ?thesis by (simp add: dumped_def hex_pairs_bytes)
qed

lemma dumped_from: "dumped (dump_from i bs) = bs"
proof (induction i bs rule: dump_from.induct)
  case (2 i b bs)
  have "dumped (dump_from i (b # bs)) = dumped [dump_line i (take 16 (b # bs))] @
      dumped (dump_from (i + 16) (drop 16 (b # bs)))"
    unfolding dumped_append [symmetric] by simp
  then show ?case using 2 by (simp only: dumped_line append_take_drop_id)
qed (simp add: dumped_def)

lemma dumped_head: "dumped (listing_head g) = []"
  by (rule dumped_comments) (auto simp: listing_head_def list_all_iff is_dump_def is_hd_def struct_line_def)

subsection \<open>The places of the statements\<close>

abbreviation place_of :: "int \<times> string \<times> nat \<Rightarrow> nat" where
  "place_of \<equiv> (\<lambda>(ln, hint, start). start)"

text \<open>Places in order, from a first to a last position.\<close>

definition in_order :: "nat \<Rightarrow> (int \<times> string \<times> nat) list \<Rightarrow> nat \<Rightarrow> bool" where
  "in_order a ts b \<longleftrightarrow> a \<le> b \<and> sorted (map place_of ts) \<and> (\<forall>t \<in> set ts. a \<le> place_of t \<and> place_of t \<le> b)"

lemma in_order_append: "in_order a ts b \<Longrightarrow> in_order b us c \<Longrightarrow> in_order a (ts @ us) c"
  by (fastforce simp: in_order_def sorted_append)

definition traced :: "gen \<Rightarrow> gen \<Rightarrow> bool" where
  "traced g g' \<longleftrightarrow>
     emit_listing (g_listing g') = emit_listing (g_listing g) \<and> teach_mode (g_listing g') = teach_mode (g_listing g) \<and>
     (\<exists>ts. teach_map (g_listing g') = teach_map (g_listing g) @ ts \<and>
        in_order (length (code (g_asm g))) ts (length (code (g_asm g'))))"

interpretation trace: state_preorder traced
proof
  show "traced g g" for g by (simp add: traced_def in_order_def)
  show "traced g k" if gh: "traced g h" and hk: "traced h k" for g h k
  proof -
    obtain ts us where "teach_map (g_listing h) = teach_map (g_listing g) @ ts"
        "in_order (length (code (g_asm g))) ts (length (code (g_asm h)))"
        "teach_map (g_listing k) = teach_map (g_listing h) @ us"
        "in_order (length (code (g_asm h))) us (length (code (g_asm k)))"
      using gh hk by (auto simp: traced_def)
    then have "\<exists>vs. teach_map (g_listing k) = teach_map (g_listing g) @ vs \<and>
        in_order (length (code (g_asm g))) vs (length (code (g_asm k)))"
      using in_order_append by (intro exI [of _ "ts @ us"]) simp
    then show ?thesis using gh hk by (simp add: traced_def)
  qed
qed

text \<open>What leaves the listing alone and only adds code.\<close>

lemma tracedI: "g_listing g' = g_listing g \<Longrightarrow> length (code (g_asm g)) \<le> length (code (g_asm g')) \<Longrightarrow> traced g g'"
  by (simp add: traced_def in_order_def)

lemma traced_asm: "good_op m \<Longrightarrow> within traced (asm_do m)"
  by (rule withinI, rule tracedI) (auto simp: asm_do_def bindE_Inr_iff dest!: good_opD appends_length)

lemma traced_place: "within traced (place l)"
  unfolding place_def by (rule traced_asm [OF good_label])

lemma traced_new_label:
  assumes "\<And>i. within traced (k (fresh_name p i))"
  shows "within traced (new_label p k)"
proof (rule withinI)
  fix g g'
  assume "new_label p k g = Inr g'"
  then have "traced (g\<lparr>label_i := label_i g + 1\<rparr>) g'"
    using assms by (simp add: new_label_def Let_def within_def)
  moreover have "traced g (g\<lparr>label_i := label_i g + 1\<rparr>)" by (rule tracedI) simp_all
  ultimately show "traced g g'" by (rule trace.trans [rotated])
qed

lemma traced_once:
  assumes "within traced f"
  shows "within traced (once n f)"
proof -
  have "traced h (h\<lparr>emitted := n # emitted h\<rparr>)" for h by (rule tracedI) simp_all
  then show ?thesis
    using assms by (auto simp: within_def once_def bindE_Inr_iff trace.refl intro: trace.trans)
qed

lemma traced_fields:
  "within traced (reserve n bs)" "within traced (reserve_slots n sz s v)"
  "within traced (set_locals ls)" "within traced (enter_fn args)" "within traced leave_fn"
  "within traced (note_line ln)" "within traced (note_assert_bytes nm limit opn)"
  "within traced (note_assert_size what limit)" "within traced set_baremetal"
  "within traced set_deterministic" "within traced (note_section nm addr)" "within traced (note_teach ln hint)"
  by (auto simp: within_def traced_def in_order_def reserve_def reserve_slots_def set_locals_def enter_fn_def
      leave_fn_def note_line_def note_assert_bytes_def note_assert_size_def set_baremetal_def
      set_deterministic_def note_section_def note_teach_def Let_def split: if_splits)

interpretation tracing: statement_property "within traced"
proof
  show "within traced (asm_do m)" if "quiet_op m" for m
    using that by (intro traced_asm) (auto simp: within_def asm_quiet_def)
  show "within traced (cg_fail e)" for e by (simp add: within_def cg_fail_def)
  show "within traced (\<lambda>g. r (plain g) g)" if "\<And>h. within traced (r h)" for r
    using that by (simp add: within_def)
qed (simp_all add: traced_place traced_new_label trace.fold traced_once traced_fields)

interpretation traced_pass: pass_property traced
  by unfold_locales (rule tracedI; simp)+

subsection \<open>The code of the statements, one after the other\<close>

text \<open>What a statement of the list spans in the code.\<close>

lemma spans_cover:
  assumes "in_order a ts (length c)"
  shows "concat (map (\<lambda>(ln, hint, i, j). slice i (j - i) c) (teach_spans (length c) ts)) =
    (case ts of [] \<Rightarrow> [] | t # _ \<Rightarrow> drop (place_of t) c)"
  using assms
proof (induction "length c" ts arbitrary: a rule: teach_spans.induct)
  case (3 ln hint i ln' hint' j ts)
  then have "in_order a ((ln', hint', j) # ts) (length c)" and ij: "i \<le> j" "j \<le> length c"
    by (auto simp: in_order_def)
  from 3(1) [OF this(1)] have IH: "concat (map (\<lambda>(ln, hint, i, j). slice i (j - i) c)
      (teach_spans (length c) ((ln', hint', j) # ts))) = drop j c" by simp
  have "slice i (j - i) c @ drop j c = drop i c"
    using ij by (metis append_take_drop_id drop_drop le_add_diff_inverse2 slice_def)
  with IH show ?case by simp
qed (auto simp: slice_def in_order_def)

lemma dumped_span: "dumped (span_lines c (ln, hint, i, j)) = slice i (j - i) c"
proof (cases "j \<le> i")
  case True
  then show ?thesis by (simp add: span_lines_def slice_def dumped_def)
next
  case False
  have "span_lines c (ln, hint, i, j) = [''; L'' @ show_int ln @ ''  '' @ hint] @ [dump_line i (slice i (j - i) c)] @
      (let m = teach_mnemonic hint (slice i (j - i) c) in
       if m \<noteq> [] then [''         ; '' @ right_arrow @ '' '' @ m] else [])"
    using False by (simp add: span_lines_def Let_def)
  moreover have "dumped [''; L'' @ show_int ln @ ''  '' @ hint] = []"
    "dumped (if m \<noteq> [] then [''         ; '' @ right_arrow @ '' '' @ m] else []) = []" for m
    by (rule dumped_comments; simp add: is_dump_def is_hd_def)+
  ultimately show ?thesis by (simp only: dumped_append dumped_line Let_def append_Nil append_Nil2)
qed

lemma dumped_teach:
  assumes "in_order a (teach_map (g_listing g)) (length c)"
  shows "dumped (teach_lines g c) =
    (case teach_map (g_listing g) of [] \<Rightarrow> [] | t # _ \<Rightarrow> if teach_mode (g_listing g) then drop (place_of t) c else [])"
proof -
  have s: "(\<lambda>x. dumped (span_lines c x)) = (\<lambda>(ln, hint, i, j). slice i (j - i) c)"
    by (rule ext) (simp add: dumped_span split: prod.split)
  have "dumped ['';'', ''; --- full hex dump ---''] = []"
    by (rule dumped_comments) (simp add: is_dump_def is_hd_def)
  then show ?thesis
    using spans_cover [OF assms]
    by (simp add: teach_lines_def dumped_concat s Let_def dumped_def [of "[]"] split: list.split)
qed

subsection \<open>Whole programs\<close>

definition calm :: "gen \<Rightarrow> gen \<Rightarrow> bool" where
  "calm g g' \<longleftrightarrow> g_listing g' = g_listing g \<and> code (g_asm g') = code (g_asm g)"

interpretation calm: pass_property calm
  by unfold_locales (simp_all add: calm_def)

lemma calm_before: "within calm (before_main prog)"
proof -
  have "within calm set_baremetal" "within calm skip" "within calm set_deterministic"
    by (simp_all add: within_def calm_def set_baremetal_def skip_def set_deterministic_def)
  then show ?thesis unfolding before_main_def by (intro calm.fold closed calm.passes)
qed

text \<open>The first statement of the main part stands at the start of the code.\<close>

lemma first_noted:
  assumes "emit s g = Inr g'" and "emit_listing (g_listing g) \<or> teach_mode (g_listing g)"
  shows "\<exists>t ts. teach_map (g_listing g') = teach_map (g_listing g) @ t # ts \<and> place_of t = length (code (g_asm g))"
proof -
  obtain ln n where s: "s = (ln, n)" by (cases s)
  obtain fs where e: "emit s = seqE ([note_line ln, note_teach ln (node_class n)] @ fs)"
    and fs: "list_all (within traced) fs"
  proof (cases "is_fn s")
    case True
    then obtain nm ars bdy lcls where n: "n = FnDef nm ars bdy lcls" by (auto simp: s is_fn_def split: node.splits)
    have "within traced (emit_fn nm ars (seqE (map emit bdy)) lcls)"
      by (intro tracing.emit_fn_emit tracing.emits)
    then show thesis by (intro that [of "[emit_fn nm ars (seqE (map emit bdy)) lcls]"]) (simp_all add: s n node_class_def)
  next
    case False
    then have "emit s = seqE ([note_line ln, note_teach ln (node_class n)] @ [emit_node n])"
      unfolding s is_fn_def by (cases n) simp_all
    then show thesis by (rule that) (simp add: tracing.emit_node_emit)
  qed
  obtain h where h: "seqE [note_line ln, note_teach ln (node_class n)] g = Inr h" "traced h g'"
    using trace.prefix [OF fs assms(1) [unfolded e]] by blast
  have "teach_map (g_listing h) = teach_map (g_listing g) @ [(ln, node_class n, length (code (g_asm g)))]"
    using h(1) assms(2) by (auto simp: note_line_def note_teach_def Let_def split: if_splits)
  with h(2) show ?thesis by (auto simp: traced_def)
qed

lemma program_traced:
  assumes "emit_program prog g0 = Inr h" and "code (g_asm g0) = []" "teach_map (g_listing g0) = []"
    and "emit_listing (g_listing g0) \<or> teach_mode (g_listing g0)" and "filter (\<lambda>s. \<not> is_fn s) prog \<noteq> []"
  obtains t ts where "teach_map (g_listing h) = t # ts" "place_of t = 0"
    "in_order 0 (t # ts) (length (code (g_asm h)))" "teach_mode (g_listing h) = teach_mode (g_listing g0)"
proof -
  let ?main = "filter (\<lambda>s. \<not> is_fn s) prog"
  obtain g1 where g1: "before_main prog g0 = Inr g1" and r: "seqE [seqE (map emit ?main),
      (\<lambda>g. if \<not> baremetal g \<and> \<not> ends_exit prog then default_exit g else Inr g),
      seqE (map emit (filter is_fn prog))] g1 = Inr h"
    using assms(1) unfolding emit_program_parts by (rule bindE_InrE)
  have calm: "calm g0 g1" by (rule withinD [OF calm_before g1])
  obtain s ss where main: "?main = s # ss" using assms(5) by (cases ?main) auto
  obtain gm where gm: "seqE (map emit ?main) g1 = Inr gm" and r2: "seqE [(\<lambda>g. if \<not> baremetal g \<and> \<not> ends_exit prog
      then default_exit g else Inr g), seqE (map emit (filter is_fn prog))] gm = Inr h" using r by (rule seqE_ConsE)
  obtain g2 where g2: "emit s g1 = Inr g2" and r3: "seqE (map emit ss) g2 = Inr gm"
    using gm unfolding main by (auto simp: bindE_Inr_iff)
  have "traced g2 gm" by (rule withinD [OF tracing.emits r3])
  moreover have "within traced (seqE [(\<lambda>g. if \<not> baremetal g \<and> \<not> ends_exit prog then default_exit g else Inr g),
      seqE (map emit (filter is_fn prog))])"
    by (intro trace.fold closed trace.skip tracing.default_exit_emit tracing.emits)
  then have "traced gm h" using r2 by (rule withinD)
  ultimately have g2h: "traced g2 h" by (rule trace.trans)
  have "traced g1 g2" by (rule withinD [OF tracing.emit_emit g2])
  then have g1h: "traced g1 h" using g2h by (rule trace.trans)
  obtain t ts where t: "teach_map (g_listing g2) = t # ts" "place_of t = 0"
    using first_noted [OF g2] calm assms(2-4) by (auto simp: calm_def)
  from g2h obtain us where "teach_map (g_listing h) = t # ts @ us" using t(1) by (auto simp: traced_def)
  then show thesis
    using g1h calm assms(2,3) t(2) by (intro that [of t "ts @ us"]) (auto simp: traced_def calm_def)
qed

theorem listing_dumped:
  assumes "generate_code prog (settings l d w t) = Inr g" and "l \<or> t" and "filter (\<lambda>s. \<not> is_fn s) prog \<noteq> []"
  shows "dumped (build_listing g (code (g_asm g))) = (if t then code (g_asm g) else []) @ code (g_asm g)"
proof -
  let ?g0 = "settings l d w t"
  have g0: "gen_ok ?g0" "code (g_asm ?g0) = []" "teach_map (g_listing ?g0) = []" "teach_mode (g_listing ?g0) = t"
    "emit_listing (g_listing ?g0) \<or> teach_mode (g_listing ?g0)"
    using assms(2) by (simp_all add: settings_def init_gen_def gen_ok_def no_listing_def) (simp_all add: init_asm_def)
  obtain h a where h: "emit_program prog ?g0 = Inr h" and a: "link (Some (link_offsets h)) (g_asm h) = Inr a"
    and g: "g = h\<lparr>g_asm := a\<rparr>"
    using assms(1) by (auto simp: generate_code_def bindE_Inr_iff)
  have "prog_step ?g0 h" by (rule withinD [OF emit_program_step h])
  then have "gen_ok h" using g0(1) by (simp add: prog_step_def)
  then have len: "length (code a) = length (code (g_asm h))" using link_frame(1) [OF a] by (simp add: gen_ok_def)
  obtain e es where e: "teach_map (g_listing h) = e # es" "place_of e = 0"
      "in_order 0 (e # es) (length (code (g_asm h)))" "teach_mode (g_listing h) = teach_mode (g_listing ?g0)"
    by (rule program_traced [OF h g0(2,3,5) assms(3)])
  have "in_order 0 (teach_map (g_listing g)) (length (code a))" using e(1,3) len by (simp add: g)
  from dumped_teach [OF this] show ?thesis
    using e g0(4) by (simp add: build_listing_def dumped_head dumped_from g)
qed

end
