(* ===== verification/Front_End.thy ===== *)
theory Front_End
  imports Layout Driver Listing_Facts
begin

section \<open>The front end as a whole\<close>

text \<open>
  Programs as text: a layout of a program's tokens that uses neither includes nor macros compiles to
  what the code generator makes of the program. The shape of what the parser returns.
\<close>

subsection \<open>Text without includes, macros and local labels\<close>

definition plain_text :: "string \<Rightarrow> bool" where
  "plain_text src \<longleftrightarrow>
     list_all (\<lambda>l. include_name l = None \<and> macro_header l = None) (splitlines src) \<and> \<not> contains ''~@'' src"

lemma resolve_lines_plain:
  "list_all (\<lambda>l. include_name l = None) ls \<Longrightarrow> resolve_lines E p ls seen = Inr (concat ls, seen)"
  by (induction ls) (simp_all add: resolve_lines.simps)

lemma resolve_plain:
  assumes "list_all (\<lambda>l. include_name l = None) (splitlines src)"
  shows "resolve_includes E src f = Inr src"
  using resolve_lines_plain [OF assms]
  by (simp add: resolve_includes_def resolve_file.simps Let_def)

lemma local_labels_plain: "\<not> contains ''~@'' s \<Longrightarrow> local_labels mp s = s"
proof (induction mp s rule: local_labels.induct)
  case (2 mp c cs)
  then have "local_ref (c # cs) = None" by (simp add: local_ref_def starts_with_def split: option.splits)
  then show ?case using 2 by simp
qed simp

lemma plain_tokens: "plain_text src \<Longrightarrow> source_tokens E src f = tokenize src"
  by (simp add: plain_text_def source_tokens_def resolve_plain expand_macros_plain list_all_iff
      expand_local_labels_def local_labels_plain)

subsection \<open>Layouts of a program\<close>

lemma last_line_flat:
  "list_all (\<lambda>t. tkind t \<noteq> T_NEWLINE) us \<Longrightarrow> last_line ln (us @ vs) = last_line ln vs"
  by (induction us) (simp_all add: last_line_def line_after_def)

lemma last_line_nl [simp]: "last_line ln (nl_tok k # ts) = last_line (ln + 1) ts"
  by (simp add: last_line_def line_after_def)

lemma expr_flat: "list_all (\<lambda>t. tkind t \<noteq> T_NEWLINE) (expr_toks ln p e)"
  by (induction e arbitrary: p) (simp_all add: enclosed_def op_kind_def)

lemma args_flat: "list_all (\<lambda>t. tkind t \<noteq> T_NEWLINE) (args_toks ln es)"
  by (induction ln es rule: args_toks.induct) (simp_all add: expr_flat)

lemma bytes_flat: "list_all (\<lambda>t. tkind t \<noteq> T_NEWLINE) (bytes_toks ln bs)"
  by (induction ln bs rule: bytes_toks.induct) simp_all

lemma index_flat: "list_all (\<lambda>t. tkind t \<noteq> T_NEWLINE) (index_toks ln ix sc)"
  by (cases "(ln, ix, sc)" rule: index_toks.cases) simp_all

lemma node_flat: "list_all (\<lambda>t. tkind t \<noteq> T_NEWLINE) (node_toks ln n)"
  by (cases "(ln, n)" rule: node_toks.cases)
    (simp_all add: keyword_def eq_tok_def addr_toks_def offset_toks_def expr_flat args_flat bytes_flat index_flat)

lemma block_lines: "last_line ln (block_toks ln ns @ ts) = last_line (ln + int (length ns)) ts"
  by (induction ln ns rule: block_toks.induct)
    (simp_all add: last_line_flat node_flat algebra_simps)

lemma item_last_line: "last_line ln (item_toks ln i @ ts) = last_line (ln + item_lines i) ts"
proof (cases i)
  case (Fn f xs ns)
  have "list_all (\<lambda>t. tkind t \<noteq> T_NEWLINE) (keyword ln f' w)" for ln f' w by (simp add: keyword_def)
  moreover have "list_all (\<lambda>t. tkind t \<noteq> T_NEWLINE) (map (\<lambda>x. Tok T_IDENT x ln) xs)"
    by (simp add: list_all_iff)
  ultimately show ?thesis
    using Fn by (simp add: last_line_flat block_lines algebra_simps)
qed (simp add: last_line_flat node_flat)

lemma program_toks_eof: "\<exists>us. program_toks ln is = us @ [Tok T_EOF [] (last_line ln us)]"
proof (induction "is" arbitrary: ln)
  case Nil
  then show ?case by (simp add: last_line_def)
next
  case (Cons i "is")
  then obtain us where "program_toks (ln + item_lines i) is = us @ [Tok T_EOF [] (last_line (ln + item_lines i) us)]"
    by blast
  then show ?case
    by (intro exI [of _ "item_toks ln i @ us"]) (simp add: item_last_line)
qed

lemma layout_tokens:
  assumes "map fst l = butlast (program_toks 1 is)"
    and "layout_ok 1 l" and "gap_ok g (laid_out l)" and "plain_text (g @ laid_out l)"
  shows "source_tokens E (g @ laid_out l) f = Inr (program_toks 1 is)"
proof -
  obtain us where "program_toks 1 is = us @ [Tok T_EOF [] (last_line 1 us)]"
    using program_toks_eof by blast
  then show ?thesis
    using assms(1) plain_tokens [OF assms(4)] layout_tokenize [OF assms(2,3)] by simp
qed

lemma layout_compiles:
  assumes "list_all item_wf is" and "map fst l = butlast (program_toks 1 is)"
    and "layout_ok 1 l" and "gap_ok g (laid_out l)" and "plain_text (g @ laid_out l)"
  shows "compile_source E (g @ laid_out l) f lst d w t =
    generate (program_stmts 1 is) (init_gen\<lparr>use_wx := w, debug_dwarf := d\<rparr>)"
  using layout_tokens [OF assms(2-5), of E f] program_reads [OF assms(1), of 1]
    generate_plain [OF plain_settings, of "program_stmts 1 is" lst d w t]
  by (simp add: compile_source_def source_program_def settings_off)

subsection \<open>The expressions the parser returns\<close>

lemma expr_parsed_wf:
  "expr_add ts = Inr (e, r) \<Longrightarrow> expr_wf e"
  "expr_wf n \<Longrightarrow> add_loop n ts = Inr (e, r) \<Longrightarrow> expr_wf e"
  "expr_mul ts = Inr (e, r) \<Longrightarrow> expr_wf e"
  "expr_wf n \<Longrightarrow> mul_loop n ts = Inr (e, r) \<Longrightarrow> expr_wf e"
  "primary ts = Inr (e, r) \<Longrightarrow> expr_wf e"
proof (induction ts and n ts and ts and n ts and ts arbitrary: e r and e r and e r and e r and e r
    rule: expr_add_add_loop_expr_mul_mul_loop_primary.induct)
  case (1 ts)
  then obtain n r' where "expr_mul ts = Inr (n, r')" "add_loop n r' = Inr (e, r)"
    by (auto simp: expr_add.simps [of ts] bindE_Inr_iff)
  then show ?case using 1(1,2) by blast
next
  case (2 node ts)
  show ?case
  proof (cases "at T_PLUS ts \<or> at T_MINUS ts")
    case True
    then obtain n r' where *: "expr_mul (adv ts) = Inr (n, r')"
      "add_loop (BinExpr (if at T_PLUS ts then ''+'' else ''-'') node n) r' = Inr (e, r)"
      using 2(4) by (auto simp: add_loop.simps [of node ts] bindE_Inr_iff)
    then have "expr_wf n" using 2(1) True by blast
    then show ?thesis using 2(2) [OF True *(1) refl _ *(2)] 2(3) by simp
  qed (use 2(3,4) in \<open>simp add: add_loop.simps [of node ts]\<close>)
next
  case (3 ts)
  then obtain n r' where "primary ts = Inr (n, r')" "mul_loop n r' = Inr (e, r)"
    by (auto simp: expr_mul.simps [of ts] bindE_Inr_iff)
  then show ?case using 3(1,2) by blast
next
  case (4 node ts)
  show ?case
  proof (cases "at T_STAR ts")
    case True
    then obtain n r' where *: "primary (adv ts) = Inr (n, r')" "mul_loop (BinExpr ''*'' node n) r' = Inr (e, r)"
      using 4(4) by (auto simp: mul_loop.simps [of node ts] bindE_Inr_iff)
    then have "expr_wf n" using 4(1) True by blast
    then show ?thesis using 4(2) [OF True *(1) refl _ *(2)] 4(3) by simp
  qed (use 4(3,4) in \<open>simp add: mul_loop.simps [of node ts]\<close>)
next
  case (5 ts)
  note IH = 5(1) [OF refl]
  show ?case
  proof (cases "at T_LPAREN ts")
    case True
    then obtain r' where "expr_add (adv ts) = Inr (e, r')"
      using 5(2) by (auto simp: primary.simps [of ts] Let_def expect_def bindE_Inr_iff split: if_splits)
    then show ?thesis using IH [OF True] by blast
  next
    case False
    then show ?thesis
      using 5(2) by (auto simp: primary.simps [of ts] Let_def expect_def bindE_Inr_iff split: if_splits)
  qed
qed

lemma parsed_iff_wf: "(\<exists>ts r. expr_add ts = Inr (e, r)) \<longleftrightarrow> expr_wf e"
proof
  assume "expr_wf e"
  then have "expr_add (expr_toks 1 0 e @ []) = Inr (e, [])" by (intro expr_add_reads) (simp_all add: ends_def peek_def)
  then show "\<exists>ts r. expr_add ts = Inr (e, r)" by blast
qed (blast dest: expr_parsed_wf(1))

subsection \<open>The order of the terms of an address\<close>

text \<open>Behind \<open>base +\<close> the expression grammar reads \<open>index * scale + offset\<close> as one operand.\<close>

definition load_toks :: "int \<Rightarrow> string \<Rightarrow> string \<Rightarrow> tok list \<Rightarrow> tok list" where
  "load_toks ln d b terms = keyword ln ''ram'' ''read'' @
     [Tok T_IDENT d ln, eq_tok ln, Tok T_LBRACK ''['' ln, Tok T_IDENT b ln, Tok T_PLUS ''+'' ln] @ terms @
     [Tok T_RBRACK '']'' ln]"

definition index_term :: "int \<Rightarrow> string \<Rightarrow> int \<Rightarrow> tok list" where
  "index_term ln i k = [Tok T_IDENT i ln, Tok T_STAR ''*'' ln, Tok T_NUMBER (show_int k) ln]"

definition number_term :: "int \<Rightarrow> int \<Rightarrow> tok list" where
  "number_term ln n = [Tok T_NUMBER (show_int n) ln]"

lemma load_reads:
  assumes "is_reg_name b"
    and "mem_term (Number 0, None, 1) (terms @ Tok T_RBRACK '']'' ln # r) = Inr (st, us)"
    and "mem_terms st us = Inr ((off, ix, sc), Tok T_RBRACK '']'' ln # r)"
  shows "simple_statement (load_toks ln d b terms @ r) = Inr (MemLoad d (Reg b) off 64 ix sc, r)"
proof -
  have w: "py_lower ''ram'' = ''ram''" "py_lower ''read'' = ''read''" by code_simp+
  have p: "p_ram ''read'' = expect T_IDENT (\<lambda>dest. punct T_EQ (mem_addr (\<lambda>bas off ix sc. give (MemLoad dest bas off 64 ix sc))))"
    by (simp add: p_ram_def ram_size_def starts_with_def)
  have b: "primary (Tok T_IDENT b ln # us) = Inr (Reg b, us)" for us
    using assms(1) by (simp add: primary.simps)
  show ?thesis
    using namespace_reads [OF namespaces(3) w] b assms(2,3)
    by (simp add: load_toks_def p eq_tok_def mem_addr_def sub_def mem_terms.simps [of "(Number 0, None, 1)"])
qed

lemma address_misread:
  assumes "is_reg_name b" and "is_reg_name i"
  shows "simple_statement (load_toks ln d b (index_term ln i k @ Tok T_PLUS ''+'' ln # number_term ln n) @ r) =
    Inr (MemLoad d (Reg b) (BinExpr ''+'' (BinExpr ''*'' (Reg i) (Number k)) (Number n)) 64 None 1, r)"
proof (rule load_reads [OF assms(1)])
  let ?e = "BinExpr ''+'' (BinExpr ''*'' (Reg i) (Number k)) (Number n)" and ?r = "Tok T_RBRACK '']'' ln # r"
  have "expr_add (expr_toks ln 0 ?e @ ?r) = Inr (?e, ?r)"
    using assms by (intro expr_add_reads) simp_all
  then show "mem_term (Number 0, None, 1) ((index_term ln i k @ Tok T_PLUS ''+'' ln # number_term ln n) @ ?r) =
      Inr ((?e, None, 1), ?r)"
    by (simp add: mem_term_def index_term_def number_term_def operand_def sub_def enclosed_def op_kind_def add_offset_def)
  show "mem_terms (?e, None, 1) ?r = Inr ((?e, None, 1), ?r)" by (simp add: mem_terms.simps)
qed

lemma address_refused:
  "\<exists>e. emit_node (MemLoad d (Reg b) (BinExpr ''+'' (BinExpr ''*'' (Reg i) (Number k)) (Number n)) 64 None 1) g = Inl e"
  by (cases "resolve b") (simp_all add: mem_load_def base_reg_def with_res_def with_offset_def)

lemma address_in_order:
  assumes "is_reg_name b" and "is_reg_name i" and "k \<in> set [1, 2, 4, 8]"
  shows "simple_statement (load_toks ln d b (number_term ln n @ Tok T_PLUS ''+'' ln # index_term ln i k) @ r) =
    Inr (MemLoad d (Reg b) (Number n) 64 (Some (Reg i)) k, r)"
proof (rule load_reads [OF assms(1)])
  let ?i = "Tok T_PLUS ''+'' ln # index_term ln i k" and ?r = "Tok T_RBRACK '']'' ln # r"
  show "mem_term (Number 0, None, 1) ((number_term ln n @ ?i) @ ?r) = Inr ((Number n, None, 1), ?i @ ?r)"
    by (simp add: mem_term_def number_term_def add_int_def)
  have "index_wf (Some (Reg i)) k" using assms by simp
  then show "mem_terms (Number n, None, 1) (?i @ ?r) = Inr ((Number n, Some (Reg i), k), ?r)"
    using index_reads [of "Some (Reg i)" k ?r n ln] by (simp add: index_term_def)
qed

end
