(* ===== verification/Macro_Facts.thy ===== *)
theory Macro_Facts
  imports Expand
begin

section \<open>When macro expansion ends\<close>

text \<open>
  \<open>expand_macros\<close> stops after 64 passes. Macros whose bodies call macros of smaller rank are
  expanded within them; a set of macros that call each other is refused.
\<close>

subsection \<open>Text the substitutions leave alone\<close>

lemma sub_local_plain: "\<not> contains ''~@'' s \<Longrightarrow> sub_local f s = s"
proof (induction f s rule: sub_local.induct)
  case (2 f c cs)
  then have "local_ref (c # cs) = None" by (simp add: local_ref_def starts_with_def split: option.splits)
  then show ?case using 2 by simp
qed simp

lemma replace_all_prefix:
  "CHR ''$'' \<notin> set w \<Longrightarrow> replace_all (CHR ''$'' # k) v (w @ r) = w @ replace_all (CHR ''$'' # k) v r"
  by (induction w) auto

lemma subst_args_prefix: "CHR ''$'' \<notin> set w \<Longrightarrow> subst_args d (w @ r) = w @ subst_args d r"
proof (induction d arbitrary: r)
  case (Cons kv d)
  then show ?case by (cases kv) (simp add: subst_args_def replace_all_prefix)
qed (simp add: subst_args_def)

lemma subst_args_Nil [simp]: "subst_args d [] = []"
proof (induction d)
  case (Cons kv d)
  then show ?case by (cases kv) (simp add: subst_args_def)
qed (simp add: subst_args_def)

lemma subst_args_plain: "CHR ''$'' \<notin> set l \<Longrightarrow> subst_args d l = l"
  using subst_args_prefix [of l d "[]"] by simp

lemma sub_local_prefix: "CHR ''~'' \<notin> set w \<Longrightarrow> sub_local f (w @ r) = w @ sub_local f r"
proof (induction w)
  case (Cons c w)
  then have "local_ref (c # w @ r) = None" by (simp add: local_ref_def split: option.splits)
  then show ?case using Cons by simp
qed simp

subsection \<open>Macros that call each other\<close>

definition calls :: "string \<Rightarrow> string option" where
  "calls line = map_option fst (invocation line)"

text \<open>Every macro of the set has a line that calls one of the set, whatever the arguments.\<close>

definition recurs :: "macros \<Rightarrow> string list \<Rightarrow> bool" where
  "recurs ms ns \<longleftrightarrow> list_all (\<lambda>n. case map_of ms n of None \<Rightarrow> False
     | Some (ars, body) \<Rightarrow> list_ex (\<lambda>l. CHR ''$'' \<notin> set l \<and> \<not> contains ''~@'' l \<and>
         (case calls l of None \<Rightarrow> False | Some m \<Rightarrow> m \<in> set ns)) body) ns"

definition calls_any :: "string list \<Rightarrow> string list \<Rightarrow> bool" where
  "calls_any ns ls \<longleftrightarrow> list_ex (\<lambda>l. case calls l of None \<Rightarrow> False | Some m \<Rightarrow> m \<in> set ns) ls"

lemma expand_line_recurs:
  assumes "recurs ms ns" and "calls l = Some n" and "n \<in> set ns"
  shows "expand_line ms k l = Inl (SystemStop ''macro arguments'') \<or>
    (\<exists>new. expand_line ms k l = Inr (Some new) \<and> calls_any ns new)"
proof -
  obtain a where i: "invocation l = Some (n, a)" using assms(2) by (auto simp: calls_def)
  obtain ars body where m: "map_of ms n = Some (ars, body)"
    and b: "list_ex (\<lambda>l. CHR ''$'' \<notin> set l \<and> \<not> contains ''~@'' l \<and>
         (case calls l of None \<Rightarrow> False | Some m \<Rightarrow> m \<in> set ns)) body"
    using assms(1,3) unfolding recurs_def list_all_iff by (auto split: option.splits)
  then obtain bl where bl: "bl \<in> set body" "CHR ''$'' \<notin> set bl" "\<not> contains ''~@'' bl"
      "case calls bl of None \<Rightarrow> False | Some m \<Rightarrow> m \<in> set ns"
    unfolding list_ex_iff by blast
  have "sub_local (mark k) (subst_args d bl) = bl" for d
    using bl by (simp add: subst_args_plain sub_local_plain)
  then have "calls_any ns (map (\<lambda>bl. sub_local (mark k) (subst_args d bl)) body)" for d
    using bl by (auto simp: calls_any_def list_ex_iff intro!: bexI [of _ bl])
  moreover have "calls_any ns (map (sub_local (mark k)) body)"
    using bl by (auto simp: calls_any_def list_ex_iff sub_local_plain intro!: bexI [of _ bl])
  ultimately show ?thesis using i m by (auto simp: expand_line_def Let_def split: option.splits)
qed

lemma expand_line_error: "expand_line ms k l = Inl e \<Longrightarrow> e = SystemStop ''macro arguments''"
  by (auto simp: expand_line_def Let_def split: option.splits if_splits)

lemma one_pass_error: "one_pass ms k ls = Inl e \<Longrightarrow> e = SystemStop ''macro arguments''"
  by (induction ls arbitrary: k)
    (auto simp: bindE_Inl_iff dest: expand_line_error split: option.splits)

lemma one_pass_recurs:
  assumes "recurs ms ns" and "calls_any ns ls" and "one_pass ms k ls = Inr (k', any, out)"
  shows "any \<and> calls_any ns out"
  using assms(2,3)
proof (induction ls arbitrary: k k' any out)
  case Nil
  then show ?case by (simp add: calls_any_def)
next
  case (Cons l ls)
  obtain x where x: "expand_line ms (k + 1) l = Inr x" using Cons.prems(2) by (auto simp: bindE_Inr_iff)
  show ?case
  proof (cases "case calls l of None \<Rightarrow> False | Some m \<Rightarrow> m \<in> set ns")
    case True
    then obtain new where "x = Some new" "calls_any ns new"
      using expand_line_recurs [OF assms(1), of l _ "k + 1"] x by (auto split: option.splits)
    then show ?thesis using Cons.prems(2) x by (auto simp: bindE_Inr_iff calls_any_def)
  next
    case False
    then have "calls_any ns ls" using Cons.prems(1) by (simp add: calls_any_def)
    then show ?thesis
      using Cons.prems(2) x Cons.IH by (cases x) (auto simp: bindE_Inr_iff calls_any_def)
  qed
qed

lemma expand_passes_recurs:
  assumes "recurs ms ns" and "calls_any ns ls"
  shows "\<exists>msg. expand_passes n ms k ls = Inl (SystemStop msg)"
  using assms(2)
proof (induction n arbitrary: k ls)
  case (Suc n)
  show ?case
  proof (cases "one_pass ms k ls")
    case (Inl e)
    then show ?thesis using one_pass_error [OF Inl] by simp
  next
    case (Inr x)
    obtain k' any out where x: "x = (k', any, out)" by (cases x)
    then have "any" "calls_any ns out" using one_pass_recurs [OF assms(1) Suc.prems] Inr by blast+
    then show ?thesis using Suc.IH Inr x by simp
  qed
qed simp

lemma recursion_refused:
  assumes "parse_defs [] (splitlines src) = Inr (ms, ls)" and "recurs ms ns" and "calls_any ns ls"
  shows "\<exists>msg. expand_macros src = Inl (SystemStop msg)"
  using assms(1) expand_passes_recurs [OF assms(2,3)] by (metis (no_types, lifting) bindE.simps expand_macros_def prod.simps(2))

subsection \<open>Ranked macros\<close>

text \<open>A line whose first word no substitution makes or changes.\<close>

definition steady :: "string \<Rightarrow> bool" where
  "steady l \<longleftrightarrow> (let t = lstrip l in \<not> is_hd (\<lambda>c. c = CHR ''$'') t \<and>
     (is_hd is_name_start t \<longrightarrow> \<not> is_hd (\<lambda>c. c = CHR ''$'') (dropWhile is_word t)))"

definition first_word :: "string \<Rightarrow> string option" where
  "first_word l = map_option fst (scan_name l)"

text \<open>\<open>rk\<close> lists the macros with their rank; a body calls only macros of smaller rank.\<close>

definition rank_of :: "(string \<times> nat) list \<Rightarrow> string \<Rightarrow> nat" where
  "rank_of rk n = (case map_of rk n of None \<Rightarrow> 0 | Some r \<Rightarrow> r)"

definition ranked :: "macros \<Rightarrow> (string \<times> nat) list \<Rightarrow> bool" where
  "ranked ms rk \<longleftrightarrow> list_all (\<lambda>(n, ars, body). list_all (\<lambda>l. steady l \<and>
     (case first_word l of None \<Rightarrow> True
      | Some m \<Rightarrow> map_of ms m = None \<or> rank_of rk m < rank_of rk n)) body) ms"

definition calls_below :: "macros \<Rightarrow> (string \<times> nat) list \<Rightarrow> nat \<Rightarrow> string list \<Rightarrow> bool" where
  "calls_below ms rk b ls \<longleftrightarrow> list_all (\<lambda>l. case first_word l of None \<Rightarrow> True
     | Some m \<Rightarrow> is_call ms l \<longrightarrow> rank_of rk m < b) ls"

lemma is_call_first: "is_call ms l \<Longrightarrow> \<exists>m. first_word l = Some m \<and> map_of ms m \<noteq> None"
  by (auto simp: is_call_def invocation_def first_word_def split: option.splits if_splits)

text \<open>A word and what follows it keep apart under both substitutions.\<close>

lemma word_char: "is_word c \<Longrightarrow> c \<noteq> CHR ''$'' \<and> c \<noteq> CHR ''~'' \<and> \<not> py_is_space c"
  by (auto simp: char_classes)

lemma name_start_word: "is_name_start c \<Longrightarrow> is_word c"
  by (auto simp: char_classes)

lemma space_char: "py_is_space c \<Longrightarrow> c \<noteq> CHR ''$'' \<and> c \<noteq> CHR ''~''"
  by (auto simp: char_classes)

lemma subst_hd:
  assumes "\<not> is_hd (\<lambda>c. c = CHR ''$'') r"
  shows "r = [] \<and> subst_args d r = [] \<or> (\<exists>c r'. r = c # r' \<and> subst_args d r = c # subst_args d r')"
proof (cases r)
  case (Cons c r')
  then show ?thesis using assms subst_args_prefix [of "[c]" d r'] by (simp add: is_hd_def)
qed simp

lemma mark_hd: "\<exists>t. mark k n = CHR ''~'' # t"
  by (simp add: mark_def)

lemma sub_hd: "s = [] \<and> sub_local (mark k) s = [] \<or> (\<exists>c r r'. s = c # r \<and> sub_local (mark k) s = c # r')"
proof (cases s)
  case (Cons c r)
  show ?thesis
  proof (cases "local_ref s")
    case None
    then show ?thesis using Cons by simp
  next
    case (Some nr)
    then obtain t where "s = ''~@'' @ t" by (auto simp: local_ref_def after_Some_iff split: option.splits)
    then have "c = CHR ''~''" using Cons by simp
    then show ?thesis using Some Cons mark_hd [of k "fst nr"] by (cases nr) auto
  qed
qed simp

text \<open>The expanded line starts with the same character and, after a word, the same next one.\<close>

definition expanded :: "nat \<Rightarrow> (string \<times> string) list \<Rightarrow> string \<Rightarrow> string" where
  "expanded k d l = sub_local (mark k) (subst_args d l)"

lemma expanded_prefix:
  assumes "list_all (\<lambda>c. c \<noteq> CHR ''$'' \<and> c \<noteq> CHR ''~'') w"
  shows "expanded k d (w @ r) = w @ expanded k d r"
proof -
  have "CHR ''$'' \<notin> set w" "CHR ''~'' \<notin> set w" using assms by (auto simp: list_all_iff)
  then show ?thesis by (simp add: expanded_def subst_args_prefix sub_local_prefix)
qed

lemma expanded_hd:
  assumes "\<not> is_hd (\<lambda>c. c = CHR ''$'') r"
  shows "r = [] \<and> expanded k d r = [] \<or> (\<exists>c r1 r2. r = c # r1 \<and> expanded k d r = c # r2)"
  using subst_hd [OF assms, of d] sub_hd [of "subst_args d r" k] unfolding expanded_def by auto

lemma is_hd_expanded:
  "\<not> is_hd (\<lambda>c. c = CHR ''$'') r \<Longrightarrow> is_hd p (expanded k d r) = is_hd p r"
  using expanded_hd [of r k d] by (auto simp: is_hd_def)

lemma dropWhile_hd: "\<not> is_hd p (dropWhile p xs)"
  by (induction xs) (auto simp: is_hd_def)

lemma split_stop:
  "list_all p w \<Longrightarrow> \<not> is_hd p r \<Longrightarrow> takeWhile p (w @ r) = w \<and> dropWhile p (w @ r) = r"
  by (induction w) (auto simp: is_hd_def split: list.splits)

lemma first_word_expanded:
  assumes "steady l"
  shows "first_word (expanded k d l) = first_word l"
proof -
  let ?w = "takeWhile py_is_space l" and ?t = "lstrip l"
  have t: "\<not> is_hd (\<lambda>c. c = CHR ''$'') ?t" using assms by (simp add: steady_def Let_def)
  have w: "list_all py_is_space ?w" by (auto simp: list_all_iff dest: set_takeWhileD)
  have "expanded k d (?w @ ?t) = ?w @ expanded k d ?t"
    by (rule expanded_prefix) (use w space_char in \<open>auto simp: list_all_iff\<close>)
  then have e: "expanded k d l = ?w @ expanded k d ?t" by (simp add: lstrip_def)
  have "\<not> is_hd py_is_space (expanded k d ?t)"
    using is_hd_expanded [OF t] by (simp add: lstrip_def dropWhile_hd)
  then have ls: "lstrip (expanded k d l) = expanded k d ?t"
    using split_stop [OF w] unfolding e by (simp add: lstrip_def)
  show ?thesis
  proof (cases "is_hd is_name_start ?t")
    case False
    then show ?thesis using is_hd_expanded [OF t] by (simp add: first_word_def scan_name_def ls Let_def)
  next
    case True
    let ?n = "takeWhile is_word ?t" and ?r = "dropWhile is_word ?t"
    have r: "\<not> is_hd (\<lambda>c. c = CHR ''$'') ?r" using assms True by (simp add: steady_def Let_def)
    have n: "list_all is_word ?n" by (auto simp: list_all_iff dest: set_takeWhileD)
    have "expanded k d (?n @ ?r) = ?n @ expanded k d ?r"
      by (rule expanded_prefix) (use n word_char in \<open>auto simp: list_all_iff\<close>)
    then have et: "expanded k d ?t = ?n @ expanded k d ?r" by simp
    have "\<not> is_hd is_word (expanded k d ?r)" using is_hd_expanded [OF r] by (simp add: dropWhile_hd)
    then have "takeWhile is_word (expanded k d ?t) = ?n" using split_stop [OF n] unfolding et by blast
    then show ?thesis
      using True is_hd_expanded [OF t] by (simp add: first_word_def scan_name_def ls Let_def)
  qed
qed

lemma expand_line_cases:
  assumes "expand_line ms k l = Inr (Some new)"
  shows "\<exists>n ars body d. first_word l = Some n \<and> map_of ms n = Some (ars, body) \<and> new = map (expanded k d) body"
proof -
  obtain n a ars body where i: "invocation l = Some (n, a)" "map_of ms n = Some (ars, body)"
    using assms by (auto simp: expand_line_def split: option.splits)
  have n: "first_word l = Some n"
    using i(1) by (auto simp: invocation_def first_word_def split: option.splits if_splits)
  show ?thesis
  proof (cases a)
    case None
    then have "new = map (expanded k []) body"
      using assms i by (auto simp: expand_line_def expanded_def subst_args_def)
    then show ?thesis using n i(2) by blast
  next
    case (Some v)
    then have "new = map (expanded k (py_dict (zip ars (arg_values v)))) body"
      using assms i by (auto simp: expand_line_def Let_def expanded_def split: if_splits)
    then show ?thesis using n i(2) by blast
  qed
qed

lemma one_pass_ranked:
  assumes "ranked ms rk" and "calls_below ms rk (Suc b) ls" and "one_pass ms k ls = Inr (k', any, out)"
  shows "calls_below ms rk b out"
  using assms(2,3)
proof (induction ls arbitrary: k k' any out)
  case Nil
  then show ?case by (simp add: calls_below_def)
next
  case (Cons l ls)
  have below: "calls_below ms rk (Suc b) ls" using Cons.prems(1) by (simp add: calls_below_def)
  obtain x where x: "expand_line ms (k + 1) l = Inr x" using Cons.prems(2) by (auto simp: bindE_Inr_iff)
  show ?case
  proof (cases x)
    case None
    then obtain k1 any' out' where o': "one_pass ms k ls = Inr (k1, any', out')" "out = l # out'"
      using Cons.prems(2) x by (auto simp: bindE_Inr_iff)
    have "\<not> is_call ms l" using x None by (simp add: expand_line_None)
    then show ?thesis using Cons.IH [OF below o'(1)] o'(2) by (simp add: calls_below_def split: option.split)
  next
    case (Some new)
    then obtain k1 any' out' where o': "one_pass ms (k + 1) ls = Inr (k1, any', out')" "out = new @ out'"
      using Cons.prems(2) x by (auto simp: bindE_Inr_iff)
    obtain n ars body d where n: "first_word l = Some n" "map_of ms n = Some (ars, body)"
        "new = map (expanded (k + 1) d) body"
      using expand_line_cases x Some by blast
    have "is_call ms l" using x Some expand_line_None [of ms "k + 1" l] by auto
    then have r: "rank_of rk n \<le> b" using Cons.prems(1) n(1) by (simp add: calls_below_def)
    have "list_all (\<lambda>l. steady l \<and> (case first_word l of None \<Rightarrow> True
      | Some m \<Rightarrow> map_of ms m = None \<or> rank_of rk m < rank_of rk n)) body"
      using assms(1) map_of_SomeD [OF n(2)] by (auto simp: ranked_def list_all_iff)
    then have "calls_below ms rk b new"
      using r is_call_first unfolding calls_below_def n(3) list_all_iff
      by (fastforce simp: first_word_expanded split: option.splits)
    then show ?thesis using Cons.IH [OF below o'(1)] o'(2) by (simp add: calls_below_def)
  qed
qed

lemma expand_passes_ranked:
  "ranked ms rk \<Longrightarrow> calls_below ms rk b ls \<Longrightarrow> b < n \<Longrightarrow>
   (\<exists>out. expand_passes n ms k ls = Inr out) \<or> expand_passes n ms k ls = Inl (SystemStop ''macro arguments'')"
proof (induction b arbitrary: n k ls)
  case 0
  then have "list_all (\<lambda>l. \<not> is_call ms l) ls"
    unfolding calls_below_def list_all_iff using is_call_first by fastforce
  then show ?case using 0 by (cases n) (simp_all add: one_pass_no_call)
next
  case (Suc b)
  then obtain n' where n: "n = Suc n'" by (cases n) auto
  show ?case
  proof (cases "one_pass ms k ls")
    case (Inl e)
    then show ?thesis using one_pass_error [OF Inl] n by simp
  next
    case (Inr x)
    obtain k' any out where x: "x = (k', any, out)" by (cases x)
    then have "calls_below ms rk b out" using one_pass_ranked Suc.prems Inr by blast
    then show ?thesis using Suc.IH [of out n' k'] Suc.prems n Inr x by auto
  qed
qed

lemma ranked_ends:
  assumes "parse_defs [] (splitlines src) = Inr (ms, ls)" and "ranked ms rk" and "calls_below ms rk 63 ls"
  shows "(\<exists>out. expand_macros src = Inr out) \<or> expand_macros src = Inl (SystemStop ''macro arguments'')"
  using expand_passes_ranked [OF assms(2,3), of MAX_PASSES 0] assms(1)
  by (auto simp: expand_macros_def MAX_PASSES_def)

end
