(* ===== verification/Driver_Facts.thy ===== *)
theory Driver_Facts
  imports Driver Macro_Facts Listing_Facts
begin

section \<open>Facts about the driver\<close>

text \<open>
  Includes: what \<open>seen\<close> holds, which files are refused. The lint and the exit status of the commands:
  when a file is written.
\<close>

subsection \<open>Includes\<close>

definition found_file :: "env \<Rightarrow> string \<Rightarrow> string \<Rightarrow> string option" where
  "found_file E path inc = find (\<lambda>c. map_of (files E) c \<noteq> None) (candidates E path inc)"

lemma resolve_line:
  "resolve_lines E path (l # ls) seen =
    (case include_name l of
       None \<Rightarrow> bindE (resolve_lines E path ls seen) (\<lambda>(t, s). Inr (l @ t, s))
     | Some inc \<Rightarrow>
         (case found_file E path inc of
            None \<Rightarrow> Inl (SystemStop ''include not found'')
          | Some found \<Rightarrow>
              bindE (resolve_file E found (the (map_of (files E) found)) seen) (\<lambda>(t, s).
                bindE (resolve_lines E path ls s) (\<lambda>(t', s'). Inr (included found t @ t', s')))))"
  unfolding found_file_def by (rule resolve_lines.simps(2))

lemma resolve_error:
  "resolve_file E f src seen = Inl e \<Longrightarrow> \<exists>m. e = SystemStop m"
  "resolve_lines E p ls seen = Inl e \<Longrightarrow> \<exists>m. e = SystemStop m"
proof (induction E f src seen and E p ls seen rule: resolve_file_resolve_lines.induct)
  case (1 E f src seen)
  then show ?case by (auto simp: resolve_file.simps Let_def split: if_splits)
next
  case (2 E p seen)
  then show ?case by (simp add: resolve_lines.simps)
next
  case (3 E p l ls seen)
  show ?case
  proof (cases "include_name l")
    case None
    then show ?thesis using 3(1,4) by (auto simp: resolve_line bindE_Inl_iff)
  next
    case (Some inc)
    then show ?thesis
      using 3(2,3) [OF Some] 3(4)
      by (auto simp: resolve_line bindE_Inl_iff found_file_def split: option.splits)
  qed
qed

text \<open>The files entered: each once.\<close>

lemma resolve_seen:
  "resolve_file E f src seen = Inr (t, s) \<Longrightarrow> distinct seen \<Longrightarrow>
     distinct s \<and> set seen \<subseteq> set s \<and> file_path E f \<in> set s"
  "resolve_lines E p ls seen = Inr (t, s) \<Longrightarrow> distinct seen \<Longrightarrow> distinct s \<and> set seen \<subseteq> set s"
proof (induction E f src seen and E p ls seen arbitrary: t s and t s rule: resolve_file_resolve_lines.induct)
  case (1 E f src seen)
  then show ?case by (fastforce simp: resolve_file.simps Let_def split: if_splits)
next
  case (2 E p seen)
  then show ?case by (simp add: resolve_lines.simps)
next
  case (3 E p l ls seen)
  show ?case
  proof (cases "include_name l")
    case None
    then show ?thesis using 3(1,4,5) by (auto simp: resolve_line bindE_Inr_iff)
  next
    case (Some inc)
    then obtain found t1 s1 t2 where
      f: "find (\<lambda>c. map_of (files E) c \<noteq> None) (candidates E p inc) = Some found" and
      r: "resolve_file E found (the (map_of (files E) found)) seen = Inr (t1, s1)"
        "resolve_lines E p ls s1 = Inr (t2, s)"
      using 3(4) by (auto simp: resolve_line bindE_Inr_iff found_file_def split: option.splits)
    have "distinct s1 \<and> set seen \<subseteq> set s1" using 3(2) [OF Some f r(1) 3(5)] by blast
    then show ?thesis using 3(3) [OF Some f r(1) refl r(2)] by blast
  qed
qed

lemma resolve_append:
  "resolve_lines E p (xs @ ys) seen = Inr (t, s) \<Longrightarrow>
   \<exists>t1 s1 t2. resolve_lines E p xs seen = Inr (t1, s1) \<and> resolve_lines E p ys s1 = Inr (t2, s)"
proof (induction xs arbitrary: seen t)
  case Nil
  then show ?case by (simp add: resolve_lines.simps(1))
next
  case (Cons x xs)
  show ?case
  proof (cases "include_name x")
    case None
    then obtain t' where "resolve_lines E p (xs @ ys) seen = Inr (t', s)"
      using Cons.prems by (auto simp: resolve_line bindE_Inr_iff)
    then show ?thesis using Cons.IH None by (fastforce simp: resolve_line)
  next
    case (Some inc)
    then obtain found t1 s1 t2 where "found_file E p inc = Some found"
      "resolve_file E found (the (map_of (files E) found)) seen = Inr (t1, s1)"
      "resolve_lines E p (xs @ ys) s1 = Inr (t2, s)"
      using Cons.prems by (auto simp: resolve_line bindE_Inr_iff split: option.splits)
    then show ?thesis using Cons.IH [of s1 t2] Some by (fastforce simp: resolve_line)
  qed
qed

text \<open>A file that leads to the same file twice is refused, circular or not.\<close>

lemma include_twice:
  assumes src: "splitlines src = xs @ l # ys @ l' # zs"
    and n: "include_name l = Some n" "include_name l' = Some n'"
    and f: "found_file E (file_path E f) n = Some g" "found_file E (file_path E f) n' = Some g'"
    and same: "file_path E g = file_path E g'"
  shows "\<exists>m. resolve_includes E src f = Inl (SystemStop m)"
proof (cases "resolve_file E f src []")
  case (Inl e)
  then show ?thesis using resolve_error(1) by (fastforce simp: resolve_includes_def)
next
  case (Inr ts)
  obtain t s where ts: "ts = (t, s)" by (cases ts)
  let ?p = "file_path E f"
  have "resolve_lines E ?p (xs @ l # ys @ l' # zs) [?p] = Inr (t, s)"
    using Inr ts src by (simp add: resolve_file.simps Let_def)
  then obtain t1 s1 t2 where 1: "resolve_lines E ?p xs [?p] = Inr (t1, s1)"
      "resolve_lines E ?p (l # ys @ l' # zs) s1 = Inr (t2, s)"
    using resolve_append by blast
  obtain t3 s3 t4 where 2: "resolve_file E g (the (map_of (files E) g)) s1 = Inr (t3, s3)"
      "resolve_lines E ?p (ys @ l' # zs) s3 = Inr (t4, s)"
    using 1(2) n f by (auto simp: resolve_line bindE_Inr_iff)
  obtain t5 s5 t6 where 3: "resolve_lines E ?p ys s3 = Inr (t5, s5)" "resolve_lines E ?p (l' # zs) s5 = Inr (t6, s)"
    using resolve_append [OF 2(2)] by blast
  have "distinct s1" using resolve_seen(2) [OF 1(1)] by simp
  then have "distinct s3" "file_path E g \<in> set s3" using resolve_seen(1) [OF 2(1)] by auto
  then have "file_path E g' \<in> set s5" using resolve_seen(2) [OF 3(1)] same by auto
  then have "resolve_file E g' (the (map_of (files E) g')) s5 = Inl (SystemStop ''circular include'')"
    by (simp add: resolve_file.simps Let_def)
  then have False using 3(2) n f by (simp add: resolve_line)
  then show ?thesis ..
qed

subsection \<open>The lint\<close>

lemma include_contains: "include_name l = Some n \<Longrightarrow> contains ''include:'' l"
proof -
  assume "include_name l = Some n"
  then obtain r where "lstrip l = ''include:'' @ r"
    by (auto simp: include_name_def after_Some_iff split: option.splits)
  then have "l = takeWhile py_is_space l @ ''include:'' @ r" by (metis lstrip_def takeWhile_dropWhile_id)
  then show ?thesis unfolding contains_iff by blast
qed

lemma contains_append: "contains p s \<Longrightarrow> contains p (a @ s @ b)"
  unfolding contains_iff by (metis append.assoc)

lemma no_include_lines:
  assumes "\<not> contains ''include:'' src"
  shows "list_all (\<lambda>l. include_name l = None) (splitlines src)"
  unfolding list_all_iff
proof
  fix l assume "l \<in> set (splitlines src)"
  then obtain xs ys where "splitlines src = xs @ l # ys" by (meson split_list)
  then have "src = concat xs @ l @ concat ys" by (metis concat.simps(2) concat_append concat_splitlines)
  then show "include_name l = None"
    using assms include_contains [of l] contains_append [of _ l] by (cases "include_name l") auto
qed

lemma resolve_without_include:
  assumes "\<not> contains ''include:'' src"
  shows "resolve_includes E src f = Inr src"
proof -
  have "resolve_lines E p ls seen = Inr (concat ls, seen)" if "list_all (\<lambda>l. include_name l = None) ls" for p ls seen
    using that by (induction ls) (simp_all add: resolve_lines.simps)
  then show ?thesis
    using no_include_lines [OF assms] by (simp add: resolve_includes_def resolve_file.simps Let_def)
qed

text \<open>The text the lint sees is the one with its includes resolved, also where the code skips that.\<close>

lemma linted_text:
  "(if contains ''include:'' src then resolve_includes E src f else Inr src) = resolve_includes E src f"
  by (simp add: resolve_without_include)

lemma strict_exit:
  assumes "map_of (files E) path = Some text" and "resolve_includes E (without_modes text) path = Inr full"
    and "opt_strict opt"
  shows "snd (compile_file E path out opt) =
    (if \<exists>l \<in> set (lines_of full). shift_error (lowered l) then Exited 2
     else build_source E (without_modes text) path out opt)"
  using assms analyze_source_errors [of full]
  by (simp add: compile_file_def linted_text Let_def)

subsection \<open>The listing modes\<close>

lemma compile_source_plain: "compile_source E src f l d w t = compile_source E src f False d w False"
proof -
  have "(\<lambda>program. generate program (settings l d w t)) = (\<lambda>program. generate program (settings False d w False))"
    by (rule ext) (rule generate_plain [OF plain_settings])
  then show ?thesis by (simp only: compile_source_def)
qed

lemma build_source_plain:
  "build_source E src path out (opt\<lparr>opt_listing := l, opt_teach := t\<rparr>) = build_source E src path out opt"
  using compile_source_plain [of E src path l "opt_debug opt" "opt_wx opt" t]
    compile_source_plain [of E src path "opt_listing opt" "opt_debug opt" "opt_wx opt" "opt_teach opt"]
  by (simp add: build_source_def)

lemma compile_file_plain:
  "compile_file E path out (opt\<lparr>opt_listing := l, opt_teach := t\<rparr>) = compile_file E path out opt"
proof -
  have "opt_strict (opt\<lparr>opt_listing := l, opt_teach := t\<rparr>) = opt_strict opt"
    "opt_warn (opt\<lparr>opt_listing := l, opt_teach := t\<rparr>) = opt_warn opt" by simp_all
  then show ?thesis by (simp only: compile_file_def build_source_plain)
qed

subsection \<open>Exit status\<close>

lemma build_source_cases:
  "build_source E src path out opt =
    (case compile_source E src path (opt_listing opt) (opt_debug opt) (opt_wx opt) (opt_teach opt) of
       Inr blob \<Rightarrow> Built (out_name out path) blob
     | Inl e \<Rightarrow> if py_class e \<in> {SyntaxError, CodegenError, ValueError} then Exited 1 else Raised e)"
  by (simp add: build_source_def handled_def split: sum.split)

definition nothing_built :: "outcome \<Rightarrow> bool" where
  "nothing_built r \<longleftrightarrow> exit_status r \<noteq> 0 \<and> (\<forall>o' blob. r \<noteq> Built o' blob)"

lemma compile_file_cases:
  "nothing_built (snd (compile_file E path out opt)) \<or>
   (\<exists>src blob. map_of (files E) path = Some src \<and>
      snd (compile_file E path out opt) = Built (out_name out path) blob \<and>
      compile_source E (without_modes src) path (opt_listing opt) (opt_debug opt) (opt_wx opt) (opt_teach opt) = Inr blob)"
proof (cases "map_of (files E) path")
  case None
  then show ?thesis by (simp add: compile_file_def nothing_built_def)
next
  case (Some src)
  have "snd (compile_file E path out opt) = Exited 2 \<or> (\<exists>e. snd (compile_file E path out opt) = Raised e) \<or>
      snd (compile_file E path out opt) = build_source E (without_modes src) path out opt"
    using Some by (auto simp: compile_file_def linted_text Let_def split: sum.splits)
  then consider "snd (compile_file E path out opt) = Exited 2" | e where "snd (compile_file E path out opt) = Raised e"
    | "snd (compile_file E path out opt) = build_source E (without_modes src) path out opt" by blast
  then show ?thesis
  proof cases
    case 3
    then show ?thesis
      using Some by (cases "compile_source E (without_modes src) path (opt_listing opt) (opt_debug opt) (opt_wx opt) (opt_teach opt)")
        (simp_all add: build_source_def nothing_built_def)
  qed (simp_all add: nothing_built_def)
qed

lemma find_in: "find P xs = Some x \<Longrightarrow> x \<in> set xs"
  by (auto simp: find_Some_iff)

lemma main_build_cases:
  "(\<exists>r. main_build E argv = ([], r) \<and> exit_status r = 1 \<and> (\<forall>o' blob. r \<noteq> Built o' blob)) \<or>
   (\<exists>path out opt. path \<in> set (tl argv) \<and> main_build E argv = compile_file E path out opt)"
proof -
  have "(\<exists>r. R = ([], r) \<and> exit_status r = 1 \<and> (\<forall>o' blob. r \<noteq> Built o' blob)) \<or>
      (\<exists>path out opt. path \<in> set xs \<and> R = compile_file E path out opt)"
    if "R = (case find P xs of None \<Rightarrow> ([], Returned 1)
      | Some path \<Rightarrow> if path = [] then ([], Returned 1) else compile_file E path out0 opt0)" for R P xs out0 opt0
    using that find_in [of P xs] by (cases "find P xs") (auto split: if_splits)
  note f = this [OF refl]
  show ?thesis
  proof (cases "out_arg argv")
    case None
    show ?thesis unfolding main_build_def None option.case by (rule f)
  next
    case (Some v)
    then show ?thesis
    proof (cases v)
      case None
      then show ?thesis using Some by (simp add: main_build_def)
    next
      case (Some w)
      show ?thesis unfolding main_build_def \<open>out_arg argv = Some v\<close> Some option.case by (rule f)
    qed
  qed
qed

lemma build_status:
  "exit_status (snd (main_build E argv)) = 0 \<longleftrightarrow> (\<exists>o' blob. snd (main_build E argv) = Built o' blob)"
  "snd (main_build E argv) = Built o' blob \<Longrightarrow>
    \<exists>path src out l d w t. path \<in> set (tl argv) \<and> map_of (files E) path = Some src \<and> o' = out_name out path \<and>
      compile_source E (without_modes src) path l d w t = Inr blob"
proof -
  consider r where "main_build E argv = ([], r)" "exit_status r = 1" "\<forall>o' blob. r \<noteq> Built o' blob"
    | path out opt where "path \<in> set (tl argv)" "main_build E argv = compile_file E path out opt"
    using main_build_cases [of E argv] by blast
  note c = this
  show "exit_status (snd (main_build E argv)) = 0 \<longleftrightarrow> (\<exists>o' blob. snd (main_build E argv) = Built o' blob)"
    using c
  proof cases
    case (2 path out opt)
    then show ?thesis using compile_file_cases [of E path out opt] by (auto simp: nothing_built_def)
  qed auto
  show "\<exists>path src out l d w t. path \<in> set (tl argv) \<and> map_of (files E) path = Some src \<and> o' = out_name out path \<and>
      compile_source E (without_modes src) path l d w t = Inr blob" if b: "snd (main_build E argv) = Built o' blob"
    using c
  proof cases
    case (2 path out opt)
    then obtain src where "map_of (files E) path = Some src" "o' = out_name out path"
        "compile_source E (without_modes src) path (opt_listing opt) (opt_debug opt) (opt_wx opt) (opt_teach opt) = Inr blob"
      using b compile_file_cases [of E path out opt] by (auto simp: nothing_built_def)
    then show ?thesis using 2(1) by blast
  qed (use b in simp)
qed

end
