(* ===== verification/Spec2Isabelle.thy ===== *)
theory Spec2Isabelle
  imports Isa_Table Core_Simulation Front_End Driver_Facts "HOL-Library.Code_Target_Nat"
begin

text \<open>
  ACLM is a compiler from a small systems language to x86-64 binaries, written in Python
  (\<open>src/ACLM\<close>). \<open>compiler.main\<close> reads a file, removes mode lines, pastes included files
  (\<open>resolve_includes\<close>), expands macros and local labels, and hands the text to \<open>Lexer\<close>, \<open>Parser\<close>
  and \<open>CodeGenerator\<close>. The code generator walks the statements and calls methods of \<open>Assembler\<close>
  (\<open>x64enc.py\<close>), each of which appends the bytes of one instruction, defines a label or records a
  relocation; \<open>link\<close> then fills in the distances. \<open>elfwriter.py\<close> wraps code and data into an ELF
  executable (plain, with W^X segments or with debug sections), and \<open>kernel_boot.py\<close> builds a
  Multiboot image with page tables and the stubs that switch to long mode. \<open>strict.py\<close> is a lint on the source text that can stop a build.

  \<^bold>\<open>Theories, from the bottom up.\<close>

  \<^item> \<open>Prelude\<close>: errors as values (\<open>error\<close>), sequencing (\<open>bindE\<close>, \<open>seqE\<close>), little-endian fields, slice
    assignment; \<open>Text\<close>: the string methods of Python the front end uses; \<open>Regs\<close>: \<open>regs.py\<close>.
  \<^item> \<open>Assembler\<close>, \<open>Encode\<close>, \<open>Encode_Isa\<close>: \<open>x64enc.py\<close>. The object is the record \<open>asm\<close> (code, labels,
    relocations, flag); a method is a function \<open>asm \<Rightarrow> error + asm\<close>. \<open>Isa_Table\<close> is the table of
    methods by name, as \<open>getattr\<close> uses it. \<open>Link\<close> states the invariant of the object (\<open>wf_asm\<close>), that
    every method keeps it, and what \<open>link\<close> computes.
  \<^item> \<open>X86_Decode\<close> and \<open>X86_Machine\<close> are specifications written from the processor manual: an
    instruction decoder and the integer core of the machine. \<open>Encode_Bytes\<close>, \<open>Encode_Correct\<close> and
    \<open>Mem_Operands\<close> show that the methods append bytes the decoder reads as the instruction meant;
    \<open>Block_Correct\<close> goes from instruction lists to machine runs.
  \<^item> \<open>Ast\<close>: the node classes of \<open>ast_nodes.py\<close>, one constructor each.
  \<^item> \<open>Codegen_Base\<close>, \<open>Codegen_Ops\<close>, \<open>Codegen_Kernel\<close>, \<open>Codegen_Emit\<close>, \<open>Codegen\<close>: \<open>codegen.py\<close>. The
    object is the record \<open>gen\<close>, which contains the assembler; an emitter is \<open>gen \<Rightarrow> error + gen\<close>.
    \<open>Listing\<close> is the text of the listing. \<open>Emitters\<close> proves, once for every property closed under a few
    operations, that all emitters have it; \<open>Codegen_Invariant\<close> uses it for the invariant \<open>gen_ok\<close>,
    \<open>Listing_Facts\<close> for the independence of the code from the listing and for the places of the
    statements in it. \<open>Data_Layout\<close> shows that
    the data section holds what the data statements promise; \<open>Eval_Correct\<close> that the code of an
    operand computes its value.
  \<^item> \<open>Core_Language\<close> is the abstract machine of a core of the language: registers, memory, stack, jumps
    and calls. \<open>Core_Correct\<close> has the code of the register operations, \<open>Core_Linked\<close> a program logic
    (\<open>hoare\<close>) for pieces of code where they stand in the linked program, with the addresses of data,
    \<open>Core_Statements\<close> the code of every straight statement, and \<open>Core_Simulation\<close> labels, jumps, calls and
    whole runs: compiled programs simulate the abstract machine.
  \<^item> \<open>Codec\<close>, \<open>Elf_Writer\<close>, \<open>Elf_Debug\<close>, \<open>Kernel_Boot\<close>: the file writers, beside a loader written from
    the ELF specification, the LEB128 readers and the line-table interpreter of DWARF, and the
    four-level page walk. \<open>Image\<close> combines code generator, linker, writer and loader.
  \<^item> \<open>Lexer\<close>, \<open>Parse_Expr\<close>, \<open>Parser\<close>: \<open>lexer.py\<close> and \<open>parser.py\<close>. \<open>Concrete_Syntax\<close> and \<open>Layout\<close> give the
    tokens of a program and the texts of a token list, and show that parser and lexer read them
    back.
  \<^item> \<open>Includes\<close>, \<open>Expand\<close>, \<open>Strict\<close>, \<open>Driver\<close>: \<open>compiler.py\<close> and \<open>strict.py\<close>; files are a finite table in
    the record \<open>env\<close>. \<open>Front_End\<close>, \<open>Macro_Facts\<close> and \<open>Driver_Facts\<close> hold their lemmas.

  \<^bold>\<open>What the properties show.\<close> C1: compiled programs of the core language run
  as their abstract machine. C2, C8, C10, C13, C14, C34: from source text to program to image. C3,
  C4, C9, C31: the operands of a loaded image lead to the label or datum meant, and the one
  combination of options where they do not. C5, C24: the kernel image boots through its page
  tables and is built whenever it fits. C6, C15, C16, C17: \<open>link\<close> and the assembler
  invariant. C12, C19, C20, C21, C33: the instruction encodings, and where \<open>lea\<close>
  loses the upper bits of a displacement. C7, C32: operand code and the register it destroys. C23:
  data names do not overlap. C11, C36, C37, C38, C39: the file formats. C25, C26, C27, C28, C35:
  macros and local labels. C18, C22: the listing. C29, C30, C40: lint and exit status.

  \<^bold>\<open>Locales.\<close> \<open>fixed_codec\<close> (\<open>Codec\<close>) is interpreted on the field formats, \<open>instruction_set\<close> and
  \<open>asm_relation\<close> (\<open>Isa_Table\<close>) on \<open>invoke\<close> and the two relations of \<open>Link\<close>, \<open>state_preorder\<close> (\<open>Prelude\<close>) on
  every relation an emitter stays within, \<open>emitter_property\<close>, \<open>statement_property\<close> and
  \<open>pass_property\<close> (\<open>Emitters\<close>) on the invariant, the independence and the order of places, \<open>simulation\<close> (\<open>Core_Simulation\<close>) on the core language and the
  processor.

  \<^bold>\<open>Bounds.\<close> The only fuel is the code's own: \<open>expand_macros\<close>
  makes at most \<open>MAX_PASSES = 64\<close> passes and raises when the last one still expanded
  something; C26 gives a condition under which they are enough, C27 one under which they never
  are. All other recursions have termination proofs: the parser consumes tokens, includes enter
  each file at most once.

  \<^bold>\<open>Integers and strings.\<close> Python integers are \<open>int\<close>, list positions \<open>nat\<close>, bytes \<open>8 word\<close>; the machine
  has 64-bit words. Strings are lists of 8-bit characters, the UTF-8 bytes of the Python string.

  \<^bold>\<open>Scope of the core.\<close> All statements are modelled as emitters; the meaning
  in \<open>Core_Language\<close> and C1 cover those of registers, memory, the stack, labels,
  jumps and calls. Outside are functions with arguments and locals, system calls and the
  statements built on them, the floating-point, vector and kernel statements, an index that is not
  a register (its code overwrites \<open>r13\<close>), and the registers \<open>rsp\<close>,
  \<open>r11\<close>, \<open>r12\<close> and \<open>r15\<close>, which the code of operands uses.
  The machine has a flat memory beside the code it runs; that core programs leave the bytes of the
  code alone is part of the property.

  \<^bold>\<open>Not modelled.\<close> The text of messages other than the lint; token columns; letters outside ASCII in identifiers (\<open>OutsideAscii\<close> stands for the
  answer of Python's character database); the recursion limit of Python; errors of the operating
  system on reading and writing, newline translation by \<open>open\<close>, and the process that \<open>run\<close> starts.
  The package initialiser, tests, examples and documents carry no logic of the compiler.
\<close>

subsection \<open>Inputs of the witnesses\<close>

definition sample_program :: "call list" where
  "sample_program =
    [CR ''push_reg'' ''rbp'', CRR ''mov_reg_reg'' ''rbp'' ''rsp'', CR ''label'' ''loop'',
     CRI ''sub_reg_imm'' ''rdi'' 1, CRR ''jcc'' ''nz'' ''loop'', CR ''call'' ''end'',
     CRI ''mov_reg_imm64'' ''r12'' (- 1), CR ''label'' ''end'', CR ''pop_reg'' ''rbp'', C0 ''ret'']"

text \<open>A program with data, a structure, a loop, a call and a function.\<close>

definition sample_source :: program where
  "sample_source =
    [(1, DataConst ''msg'' (Str ''Hi'')), (2, DataAlign 8), (3, DataAlloc ''buf'' (SizeNum 16)),
     (4, Label ''top''), (5, CpuBin ''set'' ''reg5'' (Ident ''msg'')),
     (6, CpuBin ''add'' ''reg2'' (BinExpr ''+'' (Reg ''reg1'') (Number 7))),
     (7, JumpIf ''nz'' ''top''), (8, Call ''f'' [Number 1]),
     (9, FnDef ''f'' [''x''] [(10, RetVal (Some (Ident ''x'')))] [])]"

text \<open>What the generator makes of it, for each choice of the two options.\<close>

definition sample_gen :: "bool \<Rightarrow> bool \<Rightarrow> gen" where
  "sample_gen w d = init_gen\<lparr>
     g_asm := \<lparr>code = [72, 141, 53] @ (if w then [249, 15, 0, 0] else [104, 0, 0, 0]) @
         [73, 137, 195, 65, 83, 65, 188, 7, 0, 0, 0, 65, 91, 77, 1, 227, 77, 137, 223, 76, 1, 251,
          15, 133, 221, 255, 255, 255, 65, 187, 1, 0, 0, 0, 65, 83, 95, 232, 10, 0, 0, 0, 184, 60,
          0, 0, 0, 72, 49, 255, 15, 5, 85, 72, 137, 229, 83, 65, 84, 65, 85, 65, 86, 72, 137, 248,
          72, 137, 236, 72, 129, 236, 32, 0, 0, 0, 65, 94, 65, 93, 65, 92, 91, 93, 195, 72, 137,
          236, 72, 129, 236, 32, 0, 0, 0, 65, 94, 65, 93, 65, 92, 91, 93, 195],
       labels = [(''__lbl_top'', 0), (''__lbl_f'', 59)],
       relocs =
         [\<lparr>r_offset = 3, r_target = ''__data_msg'', r_kind = ''rel32'', r_size = 4\<rparr>,
          \<lparr>r_offset = 31, r_target = ''__lbl_top'', r_kind = ''rel32'', r_size = 4\<rparr>,
          \<lparr>r_offset = 45, r_target = ''__lbl_f'', r_kind = ''rel32'', r_size = 4\<rparr>],
       deterministic = False\<rparr>,
     data_layout := [(''msg'', 0), (''buf'', 8)],
     data_bytes := [72, 105] @ replicate 22 0, string_lens := [(''msg'', 2)],
     debug_dwarf := d, use_wx := w,
     line_entries := [(0, 1), (0, 2), (0, 3), (0, 4), (0, 5), (7, 6), (29, 7), (35, 8), (59, 9),
       (70, 10)]\<rparr>"

lemma sample_gen:
  "generate_code sample_source (init_gen\<lparr>use_wx := w, debug_dwarf := d\<rparr>) = Inr (sample_gen w d)"
  by (cases w; cases d; simp only:; code_simp)

lemma sample_parts:
  "\<not> baremetal (sample_gen w d)"
  "labels (g_asm (sample_gen w d)) = [(''__lbl_top'', 0), (''__lbl_f'', 59)]"
  "length (code (g_asm (sample_gen w d))) = 111" "length (data_bytes (sample_gen w d)) = 24"
  "assert_bytes (sample_gen w d) = []" "assert_sizes (sample_gen w d) = []"
  "data_layout (sample_gen w d) = [(''msg'', 0), (''buf'', 8)]"
  "relocs (g_asm (sample_gen w d)) =
    [\<lparr>r_offset = 3, r_target = ''__data_msg'', r_kind = ''rel32'', r_size = 4\<rparr>,
     \<lparr>r_offset = 31, r_target = ''__lbl_top'', r_kind = ''rel32'', r_size = 4\<rparr>,
     \<lparr>r_offset = 45, r_target = ''__lbl_f'', r_kind = ''rel32'', r_size = 4\<rparr>]"
  by (simp_all add: sample_gen_def init_gen_def)

lemma sample_image: "\<exists>blob. write_image (sample_gen w d) = Inr blob"
proof (rule image_writes [OF sample_parts(1)])
  let ?l = "debug_line_section (ascii ''source.aclm'') ([(0, 1)] @ map (\<lambda>(_, off). (off, 1)) (take 20
    (map (\<lambda>(n, p). (encode_str n, p)) (sort_key fst [(''__lbl_top'', 0), (''__lbl_f'', 59)]))))"
  let ?i = "info_section (ascii ''source.aclm'') 111"
  have "?l = Inr (projr ?l)" "?i = Inr (projr ?i)"
    "length (projr ?l) + length (projr ?i) + length abbrev_section < 2 ^ 32"
    by code_simp+
  then show "\<exists>dl di. debug_line_section (ascii ''source.aclm'') ([(0, 1)] @ map (\<lambda>(_, off). (off, 1)) (take 20
      (map (\<lambda>(n, p). (encode_str n, p)) (sort_key fst (labels (g_asm (sample_gen w d))))))) = Inr dl \<and>
      info_section (ascii ''source.aclm'') (length (code (g_asm (sample_gen w d)))) = Inr di \<and>
      length dl + length di + length abbrev_section < 2 ^ 32"
    unfolding sample_parts by blast
qed (simp_all add: sample_parts run_asserts_def)

lemma sample_data: "data_ok sample_source"
  "data_value (collect_structs sample_source []) sample_source ''msg'' = Some [72, 105, 0]"
  "data_value (collect_structs sample_source []) sample_source ''buf'' = Some (replicate 16 0)"
  "\<not> internal ''msg''" "\<not> internal ''buf''"
  by code_simp+






text \<open>Inside a function: an argument in \<open>rdi\<close>, a local below \<open>rbp\<close>.\<close>

definition frame_gen :: gen where
  "frame_gen = init_gen\<lparr>fn_args := [(''x'', ''rdi'')], fn_locals := [(''n'', - 8)], in_fn := True\<rparr>"

definition frame_operand :: expr where
  "frame_operand = BinExpr ''+'' (Ident ''n'') (BinExpr ''*'' (Ident ''x'') (Number 3))"

definition frame_mach :: mach where
  "frame_mach = \<lparr>rg = (\<lambda>r. if r = 4 then 0x8000 else if r = 5 then 0x8100 else if r = 7 then 5 else 0),
     mem = (\<lambda>p. if p = 0x80F8 then 2 else 0), rip = 0x400000,
     fl = \<lparr>cf = None, zf = None, sf = None, ovf = None\<rparr>\<rparr>"

text \<open>The sample program as items, and a layout: no blank around colons, a comment at the end.\<close>

definition sample_items :: "item list" where
  "sample_items =
    [One (DataConst ''msg'' (Str ''Hi'')), One (DataAlign 8), One (DataAlloc ''buf'' (SizeNum 16)),
     One (Label ''top''), One (CpuBin ''set'' ''reg5'' (Ident ''msg'')),
     One (CpuBin ''add'' ''reg2'' (BinExpr ''+'' (Reg ''reg1'') (Number 7))),
     One (JumpIf ''nz'' ''top''), One (Call ''f'' [Number 1]),
     Fn ''f'' [''x''] [RetVal (Some (Ident ''x''))]]"

fun gaps :: "tok list \<Rightarrow> token_layout" where
  "gaps [] = []"
| "gaps [t] = [(t, '' # end of file'')]"
| "gaps (t # u # ts) =
    (t, if tkind t \<in> set [T_NEWLINE, T_COLON] \<or> tkind u \<in> set [T_NEWLINE, T_COLON] then [] else '' '') #
    gaps (u # ts)"

definition sample_layout :: token_layout where
  "sample_layout = gaps (butlast (program_toks 1 sample_items))"

lemma sample_layout:
  "list_all item_wf sample_items" "map fst sample_layout = butlast (program_toks 1 sample_items)"
  "layout_ok 1 sample_layout" "gap_ok ''  '' (laid_out sample_layout)"
  "plain_text (''  '' @ laid_out sample_layout)" "program_stmts 1 sample_items = sample_source"
  by code_simp+


text \<open>Macros that call each other in order, a macro that calls itself, a label passed to a macro.\<close>

definition nested_macros :: string where
  "nested_macros = ''macro: two r'' @ [newline] @ ''one $r'' @ [newline] @ ''one $r'' @ [newline] @
     ''end:macro'' @ [newline] @ ''macro: one r'' @ [newline] @ ''cpu:add $r = 1'' @ [newline] @
     ''end:macro'' @ [newline] @ ''two reg1''"




text \<open>A file the lint refuses, and one it accepts.\<close>

definition sample_env :: env where
  "sample_env = \<lparr>files = [(''/w/a'', ''~a''), (''/w/./a'', ''~a''), (''/w/bad'', ''cpu:shld reg1, RCX''),
     (''/w/good'', ''cpu:shld reg1, reg2'')], cwd = ''/w'', package_dir = ''/p''\<rparr>"

definition strict_options :: options where
  "strict_options = no_options\<lparr>opt_strict := True\<rparr>"

text \<open>The second element of an array is added to \<open>reg2\<close> by a subroutine, compared and stored.\<close>

definition core_source :: program where
  "core_source =
    [(1, DataBytes ''tab'' [3, 5]), (2, DataAlloc ''sum'' (SizeNum 8)), (3, DataConst ''N'' (Number 5)),
     (4, CpuBin ''set'' ''reg1'' (Number 1)), (5, CpuBin ''set'' ''reg2'' (Number 2)),
     (6, MemLoad ''reg3'' (Ident ''tab'') (Number 0) 8 (Some (Reg ''reg1'')) 1), (7, Call ''add'' [Reg ''reg3'']),
     (8, Cmp (Reg ''reg2'') (Ident ''N'')), (9, JumpIf ''gt'' ''out''),
     (10, Label ''add''), (11, CpuBin ''add'' ''reg2'' (Reg ''reg6'')), (12, Ret),
     (13, Label ''out''), (14, MemStore (Ident ''sum'') (Number 0) (Reg ''reg2'') 16 None 1)]"

definition core_start :: gen where
  "core_start = init_gen\<lparr>use_wx := False, debug_dwarf := False\<rparr>"

definition core_mach :: mach where
  "core_mach =
    \<lparr>rg = (\<lambda>r. if r = 4 then 0x7000 else 9),
     mem = (\<lambda>p. if p = 0x4000D9 then 3 else if p = 0x4000DA then 5 else 0), rip = 0x400078, fl = no_flags\<rparr>"

text \<open>Where \<open>core_source\<close> has its names, statements and code when it is loaded at \<open>0x400078\<close>.\<close>

definition core_places :: scope where
  "core_places =
    \<lparr>e_const = (\<lambda>n. if n = ''N'' then Some 5 else None), e_field = (\<lambda>st f. None),
     e_addr = (\<lambda>n. if n = ''tab'' then Some 0x4000D9 else if n = ''sum'' then Some 0x4000DB
       else if n = ''N'' then Some 0x4000E3 else None),
     e_pos = map (\<lambda>k. 0x400078 + k) [0, 0, 0, 0, 5, 10, 22, 33, 56, 62, 62, 68, 69, 69, 87],
     e_code = (\<lambda>p. unat (p - 0x400078) < 97)\<rparr>"

lemma core_sample_env:
  obtains g where "generate_code core_source core_start = Inr g" "length (code (g_asm g)) = 97"
    "core_env core_source core_start g 0x400078 = core_places"
proof -
  have "case generate_code core_source core_start of Inl _ \<Rightarrow> False
    | Inr g \<Rightarrow> length (code (g_asm g)) = 97 \<and> data_start g = 97 \<and> data_layout g = [(''tab'', 0), (''sum'', 2), (''N'', 10)]"
    by code_simp
  then obtain g where g: "generate_code core_source core_start = Inr g" "length (code (g_asm g)) = 97"
    "data_start g = 97" "data_layout g = [(''tab'', 0), (''sum'', 2), (''N'', 10)]" by (auto split: sum.splits)
  have "case before_main core_source core_start of Inl _ \<Rightarrow> False
    | Inr g \<Rightarrow> data_consts g = [(''N'', 5)] \<and> structs g = [] \<and> string_lens g = [(''tab'', 2)]" by code_simp
  then have "data_consts (before_gen core_source core_start) = [(''N'', 5)]"
    "structs (before_gen core_source core_start) = []" "string_lens (before_gen core_source core_start) = [(''tab'', 2)]"
    by (auto simp: before_gen_def split: sum.splits)
  then have "gen_const (before_gen core_source core_start) = (\<lambda>n. if n = ''N'' then Some 5 else None)"
    "gen_field (before_gen core_source core_start) = (\<lambda>st f. None)"
    by (auto simp: gen_const_def gen_field_def const_value_def field_offset_def fun_eq_iff split: sum.split)
  moreover have pos: "map (code_pos core_source core_start) [0..<Suc (length (main_part core_source))] =
      [0, 0, 0, 0, 5, 10, 22, 33, 56, 62, 62, 68, 69, 69, 87]" by code_simp
  have each: "map (\<lambda>k. 0x400078 + of_nat (code_pos core_source core_start k)) xs =
      map (\<lambda>k. 0x400078 + of_nat k) (map (code_pos core_source core_start) xs)" for xs :: "nat list"
    by (simp only: map_map comp_def)
  have "map (\<lambda>k. 0x400078 + of_nat (code_pos core_source core_start k)) [0..<Suc (length (main_part core_source))] =
      e_pos core_places"
    unfolding each pos by (simp add: core_places_def)
  ultimately have "core_env core_source core_start g 0x400078 = core_places"
    using g(2-4) by (simp add: core_env_def core_places_def fun_eq_iff del: upt_Suc)
  with g(1,2) show thesis by (rule that)
qed

lemma core_run_numeral:
  "core_run E P (numeral k) s = (case core_step E P s of None \<Rightarrow> None | Some s' \<Rightarrow> core_run E P (pred_numeral k) s')"
  by (simp add: numeral_eq_Suc)

lemma core_sample_run:
  "case core_run core_places (main_part core_source) 14 (core_init 4 core_mach) of None \<Rightarrow> False
    | Some s \<Rightarrow> c_pc s = 14 \<and> c_regs s 3 = 7 \<and> c_mem s 0x4000DB = 7 \<and> \<not> unused s 0x4000DB"
proof -
  have P: "main_part core_source = core_source" by code_simp
  have regs: "core_reg ''reg1'' = Some 0" "core_reg ''reg2'' = Some 3" "core_reg ''reg3'' = Some 1" "core_reg ''reg6'' = Some 7"
    by code_simp+
  have bytes: "to_bytes_le 2 7 = [7, 0]" by code_simp
  have up: "[0..<8] = [0, 1, 2, 3, 4, 5, 6, 7]" "[0..<2] = [0, 1]" by (simp_all add: upt_rec)
  show ?thesis
    unfolding P
    by (simp add: core_source_def core_run_numeral regs core_step_def core_next_def core_init_def core_assign_def forget_def
        core_bin_def Let_def core_addr_def core_places_def core_mach_def core_jump_def core_push_def core_pop_def
        readable_def no_code_def unused_def width_def fetch_def [of "Suc 0"] arg_regs_def scale_or_1_def core_cond_def core_name_def
        put_def [of 2] bytes up)
qed

lemma core_sample_program: "core_program core_source"
  by code_simp

text \<open>A loop with a struct and a section remark, for the listing.\<close>

definition listed_source :: program where
  "listed_source =
    [(1, StructDef ''pt'' [(''x'', 8), (''y'', 8)]), (2, SectionAt ''text'' 4096), (3, Label ''loop''),
     (4, CpuBin ''set'' ''reg1'' (Number 5)), (5, FnDef ''f'' [] [(6, Ret)] []), (7, Goto ''loop'')]"

lemma listed_generated:
  "\<exists>g. generate_code listed_source (settings False False False True) = Inr g"
proof -
  have "case generate_code listed_source (settings False False False True) of Inl _ \<Rightarrow> False | Inr g \<Rightarrow> True"
    by code_simp
  then show ?thesis by (auto split: sum.splits)
qed

section \<open>Properties\<close>

text \<open>
  C1. Compiler correctness for the core language: labels, \<open>goto\<close>,
  \<open>jump_if\<close>, \<open>call\<close> with up to six arguments, \<open>ret\<close>,
  \<open>cpu:cmp\<close>, the binary and unary register operations, \<open>mem:load\<close> and
  \<open>mem:store\<close> of every size, \<open>stack:push\<close> and \<open>stack:pop\<close>,
  with operands of numbers, registers, constants, field offsets and addresses of data. For every
  program of the core, every run of its abstract machine is matched by a run of the processor over
  the linked code, loaded at any address: the processor comes to the code of the statement the
  abstract machine stands at, with the registers, the stack pointer and the memory it has outside
  the free part of the stack, and the bytes of the code are those of the start. When the abstract
  machine has run through the program, the processor comes to a system call with number 60 and
  argument 0. Registers \<open>r11\<close>, \<open>r12\<close>, \<open>r15\<close> and
  \<open>rsp\<close> are not registers of the core (see C32); the free part of the stack at the
  start may not reach into the code (\<open>safe\<close>).
\<close>

theorem core_programs_run:
  assumes "core_program prog" and "g0 = init_gen\<lparr>use_wx := w, debug_dwarf := d\<rparr>" and "generate_code prog g0 = Inr g"
    and "length (code (g_asm g)) < 2 ^ 64" and "rip m = base" and "safe (core_env prog g0 g base) (core_init room m)"
    and "core_run (core_env prog g0 g base) (main_part prog) n (core_init room m) = Some s"
  shows "\<exists>k m'. steps base (code (g_asm g)) k m = Some m' \<and> represents prog g0 g base s m' \<and>
    (\<forall>p. unat (p - base) < length (code (g_asm g)) \<longrightarrow> mem m' p = mem m p) \<and>
    (c_pc s = length (main_part prog) \<longrightarrow>
      (\<exists>j m''. steps base (code (g_asm g)) j m' = Some m'' \<and> at_exit base (code (g_asm g)) m''))"
proof -
  have "compiled prog g0 g" using assms(1-4) by (auto simp: compiled_def)
  from core_runs [OF this assms(5-7)] show ?thesis .
qed

theorem core_programs_run_witness:
  "\<exists>g k m' j m''. generate_code core_source core_start = Inr g \<and>
    steps 0x400078 (code (g_asm g)) k core_mach = Some m' \<and> rg m' 3 = 7 \<and> mem m' 0x4000DB = 7 \<and>
    steps 0x400078 (code (g_asm g)) j m' = Some m'' \<and> at_exit 0x400078 (code (g_asm g)) m''"
proof -
  obtain g where g: "generate_code core_source core_start = Inr g" "length (code (g_asm g)) = 97"
    "core_env core_source core_start g 0x400078 = core_places" by (rule core_sample_env)
  obtain s where s: "core_run core_places (main_part core_source) 14 (core_init 4 core_mach) = Some s"
    "c_pc s = 14" "c_regs s 3 = 7" "c_mem s 0x4000DB = 7" "\<not> unused s 0x4000DB"
    using core_sample_run by (auto split: option.splits)
  have m: "rip core_mach = 0x400078" "rg core_mach 4 = 0x7000" and n: "length (main_part core_source) = 14" by code_simp+
  have "safe (core_env core_source core_start g 0x400078) (core_init 4 core_mach)"
    by (rule safe_below) (simp_all add: m(2) g(2))
  then obtain k m' j m'' where "steps 0x400078 (code (g_asm g)) k core_mach = Some m'"
      "represents core_source core_start g 0x400078 s m'"
      "steps 0x400078 (code (g_asm g)) j m' = Some m''" "at_exit 0x400078 (code (g_asm g)) m''"
    using core_programs_run [OF _ core_start_def g(1) _ m(1), of 4 14 s] g(2,3) s(1,2) n core_sample_program by auto
  moreover from this(2) have "rg m' 3 = 7" "mem m' 0x4000DB = 7"
    using s(3-5) by (simp_all add: represents_def agrees_def holds_def scratch_def)
  ultimately show ?thesis using g(1) by blast
qed





text \<open>
  C4. For every program whose sizes are not negative and whose alignments are positive, and every
  name it defines by a data statement: in the loaded file the bytes of the last definition of the
  name (the zeros of an allocation, the given bytes, the 64-bit constant, the zero-terminated
  string) stand at the address operands of that name lead to, in a segment that is not executable
  when a W^X file was asked for. Line information and W^X are not combined (see C31).
\<close>

theorem image_data_loaded:
  assumes "generate_code prog (init_gen\<lparr>use_wx := w, debug_dwarf := d\<rparr>) = Inr g"
    and "write_image g = Inr blob" "\<not> baremetal g" "\<not> (w \<and> d)" and "data_ok prog"
    and "data_value (collect_structs prog []) prog n = Some bs" "\<not> internal n"
  shows "\<exists>off. map_of (data_layout g) n = Some off \<and>
    loaded blob (entry64 blob + data_start g + off) bs (if w then 6 else 7)"
  by (rule image_data [OF assms])

theorem image_data_loaded_witness:
  "\<exists>blob off. write_image (sample_gen True False) = Inr blob \<and>
    map_of (data_layout (sample_gen True False)) ''msg'' = Some off \<and>
    loaded blob (entry64 blob + data_start (sample_gen True False) + off) [72, 105, 0] 6"
proof -
  let ?g = "sample_gen True False"
  obtain blob where b: "write_image ?g = Inr blob" using sample_image by blast
  show ?thesis
    using image_data_loaded [OF sample_gen b sample_parts(1) _ sample_data(1,2,4)] b by auto
qed



text \<open>
  C6. For every sequence of \<open>Assembler\<close> method calls on a fresh object followed by
  \<open>link\<close>: if no exception is raised, then every relocation's target has an address in
  the label table, and the four bytes stored for it, read as the processor reads a
  \<open>rel32\<close> operand, lead to that address. No call sequence can make two relocation
  fields overlap or make a later one destroy an earlier one.
\<close>

theorem assembled_branches:
  assumes "assemble invoke base is = Inr a'" and "r \<in> set (relocs a')"
  shows "\<exists>t. map_of (link_table base a') (r_target r) = Some t \<and>
    int (r_offset r) + 4 + signed_of 4 (from_bytes_le (slice (r_offset r) 4 (code a'))) = t"
  using isa.assembled_target [OF assms] by (simp add: rel32_target_def)

theorem assembled_branches_witness:
  "\<exists>a' r. assemble invoke None sample_program = Inr a' \<and> r \<in> set (relocs a') \<and>
    (\<exists>t. map_of (link_table None a') (r_target r) = Some t \<and>
      int (r_offset r) + 4 + signed_of 4 (from_bytes_le (slice (r_offset r) 4 (code a'))) = t)"
proof -
  let ?a = "projr (assemble invoke None sample_program)"
  have a: "assemble invoke None sample_program = Inr ?a" by code_simp
  have r: "hd (relocs ?a) \<in> set (relocs ?a)" by code_simp
  show ?thesis using assembled_branches [OF a r] a r by blast
qed

text \<open>
  C7. For every operand expression whose leaves are numbers, registers, arguments, locals,
  constants, structure sizes or field offsets (inside a compound operand: none that lies in
  \<open>rsp\<close>, \<open>r11\<close> or \<open>r12\<close>), \<open>_eval\<close> raises
  nothing, and the processor that runs the emitted bytes reaches their end with the value of the
  expression, computed modulo 2 to the 64 from the registers and the frame before, in the
  destination; all other registers but \<open>r11\<close> and \<open>r12\<close>, and all memory
  but the pushed words below \<open>rsp\<close>, are as before.
\<close>

theorem operand_evaluated:
  assumes "reg_num dst = Inr d" and "d \<noteq> 4" and "expr_ok (used e) g e" and "8 * pushes e < 2 ^ 64"
  shows "\<exists>g'. eval_expr e dst g = Inr g' \<and>
    (\<forall>base post m. length (code (g_asm g') @ post) < 2 ^ 64 \<and> slots_apart g m (pushes e) e \<and>
        rip m = base + of_nat (length (code (g_asm g))) \<longrightarrow>
      (\<exists>n m'. steps base (code (g_asm g') @ post) n m = Some m' \<and>
        rip m' = base + of_nat (length (code (g_asm g'))) \<and> rg m' d = expr_val g m e \<and>
        keeps (insert d (if used e = [] then {} else {11, 12})) (pushes e) m m'))"
  using eval_succeeds [OF assms] eval_runs [OF assms] by (metis (no_types, lifting))

theorem operand_evaluated_witness:
  "\<exists>g'. eval_expr frame_operand ''rax'' frame_gen = Inr g' \<and>
    (\<exists>n m'. steps 0x400000 (code (g_asm g')) n frame_mach = Some m' \<and> rg m' 0 = 17 \<and> rg m' 7 = 5)"
proof -
  have k: "reg_num ''rax'' = Inr 0" "(0 :: int) \<noteq> 4"
    "expr_ok (used frame_operand) frame_gen frame_operand" "8 * pushes frame_operand < 2 ^ 64" by code_simp+
  have p: "pushes frame_operand = 2" and u: "used frame_operand \<noteq> []" by code_simp+
  obtain g' where g': "eval_expr frame_operand ''rax'' frame_gen = Inr g'" and
    r: "\<forall>base post m. length (code (g_asm g') @ post) < 2 ^ 64 \<and>
        slots_apart frame_gen m (pushes frame_operand) frame_operand \<and>
        rip m = base + of_nat (length (code (g_asm frame_gen))) \<longrightarrow>
      (\<exists>n m'. steps base (code (g_asm g') @ post) n m = Some m' \<and>
        rip m' = base + of_nat (length (code (g_asm g'))) \<and> rg m' 0 = expr_val frame_gen m frame_operand \<and>
        keeps (insert 0 (if used frame_operand = [] then {} else {11, 12})) (pushes frame_operand) m m')"
    using operand_evaluated [OF k] by blast
  have l: "length (code (g_asm (projr (eval_expr frame_operand ''rax'' frame_gen)))) < 2 ^ 64" by code_simp
  have c: "length (code (g_asm frame_gen)) = 0" by code_simp
  have s: "slots_apart frame_gen frame_mach 2 frame_operand"
    unfolding slots_apart_def
  proof (intro ballI allI impI)
    fix x off and i :: nat
    assume x: "x \<in> set (leaves frame_operand)" "leaf_src frame_gen x = Some (SSlot off)" "i < 8"
    have "leaf_src frame_gen (Ident ''n'') = Some (SSlot (- 8))" "leaf_src frame_gen (Ident ''x'') = Some (SReg 7)"
      "leaf_src frame_gen (Number 3) = Some (SConst 3)" by code_simp+
    then have "off = - 8" using x by (auto simp: frame_operand_def)
    moreover have "i \<in> set [0, 1, 2, 3, 4, 5, 6, 7]" using x(3) by auto
    ultimately show "\<not> below (rg frame_mach 4) 2 (rg frame_mach 5 + word_of_int off + of_nat i)"
      by (auto simp: below_iff frame_mach_def)
  qed
  have v: "expr_val frame_gen frame_mach frame_operand = 17" by code_simp
  have rip: "rip frame_mach = 0x400000" by code_simp
  obtain n m' where "steps 0x400000 (code (g_asm g')) n frame_mach = Some m'" "rg m' 0 = 17"
    "keeps (insert 0 {11, 12}) 2 frame_mach m'"
    using r [THEN spec, THEN spec, THEN spec, THEN mp, of "[]" frame_mach "0x400000"] l g' s p c rip v u by auto
  moreover from this(3) have "rg m' 7 = 5" by (simp add: keeps_def frame_mach_def)
  ultimately show ?thesis using g' by blast
qed

text \<open>
  C8. For every program of labels, jumps, comparisons, arithmetic, data, memory accesses, calls,
  system calls, stack operations and functions, with operand expressions of any depth: written as
  text in any layout (blanks between the tokens, comments at the ends of lines, parentheses where
  the precedence needs them), without includes, macros and local labels,
  \<open>compile_source\<close> gives exactly what the code generator gives for the program, with
  each statement on the line where it stands.
\<close>

theorem program_text_compiles:
  assumes "list_all item_wf is" and "map fst l = butlast (program_toks 1 is)"
    and "layout_ok 1 l" and "gap_ok g (laid_out l)" and "plain_text (g @ laid_out l)"
  shows "compile_source E (g @ laid_out l) f lst d w t =
    generate (program_stmts 1 is) (init_gen\<lparr>use_wx := w, debug_dwarf := d\<rparr>)"
  by (rule layout_compiles [OF assms])

theorem program_text_compiles_witness:
  "\<exists>blob. write_image (sample_gen True False) = Inr blob \<and>
    compile_source sample_env (''  '' @ laid_out sample_layout) ''/w/p'' True False True False = Inr blob"
  using program_text_compiles [OF sample_layout(1-5), of sample_env "''/w/p''" True False True False] sample_gen [where w = True and d = False]
    sample_image [of True False] by (auto simp: generate_def sample_layout(6))



text \<open>
  C10. The lexer is the inverse of writing tokens down: for every list of tokens with their lines
  (names, numbers of either sign, strings with any characters, labels, punctuation, line ends) and
  every way to put blanks and comments between them that does not let two tokens grow together,
  \<open>tokenize\<close> returns exactly these tokens and the end token on the last line.
\<close>

theorem layout_read_back:
  assumes "layout_ok 1 l" and "gap_ok g (laid_out l)"
  shows "tokenize (g @ laid_out l) = Inr (map fst l @ [Tok T_EOF [] (last_line 1 (map fst l))])"
  by (rule layout_tokenize [OF assms])

theorem layout_read_back_witness:
  "tokenize (''  '' @ laid_out sample_layout) =
    Inr (butlast (program_toks 1 sample_items) @ [Tok T_EOF [] 12])"
proof -
  have "last_line 1 (map fst sample_layout) = 12" by code_simp
  then show ?thesis using layout_read_back [OF sample_layout(3,4)] sample_layout(2) by simp
qed

text \<open>
  C11. In every file the W^X writer produces: the code is loaded read-execute, starting at the
  entry point, the data read-write at a page boundary behind it, exactly as far as the linker's
  offsets say, and no address at all is mapped both writable and executable.
\<close>

theorem wx_segments:
  assumes "build_elf64_exe_wx code_b data_b 0 = Inr blob"
    and "wx_code_data_file_offsets (length code_b) = (code_off, data_off)"
  shows "loaded blob (entry64 blob) code_b 5 \<and>
    loaded blob (entry64 blob + (int data_off - int code_off)) data_b 6 \<and>
    (\<forall>addr b fl. load64_byte blob addr = Some (b, fl) \<longrightarrow> fl = 5 \<or> fl = 6) \<and>
    PAGE dvd LOAD_VADDR + data_off \<and> code_off + length code_b \<le> data_off"
proof -
  note parts = wx_parts(2,3) [OF assms] and off = wx_offsets [OF assms(2)]
  have "fl = 5 \<or> fl = 6" if "load64_byte blob addr = Some (b, fl)" for addr b fl
    using that by (auto simp: load64_byte_def parts(2) split: if_splits)
  moreover have "PAGE dvd LOAD_VADDR + data_off"
    using off(3) by (intro dvd_add) (simp_all add: elf_consts)
  ultimately show ?thesis
    using wx_loads [OF assms] off by (simp add: parts(1))
qed

theorem wx_segments_witness:
  "\<exists>blob. build_elf64_exe_wx [0x0F, 0x05] [1, 2, 3] 0 = Inr blob \<and>
    loaded blob (entry64 blob) [0x0F, 0x05] 5 \<and> loaded blob (entry64 blob + 4096) [1, 2, 3] 6"
proof -
  obtain blob where b: "build_elf64_exe_wx [0x0F, 0x05] [1, 2, 3] 0 = Inr blob"
    using wx_writes [of 0 "[0x0F, 0x05]" "[1, 2, 3]"] by auto
  have o': "wx_code_data_file_offsets (length [0x0F, 0x05 :: byte]) = (0x1000, 0x2000)" by code_simp
  show ?thesis using wx_segments [OF b o'] b by simp
qed

text \<open>
  C12. For the eight memory methods, every register, every base (\<open>rsp\<close>,
  \<open>rbp\<close>, \<open>r12\<close> and \<open>r13\<close> included), every index but
  \<open>rsp\<close>, scale and 32-bit displacement: the method appends bytes that the independent
  decoder reads as the instruction of its size with exactly this memory operand.
\<close>

theorem memory_operands:
  assumes "reg_num reg = Inr r" and "reg_num base = Inr b" and "index_is index scale ix" and "fits32 disp"
    and "(f, i) \<in> set mem_table"
  shows "\<exists>bs. f reg base disp index scale a = Inr (a\<lparr>code := code a @ bs\<rparr>) \<and>
    (\<forall>rest. decode (bs @ rest) = Some (i r (OMem (Some b) ix disp), rest))"
proof -
  have "gives (deterministic a) (f reg base disp index scale) [i r (OMem (Some b) ix disp)]"
    using mem_encode [OF assms(1-4), of "deterministic a"] assms(5) by (auto simp: list_all_iff)
  then show ?thesis by (rule gives_single)
qed

theorem memory_operands_witness:
  "\<exists>bs. mov_reg_mem ''rax'' ''r13'' 300 (Some ''r12'') 8 init_asm = Inr (init_asm\<lparr>code := code init_asm @ bs\<rparr>) \<and>
    (\<forall>rest. decode (bs @ rest) = Some (rex_insn [] M1 0x8B 0 (Some (OMem (Some 13) (Some (12, 8)) 300)) 0, rest))"
proof -
  have r: "reg_num ''rax'' = Inr 0" "reg_num ''r13'' = Inr 13" "index_is (Some ''r12'') 8 (Some (12, 8))"
    "fits32 300" by code_simp+
  have t: "(mov_reg_mem, \<lambda>r x. rex_insn [] M1 0x8B r (Some x) 0) \<in> set mem_table" by (simp add: mem_table_def)
  show ?thesis using memory_operands [OF r t, of init_asm] by simp
qed

text \<open>
  C13. The expression parser returns exactly the well-formed expressions: only the operators plus,
  minus and times, a register node only for a name of the register tables, an identifier or
  structure field only for another name; and every such expression is the result for some input.
\<close>

theorem parsed_expressions:
  "(\<exists>ts r. expr_add ts = Inr (e, r)) \<longleftrightarrow> expr_wf e"
  by (rule parsed_iff_wf)

text \<open>
  C14. Every successful call of \<open>_statement\<close>, functions with their bodies included,
  moves past at least one token and leaves a suffix of the tokens it got: nothing is read twice
  and none of the loops of the parser can stand still.
\<close>

theorem statements_consume:
  assumes "statement ts = Inr (s, r)"
  shows "suffix r ts \<and> length r < length ts"
  using statement_suffix(1) [OF assms] suffix_adv by blast

theorem statements_consume_witness:
  "suffix [Tok T_EOF [] 2] [Tok T_LABEL ''a'' 1, Tok T_EOF [] 2] \<and>
    length [Tok T_EOF [] 2] < length [Tok T_LABEL ''a'' 1, Tok T_EOF [] 2]"
proof (rule statements_consume)
  show "statement [Tok T_LABEL ''a'' 1, Tok T_EOF [] 2] = Inr ((1, Label ''a''), [Tok T_EOF [] 2])" by code_simp
qed

text \<open>
  C15. Linking after any sequence of method calls that raised no exception succeeds if and only if
  every relocation is resolvable: its label has an address and the distance from the end of the
  field fits 32 signed bits.
\<close>

theorem assemble_succeeds:
  assumes "seqE (map invoke is) init_asm = Inr a"
  shows "(\<exists>a'. assemble invoke base is = Inr a') \<longleftrightarrow>
    (\<forall>r \<in> set (relocs a). \<exists>t. map_of (link_table base a) (r_target r) = Some t \<and>
       - (2 ^ 31) \<le> t - (int (r_offset r) + 4) \<and> t - (int (r_offset r) + 4) < 2 ^ 31)"
  using isa.assemble_succeeds_iff [OF assms, of base] by (simp add: list_all_iff resolvable_iff)

theorem assemble_succeeds_witness:
  "(\<exists>a'. assemble invoke None sample_program = Inr a') \<and>
   \<not> (\<exists>a'. assemble invoke (Some [(''loop'', 4)]) sample_program = Inr a')"
proof -
  let ?a = "projr (seqE (map invoke sample_program) init_asm)"
  have a: "seqE (map invoke sample_program) init_asm = Inr ?a" by code_simp
  have "\<forall>r \<in> set (relocs ?a). resolvable (link_table None ?a) r" by code_simp
  moreover have "\<not> (\<forall>r \<in> set (relocs ?a). resolvable (link_table (Some [(''loop'', 4)]) ?a) r)"
    by code_simp
  ultimately show ?thesis 
    using assemble_succeeds [OF a] unfolding resolvable_iff by blast
qed

text \<open>
  C16. \<open>link\<close> leaves the length of the code and every byte outside the relocation
  fields as the methods emitted them.
\<close>

theorem link_keeps_bytes:
  assumes "seqE (map invoke is) init_asm = Inr a" and "link base a = Inr a'"
    and "k < length (code a)" and "\<forall>r \<in> set (relocs a). \<not> (r_offset r \<le> k \<and> k < r_offset r + 4)"
  shows "length (code a') = length (code a) \<and> code a' ! k = code a ! k"
  using isa.assembled_bytes [OF assms(1,2)] assms(3,4) by (auto simp: in_hole_def)

theorem link_keeps_bytes_witness:
  "\<exists>a a'. seqE (map invoke sample_program) init_asm = Inr a \<and> link None a = Inr a' \<and>
    length (code a') = length (code a) \<and> code a' ! 4 = code a ! 4"
proof -
  let ?a = "projr (seqE (map invoke sample_program) init_asm)"
  have a: "seqE (map invoke sample_program) init_asm = Inr ?a" by code_simp
  have l: "link None ?a = Inr (projr (link None ?a))" by code_simp
  have k: "4 < length (code ?a)"
    and h: "\<forall>r \<in> set (relocs ?a). \<not> (r_offset r \<le> 4 \<and> 4 < r_offset r + 4)" by code_simp+
  show ?thesis using link_keeps_bytes [OF a l k h] a l by blast
qed

text \<open>
  C17. Every call of an \<open>Assembler\<close> method, on every argument, either raises or only
  extends the code, the labels and the relocations, and keeps the invariant: label names unique,
  label positions inside the code, relocation fields inside the code, in order and disjoint.
\<close>

theorem methods_keep_invariant:
  assumes "invoke c a = Inr a'" and "wf_asm a"
  shows "wf_asm a' \<and> appends a a'"
  using good_op_wf [OF invoke_good assms] good_opD [OF invoke_good assms(1)] by blast

theorem methods_keep_invariant_witness:
  "\<exists>a'. invoke (CRR ''jcc'' ''lt'' ''out'') init_asm = Inr a' \<and> wf_asm a' \<and> appends init_asm a'"
proof -
  let ?a = "projr (invoke (CRR ''jcc'' ''lt'' ''out'') init_asm)"
  have a: "invoke (CRR ''jcc'' ''lt'' ''out'') init_asm = Inr ?a" by code_simp
  show ?thesis using methods_keep_invariant [OF a wf_init] a by blast
qed

text \<open>
  C18. For every file system, path and setting of the other options, a build with any choice of
  \<open>--listing\<close> and \<open>--teach\<close> is equivalent to any other: the same lint is
  printed, the same errors end the run, and the same bytes are written to the same file. No
  emitter, no pass and no image writer reads what the listing is made of.
\<close>

theorem listing_keeps_build:
  "compile_file E path out (opt\<lparr>opt_listing := l, opt_teach := t\<rparr>) = compile_file E path out opt"
  by (rule compile_file_plain)

text \<open>
  C19. For every constant and register, in both modes: wherever the code stands in memory, running
  the processor on the bytes \<open>mov_reg_imm64\<close> appends (one of four encodings) ends
  behind them with the register holding the constant modulo \<open>2 ^ 64\<close> and no other
  register, memory byte or flag changed.
\<close>

theorem mov_imm_runs:
  assumes "reg_num dst = Inr d" and "mov_reg_imm64 dst imm a = Inr a'"
    and "length (code a' @ post) < 2 ^ 64" and "rip m = base + of_nat (length (code a))"
  shows "\<exists>n. steps base (code a' @ post) n m =
    Some (m\<lparr>rg := (rg m)(d := word_of_int imm), rip := base + of_nat (length (code a'))\<rparr>)"
  using computes_run [OF computes_mov_imm [OF assms(1)] assms(2) refl assms(3,4)]
  by (simp add: set_rg_def)

theorem mov_imm_runs_witness:
  "\<exists>n. steps 0x401000 (code (projr (mov_reg_imm64 ''r12'' (- 2) init_asm)) @ [0xC3]) n
      \<lparr>rg = (\<lambda>_. 7), mem = (\<lambda>_. 0), rip = 0x401000, fl = no_flags\<rparr> =
    Some \<lparr>rg = (\<lambda>_. 7)(12 := word_of_int (- 2)), mem = (\<lambda>_. 0),
      rip = 0x401000 + of_nat (length (code (projr (mov_reg_imm64 ''r12'' (- 2) init_asm)))),
      fl = no_flags\<rparr>"
proof -
  let ?a = "projr (mov_reg_imm64 ''r12'' (- 2) init_asm)"
  let ?m = "\<lparr>rg = (\<lambda>_. 7), mem = (\<lambda>_. 0), rip = 0x401000, fl = no_flags\<rparr> :: mach"
  have r: "reg_num ''r12'' = Inr 12" by code_simp
  have a: "mov_reg_imm64 ''r12'' (- 2) init_asm = Inr ?a" by code_simp
  have "length (code ?a @ [0xC3]) = 8" by code_simp
  then have l: "length (code ?a @ [0xC3]) < 2 ^ 64" by simp
  have "rip ?m = 0x401000 + of_nat (length (code init_asm))" by (simp add: init_asm_def)
  then show ?thesis using mov_imm_runs [OF r a l, of ?m "0x401000"] by simp
qed

text \<open>
  C20. For every entry of the two-register table and every pair of registers, the method appends
  bytes that the independent decoder reads, at the front of any byte stream, as exactly the
  instruction the manual assigns to the mnemonic: prefix, opcode map, opcode, 64-bit width, and
  both operands in the right places.
\<close>

theorem reg_reg_instructions:
  assumes "reg_num dst = Inr d" and "reg_num src = Inr s" and "(f, i) \<in> set rr_table"
  shows "\<exists>bs. f dst src a = Inr (a\<lparr>code := code a @ bs\<rparr>) \<and>
    (\<forall>rest. decode (bs @ rest) = Some (i d s, rest))"
proof -
  have "gives (deterministic a) (f dst src) [i d s]"
    using rr_encode [of d s dst src] reg_num_range assms by (auto simp: list_all_iff)
  then show ?thesis by (rule gives_single)
qed

theorem reg_reg_instructions_witness:
  "\<exists>bs. imul_reg_reg ''r9'' ''rbx'' init_asm = Inr (init_asm\<lparr>code := code init_asm @ bs\<rparr>) \<and>
    (\<forall>rest. decode (bs @ rest) = Some (rm [] M0F 0xAF 9 3, rest))"
proof -
  have r: "reg_num ''r9'' = Inr 9" "reg_num ''rbx'' = Inr 3" by code_simp+
  have "(imul_reg_reg, rm [] M0F 0xAF) \<in> set rr_table" by (simp add: rr_table_def)
  then show ?thesis by (rule reg_reg_instructions [OF r])
qed

text \<open>
  C21. For every register: each entry of the one-register table appends bytes that decode to the
  instruction of its mnemonic, opcode extension and register included, and for every immediate of
  the signed 32-bit range each register-immediate method appends the instruction of its mnemonic
  with that immediate, in two's complement.
\<close>

theorem one_reg_instructions:
  assumes "reg_num dst = Inr d"
  shows "((f, i) \<in> set r_table \<longrightarrow>
      (\<exists>bs. f dst a = Inr (a\<lparr>code := code a @ bs\<rparr>) \<and> (\<forall>rest. decode (bs @ rest) = Some (i d, rest)))) \<and>
    ((h, j) \<in> set ri32_table \<and> - (2 ^ 31) \<le> imm \<and> imm \<le> 2 ^ 31 - 1 \<longrightarrow>
      (\<exists>bs. h dst imm a = Inr (a\<lparr>code := code a @ bs\<rparr>) \<and>
        (\<forall>rest. decode (bs @ rest) = Some (j d (imm mod 2 ^ 32), rest)) \<and>
        signed_of 4 (i_imm (j d (imm mod 2 ^ 32))) = imm))"
proof (intro conjI impI)
  assume "(f, i) \<in> set r_table"
  then have "gives (deterministic a) (f dst) [i d]"
    using r_encode [of d dst] reg_num_range assms by (auto simp: list_all_iff)
  then show "\<exists>bs. f dst a = Inr (a\<lparr>code := code a @ bs\<rparr>) \<and> (\<forall>rest. decode (bs @ rest) = Some (i d, rest))"
    by (rule gives_single)
next
  assume "(h, j) \<in> set ri32_table \<and> - (2 ^ 31) \<le> imm \<and> imm \<le> 2 ^ 31 - 1"
  then have m: "(h, j) \<in> set ri32_table" and fit: "fits32 imm" by (simp_all add: fits32_def)
  have "gives (deterministic a) (h dst imm) [j d (imm mod 2 ^ 32)]"
    using ri32_encode [of d dst imm] reg_num_range assms m fit by (auto simp: list_all_iff)
  moreover have "i_imm (j d v) = v" for v
    using m by (auto simp: ri32_table_def grpi_def rex_insn_def)
  ultimately show "\<exists>bs. h dst imm a = Inr (a\<lparr>code := code a @ bs\<rparr>) \<and>
      (\<forall>rest. decode (bs @ rest) = Some (j d (imm mod 2 ^ 32), rest)) \<and> signed_of 4 (i_imm (j d (imm mod 2 ^ 32))) = imm"
    using gives_single signed32_mod [OF fit] by (metis (no_types))
qed

theorem one_reg_instructions_witness:
  "(\<exists>bs. idiv_reg ''rsp'' init_asm = Inr (init_asm\<lparr>code := code init_asm @ bs\<rparr>) \<and>
      (\<forall>rest. decode (bs @ rest) = Some (grp [] M1 0xF7 7 4, rest))) \<and>
   (\<exists>bs. sub_reg_imm ''rsp'' (- 48) init_asm = Inr (init_asm\<lparr>code := code init_asm @ bs\<rparr>) \<and>
      (\<forall>rest. decode (bs @ rest) = Some (grpi M1 0x81 5 4 ((- 48) mod 2 ^ 32), rest)) \<and>
      signed_of 4 (i_imm (grpi M1 0x81 5 4 ((- 48) mod 2 ^ 32))) = - 48)"
proof -
  have r: "reg_num ''rsp'' = Inr 4" by code_simp
  have "(idiv_reg, grp [] M1 0xF7 7) \<in> set r_table" "(sub_reg_imm, grpi M1 0x81 5) \<in> set ri32_table"
    by (simp_all add: r_table_def ri32_table_def)
  then show ?thesis
    using one_reg_instructions [OF r, of idiv_reg "grp [] M1 0xF7 7" init_asm sub_reg_imm "grpi M1 0x81 5" "- 48"] by simp
qed

text \<open>
  C22. For every program with a statement outside functions: the lines of the listing that are not
  comments, read back as hexadecimal bytes, are exactly the linked code. In teaching mode they are
  the code twice: first the pieces shown under the statements, which follow each other without gap
  or overlap from the first byte to the last, then the dump.
\<close>

theorem listing_read_back:
  assumes "generate_code prog (settings l d w t) = Inr g" and "l \<or> t" and "main_part prog \<noteq> []"
  shows "dumped (build_listing g (code (g_asm g))) = (if t then code (g_asm g) else []) @ code (g_asm g)"
  using listing_dumped [OF assms(1,2)] assms(3) by (simp add: main_part_def)

theorem listing_read_back_witness:
  "\<exists>g. generate_code listed_source (settings False False False True) = Inr g \<and>
    dumped (build_listing g (code (g_asm g))) = code (g_asm g) @ code (g_asm g)"
proof -
  obtain g where g: "generate_code listed_source (settings False False False True) = Inr g"
    using listed_generated by blast
  have "main_part listed_source \<noteq> []" by code_simp
  with listing_read_back [OF g] g show ?thesis by auto
qed

text \<open>
  C23. Two different names that a program with sensible sizes defines never share a byte of the
  data section of the finished program: what is stored through one name leaves the other alone.
\<close>

theorem data_names_apart:
  assumes "generate_code prog (init_gen\<lparr>use_wx := w, debug_dwarf := d\<rparr>) = Inr g" and "data_ok prog"
    and "data_value (collect_structs prog []) prog n = Some bs" "\<not> internal n"
    and "data_value (collect_structs prog []) prog m = Some cs" "\<not> internal m" and "n \<noteq> m"
  shows "\<exists>i j. map_of (data_layout g) n = Some (int i) \<and> map_of (data_layout g) m = Some (int j) \<and>
    i + length bs \<le> length (data_bytes g) \<and> j + length cs \<le> length (data_bytes g) \<and>
    (i + length bs \<le> j \<or> j + length cs \<le> i)"
proof -
  obtain i j where "stands_at (data_bytes g) (data_layout g) n bs i"
    "stands_at (data_bytes g) (data_layout g) m cs j"
    using generated_data(1) [OF assms(1,2)] assms(3-6) by blast
  then show ?thesis
    using generated_data(2) [OF assms(1-4), of m cs i j] assms(5-7) by (auto simp: stands_at_def)
qed

theorem data_names_apart_witness:
  "\<exists>i j. map_of (data_layout (sample_gen False False)) ''msg'' = Some (int i) \<and>
    map_of (data_layout (sample_gen False False)) ''buf'' = Some (int j) \<and>
    i + 3 \<le> length (data_bytes (sample_gen False False)) \<and>
    j + 16 \<le> length (data_bytes (sample_gen False False)) \<and> (i + 3 \<le> j \<or> j + 16 \<le> i)"
  using data_names_apart [OF sample_gen sample_data(1,2,4,3,5), of False False]
  by (simp add: eval_nat_numeral)

text \<open>
  C24. The image builder returns: its alignment loops stop, none of its assertions can fail, and
  unless code and data are close to 4 GiB an image results that ends below 4 GiB.
\<close>

theorem kernel_builds_when_it_fits:
  assumes "la + 17000 + length user64 + length data_b \<le> 2 ^ 32"
  shows "\<exists>f. build_long_mode_kernel user64 data_b la = Inr f \<and> la + length f \<le> 2 ^ 32"
  by (rule kernel_builds [OF assms])

theorem kernel_builds_when_it_fits_witness:
  "\<exists>f. build_long_mode_kernel [0xF4] [] LOAD_ADDR = Inr f \<and> LOAD_ADDR + length f \<le> 2 ^ 32"
  by (rule kernel_builds_when_it_fits) (simp add: LOAD_ADDR_def)



text \<open>
  C26. Macros that have a rank, such that every body calls only macros of smaller rank and no
  argument can change the first word of a body line, are expanded completely when the ranks stay
  below 63: the expansion gives a text, unless a call has too few arguments; it never reports that
  it did not terminate.
\<close>

theorem ranked_macros_end:
  assumes "parse_defs [] (splitlines src) = Inr (ms, ls)" and "ranked ms rk" and "calls_below ms rk 63 ls"
  shows "(\<exists>out. expand_macros src = Inr out) \<or> expand_macros src = Inl (SystemStop ''macro arguments'')"
  by (rule ranked_ends [OF assms])

theorem ranked_macros_end_witness:
  "\<exists>out. expand_macros nested_macros = Inr out"
proof -
  let ?ms = "fst (projr (parse_defs [] (splitlines nested_macros)))"
  have "parse_defs [] (splitlines nested_macros) = Inr (?ms, [''two reg1''])" "ranked ?ms [(''two'', 1)]"
    "calls_below ?ms [(''two'', 1)] 63 [''two reg1'']" by code_simp+
  from ranked_macros_end [OF this] show ?thesis
  proof
    assume "expand_macros nested_macros = Inl (SystemStop ''macro arguments'')"
    moreover have "expand_macros nested_macros = Inr (projr (expand_macros nested_macros))" by code_simp
    ultimately show ?thesis by metis
  qed
qed



text \<open>
  C28. \<open>expand_local_labels\<close> is a consistent renaming: there is one injective map
  from names to labels of the form \<open>__locN_name\<close> such that every reference
  \<open>~@name\<close>, and nothing else, is replaced by the label of its name.
\<close>

theorem local_labels_renamed:
  "\<exists>ren. inj ren \<and> (\<forall>n. \<exists>k. ren n = loc_label k n) \<and>
    expand_local_labels src = sub_local (\<lambda>n. CHR ''~'' # ren n) src"
proof -
  obtain pos where "expand_local_labels src = sub_local (\<lambda>n. CHR ''~'' # loc_label (pos n) n) src"
    using expand_local_labels_sub by blast
  then show ?thesis
    by (intro exI [of _ "\<lambda>n. loc_label (pos n) n"]) (auto simp: inj_def loc_label_inject)
qed

text \<open>
  C29. With \<open>--strict\<close> a build ends with status 2, and writes nothing, exactly when
  some line of the text with its includes resolved, comments removed and in lower case, is a
  double shift that names the count register; otherwise the lint changes nothing about the build.
\<close>

theorem strict_refuses:
  assumes "map_of (files E) path = Some src" and "resolve_includes E (without_modes src) path = Inr full"
    and "opt_strict opt"
  shows "snd (compile_file E path out opt) =
    (if \<exists>l \<in> set (lines_of full). shift_error (lowered l) then Exited 2
     else build_source E (without_modes src) path out opt)"
  by (rule strict_exit [OF assms])

theorem strict_refuses_witness:
  "snd (compile_file sample_env ''/w/bad'' None strict_options) = Exited 2 \<and>
   snd (compile_file sample_env ''/w/good'' None strict_options) =
     build_source sample_env ''cpu:shld reg1, reg2'' ''/w/good'' None strict_options"
proof -
  have e: "map_of (files sample_env) ''/w/bad'' = Some ''cpu:shld reg1, RCX''"
    "map_of (files sample_env) ''/w/good'' = Some ''cpu:shld reg1, reg2''"
    "without_modes ''cpu:shld reg1, RCX'' = ''cpu:shld reg1, RCX''"
    "without_modes ''cpu:shld reg1, reg2'' = ''cpu:shld reg1, reg2''"
    "resolve_includes sample_env ''cpu:shld reg1, RCX'' ''/w/bad'' = Inr ''cpu:shld reg1, RCX''"
    "resolve_includes sample_env ''cpu:shld reg1, reg2'' ''/w/good'' = Inr ''cpu:shld reg1, reg2''"
    "opt_strict strict_options" by code_simp+
  have s: "list_ex (\<lambda>l. shift_error (lowered l)) (lines_of ''cpu:shld reg1, RCX'')"
    "\<not> list_ex (\<lambda>l. shift_error (lowered l)) (lines_of ''cpu:shld reg1, reg2'')" by code_simp+
  show ?thesis
    using s strict_refuses [OF e(1), unfolded e(3), OF e(5,7), of None]
      strict_refuses [OF e(2), unfolded e(4), OF e(6,7), of None] by (auto simp: list_ex_iff)
qed

text \<open>
  C30. For every command line after \<open>build\<close> and every file system: the exit status is
  0 exactly when an output file was written, and a file is only written with the bytes
  \<open>compile_source\<close> returned for an argument of the command line that names an
  existing file. Missing files, lint errors, syntax errors, encoding errors and uncaught
  exceptions all end with another status and no file.
\<close>

theorem build_status_zero:
  assumes "rest \<noteq> []"
  shows "(exit_status (snd (main os_run tmp E (''build'' # rest))) = 0 \<longleftrightarrow>
      (\<exists>o' blob. snd (main os_run tmp E (''build'' # rest)) = Built o' blob)) \<and>
    (\<forall>o' blob. snd (main os_run tmp E (''build'' # rest)) = Built o' blob \<longrightarrow>
      (\<exists>path src out l d w t. path \<in> set rest \<and> map_of (files E) path = Some src \<and> o' = out_name out path \<and>
        compile_source E (without_modes src) path l d w t = Inr blob))"
proof -
  have "main os_run tmp E (''build'' # rest) = main_build E (''build'' # rest)" using assms by (simp add: main_def)
  then show ?thesis using build_status [of E "''build'' # rest"] by simp
qed

theorem build_status_zero_witness:
  "exit_status (snd (main (\<lambda>_. 3) ''t'' sample_env (''build'' # [''/w/none'']))) \<noteq> 0 \<and>
   (\<exists>o' blob. snd (main (\<lambda>_. 3) ''t'' sample_env (''build'' # [''/w/good'', ''-o'', ''x''])) = Built o' blob)"
proof -
  have n: "snd (main (\<lambda>_. 3) ''t'' sample_env [''build'', ''/w/none'']) = NoFile ''/w/none''"
    and g: "exit_status (snd (main (\<lambda>_. 3) ''t'' sample_env [''build'', ''/w/good'', ''-o'', ''x''])) = 0"
    by code_simp+
  show ?thesis
    using n g build_status_zero [of "[''/w/none'']" "\<lambda>_. 3" "''t''" sample_env]
      build_status_zero [of "[''/w/good'', ''-o'', ''x'']" "\<lambda>_. 3" "''t''" sample_env] by simp
qed

text \<open>
  C31. With line information and W^X both asked for, the file has one segment with the data right
  behind the code, but the linker still adds the padding of the W^X layout: every data operand
  leads past the byte of its name, by the distance from the end of the code to the next page
  boundary.
\<close>

theorem wx_debug_misses:
  assumes "generate_code prog (init_gen\<lparr>use_wx := True, debug_dwarf := True\<rparr>) = Inr g"
    and "write_image g = Inr blob" "\<not> baremetal g"
    and "r \<in> set (relocs (g_asm g))" "r_target r = ''__data_'' @ n"
  shows "\<exists>off. map_of (data_layout g) n = Some off \<and>
    loaded blob (entry64 blob + int (length (code (g_asm g)))) (data_bytes g) 7 \<and>
    operand_target blob (entry64 blob + int (r_offset r)) =
      entry64 blob + int (length (code (g_asm g))) + off + (- int (length (code (g_asm g)))) mod 4096"
  by (rule wx_debug_operand [OF assms])

theorem wx_debug_misses_witness:
  "\<exists>blob. write_image (sample_gen True True) = Inr blob \<and>
    loaded blob (entry64 blob + 111) (data_bytes (sample_gen True True)) 7 \<and>
    operand_target blob (entry64 blob + 3) = entry64 blob + 4096"
proof -
  let ?g = "sample_gen True True"
  obtain blob where b: "write_image ?g = Inr blob" using sample_image by blast
  have r: "relocs (g_asm ?g) ! 0 \<in> set (relocs (g_asm ?g))"
    "r_target (relocs (g_asm ?g) ! 0) = ''__data_'' @ ''msg''" by (simp_all add: sample_parts)
  show ?thesis using wx_debug_misses [OF sample_gen b sample_parts(1) r] b by (auto simp: sample_parts)
qed



text \<open>
  C33. For every destination, base, index and displacement, \<open>lea_reg_mem\<close> appends
  bytes that decode as \<open>lea\<close> with the base, index and scale asked for and the
  displacement reduced to one signed byte; it equals the displacement asked for exactly between
  -128 and 127, beyond that another address is computed silently.
\<close>

theorem lea_address:
  assumes "reg_num dst = Inr d" and "reg_num base = Inr b" and "index_is index scale ix"
  shows "\<exists>bs disp'. lea_reg_mem dst base disp index scale a = Inr (a\<lparr>code := code a @ bs\<rparr>) \<and>
    (\<forall>rest. decode (bs @ rest) = Some (rex_insn [] M1 0x8D d (Some (OMem (Some b) ix disp')) 0, rest)) \<and>
    (disp' = disp \<longleftrightarrow> - 128 \<le> disp \<and> disp \<le> 127)"
  using gives_single [OF lea_encode [OF assms, of "deterministic a" disp]] lea_disp_exact_iff by blast

theorem lea_address_witness:
  "\<exists>bs disp'. lea_reg_mem ''rax'' ''rbx'' 200 None 1 init_asm = Inr (init_asm\<lparr>code := code init_asm @ bs\<rparr>) \<and>
    (\<forall>rest. decode (bs @ rest) = Some (rex_insn [] M1 0x8D 0 (Some (OMem (Some 3) None disp')) 0, rest)) \<and>
    disp' \<noteq> 200"
proof -
  have r: "reg_num ''rax'' = Inr 0" "reg_num ''rbx'' = Inr 3" "index_is None 1 None" by code_simp+
  show ?thesis using lea_address [OF r, of 200 init_asm] by auto
qed

text \<open>
  C34. Behind \<open>base +\<close> the address parser reads a whole operand. In \<open>ram:read d
  = [base + index * scale + n]\<close> it takes \<open>index * scale + n\<close> for one
  expression, which becomes the offset, so the code generator refuses the statement; \<open>[base
  + n + index * scale]\<close> gives the address meant.
\<close>

theorem address_order:
  assumes "is_reg_name b" and "is_reg_name i" and "k \<in> set [1, 2, 4, 8]"
  shows "(\<exists>node. simple_statement (load_toks ln d b (index_term ln i k @ Tok T_PLUS ''+'' ln # number_term ln n) @ r) =
      Inr (node, r) \<and> (\<forall>g. \<exists>e. emit_node node g = Inl e)) \<and>
    simple_statement (load_toks ln d b (number_term ln n @ Tok T_PLUS ''+'' ln # index_term ln i k) @ r) =
      Inr (MemLoad d (Reg b) (Number n) 64 (Some (Reg i)) k, r)"
  using address_misread [OF assms(1,2)] address_refused address_in_order [OF assms] by blast

theorem address_order_witness:
  "simple_statement (load_toks 1 ''reg1'' ''reg2'' (number_term 1 8 @ Tok T_PLUS ''+'' 1 # index_term 1 ''reg3'' 4) @ []) =
    Inr (MemLoad ''reg1'' (Reg ''reg2'') (Number 8) 64 (Some (Reg ''reg3'')) 4, [])"
proof -
  have "is_reg_name ''reg2''" "is_reg_name ''reg3''" "(4 :: int) \<in> set [1, 2, 4, 8]" by code_simp+
  from address_order [OF this] show ?thesis by blast
qed



text \<open>
  C37. Run by the line number machine of the DWARF standard, the line program written for entries
  that all name line 1 (those the symbol writer passes) yields one row per entry, in address
  order, with the address of its code.
\<close>

theorem line_table:
  assumes "\<forall>(off, l) \<in> set es. l = 1"
  shows "\<exists>n. line_vm n (0, 1) (line_program es) =
    Some (map (\<lambda>(off, _). (code_base + off, 1)) (sort_key fst es))"
  by (rule line_program_rows [OF assms])

theorem line_table_witness:
  "\<exists>n. line_vm n (0, 1) (line_program [(200, 1), (7, 1)]) =
    Some [(code_base + 7, 1), (code_base + 200, 1)]"
  using line_table [of "[(200, 1), (7, 1)]"] by simp

text \<open>
  C38. Reading back a LEB128 number: the readers of the DWARF standard return the unsigned,
  respectively signed, number the two local encoders wrote, and leave exactly the bytes that
  follow.
\<close>

theorem leb128_roundtrip:
  "read_uleb (uleb n @ bs) = Some (n, bs) \<and> read_sleb (sleb2 v @ bs) = Some (v, bs)"
  by (simp add: read_uleb read_sleb)

text \<open>
  C39. The writer of the plain executable raises exactly when the entry address or the file size
  does not fit 64 bits; no other code or data makes a header field overflow.
\<close>

theorem exe_written_iff:
  "(\<exists>blob. build_elf64_exe code_b data_b off = Inr blob) \<longleftrightarrow>
   LOAD_VADDR + 120 + off < 2 ^ 64 \<and> 120 + length code_b + length data_b < 2 ^ 64"
  by (rule exe_writes_iff)


end
